(* ===== verification/Rust_Prelude.thy ===== *)
theory Rust_Prelude
  imports Main "HOL-Library.Word" "HOL-Library.List_Lexorder" "HOL-Library.Char_ord"
begin

text \<open>
  What every component of the development shares: the machine integers of the Rust
  sources, the outcome type in which a panic (\<open>expect\<close>, \<open>unwrap\<close>,
  \<open>assert!\<close>, \<open>unreachable!\<close>) is a value, Rust's \<open>Result\<close> as a sum, and the
  named collections of rewrite rules the component theories fill.
\<close>

section \<open>Machine integers\<close>

type_synonym u8 = "8 word"
type_synonym u32 = "32 word"
type_synonym u64 = "64 word"

text \<open>A UUID as its 16 bytes.\<close>

type_synonym uuid = "u8 list"

definition u8_try_from :: "nat \<Rightarrow> u8 option" where
  "u8_try_from n = (if n \<le> 255 then Some (word_of_nat n) else None)"

section \<open>Panics and results\<close>

text \<open>
  A Rust panic ends the call. The model keeps the reason as a message, the text the
  source passes to \<open>expect\<close> or the name of the failing assertion. \<open>Diverge\<close> is
  the outcome of a loop that never ends.
\<close>

datatype 'a outcome = Panic string | Diverge | Done 'a

type_synonym ('a, 'e) rust_result = "'e + 'a"

abbreviation Ok :: "'a \<Rightarrow> ('a, 'e) rust_result" where
  "Ok x \<equiv> Inr x"

abbreviation Err :: "'e \<Rightarrow> ('a, 'e) rust_result" where
  "Err e \<equiv> Inl e"

fun obind :: "'a outcome \<Rightarrow> ('a \<Rightarrow> 'b outcome) \<Rightarrow> 'b outcome" where
  "obind (Panic m) f = Panic m"
| "obind Diverge f = Diverge"
| "obind (Done x) f = f x"

definition expect :: "string \<Rightarrow> 'a option \<Rightarrow> 'a outcome" where
  "expect m x = (case x of None \<Rightarrow> Panic m | Some v \<Rightarrow> Done v)"

definition assert_that :: "string \<Rightarrow> bool \<Rightarrow> unit outcome" where
  "assert_that m b = (if b then Done () else Panic m)"

fun returns :: "'a outcome \<Rightarrow> bool" where
  "returns (Panic m) = False"
| "returns Diverge = False"
| "returns (Done x) = True"

named_theorems outcome_simps

lemma expect_simps [simp]:
  "expect m None = Panic m"
  "expect m (Some v) = Done v"
  by (simp_all add: expect_def)

lemma expect_eq_Done [simp]: "expect m x = Done v \<longleftrightarrow> x = Some v"
  by (cases x) simp_all

lemma assert_that_simps [simp]:
  "assert_that m True = Done ()"
  "assert_that m False = Panic m"
  by (simp_all add: assert_that_def)

lemma assert_that_eq_Done [simp]: "assert_that m b = Done u \<longleftrightarrow> b"
  by (cases b) simp_all

lemma obind_eq_Done: "obind m f = Done y \<longleftrightarrow> (\<exists>x. m = Done x \<and> f x = Done y)"
  by (cases m) simp_all

lemma obind_Done_right [simp]: "obind m Done = m"
  by (cases m) simp_all

lemma obind_assoc: "obind (obind m f) g = obind m (\<lambda>x. obind (f x) g)"
  by (cases m) simp_all

lemma returns_iff: "returns m \<longleftrightarrow> (\<exists>x. m = Done x)"
  by (cases m) simp_all

lemma returns_obind: "returns (obind m f) \<longleftrightarrow> (\<exists>x. m = Done x \<and> returns (f x))"
  by (cases m) simp_all

lemma obind_cong [fundef_cong]:
  "m = m' \<Longrightarrow> (\<And>x. m' = Done x \<Longrightarrow> f x = f' x) \<Longrightarrow> obind m f = obind m' f'"
  by (cases m') simp_all

text \<open>How each control structure can return: no splitting under binders is needed with these.\<close>

lemma if_eq_Done: "(if b then x else y) = Done r \<longleftrightarrow> b \<and> x = Done r \<or> \<not> b \<and> y = Done r"
  by simp

lemma case_option_eq_Done:
  "(case x of None \<Rightarrow> f | Some a \<Rightarrow> g a) = Done r \<longleftrightarrow>
     x = None \<and> f = Done r \<or> (\<exists>a. x = Some a \<and> g a = Done r)"
  by (cases x) simp_all

lemma case_sum_eq_Done:
  "(case x of Inl a \<Rightarrow> f a | Inr b \<Rightarrow> g b) = Done r \<longleftrightarrow>
     (\<exists>a. x = Inl a \<and> f a = Done r) \<or> (\<exists>b. x = Inr b \<and> g b = Done r)"
  by (cases x) simp_all

lemma case_prod_eq_Done:
  "(case x of (a, b) \<Rightarrow> f a b) = Done r \<longleftrightarrow> (\<exists>a b. x = (a, b) \<and> f a b = Done r)"
  by (cases x) simp_all

lemmas [outcome_simps] = obind_eq_Done if_eq_Done case_option_eq_Done case_sum_eq_Done case_prod_eq_Done

text \<open>An iterator's \<open>map(..).collect()\<close> whose closure may panic.\<close>

fun omap :: "('a \<Rightarrow> 'b outcome) \<Rightarrow> 'a list \<Rightarrow> 'b list outcome" where
  "omap f [] = Done []"
| "omap f (x # xs) = obind (f x) (\<lambda>y. obind (omap f xs) (\<lambda>ys. Done (y # ys)))"

text \<open>A \<open>for\<close> loop over a sequence whose body updates a state and may panic.\<close>

fun ofold :: "('s \<Rightarrow> 'a \<Rightarrow> 's outcome) \<Rightarrow> 's \<Rightarrow> 'a list \<Rightarrow> 's outcome" where
  "ofold f s [] = Done s"
| "ofold f s (x # xs) = obind (f s x) (\<lambda>s. ofold f s xs)"

lemma ofold_Done: "(\<And>s x. x \<in> set xs \<Longrightarrow> f s x = Done (g s x)) \<Longrightarrow> ofold f s xs = Done (foldl g s xs)"
  by (induction xs arbitrary: s) simp_all

lemma ofold_map: "ofold f s (map g xs) = ofold (\<lambda>s x. f s (g x)) s xs"
  by (induction xs arbitrary: s) (auto intro!: obind_cong)

lemma ofold_invariant:
  assumes "ofold f s xs = Done s'" and "P s"
    and "\<And>s x s'. P s \<Longrightarrow> x \<in> set xs \<Longrightarrow> f s x = Done s' \<Longrightarrow> P s'"
  shows "P s'"
  using assms
proof (induction xs arbitrary: s)
  case (Cons x xs)
  from Cons.prems(1) obtain s1 where s1: "f s x = Done s1" "ofold f s1 xs = Done s'"
    by (auto simp: obind_eq_Done)
  have "P s1" by (rule Cons.prems(3) [OF Cons.prems(2) _ s1(1)]) simp
  then show ?case by (rule Cons.IH [OF s1(2)]) (rule Cons.prems(3), simp_all)
qed simp

lemma omap_Done: "(\<And>x. x \<in> set xs \<Longrightarrow> f x = Done (g x)) \<Longrightarrow> omap f xs = Done (map g xs)"
  by (induction xs) simp_all

section \<open>Decimal output\<close>

text \<open>\<open>Display\<close> of unsigned integers.\<close>

fun dec :: "nat \<Rightarrow> string" where
  "dec n = (if n < 10 then [''0123456789'' ! n] else dec (n div 10) @ [''0123456789'' ! (n mod 10)])"

declare dec.simps [simp del]

section \<open>Randomness\<close>

text \<open>
  The operating system's random source is not code of the repository. It is a
  parameter: an unbounded supply of bytes. \<open>rng_take n\<close> draws the next \<open>n\<close>.
\<close>

type_synonym rng = "nat \<Rightarrow> u8"

definition rng_take :: "nat \<Rightarrow> rng \<Rightarrow> u8 list \<times> rng" where
  "rng_take n r = (map r [0..<n], \<lambda>i. r (i + n))"

lemma length_fst_rng_take [simp]: "length (fst (rng_take n r)) = n"
  by (simp add: rng_take_def)

end
