(* ===== verification/Gf256.thy ===== *)
theory Gf256
  imports Rust_Prelude
begin

text \<open>
  The finite field of \<^verbatim>\<open>trust-quorum/gfss/src/gf256.rs\<close>: bytes with exclusive or as
  addition and carry-less multiplication modulo \<open>x^8 + x^4 + x^3 + x + 1\<close>. The
  multiplication is the source's eight-round loop, the inverse its unrolled power.
  The theory shows that the loop computes the product of polynomials over GF(2)
  reduced modulo the Rijndael polynomial, and that the type is a field, so that the
  library's algebra applies to it.
\<close>

unbundle bit_operations_syntax

section \<open>Definitions\<close>

datatype gf256 = Gf256 (into_u8: u8)

definition gf256_new :: "u8 \<Rightarrow> gf256" where
  "gf256_new n = Gf256 n"

fun gf256_add :: "gf256 \<Rightarrow> gf256 \<Rightarrow> gf256" where
  "gf256_add (Gf256 a) (Gf256 b) = Gf256 (a XOR b)"

fun gf256_sub :: "gf256 \<Rightarrow> gf256 \<Rightarrow> gf256" where
  "gf256_sub (Gf256 a) (Gf256 b) = Gf256 (a XOR b)"

text \<open>The loop of \<open>Mul::mul\<close>: the counter of \<open>for _ in 0..8\<close> comes first.\<close>

fun gf256_mul_loop :: "nat \<Rightarrow> u8 \<Rightarrow> u8 \<Rightarrow> u8 \<Rightarrow> u8" where
  "gf256_mul_loop 0 self rhs product = product"
| "gf256_mul_loop (Suc n) self rhs product =
     (let product = product XOR ((0 - (rhs AND 1)) AND self);
          rhs = drop_bit 1 rhs;
          carry = drop_bit 7 self;
          self = push_bit 1 self;
          self = self XOR ((0 - carry) AND 0x1b)
      in gf256_mul_loop n self rhs product)"

fun gf256_mul :: "gf256 \<Rightarrow> gf256 \<Rightarrow> gf256" where
  "gf256_mul (Gf256 self) (Gf256 rhs) = Gf256 (gf256_mul_loop 8 self rhs 0)"

definition gf256_invert :: "gf256 \<Rightarrow> gf256" where
  "gf256_invert self =
     (let result = gf256_mul self self;
          temp_4 = gf256_mul result result;
          result = gf256_mul temp_4 temp_4;
          temp_9 = gf256_mul result self;
          result = gf256_mul result result;
          result = gf256_mul result temp_9;
          temp_50 = gf256_mul result result;
          result = gf256_mul temp_50 temp_50;
          result = gf256_mul result result;
          result = gf256_mul (gf256_mul result temp_50) temp_4
      in result)"

definition gf256_div :: "gf256 \<Rightarrow> gf256 \<Rightarrow> gf256" where
  "gf256_div self rhs = gf256_mul self (gf256_invert rhs)"

definition gf256_ct_eq :: "gf256 \<Rightarrow> gf256 \<Rightarrow> bool" where
  "gf256_ct_eq a b = (into_u8 a = into_u8 b)"

section \<open>The loop as a sum of shifted multiplicands\<close>

definition xtime :: "u8 \<Rightarrow> u8" where
  "xtime a = push_bit 1 a XOR (if bit a 7 then 0x1b else 0)"

definition sel :: "bool \<Rightarrow> u8 \<Rightarrow> u8" where
  "sel b a = (if b then a else 0)"

lemma mask_low_bit: "(0 - (b AND 1)) AND a = sel (bit b 0) a" for a b :: u8
  by (cases "bit b 0") (simp_all add: sel_def and_one_eq bit_0 mod_2_eq_odd)

lemma drop_bit_7: "drop_bit 7 a = (if bit a 7 then 1 else 0)" for a :: u8
proof (rule bit_word_eqI)
  fix n assume "n < LENGTH(8)"
  show "bit (drop_bit 7 a) n \<longleftrightarrow> bit (if bit a 7 then 1 else 0 :: u8) n"
    by (cases n) (auto simp: bit_drop_bit_eq bit_1_iff dest: bit_imp_le_length)
qed

lemma xtime_step: "push_bit 1 a XOR ((0 - drop_bit 7 a) AND 0x1b) = xtime a"
  by (simp add: drop_bit_7 xtime_def)

lemma xtime_xor: "xtime (a XOR b) = xtime a XOR xtime b"
  by (auto simp: xtime_def bit_xor_iff ac_simps)

lemma xtime_0 [simp]: "xtime 0 = 0"
  by (simp add: xtime_def)

lemma funpow_xtime_xor: "(xtime ^^ n) (a XOR b) = (xtime ^^ n) a XOR (xtime ^^ n) b"
  by (induction n) (simp_all add: xtime_xor)

lemma funpow_xtime_0 [simp]: "(xtime ^^ n) 0 = 0"
  by (induction n) simp_all

text \<open>The exclusive or of \<open>f 0, \<dots>, f (n - 1)\<close>.\<close>

fun xsum :: "nat \<Rightarrow> (nat \<Rightarrow> u8) \<Rightarrow> u8" where
  "xsum 0 f = 0"
| "xsum (Suc n) f = xsum n f XOR f n"

lemma xsum_xor: "xsum n (\<lambda>i. f i XOR g i) = xsum n f XOR xsum n g"
  by (induction n) (simp_all add: ac_simps)

lemma xsum_0 [simp]: "xsum n (\<lambda>i. 0) = 0"
  by (induction n) simp_all

lemma xsum_cong: "(\<And>i. i < n \<Longrightarrow> f i = g i) \<Longrightarrow> xsum n f = xsum n g"
  by (induction n) simp_all

lemma xsum_Suc_shift: "xsum (Suc n) f = f 0 XOR xsum n (\<lambda>i. f (Suc i))"
  by (induction n) (simp_all add: ac_simps)

lemma xsum_additive:
  assumes "h 0 = 0" and "\<And>a b. h (a XOR b) = h a XOR h b"
  shows "h (xsum n f) = xsum n (\<lambda>i. h (f i))"
  by (induction n) (simp_all add: assms)

lemma gf256_mul_loop_step:
  "gf256_mul_loop (Suc n) a b p = gf256_mul_loop n (xtime a) (drop_bit 1 b) (p XOR sel (bit b 0) a)"
  by (simp only: gf256_mul_loop.simps Let_def mask_low_bit xtime_step)

lemma gf256_mul_loop_xsum:
  "gf256_mul_loop n a b p = p XOR xsum n (\<lambda>i. sel (bit b i) ((xtime ^^ i) a))"
proof (induction n arbitrary: a b p)
  case 0
  then show ?case by simp
next
  case (Suc n)
  show ?case
    by (simp add: gf256_mul_loop_step Suc.IH xsum_Suc_shift bit_drop_bit_eq funpow_swap1
        ac_simps del: gf256_mul_loop.simps xsum.simps)
qed

text \<open>Multiplication on the underlying bytes.\<close>

definition gmul :: "u8 \<Rightarrow> u8 \<Rightarrow> u8" where
  "gmul a b = xsum 8 (\<lambda>i. sel (bit b i) ((xtime ^^ i) a))"

lemma gf256_mul_gmul: "gf256_mul (Gf256 a) (Gf256 b) = Gf256 (gmul a b)"
  by (simp only: gf256_mul.simps gf256_mul_loop_xsum gmul_def) simp

section \<open>Ring laws, by linearity over the bits\<close>

lemma sel_xor_right: "sel c (a XOR b) = sel c a XOR sel c b"
  by (simp add: sel_def)

lemma sel_xor_left: "sel (c \<noteq> d) a = sel c a XOR sel d a"
  by (auto simp: sel_def)

lemma gmul_xor_left: "gmul (a XOR b) c = gmul a c XOR gmul b c"
  by (simp add: gmul_def funpow_xtime_xor sel_xor_right xsum_xor)

lemma gmul_xor_right: "gmul a (b XOR c) = gmul a b XOR gmul a c"
  by (simp only: gmul_def bit_xor_iff sel_xor_left xsum_xor)

lemma gmul_0_left [simp]: "gmul 0 a = 0"
  by (simp add: gmul_def sel_def)

lemma gmul_0_right [simp]: "gmul a 0 = 0"
  by (simp add: gmul_def sel_def)

lemma bit_xsum_bits:
  "bit (xsum m (\<lambda>i. sel (bit a i) (push_bit i 1))) n \<longleftrightarrow> n < m \<and> bit a n" for a :: u8
proof (induction m)
  case 0
  then show ?case by simp
next
  case (Suc m)
  have "bit (sel (bit a m) (push_bit m 1)) n \<longleftrightarrow> n = m \<and> bit a n"
    by (auto simp: sel_def bit_push_bit_iff bit_1_iff simp del: push_bit_of_1 dest: bit_imp_le_length)
  with Suc show ?case by (auto simp: bit_xor_iff less_Suc_eq)
qed

lemma word8_xsum: "xsum 8 (\<lambda>i. sel (bit a i) (push_bit i 1)) = a" for a :: u8
  by (rule bit_word_eqI) (simp add: bit_xsum_bits del: push_bit_of_1)

lemma word8_linear_induct:
  assumes "P 0" and "\<And>a b. P a \<Longrightarrow> P b \<Longrightarrow> P (a XOR b)" and "\<And>i. i < 8 \<Longrightarrow> P (push_bit i 1)"
  shows "P (a :: u8)"
proof -
  have "P (xsum n (\<lambda>i. sel (bit a i) (push_bit i 1)))" if "n \<le> 8" for n
    using that by (induction n) (auto simp: assms sel_def simp del: push_bit_of_1)
  from this [of 8] show ?thesis by (simp only: word8_xsum order.refl)
qed

lemma xsum_single: "j < n \<Longrightarrow> xsum n (\<lambda>i. sel (i = j) (f i)) = f j"
proof (induction n)
  case 0
  then show ?case by simp
next
  case (Suc n)
  have "xsum n (\<lambda>i. sel (i = n) (f i)) = xsum n (\<lambda>i. 0)"
    by (rule xsum_cong) (simp add: sel_def)
  with Suc show ?case by (auto simp: sel_def less_Suc_eq)
qed

lemma bit_push_bit_1: "j < 8 \<Longrightarrow> bit (push_bit j 1 :: u8) i \<longleftrightarrow> i = j"
  by (auto simp: bit_push_bit_iff bit_1_iff simp del: push_bit_of_1)

lemma gmul_push_bit: "j < 8 \<Longrightarrow> gmul a (push_bit j 1) = (xtime ^^ j) a"
  unfolding gmul_def by (simp only: bit_push_bit_1 xsum_single)

lemma xtime_push_bit: "i < 7 \<Longrightarrow> xtime (push_bit i 1) = push_bit (Suc i) 1"
  by (simp add: xtime_def bit_push_bit_1 push_bit_push_bit del: push_bit_of_1 push_bit_Suc)

lemma funpow_xtime_1: "i < 8 \<Longrightarrow> (xtime ^^ i) 1 = push_bit i 1"
  by (induction i) (simp_all add: xtime_push_bit del: push_bit_of_1)

lemma gmul_1_right [simp]: "gmul a 1 = a"
  using gmul_push_bit [of 0 a] by simp

lemma gmul_1_left [simp]: "gmul 1 a = a"
proof -
  have "gmul 1 a = xsum 8 (\<lambda>i. sel (bit a i) (push_bit i 1))"
    unfolding gmul_def by (rule xsum_cong) (simp add: funpow_xtime_1 del: push_bit_of_1)
  then show ?thesis by (simp only: word8_xsum)
qed

lemma gmul_xtime_left: "gmul (xtime a) b = xtime (gmul a b)"
proof -
  have "xtime (gmul a b) = xsum 8 (\<lambda>i. xtime (sel (bit b i) ((xtime ^^ i) a)))"
    unfolding gmul_def by (rule xsum_additive) (simp_all add: xtime_xor)
  also have "\<dots> = xsum 8 (\<lambda>i. sel (bit b i) ((xtime ^^ i) (xtime a)))"
    by (rule xsum_cong) (simp add: sel_def funpow_swap1)
  finally show ?thesis by (simp only: gmul_def)
qed

lemma gmul_funpow_left: "gmul ((xtime ^^ i) a) b = (xtime ^^ i) (gmul a b)"
  by (induction i) (simp_all add: gmul_xtime_left)

lemma gmul_commute: "gmul a b = gmul b a"
proof (induction a rule: word8_linear_induct)
  case (3 i)
  then show ?case
    using gmul_funpow_left [of i 1 b] by (simp only: gmul_push_bit gmul_1_left funpow_xtime_1)
qed (simp_all only: gmul_xor_left gmul_xor_right gmul_0_left gmul_0_right)

lemma gmul_assoc: "gmul (gmul a b) c = gmul a (gmul b c)"
proof (induction a rule: word8_linear_induct)
  case (3 i)
  then show ?case
    using gmul_funpow_left [of i 1 b] gmul_funpow_left [of i b c] gmul_funpow_left [of i 1 "gmul b c"]
    by (simp only: gmul_1_left funpow_xtime_1)
qed (simp_all only: gmul_xor_left gmul_0_left)

section \<open>Evaluation of concrete products\<close>

named_theorems gf256_eval

declare gf256_mul_loop.simps(2) [simp del]

lemma gf256_mul_loop_Suc:
  "gf256_mul_loop (Suc n) a b p =
     gf256_mul_loop n (if bit a 7 then push_bit 1 a XOR 0x1b else push_bit 1 a)
       (drop_bit 1 b) (if bit b 0 then p XOR a else p)"
  by (simp add: gf256_mul_loop_step xtime_def sel_def del: push_bit_Suc)

lemma gf256_mul_loop_numeral [gf256_eval]:
  "gf256_mul_loop (numeral k) a b p =
     gf256_mul_loop (pred_numeral k) (if bit a 7 then push_bit 1 a XOR 0x1b else push_bit 1 a)
       (drop_bit 1 b) (if bit b 0 then p XOR a else p)"
  by (simp only: numeral_eq_Suc gf256_mul_loop_Suc)

lemmas [gf256_eval] = gf256_mul_loop_Suc [of 0]

section \<open>The ring instance\<close>

instantiation gf256 :: comm_ring_1
begin

definition zero_gf256 :: gf256 where
  "zero_gf256 = Gf256 0"

definition one_gf256 :: gf256 where
  "one_gf256 = Gf256 1"

definition plus_gf256 :: "gf256 \<Rightarrow> gf256 \<Rightarrow> gf256" where
  "plus_gf256 = gf256_add"

definition minus_gf256 :: "gf256 \<Rightarrow> gf256 \<Rightarrow> gf256" where
  "minus_gf256 = gf256_sub"

definition uminus_gf256 :: "gf256 \<Rightarrow> gf256" where
  "uminus_gf256 a = a"

definition times_gf256 :: "gf256 \<Rightarrow> gf256 \<Rightarrow> gf256" where
  "times_gf256 = gf256_mul"

lemmas gf256_ops = zero_gf256_def one_gf256_def plus_gf256_def minus_gf256_def
  uminus_gf256_def times_gf256_def

instance
proof
  fix a b c :: gf256
  obtain x y z where abc: "a = Gf256 x" "b = Gf256 y" "c = Gf256 z"
    by (cases a, cases b, cases c) auto
  show "a * b * c = a * (b * c)" and "1 * a = a" and "(a + b) * c = a * c + b * c"
    by (simp_all add: abc gf256_ops gf256_mul_gmul gmul_assoc gmul_xor_left del: gf256_mul.simps)
  show "a * b = b * a"
    by (simp add: abc gf256_ops gf256_mul_gmul gmul_commute [of x y] del: gf256_mul.simps)
  show "a + b + c = a + (b + c)" and "a + b = b + a" and "0 + a = a" and "- a + a = 0"
    and "a - b = a + - b" and "(0::gf256) \<noteq> 1"
    by (simp_all add: abc gf256_ops ac_simps)
qed

end

lemma gf256_self_add [simp]: "a + a = 0" for a :: gf256
  by (cases a) (simp add: gf256_ops)

lemma gf256_uminus [simp]: "- a = a" for a :: gf256
  by (simp add: uminus_gf256_def)

lemma gf256_minus [simp]: "a - b = a + b" for a b :: gf256
  by (cases a; cases b) (simp add: gf256_ops)

lemma gf256_times_eval [gf256_eval]:
  "Gf256 a * Gf256 b = Gf256 (gf256_mul_loop 8 a b 0)"
  "Gf256 a + Gf256 b = Gf256 (a XOR b)"
  by (simp_all add: gf256_ops)

section \<open>The generator 3 and the field instance\<close>

text \<open>
  Every nonzero element is a power of \<open>3\<close>: its order divides \<open>255 = 3 * 5 * 17\<close>
  and none of the maximal proper divisors.
\<close>

abbreviation gen :: gf256 where
  "gen \<equiv> Gf256 3"

lemma gen_3: "gen ^ 3 = Gf256 15"
  by (simp only: power3_eq_cube) (simp add: gf256_eval)

lemma gen_5: "gen ^ 5 = Gf256 51"
proof -
  have "gen ^ 5 = gen ^ (3 + 2)" by simp
  also have "\<dots> = gen ^ 3 * gen ^ 2" by (simp only: power_mult power_add)
  finally show ?thesis by (simp only: gen_3 power3_eq_cube power2_eq_square) (simp add: gf256_eval)
qed

lemma gen_15: "gen ^ 15 = Gf256 53"
proof -
  have "gen ^ 15 = gen ^ (5 * 3)" by simp
  also have "\<dots> = (gen ^ 5) ^ 3" by (simp only: power_mult power_add)
  finally show ?thesis by (simp only: gen_5 power3_eq_cube power2_eq_square) (simp add: gf256_eval)
qed

lemma gen_17: "gen ^ 17 = Gf256 225"
proof -
  have "gen ^ 17 = gen ^ (15 + 2)" by simp
  also have "\<dots> = gen ^ 15 * gen ^ 2" by (simp only: power_mult power_add)
  finally show ?thesis by (simp only: gen_15 power3_eq_cube power2_eq_square) (simp add: gf256_eval)
qed

lemma gen_51: "gen ^ 51 = Gf256 12"
proof -
  have "gen ^ 51 = gen ^ (17 * 3)" by simp
  also have "\<dots> = (gen ^ 17) ^ 3" by (simp only: power_mult power_add)
  finally show ?thesis by (simp only: gen_17 power3_eq_cube power2_eq_square) (simp add: gf256_eval)
qed

lemma gen_85: "gen ^ 85 = Gf256 189"
proof -
  have "gen ^ 85 = gen ^ (17 * 3 + 17 * 2)" by simp
  also have "\<dots> = (gen ^ 17) ^ 3 * (gen ^ 17) ^ 2" by (simp only: power_mult power_add)
  finally show ?thesis by (simp only: gen_17 power3_eq_cube power2_eq_square) (simp add: gf256_eval)
qed

lemma gen_255: "gen ^ 255 = 1"
proof -
  have "gen ^ 255 = gen ^ (85 * 3)" by simp
  also have "\<dots> = (gen ^ 85) ^ 3" by (simp only: power_mult power_add)
  finally show ?thesis by (simp only: gen_85 power3_eq_cube) (simp add: gf256_eval one_gf256_def)
qed

lemma gen_proper: "d \<in> {15, 51, 85} \<Longrightarrow> gen ^ d \<noteq> 1"
  by (auto simp: gen_15 gen_51 gen_85 one_gf256_def)

lemma gen_mod: "gen ^ n = gen ^ (n mod 255)"
proof -
  have "gen ^ n = gen ^ (255 * (n div 255) + n mod 255)" by simp
  also have "\<dots> = (gen ^ 255) ^ (n div 255) * gen ^ (n mod 255)"
    by (simp only: power_add power_mult)
  finally show ?thesis by (simp add: gen_255)
qed

lemma gen_pow_gcd: "gen ^ a = 1 \<Longrightarrow> gen ^ b = 1 \<Longrightarrow> gen ^ gcd a b = 1"
proof (induction a b rule: gcd_nat_induct)
  case (base m)
  then show ?case by simp
next
  case (step m n)
  have "gen ^ m = gen ^ (n * (m div n) + m mod n)" by simp
  also have "\<dots> = (gen ^ n) ^ (m div n) * gen ^ (m mod n)" by (simp only: power_add power_mult)
  finally have "gen ^ (m mod n) = 1" using step.prems by simp
  with step.prems have "gen ^ gcd n (m mod n) = 1" by (intro step.IH)
  then show ?case by (simp only: gcd_red_nat [of m n])
qed

lemma proper_divisor_255:
  assumes "g dvd 255" and "g \<noteq> (255::nat)"
  shows "g dvd 15 \<or> g dvd 51 \<or> g dvd 85"
proof -
  obtain k where k: "255 = g * k" using assms(1) by (elim dvdE)
  consider "g \<le> 15" | "16 \<le> g" by linarith
  then show ?thesis
  proof cases
    case 1
    then have "g = 0 \<or> g = 1 \<or> g = 2 \<or> g = 3 \<or> g = 4 \<or> g = 5 \<or> g = 6 \<or> g = 7 \<or> g = 8 \<or>
      g = 9 \<or> g = 10 \<or> g = 11 \<or> g = 12 \<or> g = 13 \<or> g = 14 \<or> g = 15" by arith
    then show ?thesis using assms(1) by (elim disjE) simp_all
  next
    case 2
    have "k \<le> 15"
    proof (rule ccontr)
      assume "\<not> k \<le> 15"
      then have "16 * 16 \<le> g * k" using 2 by (intro mult_mono) auto
      then show False using k by simp
    qed
    then have "k = 0 \<or> k = 1 \<or> k = 2 \<or> k = 3 \<or> k = 4 \<or> k = 5 \<or> k = 6 \<or> k = 7 \<or> k = 8 \<or>
      k = 9 \<or> k = 10 \<or> k = 11 \<or> k = 12 \<or> k = 13 \<or> k = 14 \<or> k = 15" by arith
    then have "k \<in> {1, 3, 5, 15}" using k by (elim disjE) (simp_all, presburger+)
    then have "g = 255 \<or> g = 85 \<or> g = 51 \<or> g = 17" using k by auto
    then show ?thesis using assms(2) by auto
  qed
qed

lemma gen_order:
  assumes "gen ^ d = 1"
  shows "255 dvd d"
proof (rule ccontr)
  assume "\<not> 255 dvd d"
  then have "gcd d 255 \<noteq> 255" using gcd_dvd1 [of d 255] by (intro notI) (simp only: )
  moreover have "gcd d 255 dvd 255" by (rule gcd_dvd2)
  ultimately obtain e where e: "e \<in> {15, 51, 85}" "gcd d 255 dvd e"
    using proper_divisor_255 [of "gcd d 255"] by blast
  then obtain k where "e = gcd d 255 * k" by (elim dvdE)
  then have "gen ^ e = 1" by (simp only: power_mult gen_pow_gcd [OF assms gen_255] power_one)
  with gen_proper [OF e(1)] show False by (rule notE)
qed

lemma gen_inj: "inj_on (\<lambda>k. gen ^ k) {..<255}"
proof (rule linorder_inj_onI)
  fix i j :: nat
  assume ij: "i < j" "i \<in> {..<255}" "j \<in> {..<255}"
  show "gen ^ i \<noteq> gen ^ j"
  proof
    assume eq: "gen ^ i = gen ^ j"
    have "i + (255 - i) = 255" using ij by simp
    then have "1 = gen ^ (i + (255 - i))" by (simp only: gen_255)
    also have "\<dots> = gen ^ (j + (255 - i))" by (simp only: power_add eq)
    finally have "255 dvd j + (255 - i)" by (intro gen_order) (rule sym)
    then obtain m where "j + (255 - i) = 255 * m" by (elim dvdE)
    moreover have "255 < j + (255 - i)" and "j + (255 - i) < 510" using ij by auto
    moreover have "m \<le> 1 \<or> 2 \<le> m" by linarith
    ultimately show False by (elim disjE) linarith+
  qed
qed auto

lemma gen_nonzero: "gen ^ k \<noteq> 0"
proof
  assume z: "gen ^ k = 0"
  have "1 = gen ^ (255 * k)" by (simp only: power_mult gen_255 power_one)
  also have "\<dots> = gen ^ (k + 254 * k)" by simp
  also have "\<dots> = 0" by (simp only: power_add z mult_zero_left)
  finally show False by simp
qed

lemma card_gf256: "card (UNIV :: gf256 set) = 256"
proof -
  have "bij Gf256" by (rule bijI') (auto, metis gf256.exhaust)
  then have "card (UNIV :: gf256 set) = card (UNIV :: u8 set)" by (simp add: bij_betw_same_card)
  then show ?thesis by (simp add: card_word)
qed

lemma gen_generates: "a \<noteq> 0 \<Longrightarrow> \<exists>k. a = gen ^ k"
proof -
  assume a: "a \<noteq> 0"
  have sub: "(\<lambda>k. gen ^ k) ` {..<255} \<subseteq> UNIV - {0}" using gen_nonzero by auto
  have fin: "finite (UNIV :: gf256 set)" by (rule card_ge_0_finite) (simp add: card_gf256)
  have "card (UNIV - {0 :: gf256}) = card ((\<lambda>k. gen ^ k) ` {..<255})"
    by (simp add: card_image gen_inj card_Diff_singleton card_gf256)
  with sub fin have "(\<lambda>k. gen ^ k) ` {..<255} = UNIV - {0}"
    by (intro card_subset_eq) auto
  with a show ?thesis by blast
qed

lemma gf256_pow_255: "a \<noteq> 0 \<Longrightarrow> a ^ 255 = 1" for a :: gf256
proof -
  assume "a \<noteq> 0"
  then obtain k where "a = gen ^ k" using gen_generates by blast
  then have "a ^ 255 = (gen ^ 255) ^ k" by (simp flip: power_mult add: mult.commute)
  then show ?thesis by (simp add: gen_255)
qed

lemma gf256_invert_power: "gf256_invert a = a ^ 254"
proof -
  have "a * a = a ^ 2" "a ^ 2 * a ^ 2 = a ^ 4" "a ^ 4 * a ^ 4 = a ^ 8" "a ^ 8 * a = a ^ 9"
    "a ^ 8 * a ^ 8 = a ^ 16" "a ^ 16 * a ^ 9 = a ^ 25" "a ^ 25 * a ^ 25 = a ^ 50"
    "a ^ 50 * a ^ 50 = a ^ 100" "a ^ 100 * a ^ 100 = a ^ 200"
    "a ^ 200 * a ^ 50 = a ^ 250" "a ^ 250 * a ^ 4 = a ^ 254"
    by (simp_all flip: power_add power2_eq_square power_Suc2)
  then show ?thesis
    by (simp only: gf256_invert_def Let_def flip: times_gf256_def)
qed

instantiation gf256 :: field
begin

definition inverse_gf256 :: "gf256 \<Rightarrow> gf256" where
  "inverse_gf256 = gf256_invert"

definition divide_gf256 :: "gf256 \<Rightarrow> gf256 \<Rightarrow> gf256" where
  "divide_gf256 = gf256_div"

instance
proof
  fix a b :: gf256
  show "a \<noteq> 0 \<Longrightarrow> inverse a * a = 1"
    using gf256_pow_255 [of a]
    by (simp only: inverse_gf256_def gf256_invert_power flip: power_Suc2) simp
  show "a div b = a * inverse b"
    by (simp only: divide_gf256_def gf256_div_def inverse_gf256_def times_gf256_def)
  show "inverse (0::gf256) = 0"
    by (simp add: inverse_gf256_def gf256_invert_power)
qed

end

section \<open>The product of polynomials over GF(2)\<close>

text \<open>
  The reference: a natural number stands for the polynomial with its binary digits as
  coefficients, \<open>clmul\<close> is the product without carries, \<open>0x11b\<close> the Rijndael
  polynomial.
\<close>

definition times_x :: "nat \<Rightarrow> nat" where
  "times_x a = 2 * a"

fun clmul :: "nat \<Rightarrow> nat \<Rightarrow> nat" where
  "clmul a b = (if b = 0 then 0 else (if odd b then a else 0) XOR clmul (times_x a) (b div 2))"

declare clmul.simps [simp del]

lemma clmul_0_right [simp]: "clmul a 0 = 0"
  by (simp add: clmul.simps)

lemma clmul_step: "clmul a b = (if odd b then a else 0) XOR clmul (times_x a) (b div 2)"
  by (cases "b = 0") (simp_all add: clmul.simps [of a b])

lemma times_x_0 [simp]: "times_x 0 = 0"
  by (simp add: times_x_def)

lemma times_x_xor: "times_x (a XOR b) = times_x a XOR times_x b"
  using push_bit_xor [of 1 a b] by (simp add: times_x_def push_bit_eq_mult mult.commute)

lemma clmul_induct [case_names zero step]:
  assumes "\<And>a. P a 0" and "\<And>a b. 0 < b \<Longrightarrow> (\<And>c. P c (b div 2)) \<Longrightarrow> P a b"
  shows "P a (b :: nat)"
proof (induction b arbitrary: a rule: less_induct)
  case (less b)
  then show ?case using assms by (cases "b = 0") simp_all
qed

lemma clmul_xor_left: "clmul (a XOR b) c = clmul a c XOR clmul b c"
proof (induction a c arbitrary: b rule: clmul_induct)
  case (step a c)
  show ?case by (simp add: clmul_step [of _ c] times_x_xor step.IH ac_simps)
qed simp

lemma clmul_times_x_left: "clmul (times_x a) c = times_x (clmul a c)"
proof (induction a c rule: clmul_induct)
  case (step a c)
  show ?case by (simp add: clmul_step [of _ c] times_x_xor step.IH)
qed simp

lemma clmul_0_left [simp]: "clmul 0 c = 0"
  using clmul_xor_left [of 0 0 c] by simp

definition is_multiple_of_m :: "nat \<Rightarrow> bool" where
  "is_multiple_of_m p \<longleftrightarrow> (\<exists>q. p = clmul q 0x11b)"

lemma multiple_0 [simp]: "is_multiple_of_m 0"
  unfolding is_multiple_of_m_def by (rule exI [of _ 0]) simp

lemma multiple_xor: "is_multiple_of_m p \<Longrightarrow> is_multiple_of_m q \<Longrightarrow> is_multiple_of_m (p XOR q)"
  unfolding is_multiple_of_m_def by (metis clmul_xor_left)

lemma multiple_times_x: "is_multiple_of_m p \<Longrightarrow> is_multiple_of_m (times_x p)"
  unfolding is_multiple_of_m_def by (metis clmul_times_x_left)

lemma low_bit_xor_rest: "(if odd c then 1 else 0) XOR 2 * (c div 2) = c" for c :: nat
proof (cases "even c")
  case False
  then obtain d where c: "c = Suc (2 * d)" by (elim oddE) simp
  have "1 XOR 2 * d = Suc (2 * d)"
  proof (rule bit_eqI)
    fix n
    show "bit (1 XOR 2 * d) n \<longleftrightarrow> bit (Suc (2 * d)) n"
      by (cases n) (simp_all only: bit_xor_iff, simp_all add: bit_1_iff bit_double_iff bit_Suc bit_0)
  qed
  with c show ?thesis by simp
qed simp

lemma clmul_1_left: "clmul 1 c = c"
proof (induction "1 :: nat" c rule: clmul_induct)
  case (step c)
  then have "clmul 1 (c div 2) = c div 2" by blast
  then have "clmul 1 c = (if odd c then 1 else 0) XOR 2 * (c div 2)"
    by (simp only: clmul_step [of 1 c] clmul_times_x_left times_x_def [of "c div 2"])
  also have "\<dots> = c" by (rule low_bit_xor_rest)
  finally show ?case .
qed simp

lemma multiple_m: "is_multiple_of_m 0x11b"
  unfolding is_multiple_of_m_def by (rule exI [of _ 1]) (simp only: clmul_1_left)

lemma multiple_clmul: "is_multiple_of_m p \<Longrightarrow> is_multiple_of_m (clmul p b)"
proof (induction p b rule: clmul_induct)
  case (step p b)
  then show ?case by (simp add: clmul_step [of _ b] multiple_xor multiple_times_x)
qed simp

lemma even_unat: "even (unat w) \<longleftrightarrow> even w"
  by (metis even_of_nat mult.right_neutral unsigned_1 word_arith_nat_mult)

lemma bit_m_bound: "bit (0x11b :: nat) n \<Longrightarrow> n \<le> 8"
proof (rule ccontr)
  assume b: "bit (0x11b :: nat) n" and "\<not> n \<le> 8"
  then have "(2 :: nat) ^ 9 \<le> 2 ^ n" by (intro power_increasing) auto
  with b show False by (simp add: bit_iff_odd)
qed

lemma unat_xtime: "unat (xtime a) = times_x (unat a) XOR (if bit a 7 then 0x11b else 0)"
proof (rule bit_eqI)
  fix n :: nat
  consider "n = 0" | "n = 1" | "n = 2" | "n = 3" | "n = 4" | "n = 5" | "n = 6" | "n = 7" | "n = 8"
    | "8 < n" by linarith
  then show "bit (unat (xtime a)) n \<longleftrightarrow> bit (times_x (unat a) XOR (if bit a 7 then 0x11b else 0)) n"
    by cases (auto simp: xtime_def bit_unsigned_iff bit_xor_iff bit_double_iff bit_push_bit_iff
        times_x_def even_unat even_xor_iff even_push_bit_iff bit_0 simp del: push_bit_Suc
        dest: bit_imp_le_length bit_m_bound)
qed

lemma unat_sel: "unat (sel c a) = (if c then unat a else 0)"
  by (simp add: sel_def)

lemma gf256_mul_loop_clmul:
  "is_multiple_of_m (unat (gf256_mul_loop n a b p) XOR unat p XOR clmul (unat a) (take_bit n (unat b)))"
proof (induction n arbitrary: a b p)
  case 0
  then show ?case by (simp)
next
  case (Suc n)
  let ?r = "unat (gf256_mul_loop (Suc n) a b p)"
  let ?B = "take_bit n (unat b div 2)"
  have IH: "is_multiple_of_m (?r XOR unat (p XOR sel (bit b 0) a) XOR clmul (unat (xtime a)) ?B)"
    using Suc.IH [of "xtime a" "drop_bit 1 b" "p XOR sel (bit b 0) a"]
    by (simp add: gf256_mul_loop_step drop_bit_Suc unat_div)
  have "clmul (unat a) (take_bit (Suc n) (unat b)) =
      (if bit b 0 then unat a else 0) XOR clmul (times_x (unat a)) ?B"
    by (subst clmul_step) (simp add: take_bit_Suc even_unat bit_0)
  also have "times_x (unat a) = unat (xtime a) XOR (if bit a 7 then 0x11b else 0)"
    by (simp add: unat_xtime xor.assoc)
  finally have e: "?r XOR unat p XOR clmul (unat a) (take_bit (Suc n) (unat b)) =
      (?r XOR unat (p XOR sel (bit b 0) a) XOR clmul (unat (xtime a)) ?B)
      XOR clmul (if bit a 7 then 0x11b else 0) ?B"
    by (simp add: clmul_xor_left unsigned_xor_eq unat_sel ac_simps)
  have "is_multiple_of_m (clmul (if bit a 7 then 0x11b else 0) ?B)"
    by (simp add: multiple_clmul multiple_m)
  with IH show ?case unfolding e by (rule multiple_xor)
qed

text \<open>A nonzero multiple of the modulus has degree at least 8, so remainders are unique.\<close>

lemma clmul_m: "clmul q 0x11b = q XOR 2 * q XOR 8 * q XOR 16 * q XOR 256 * q"
  by (simp add: clmul_step [of _ "numeral k" for k] clmul_step [of _ "Suc 0"] times_x_def)

lemma bit_times_pow2: "bit (2 ^ k * q) (n + k) \<longleftrightarrow> bit q n" for q :: nat
  using bit_push_bit_iff [of k q "n + k"] by (simp add: push_bit_eq_mult mult.commute)

lemma clmul_m_degree: "q \<noteq> 0 \<Longrightarrow> 256 \<le> clmul q 0x11b"
proof -
  assume q: "q \<noteq> 0"
  obtain n where n: "2 ^ n \<le> q" "q < 2 ^ (n + 1)" using ex_power_ivl1 [of 2 q] q by auto
  have "q div 2 ^ n = 1" using n by (intro div_nat_eqI) simp_all
  then have top: "bit q n" by (simp add: bit_iff_odd)
  have high: "\<not> bit q m" if "n < m" for m
  proof -
    have "(2 :: nat) ^ (n + 1) \<le> 2 ^ m" using that by (intro power_increasing) auto
    with n show ?thesis by (simp add: bit_iff_odd)
  qed
  have "bit (clmul q 0x11b) (n + 8)"
    using top high bit_times_pow2 [of 8 q n] bit_times_pow2 [of 4 q "n + 4"]
      bit_times_pow2 [of 3 q "n + 5"] bit_times_pow2 [of 1 q "n + 7"]
    by (simp add: clmul_m bit_xor_iff add.commute flip: mult_2)
  then have "2 ^ (n + 8) \<le> clmul q 0x11b"
    by (metis bit_iff_odd div_less even_zero not_le)
  moreover have "(256 :: nat) \<le> 2 ^ (n + 8)" using power_increasing [of 8 "n + 8" "2 :: nat"] by simp
  ultimately show ?thesis by (rule order_trans [rotated])
qed

definition is_remainder :: "nat \<Rightarrow> nat \<Rightarrow> bool" where
  "is_remainder p r \<longleftrightarrow> r < 256 \<and> (\<exists>q. p = clmul q 0x11b XOR r)"

lemma xor_less_256: "a < 256 \<Longrightarrow> b < 256 \<Longrightarrow> a XOR b < (256 :: nat)"
  using take_bit_xor [of 8 a b] by (simp add: take_bit_eq_mod flip: take_bit_nat_eq_self_iff)

lemma xor_solve: "p = a XOR r \<Longrightarrow> a = p XOR r" for a :: nat
  by (simp add: xor.assoc)

lemma is_remainder_unique:
  assumes "is_remainder p r" and "is_remainder p s"
  shows "r = s"
proof (rule ccontr)
  assume ne: "r \<noteq> s"
  obtain q t where "p = clmul q 0x11b XOR r" "p = clmul t 0x11b XOR s"
    using assms unfolding is_remainder_def by blast
  then have "clmul q 0x11b = p XOR r" "clmul t 0x11b = p XOR s" by (simp_all only: xor_solve)
  then have rs: "clmul (q XOR t) 0x11b = r XOR s"
    using xor_self_eq [of p] by (simp add: clmul_xor_left ac_simps flip: xor.assoc [of p p])
  have "r XOR s < 256" using assms by (auto simp: is_remainder_def xor_less_256)
  moreover have "q XOR t \<noteq> 0"
  proof
    assume "q XOR t = 0"
    then have "0 = r XOR s" using rs by simp
    then show False using ne xor_solve [of 0 r s] by simp
  qed
  ultimately show False using clmul_m_degree [of "q XOR t"] rs by simp
qed

lemma gf256_mul_is_remainder:
  "is_remainder (clmul (unat a) (unat b)) (unat (gf256_mul_loop 8 a b 0))"
proof -
  have b: "take_bit 8 (unat b) = unat b" by (rule take_bit_nat_eq_self) (use unsigned_less [of b] in simp)
  obtain q where "unat (gf256_mul_loop 8 a b 0) XOR clmul (unat a) (unat b) = clmul q 0x11b"
    using gf256_mul_loop_clmul [of 8 a b 0] b by (auto simp: is_multiple_of_m_def)
  then have "clmul (unat a) (unat b) = clmul q 0x11b XOR unat (gf256_mul_loop 8 a b 0)"
    by (simp flip: \<open>_ = clmul q 0x11b\<close> add: ac_simps)
  then show ?thesis using unsigned_less [of "gf256_mul_loop 8 a b 0"] by (auto simp: is_remainder_def)
qed

text \<open>
  C36: the eight-round loop of \<open>Mul for Gf256\<close> computes the product of its arguments as
  polynomials over GF(2), reduced modulo \<open>x^8 + x^4 + x^3 + x + 1\<close>: the byte it
  returns is the one and only remainder of the carry-less product.
\<close>

theorem gf256_mul_reduces_product:
  "is_remainder (clmul (unat (into_u8 a)) (unat (into_u8 b))) r \<longleftrightarrow>
     r = unat (into_u8 (gf256_mul a b))"
proof -
  have "is_remainder (clmul (unat (into_u8 a)) (unat (into_u8 b))) (unat (into_u8 (gf256_mul a b)))"
    by (cases a; cases b) (simp add: gf256_mul_is_remainder)
  then show ?thesis using is_remainder_unique by blast
qed

text \<open>
  C37: \<open>Gf256::invert\<close>, the unrolled power, is the multiplicative inverse of every
  nonzero element, and dividing an element by itself gives one.
\<close>

theorem gf256_invert_correct:
  assumes "a \<noteq> Gf256 0"
  shows "gf256_mul a (gf256_invert a) = Gf256 1 \<and> gf256_mul (gf256_invert a) a = Gf256 1 \<and>
    gf256_div a a = Gf256 1"
proof -
  have "a \<noteq> 0" using assms by (simp add: zero_gf256_def)
  then have "a * inverse a = 1" and "inverse a * a = 1" and "a / a = 1" by simp_all
  then show ?thesis
    by (simp only: inverse_gf256_def times_gf256_def divide_gf256_def one_gf256_def)
qed

theorem gf256_invert_correct_witness:
  "Gf256 0x53 \<noteq> Gf256 0 \<and> gf256_mul (Gf256 0x53) (gf256_invert (Gf256 0x53)) = Gf256 1"
  using gf256_invert_correct [of "Gf256 0x53"] by simp

end
