(* ===== verification/Interpolation.thy ===== *)
theory Interpolation
  imports Main
begin

text \<open>
  Polynomials over a field as coefficient lists, lowest degree first: evaluation by
  Horner's rule, the bound on the number of roots, uniqueness and existence of the
  interpolating polynomial. The secret sharing theories instantiate it with GF(256).
\<close>

section \<open>Evaluation\<close>

fun horner :: "'a::comm_ring_1 list \<Rightarrow> 'a \<Rightarrow> 'a" where
  "horner [] x = 0"
| "horner (c # cs) x = horner cs x * x + c"

lemma horner_append: "horner (cs @ ds) x = horner cs x + x ^ length cs * horner ds x"
  by (induction cs) (simp_all add: algebra_simps)

lemma horner_sum: "horner cs x = (\<Sum>i<length cs. cs ! i * x ^ i)"
proof (induction cs rule: rev_induct)
  case Nil
  then show ?case by simp
next
  case (snoc c cs)
  have "(\<Sum>i<length cs. (cs @ [c]) ! i * x ^ i) = (\<Sum>i<length cs. cs ! i * x ^ i)"
    by (rule sum.cong) (simp_all add: nth_append)
  then show ?case using snoc by (simp add: horner_append algebra_simps)
qed

lemma horner_scale: "horner (map ((*) a) cs) x = a * horner cs x"
  by (induction cs) (simp_all add: algebra_simps)

lemma horner_add:
  "length cs = length ds \<Longrightarrow> horner (map2 (+) cs ds) x = horner cs x + horner ds x"
  by (induction cs ds rule: list_induct2) (simp_all add: algebra_simps)

lemma horner_diff:
  "length cs = length ds \<Longrightarrow> horner (map2 (-) cs ds) x = horner cs x - horner ds x"
  by (induction cs ds rule: list_induct2) (simp_all add: left_diff_distrib)

lemma horner_replicate_0 [simp]: "horner (replicate n 0) x = 0"
  by (induction n) simp_all

section \<open>Roots\<close>

lemma horner_divide:
  "\<exists>qs. length qs = length cs - 1 \<and> (\<forall>x. horner cs x = (x - r) * horner qs x + horner cs r)"
proof (induction cs)
  case Nil
  then show ?case by simp
next
  case (Cons c cs)
  then obtain qs where qs: "length qs = length cs - 1"
    "\<And>x. horner cs x = (x - r) * horner qs x + horner cs r" by blast
  show ?case
  proof (cases cs)
    case Nil
    then show ?thesis by simp
  next
    case (Cons d ds)
    have "horner (c # cs) x = (x - r) * horner (horner cs r # qs) x + horner (c # cs) r" for x
      by (subst horner.simps(2), subst qs(2)) (simp add: algebra_simps)
    moreover have "length (horner cs r # qs) = length (c # cs) - 1"
      using qs(1) Cons by simp
    ultimately show ?thesis by blast
  qed
qed

lemma horner_many_roots:
  fixes cs :: "'a::idom list"
  assumes "distinct xs" and "length cs \<le> length xs" and "\<forall>x\<in>set xs. horner cs x = 0"
  shows "horner cs y = 0"
  using assms
proof (induction xs arbitrary: cs)
  case Nil
  then show ?case by simp
next
  case (Cons r xs)
  obtain qs where qs: "length qs = length cs - 1"
    "\<And>x. horner cs x = (x - r) * horner qs x + horner cs r" using horner_divide by blast
  have r: "horner cs r = 0" using Cons.prems(3) by simp
  have "horner qs y = 0"
  proof (rule Cons.IH)
    show "distinct xs" and "length qs \<le> length xs" using Cons.prems qs(1) by auto
    show "\<forall>x\<in>set xs. horner qs x = 0"
    proof
      fix x assume x: "x \<in> set xs"
      then have "(x - r) * horner qs x = 0" using qs(2) [of x] r Cons.prems(3) by simp
      moreover have "x \<noteq> r" using x Cons.prems(1) by auto
      ultimately show "horner qs x = 0" by simp
    qed
  qed
  then show ?case using qs(2) [of y] r by simp
qed

lemma horner_eq_on_points:
  fixes cs :: "'a::idom list"
  assumes "distinct xs" and "length cs = length ds" and "length cs \<le> length xs"
    and "\<forall>x\<in>set xs. horner cs x = horner ds x"
  shows "horner cs y = horner ds y"
proof -
  have "horner (map2 (-) cs ds) y = 0"
    by (rule horner_many_roots [OF assms(1)]) (use assms in \<open>simp_all add: horner_diff\<close>)
  then show ?thesis by (simp add: horner_diff assms(2))
qed

section \<open>Interpolating polynomials\<close>

text \<open>\<open>is_poly n f\<close>: the function \<open>f\<close> is given by \<open>n\<close> coefficients.\<close>

definition is_poly :: "nat \<Rightarrow> ('a::comm_ring_1 \<Rightarrow> 'a) \<Rightarrow> bool" where
  "is_poly n f \<longleftrightarrow> (\<exists>cs. length cs = n \<and> f = horner cs)"

lemma is_poly_horner: "is_poly (length cs) (horner cs)"
  by (auto simp: is_poly_def)

lemma is_poly_0: "is_poly n (\<lambda>x. 0)"
  unfolding is_poly_def by (rule exI [of _ "replicate n 0"]) (simp add: fun_eq_iff)

lemma is_poly_const: "is_poly 1 (\<lambda>x. c)"
  unfolding is_poly_def by (rule exI [of _ "[c]"]) (simp add: fun_eq_iff)

lemma is_poly_add: "is_poly n f \<Longrightarrow> is_poly n g \<Longrightarrow> is_poly n (\<lambda>x. f x + g x)"
  unfolding is_poly_def
proof (elim exE conjE)
  fix cs ds assume "length cs = n" "f = horner cs" "length ds = n" "g = horner ds"
  then show "\<exists>es. length es = n \<and> (\<lambda>x. f x + g x) = horner es"
    by (intro exI [of _ "map2 (+) cs ds"]) (simp add: fun_eq_iff horner_add)
qed

lemma is_poly_scale: "is_poly n f \<Longrightarrow> is_poly n (\<lambda>x. a * f x)"
  unfolding is_poly_def
proof (elim exE conjE)
  fix cs assume "length cs = n" "f = horner cs"
  then show "\<exists>es. length es = n \<and> (\<lambda>x. a * f x) = horner es"
    by (intro exI [of _ "map ((*) a) cs"]) (simp add: fun_eq_iff horner_scale)
qed

lemma is_poly_Suc: "is_poly n f \<Longrightarrow> is_poly (Suc n) f"
  unfolding is_poly_def
proof (elim exE conjE)
  fix cs assume "length cs = n" "f = horner cs"
  then show "\<exists>es. length es = Suc n \<and> f = horner es"
    by (intro exI [of _ "cs @ [0]"]) (simp add: fun_eq_iff horner_append)
qed

lemma is_poly_mono: "is_poly n f \<Longrightarrow> n \<le> m \<Longrightarrow> is_poly m f"
  by (induction m) (auto simp: le_Suc_eq is_poly_Suc)

lemma is_poly_times_linear: "is_poly n f \<Longrightarrow> is_poly (Suc n) (\<lambda>x. (x - a) * f x)"
proof -
  assume f: "is_poly n f"
  then obtain cs where cs: "length cs = n" "f = horner cs" by (auto simp: is_poly_def)
  have "is_poly (Suc n) (horner (0 # cs))" using cs is_poly_horner [of "0 # cs"] by simp
  moreover have "is_poly (Suc n) (\<lambda>x. (- a) * f x)" using f by (intro is_poly_Suc is_poly_scale)
  ultimately have "is_poly (Suc n) (\<lambda>x. horner (0 # cs) x + (- a) * f x)" by (rule is_poly_add)
  then show ?thesis by (simp add: cs(2) algebra_simps)
qed

lemma is_poly_sum:
  "finite I \<Longrightarrow> (\<And>i. i \<in> I \<Longrightarrow> is_poly n (f i)) \<Longrightarrow> is_poly n (\<lambda>x. \<Sum>i\<in>I. f i x)"
  by (induction I rule: finite_induct) (simp_all add: is_poly_0 is_poly_add)

lemma is_poly_prod_linear:
  assumes "finite J"
  shows "is_poly (Suc (card J)) (\<lambda>x. \<Prod>j\<in>J. (x - a j) / (b j :: 'a::field))"
  using assms
proof (induction J rule: finite_induct)
  case empty
  then show ?case using is_poly_const [of 1] by simp
next
  case (insert j J)
  have "is_poly (Suc (Suc (card J))) (\<lambda>x. (x - a j) * (\<Prod>j\<in>J. (x - a j) / b j))"
    using insert.IH by (rule is_poly_times_linear)
  then have "is_poly (Suc (Suc (card J))) (\<lambda>x. inverse (b j) * ((x - a j) * (\<Prod>j\<in>J. (x - a j) / b j)))"
    by (rule is_poly_scale)
  then show ?case using insert.hyps by (simp add: divide_inverse ac_simps)
qed

definition lagrange :: "'a::field list \<Rightarrow> 'a list \<Rightarrow> 'a \<Rightarrow> 'a" where
  "lagrange xs ys x =
     (\<Sum>i<length xs. (\<Prod>j\<in>{..<length xs} - {i}. (x - xs ! j) / (xs ! i - xs ! j)) * ys ! i)"

lemma is_poly_lagrange: "is_poly (length xs) (lagrange xs ys)"
proof -
  have "is_poly (length xs)
      (\<lambda>x. (\<Prod>j\<in>{..<length xs} - {i}. (x - xs ! j) / (xs ! i - xs ! j)) * ys ! i)"
    if i: "i \<in> {..<length xs}" for i
  proof -
    have "Suc (card ({..<length xs} - {i})) = length xs" using i by simp
    then show ?thesis
      using is_poly_scale [OF is_poly_prod_linear [of "{..<length xs} - {i}"], of "ys ! i"]
      by (simp add: mult.commute)
  qed
  then show ?thesis unfolding lagrange_def by (intro is_poly_sum) auto
qed

lemma lagrange_at_point:
  assumes "distinct xs" and "k < length xs"
  shows "lagrange xs ys (xs ! k) = ys ! k"
proof -
  have one: "(\<Prod>j\<in>{..<length xs} - {k}. (xs ! k - xs ! j) / (xs ! k - xs ! j)) = 1"
    by (rule prod.neutral) (use assms in \<open>auto simp: nth_eq_iff_index_eq\<close>)
  have zero: "(\<Prod>j\<in>{..<length xs} - {i}. (xs ! k - xs ! j) / (xs ! i - xs ! j)) = 0"
    if "i \<in> {..<length xs} - {k}" for i
    using that assms(2) by (auto intro!: prod_zero bexI [of _ k])
  have "lagrange xs ys (xs ! k) =
      (\<Sum>i\<in>{..<length xs} - {k}. (\<Prod>j\<in>{..<length xs} - {i}. (xs ! k - xs ! j) / (xs ! i - xs ! j)) * ys ! i)
      + (\<Prod>j\<in>{..<length xs} - {k}. (xs ! k - xs ! j) / (xs ! k - xs ! j)) * ys ! k"
    unfolding lagrange_def using assms(2) by (subst sum.remove [of _ k]) auto
  also have "\<dots> = ys ! k"
    by (simp only: one zero mult_zero_left sum.neutral_const mult_1_left add_0_left cong: sum.cong)
  finally show ?thesis .
qed

text \<open>Enough points of a polynomial determine it: the interpolation is the polynomial.\<close>

lemma lagrange_of_poly:
  assumes "distinct xs" and "length cs \<le> length xs" and "ys = map (horner cs) xs"
  shows "lagrange xs ys x = horner cs x"
proof -
  obtain ds where ds: "length ds = length xs" "lagrange xs ys = horner ds"
    using is_poly_lagrange by (auto simp: is_poly_def)
  obtain es where es: "length es = length xs" "horner cs = horner es"
    using is_poly_mono [OF is_poly_horner assms(2)] by (auto simp: is_poly_def)
  have "horner ds x = horner es x"
  proof (rule horner_eq_on_points [OF assms(1)])
    show "\<forall>x\<in>set xs. horner ds x = horner es x"
      using lagrange_at_point [OF assms(1)] assms(3) ds(2) es(2)
      by (auto simp: in_set_conv_nth) (metis nth_map)
  qed (use ds es in auto)
  then show ?thesis using ds es by simp
qed

text \<open>Any values at distinct points are taken by some polynomial with that many coefficients.\<close>

lemma poly_through_points:
  assumes "distinct (xs :: 'a::field list)" and "length ys = length xs"
  shows "\<exists>cs. length cs = length xs \<and> map (horner cs) xs = ys"
proof -
  obtain ds where ds: "length ds = length xs" "lagrange xs ys = horner ds"
    using is_poly_lagrange by (auto simp: is_poly_def)
  have "map (horner ds) xs = ys"
    by (rule nth_equalityI) (use assms(2) lagrange_at_point [OF assms(1)] in \<open>simp_all flip: ds(2)\<close>)
  with ds(1) show ?thesis by blast
qed

end
