(* ===== verification/Gf_Polynomial.thy ===== *)
theory Gf_Polynomial
  imports Gf256 Interpolation
begin

text \<open>
  The polynomials of \<^verbatim>\<open>trust-quorum/gfss/src/polynomial.rs\<close>: a boxed slice of
  coefficients, lowest degree first, with a secret byte as the constant term. The theory
  shows that the Horner loop evaluates the polynomial, that the constant term is the
  value at zero, and what \<open>Display\<close> prints.
\<close>

section \<open>Definitions\<close>

type_synonym polynomial = "gf256 list"

text \<open>
  \<open>Polynomial::random_with_constant_term\<close>: the coefficients are drawn from the random
  source, \<open>degree + 1\<close> of them, and the first is overwritten.
\<close>

definition random_with_constant_term :: "rng \<Rightarrow> u8 \<Rightarrow> gf256 \<Rightarrow> polynomial \<times> rng" where
  "random_with_constant_term rng k constant_term =
     (let degree = unat (k - 1);
          (bytes, rng') = rng_take (degree + 1) rng;
          inner = map Gf256 bytes
      in (inner[0 := constant_term], rng'))"

definition polynomial_eval :: "polynomial \<Rightarrow> gf256 \<Rightarrow> gf256 outcome" where
  "polynomial_eval p x =
     (case rev p of
        [] \<Rightarrow> Panic ''called `Option::unwrap()` on a `None` value''
      | y # iter \<Rightarrow> Done (foldl (\<lambda>y coefficient. y * x + coefficient) y iter))"

text \<open>\<open>Display for Polynomial\<close>: the loop over the terms, highest exponent first.\<close>

fun polynomial_display_loop :: "(nat \<times> gf256) list \<Rightarrow> bool \<Rightarrow> string" where
  "polynomial_display_loop [] print_plus_sign = ''''"
| "polynomial_display_loop ((exponent, coefficient) # rest) print_plus_sign =
     (if gf256_ct_eq coefficient (Gf256 0) then polynomial_display_loop rest print_plus_sign
      else
        (if print_plus_sign then '' + '' else '''') @
        (if exponent = 0 then
           dec (unat (into_u8 coefficient)) @ polynomial_display_loop rest print_plus_sign
         else if exponent = 1 then
           dec (unat (into_u8 coefficient)) @ ''x'' @ polynomial_display_loop rest print_plus_sign
         else
           dec (unat (into_u8 coefficient)) @ ''x^'' @ dec exponent @
             polynomial_display_loop rest True))"

definition polynomial_display :: "polynomial \<Rightarrow> string" where
  "polynomial_display p = polynomial_display_loop (rev (enumerate 0 p)) False"

section \<open>Evaluation\<close>

lemma foldl_horner: "foldl (\<lambda>y c. y * x + c) y (rev cs) = horner cs x + x ^ length cs * y"
  for x :: "'a::comm_ring_1"
  by (induction cs arbitrary: y) (simp_all add: algebra_simps)

lemma polynomial_eval_horner: "p \<noteq> [] \<Longrightarrow> polynomial_eval p x = Done (horner p x)"
  by (cases p rule: rev_cases) (simp_all add: polynomial_eval_def foldl_horner horner_append)

lemma horner_at_0 [simp]: "cs \<noteq> [] \<Longrightarrow> horner cs 0 = hd cs"
  by (cases cs) simp_all

lemma length_random_with_constant_term:
  "2 \<le> k \<Longrightarrow> length (fst (random_with_constant_term rng k c)) = unat k"
proof -
  assume "2 \<le> k"
  then have "2 \<le> unat k" by (simp add: word_le_nat_alt)
  then have "unat (k - 1) = unat k - 1" by (subst unat_sub) (auto simp: word_le_nat_alt)
  with \<open>2 \<le> unat k\<close> show ?thesis
    by (simp add: random_with_constant_term_def rng_take_def Let_def)
qed

lemma random_with_constant_term_nonempty: "fst (random_with_constant_term rng k c) \<noteq> []"
  by (simp add: random_with_constant_term_def rng_take_def Let_def)

lemma hd_random_with_constant_term: "hd (fst (random_with_constant_term rng k c)) = c"
  by (simp add: random_with_constant_term_def rng_take_def Let_def hd_conv_nth)

text \<open>
  \<open>Polynomial::eval\<close>, Horner's method over the reversed coefficients, returns the
  value of the polynomial, the sum of the coefficients times the powers of \<open>x\<close>; it
  panics exactly on the empty slice.
\<close>

theorem polynomial_eval_correct:
  "polynomial_eval p x =
     (if p = [] then Panic ''called `Option::unwrap()` on a `None` value''
      else Done (\<Sum>i<length p. p ! i * x ^ i))"
  by (simp add: polynomial_eval_horner horner_sum) (simp add: polynomial_eval_def)

section \<open>Display\<close>

lemma gf256_ct_eq_iff: "gf256_ct_eq a b \<longleftrightarrow> a = b"
  by (cases a; cases b) (simp add: gf256_ct_eq_def)

text \<open>
  The plus sign flag is only set after a term of degree two or more, so the two terms of
  a linear polynomial are printed with no sign between them.
\<close>

theorem polynomial_display_linear:
  assumes "a \<noteq> Gf256 0" and "b \<noteq> Gf256 0"
  shows "polynomial_display [b, a] = dec (unat (into_u8 a)) @ ''x'' @ dec (unat (into_u8 b))"
  using assms by (simp add: polynomial_display_def gf256_ct_eq_iff)

theorem polynomial_display_linear_witness:
  "Gf256 3 \<noteq> Gf256 0 \<and> Gf256 5 \<noteq> Gf256 0 \<and> polynomial_display [Gf256 5, Gf256 3] = ''3x5''"
  using polynomial_display_linear [of "Gf256 3" "Gf256 5"] by (simp add: dec.simps)

end
