(* ===== verification/Shamir.thy ===== *)
theory Shamir
  imports Gf_Polynomial
begin

text \<open>
  Shamir secret sharing as in \<^verbatim>\<open>trust-quorum/gfss/src/shamir.rs\<close>: validation of the
  threshold and of the shares to combine, splitting a secret, and interpolation at zero
  (the secret) or at another share's coordinate. The theory shows the round trip for every
  large enough selection of shares, that a missing share is recomputed exactly, and that
  fewer shares than the threshold say nothing about the secret.
\<close>

section \<open>Definitions\<close>

datatype split_error = ThresholdToSmall | TooFewTotalShares u8 u8

datatype combine_error =
  TooFewShares | DuplicateXCoordinates | InvalidShareLengths | InvalidShareId

datatype valid_threshold = ValidThreshold (threshold_inner: u8)

definition valid_threshold_new :: "u8 \<Rightarrow> u8 \<Rightarrow> (valid_threshold, split_error) rust_result" where
  "valid_threshold_new n k =
     (if k < 2 then Err ThresholdToSmall
      else if n < k then Err (TooFewTotalShares n k)
      else Ok (ValidThreshold k))"

record share =
  x_coordinate :: gf256
  y_coordinates :: "gf256 list"

text \<open>The bytes \<open>Share::digest\<close> feeds to the hash function, in order.\<close>

definition share_bytes :: "share \<Rightarrow> u8 list" where
  "share_bytes s = into_u8 (x_coordinate s) # map into_u8 (y_coordinates s)"

record secret_shares =
  ss_threshold :: valid_threshold
  ss_shares :: "share list"

text \<open>\<open>ValidShares::new\<close>: each share against the common length, then against those after it.\<close>

fun valid_shares_loop :: "nat \<Rightarrow> share list \<Rightarrow> combine_error option" where
  "valid_shares_loop len [] = None"
| "valid_shares_loop len (share # rest) =
     (if length (y_coordinates share) \<noteq> len then Some InvalidShareLengths
      else if list_ex (\<lambda>share2. gf256_ct_eq (x_coordinate share) (x_coordinate share2)) rest
      then Some DuplicateXCoordinates
      else valid_shares_loop len rest)"

definition valid_shares_new :: "share list \<Rightarrow> (share list, combine_error) rust_result" where
  "valid_shares_new shares =
     (case shares of
        share0 # _ # _ \<Rightarrow>
          (case valid_shares_loop (length (y_coordinates share0)) shares of
             Some e \<Rightarrow> Err e
           | None \<Rightarrow> Ok shares)
      | _ \<Rightarrow> Err TooFewShares)"

text \<open>The polynomials of \<open>split_secret_impl\<close>, one per byte, drawn in order.\<close>

fun split_polynomials :: "u8 list \<Rightarrow> u8 \<Rightarrow> rng \<Rightarrow> polynomial list \<times> rng" where
  "split_polynomials [] k rng = ([], rng)"
| "split_polynomials (s # secret) k rng =
     (let (p, rng) = random_with_constant_term rng k (gf256_new s);
          (ps, rng) = split_polynomials secret k rng
      in (p # ps, rng))"

definition make_share :: "polynomial list \<Rightarrow> u8 \<Rightarrow> share outcome" where
  "make_share polynomials i =
     (let x = gf256_new i
      in obind (omap (\<lambda>p. polynomial_eval p x) polynomials)
           (\<lambda>ys. Done \<lparr>x_coordinate = x, y_coordinates = ys\<rparr>))"

definition split_secret_impl ::
  "u8 list \<Rightarrow> u8 \<Rightarrow> u8 \<Rightarrow> rng \<Rightarrow> (secret_shares \<times> rng, split_error) rust_result outcome" where
  "split_secret_impl secret n k rng =
     (case valid_threshold_new n k of
        Inl e \<Rightarrow> Done (Err e)
      | Inr threshold \<Rightarrow>
          (let (polynomials, rng') = split_polynomials secret (threshold_inner threshold) rng
           in obind (omap (make_share polynomials) (map word_of_nat [1..<Suc (unat n)]))
                (\<lambda>shares. Done (Ok (\<lparr>ss_threshold = threshold, ss_shares = shares\<rparr>, rng')))))"

text \<open>\<open>split_secret\<close> is the same with the operating system's random source.\<close>

definition split_secret ::
  "u8 list \<Rightarrow> u8 \<Rightarrow> u8 \<Rightarrow> rng \<Rightarrow> (secret_shares \<times> rng, split_error) rust_result outcome" where
  "split_secret secret n k os_rng = split_secret_impl secret n k os_rng"

text \<open>
  \<open>interpolate_polynomials\<close>: \<open>lagrange_basis\<close> is the inner loop over \<open>j\<close>,
  \<open>accumulate\<close> the loop over the zipped coordinates (\<open>zip\<close> stops at the shorter).
\<close>

definition lagrange_basis :: "share list \<Rightarrow> nat \<Rightarrow> gf256 \<Rightarrow> gf256 \<Rightarrow> gf256" where
  "lagrange_basis shares i x_i x =
     foldl (\<lambda>li (j, share_j).
         if i \<noteq> j then li * ((x - x_coordinate share_j) / (x_i - x_coordinate share_j)) else li)
       1 (enumerate 0 shares)"

fun accumulate :: "gf256 \<Rightarrow> gf256 list \<Rightarrow> gf256 list \<Rightarrow> gf256 list" where
  "accumulate li (y # output) (y_i # ys) = (y + li * y_i) # accumulate li output ys"
| "accumulate li output ys = output"

definition interpolate_polynomials :: "share list \<Rightarrow> gf256 \<Rightarrow> share" where
  "interpolate_polynomials shares x =
     (let output = replicate (length (y_coordinates (hd shares))) 0;
          output = foldl (\<lambda>output (i, share_i).
              let li = lagrange_basis shares i (x_coordinate share_i) x
              in accumulate li output (y_coordinates share_i))
            output (enumerate 0 shares)
      in \<lparr>x_coordinate = x, y_coordinates = output\<rparr>)"

definition compute_secret :: "share list \<Rightarrow> (u8 list, combine_error) rust_result" where
  "compute_secret shares =
     (case valid_shares_new shares of
        Inl e \<Rightarrow> Err e
      | Inr shares \<Rightarrow>
          (let share = interpolate_polynomials shares 0
           in Ok (map into_u8 (y_coordinates share))))"

definition compute_share :: "share list \<Rightarrow> gf256 \<Rightarrow> (share, combine_error) rust_result" where
  "compute_share shares x =
     (if gf256_ct_eq x 0 then Err InvalidShareId
      else (case valid_shares_new shares of
              Inl e \<Rightarrow> Err e
            | Inr shares \<Rightarrow> Ok (interpolate_polynomials shares x)))"

section \<open>Interpolation is Lagrange interpolation, coordinate by coordinate\<close>

lemma foldl_enumerate_prod:
  "foldl (\<lambda>li (j, s). if i \<noteq> j then li * f s else li) a (enumerate n ss) =
     a * (\<Prod>j<length ss. if j + n = i then 1 else f (ss ! j))"
  for a :: "'a::comm_ring_1"
  by (induction ss arbitrary: a n)
    (auto simp: prod.lessThan_Suc_shift mult.assoc simp del: prod.lessThan_Suc cong: if_cong)

lemma prod_skip:
  fixes g :: "nat \<Rightarrow> 'a::comm_ring_1"
  shows "(\<Prod>j<n. if j = i then 1 else g j) = (\<Prod>j\<in>{..<n} - {i}. g j)"
  by (rule prod.mono_neutral_cong_right) auto

lemma lagrange_basis_prod:
  "lagrange_basis shares i x_i x =
     (\<Prod>j\<in>{..<length shares} - {i}. (x - x_coordinate (shares ! j)) / (x_i - x_coordinate (shares ! j)))"
  using foldl_enumerate_prod [of i "\<lambda>s. (x - x_coordinate s) / (x_i - x_coordinate s)" 1 0 shares]
    prod_skip [of i "\<lambda>j. (x - x_coordinate (shares ! j)) / (x_i - x_coordinate (shares ! j))"]
  by (simp only: lagrange_basis_def add_0_right mult_1_left)

lemma accumulate_map2:
  "length out = length ys \<Longrightarrow> accumulate li out ys = map2 (\<lambda>y y_i. y + li * y_i) out ys"
  by (induction out ys rule: list_induct2) simp_all

lemma foldl_accumulate:
  assumes "\<forall>s\<in>set ss. length (y_coordinates s) = m" and "length out = m"
  shows "foldl (\<lambda>out (i, s). accumulate (L i s) out (y_coordinates s)) out (enumerate n ss) =
    map (\<lambda>c. out ! c + (\<Sum>i<length ss. L (i + n) (ss ! i) * y_coordinates (ss ! i) ! c)) [0..<m]"
  using assms
proof (induction ss arbitrary: out n)
  case Nil
  then show ?case by (auto intro: nth_equalityI)
next
  case (Cons s ss)
  let ?out = "accumulate (L n s) out (y_coordinates s)"
  have out: "?out = map2 (\<lambda>y y_i. y + L n s * y_i) out (y_coordinates s)"
    using Cons.prems by (simp add: accumulate_map2)
  then have len: "length ?out = m" using Cons.prems by simp
  have "?out ! c = out ! c + L n s * y_coordinates s ! c" if "c < m" for c
    using out Cons.prems that by simp
  then show ?case using Cons.IH [OF _ len, of "Suc n"] Cons.prems(1)
    by (auto simp: sum.lessThan_Suc_shift add.assoc simp del: sum.lessThan_Suc)
qed

lemma interpolate_polynomials_lagrange:
  assumes "\<forall>s\<in>set shares. length (y_coordinates s) = m" and "shares \<noteq> []"
  shows "interpolate_polynomials shares x =
    \<lparr>x_coordinate = x, y_coordinates =
       map (\<lambda>c. lagrange (map x_coordinate shares) (map (\<lambda>s. y_coordinates s ! c) shares) x) [0..<m]\<rparr>"
proof -
  have "length (y_coordinates (hd shares)) = m" using assms by simp
  then show ?thesis
    using foldl_accumulate [OF assms(1), of "replicate m 0"
        "\<lambda>i s. lagrange_basis shares i (x_coordinate s) x" 0]
    by (simp add: interpolate_polynomials_def Let_def lagrange_def lagrange_basis_prod cong: map_cong)
qed

section \<open>Validation\<close>

lemma valid_shares_loop_None:
  "valid_shares_loop len ss = None \<longleftrightarrow>
     (\<forall>s\<in>set ss. length (y_coordinates s) = len) \<and> distinct (map x_coordinate ss)"
  by (induction ss) (auto simp: gf256_ct_eq_iff list_ex_iff image_iff)

lemma valid_shares_new_Ok:
  "valid_shares_new ss = Ok ss' \<longleftrightarrow>
     ss' = ss \<and> 2 \<le> length ss \<and> distinct (map x_coordinate ss) \<and>
     (\<forall>s\<in>set ss. length (y_coordinates s) = length (y_coordinates (hd ss)))"
proof (cases "2 \<le> length ss")
  case False
  then show ?thesis by (auto simp: valid_shares_new_def split: list.splits)
next
  case True
  then obtain s0 s1 rest where ss: "ss = s0 # s1 # rest"
    by (cases ss; cases "tl ss") auto
  have "valid_shares_new ss =
      (case valid_shares_loop (length (y_coordinates (hd ss))) ss of Some e \<Rightarrow> Err e | None \<Rightarrow> Ok ss)"
    by (simp only: valid_shares_new_def ss list.case list.sel)
  with True valid_shares_loop_None [of "length (y_coordinates (hd ss))" ss] show ?thesis
    by (cases "valid_shares_loop (length (y_coordinates (hd ss))) ss") auto
qed

lemma valid_threshold_new_Ok:
  "valid_threshold_new n k = Ok t \<longleftrightarrow> t = ValidThreshold k \<and> 2 \<le> k \<and> k \<le> n"
  by (auto simp: valid_threshold_new_def)

section \<open>Splitting\<close>

text \<open>The share at an x-coordinate of the polynomials of a split.\<close>

definition share_at :: "polynomial list \<Rightarrow> gf256 \<Rightarrow> share" where
  "share_at ps x = \<lparr>x_coordinate = x, y_coordinates = map (\<lambda>p. horner p x) ps\<rparr>"

lemma share_at_simps [simp]:
  "x_coordinate (share_at ps x) = x"
  "y_coordinates (share_at ps x) = map (\<lambda>p. horner p x) ps"
  by (simp_all add: share_at_def)

lemma split_polynomials_fst:
  assumes "2 \<le> k"
  shows "length (fst (split_polynomials secret k rng)) = length secret \<and>
    (\<forall>p\<in>set (fst (split_polynomials secret k rng)). length p = unat k) \<and>
    map hd (fst (split_polynomials secret k rng)) = map Gf256 secret"
proof (induction secret arbitrary: rng)
  case (Cons s secret)
  show ?case
    using Cons.IH [of "snd (random_with_constant_term rng k (gf256_new s))"]
      length_random_with_constant_term [OF assms] hd_random_with_constant_term [of rng k "gf256_new s"]
    by (simp add: Let_def split_beta gf256_new_def)
qed simp

lemma split_polynomials_props:
  assumes "split_polynomials secret k rng = (ps, rng')" and "2 \<le> k"
  shows "length ps = length secret" and "\<forall>p\<in>set ps. length p = unat k"
    and "map hd ps = map Gf256 secret"
  using split_polynomials_fst [OF assms(2), of secret rng] assms(1) by simp_all

lemma make_share_at:
  "\<forall>p\<in>set ps. p \<noteq> [] \<Longrightarrow> make_share ps i = Done (share_at ps (Gf256 i))"
  by (simp add: make_share_def share_at_def gf256_new_def polynomial_eval_horner Let_def
      omap_Done [where g = "\<lambda>p. horner p (Gf256 i)"])

text \<open>What a successful split returns.\<close>

definition split_coordinates :: "u8 \<Rightarrow> gf256 list" where
  "split_coordinates n = map (\<lambda>i. Gf256 (word_of_nat i)) [1..<Suc (unat n)]"

lemma split_secret_impl_eq:
  assumes "2 \<le> k" and "k \<le> n"
  shows "split_secret_impl secret n k rng =
    (let (ps, rng') = split_polynomials secret k rng
     in Done (Ok (\<lparr>ss_threshold = ValidThreshold k,
          ss_shares = map (share_at ps) (split_coordinates n)\<rparr>, rng')))"
proof -
  obtain ps rng' where ps: "split_polynomials secret k rng = (ps, rng')" by fastforce
  have "0 < unat k" using assms(1) by (auto simp: word_le_nat_alt)
  then have "\<forall>p\<in>set ps. p \<noteq> []" using split_polynomials_props(2) [OF ps assms(1)] by auto
  then have "omap (make_share ps) (map word_of_nat [1..<Suc (unat n)]) =
      Done (map (share_at ps) (split_coordinates n))"
    by (subst omap_Done [where g = "\<lambda>i. share_at ps (Gf256 i)"])
      (simp_all add: make_share_at split_coordinates_def del: upt_Suc)
  then show ?thesis
    using assms by (simp add: split_secret_impl_def valid_threshold_new_def ps not_less [symmetric] del: upt_Suc)
qed

lemma split_secret_impl_cases:
  "split_secret_impl secret n k rng =
     (if k < 2 then Done (Err ThresholdToSmall)
      else if n < k then Done (Err (TooFewTotalShares n k))
      else (let (ps, rng') = split_polynomials secret k rng
        in Done (Ok (\<lparr>ss_threshold = ValidThreshold k,
             ss_shares = map (share_at ps) (split_coordinates n)\<rparr>, rng'))))"
  using split_secret_impl_eq [of k n secret rng]
  by (auto simp: split_secret_impl_def valid_threshold_new_def)

lemma nonzero_word_of_nat: "0 < i \<Longrightarrow> i < 256 \<Longrightarrow> (word_of_nat i :: u8) \<noteq> 0"
  by (simp add: word_of_nat_eq_0_iff nat_dvd_not_less)

lemma split_coordinates_props:
  shows "distinct (split_coordinates n)" and "0 \<notin> set (split_coordinates n)"
    and "length (split_coordinates n) = unat n"
proof -
  have bound: "i < 256" if "i < Suc (unat n)" for i
    using that unsigned_less [of n, where 'a = nat] by simp
  show "distinct (split_coordinates n)"
    unfolding split_coordinates_def distinct_map
  proof (intro conjI inj_onI)
    fix i j assume ij: "i \<in> set [1..<Suc (unat n)]" "j \<in> set [1..<Suc (unat n)]"
      "Gf256 (word_of_nat i) = Gf256 (word_of_nat j)"
    then have "unat (word_of_nat i :: u8) = unat (word_of_nat j :: u8)" by simp
    then show "i = j" using ij bound by (simp add: unat_of_nat del: upt_Suc)
  qed simp
  show "0 \<notin> set (split_coordinates n)"
    using nonzero_word_of_nat bound
    by (auto simp: split_coordinates_def zero_gf256_def simp del: upt_Suc)
  show "length (split_coordinates n) = unat n" by (simp add: split_coordinates_def del: upt_Suc)
qed

section \<open>The contract of a threshold scheme\<close>

text \<open>
  What the trust quorum relies on: shares dealt together, at least the threshold of them
  and with different coordinates, give the secret, and give the share of any other
  coordinate.
\<close>

locale threshold_scheme =
  fixes wf_deal :: "'d \<Rightarrow> bool"
    and threshold_of :: "'d \<Rightarrow> nat"
    and secret_of :: "'d \<Rightarrow> 'secret"
    and share_of :: "'d \<Rightarrow> 'x \<Rightarrow> 'share"
    and coordinate :: "'share \<Rightarrow> 'x"
    and secret_point :: 'x
    and combine :: "'share list \<Rightarrow> ('secret, 'e) rust_result"
    and recompute :: "'share list \<Rightarrow> 'x \<Rightarrow> ('share, 'e) rust_result"
  assumes coordinate_share_of: "coordinate (share_of d x) = x"
    and combine_dealt: "wf_deal d \<Longrightarrow> distinct xs \<Longrightarrow> threshold_of d \<le> length xs \<Longrightarrow>
      combine (map (share_of d) xs) = Ok (secret_of d)"
    and recompute_dealt: "wf_deal d \<Longrightarrow> distinct xs \<Longrightarrow> threshold_of d \<le> length xs \<Longrightarrow>
      x \<noteq> secret_point \<Longrightarrow> recompute (map (share_of d) xs) x = Ok (share_of d x)"
begin

definition dealt :: "'d \<Rightarrow> 'share \<Rightarrow> bool" where
  "dealt d s \<longleftrightarrow> s = share_of d (coordinate s)"

lemma dealt_map: "\<forall>s\<in>set ss. dealt d s \<Longrightarrow> ss = map (share_of d) (map coordinate ss)"
  by (induction ss) (auto simp: dealt_def)

lemma combine_selection:
  assumes "wf_deal d" and "\<forall>s\<in>set ss. dealt d s" and "distinct (map coordinate ss)"
    and "threshold_of d \<le> length ss"
  shows "combine ss = Ok (secret_of d)"
  using combine_dealt [OF assms(1,3)] assms(4) dealt_map [OF assms(2)] by simp

lemma recompute_selection:
  assumes "wf_deal d" and "\<forall>s\<in>set ss. dealt d s" and "distinct (map coordinate ss)"
    and "threshold_of d \<le> length ss" and "x \<noteq> secret_point"
  shows "recompute ss x = Ok (share_of d x)"
  using recompute_dealt [OF assms(1,3) _ assms(5)] assms(4) dealt_map [OF assms(2)] by simp

lemma dealt_share_of: "dealt d (share_of d x)"
  by (simp add: dealt_def coordinate_share_of)

lemma recomputed_share_combines:
  assumes "wf_deal d" and "\<forall>s\<in>set ss. dealt d s" and "distinct (map coordinate ss)"
    and "threshold_of d \<le> length ss" and "x \<noteq> secret_point" and "recompute ss x = Ok s"
    and "\<forall>t\<in>set ts. dealt d t" and "distinct (map coordinate (s # ts))"
    and "threshold_of d \<le> length (s # ts)"
  shows "combine (s # ts) = Ok (secret_of d)"
proof (rule combine_selection [OF assms(1) _ assms(8,9)])
  show "\<forall>t\<in>set (s # ts). dealt d t"
    using recompute_selection [OF assms(1-5)] assms(6,7) dealt_share_of by auto
qed

end

text \<open>A deal of \<open>split_secret\<close>: one polynomial per byte, all with \<open>k\<close> coefficients.\<close>

type_synonym deal = "nat \<times> polynomial list"

definition wf_deal :: "deal \<Rightarrow> bool" where
  "wf_deal d \<longleftrightarrow> 2 \<le> fst d \<and> (\<forall>p\<in>set (snd d). length p = fst d)"

definition deal_secret :: "deal \<Rightarrow> u8 list" where
  "deal_secret d = map (\<lambda>p. into_u8 (hd p)) (snd d)"

lemma interpolate_shares_at:
  assumes "wf_deal d" and "distinct xs" and "fst d \<le> length xs"
  shows "interpolate_polynomials (map (share_at (snd d)) xs) x = share_at (snd d) x"
proof -
  have ne: "xs \<noteq> []" using assms by (auto simp: wf_deal_def)
  have "lagrange xs (map (\<lambda>a. horner (snd d ! c) a) xs) x = horner (snd d ! c) x"
    if c: "c < length (snd d)" for c
    by (rule lagrange_of_poly) (use assms c in \<open>auto simp: wf_deal_def\<close>)
  moreover have "map (\<lambda>s. y_coordinates s ! c) (map (share_at (snd d)) xs) =
      map (\<lambda>a. horner (snd d ! c) a) xs" if "c < length (snd d)" for c
    using that by simp
  moreover have "map x_coordinate (map (share_at (snd d)) xs) = xs" by (simp add: comp_def)
  ultimately have "y_coordinates (interpolate_polynomials (map (share_at (snd d)) xs) x) =
      map (\<lambda>c. horner (snd d ! c) x) [0..<length (snd d)]"
    using ne by (subst interpolate_polynomials_lagrange [where m = "length (snd d)"]) (auto simp: comp_def)
  also have "\<dots> = map (\<lambda>p. horner p x) (snd d)" by (auto intro: nth_equalityI)
  finally show ?thesis
    by (simp add: share_at_def interpolate_polynomials_def Let_def)
qed

lemma valid_shares_at:
  assumes "distinct xs" and "2 \<le> length xs"
  shows "valid_shares_new (map (share_at ps) xs) = Ok (map (share_at ps) xs)"
proof -
  have "hd (map (share_at ps) xs) = share_at ps (hd xs)" using assms(2) by (intro hd_map) auto
  with assms show ?thesis by (simp add: valid_shares_new_Ok comp_def)
qed

interpretation gfss: threshold_scheme wf_deal fst deal_secret "\<lambda>d. share_at (snd d)" x_coordinate
  0 compute_secret compute_share
proof
  fix d :: deal and xs :: "gf256 list" and x
  assume d: "wf_deal d" and xs: "distinct xs" "fst d \<le> length xs"
  have len: "2 \<le> length xs" using d xs by (auto simp: wf_deal_def)
  have "\<forall>p\<in>set (snd d). p \<noteq> []" using d by (auto simp: wf_deal_def)
  then show "compute_secret (map (share_at (snd d)) xs) = Ok (deal_secret d)"
    by (simp add: compute_secret_def valid_shares_at [OF xs(1) len] interpolate_shares_at [OF d xs]
        deal_secret_def)
  show "x \<noteq> 0 \<Longrightarrow> compute_share (map (share_at (snd d)) xs) x = Ok (share_at (snd d) x)"
    by (simp add: compute_share_def valid_shares_at [OF xs(1) len] interpolate_shares_at [OF d xs]
        gf256_ct_eq_iff)
qed simp

section \<open>Round trip, recomputation, secrecy\<close>

lemma split_deal:
  assumes "split_secret_impl secret n k rng = Done (Ok (ss, rng'))"
  obtains d where "wf_deal d" and "fst d = unat k" and "deal_secret d = secret"
    and "ss_shares ss = map (share_at (snd d)) (split_coordinates n)"
    and "2 \<le> k" and "k \<le> n" and "snd d = fst (split_polynomials secret k rng)"
proof -
  obtain ps rng'' where ps: "split_polynomials secret k rng = (ps, rng'')" by fastforce
  have kn: "2 \<le> k" "k \<le> n" and ss: "ss_shares ss = map (share_at ps) (split_coordinates n)"
    using assms ps by (auto simp: split_secret_impl_cases split: if_splits)
  note props = split_polynomials_props [OF ps kn(1)]
  have "2 \<le> unat k" using kn(1) by (simp add: word_le_nat_alt)
  then have "wf_deal (unat k, ps)" using props(2) by (simp add: wf_deal_def)
  moreover have "deal_secret (unat k, ps) = map into_u8 (map hd ps)"
    by (simp add: deal_secret_def)
  then have "deal_secret (unat k, ps) = secret" by (simp add: props(3) comp_def)
  ultimately show thesis using that [of "(unat k, ps)"] ss kn ps by simp
qed

lemma selection_dealt:
  assumes "shares = map (share_at (snd d)) xs" and "set picked \<subseteq> set shares" and "distinct picked"
  shows "\<forall>s\<in>set picked. gfss.dealt d s" and "distinct (map x_coordinate picked)"
proof -
  have "gfss.dealt d (share_at (snd d) x)" for x using gfss.dealt_share_of [of d x] by simp
  with assms(1,2) show "\<forall>s\<in>set picked. gfss.dealt d s" by auto
  have "s = share_at (snd d) (x_coordinate s)" if "s \<in> set picked" for s
    using that assms(1,2) by auto
  then have "inj_on x_coordinate (set picked)" by (metis inj_onI)
  with assms(3) show "distinct (map x_coordinate picked)" by (simp add: distinct_map)
qed

text \<open>The split of one byte among three, for the witnesses below.\<close>

definition example_shares :: "share list" where
  "example_shares = map (share_at [[Gf256 42, Gf256 7]]) (split_coordinates 3)"

lemma example_coordinates: "split_coordinates 3 = [Gf256 1, Gf256 2, Gf256 3]"
  by (simp add: split_coordinates_def upt_rec)

lemma example_split:
  "split_secret [42] 3 2 (\<lambda>_. 7) =
     Done (Ok (\<lparr>ss_threshold = ValidThreshold 2, ss_shares = example_shares\<rparr>, \<lambda>_. 7))"
  by (simp add: split_secret_def split_secret_impl_eq random_with_constant_term_def rng_take_def
      gf256_new_def example_shares_def upt_rec)

lemma example_shares_props:
  "length example_shares = 3" "distinct example_shares"
  by (simp_all add: example_shares_def example_coordinates share_at_def)

text \<open>
  C11: splitting a secret and combining any selection of at least \<open>k\<close> different shares, in any
  order, returns the secret (\<open>split_secret\<close>, \<open>compute_secret\<close>).
\<close>

theorem split_then_compute_secret:
  assumes "split_secret secret n k rng = Done (Ok (ss, rng'))"
    and "set picked \<subseteq> set (ss_shares ss)" and "distinct picked" and "unat k \<le> length picked"
  shows "compute_secret picked = Ok secret"
proof -
  from assms(1) obtain d where d: "wf_deal d" "fst d = unat k" "deal_secret d = secret"
    "ss_shares ss = map (share_at (snd d)) (split_coordinates n)"
    unfolding split_secret_def by (rule split_deal)
  note sel = selection_dealt [OF d(4) assms(2,3)]
  from gfss.combine_selection [OF d(1) sel] assms(4) d show ?thesis by simp
qed

theorem split_then_compute_secret_witness:
  "compute_secret [example_shares ! 2, example_shares ! 0] = Ok [42]"
  by (rule split_then_compute_secret [OF example_split])
    (simp_all add: example_shares_props nth_eq_iff_index_eq)

text \<open>
  C13: from any selection of at least \<open>k\<close> different shares \<open>compute_share\<close> returns, at the
  coordinate of any share of the split, exactly the share that was dealt there.
\<close>

theorem split_then_compute_share:
  assumes "split_secret secret n k rng = Done (Ok (ss, rng'))"
    and "set picked \<subseteq> set (ss_shares ss)" and "distinct picked" and "unat k \<le> length picked"
    and "i < unat n"
  shows "compute_share picked (Gf256 (word_of_nat (Suc i))) = Ok (ss_shares ss ! i)"
proof -
  from assms(1) obtain d where d: "wf_deal d" "fst d = unat k"
    "ss_shares ss = map (share_at (snd d)) (split_coordinates n)"
    unfolding split_secret_def by (rule split_deal)
  note sel = selection_dealt [OF d(3) assms(2,3)]
  have at: "split_coordinates n ! i = Gf256 (word_of_nat (Suc i))"
    using assms(5) by (simp add: split_coordinates_def del: upt_Suc)
  then have "Gf256 (word_of_nat (Suc i)) \<noteq> 0"
    using split_coordinates_props(2,3) [of n] assms(5) by (metis nth_mem)
  with gfss.recompute_selection [OF d(1) sel] assms(4,5) d at show ?thesis
    by (simp add: split_coordinates_props)
qed

theorem split_then_compute_share_witness:
  "compute_share [example_shares ! 2, example_shares ! 0] (Gf256 (word_of_nat (Suc 1))) =
     Ok (example_shares ! 1)"
  using split_then_compute_share [OF example_split, of "[example_shares ! 2, example_shares ! 0]" 1]
  by (simp add: example_shares_props nth_eq_iff_index_eq)

text \<open>A random source that starts with given bytes.\<close>

definition rng_prefix :: "u8 list \<Rightarrow> rng" where
  "rng_prefix bs = (\<lambda>i. if i < length bs then bs ! i else 0)"

lemma rng_take_prefix:
  "rng_take (length xs) (rng_prefix (xs @ ys)) = (xs, rng_prefix ys)"
  by (auto simp: rng_take_def rng_prefix_def nth_append fun_eq_iff intro!: nth_equalityI)

lemma random_prefix:
  assumes "length p = unat k" and "2 \<le> k" 
  shows "random_with_constant_term (rng_prefix (map into_u8 p @ ys)) k (hd p) = (p, rng_prefix ys)"
proof -
  have k: "unat (k - 1) + 1 = length (map into_u8 p)"
    using assms by (subst unat_sub) (auto simp: word_le_nat_alt)
  obtain c cs where p: "p = c # cs" using assms by (cases p) (auto simp: word_le_nat_alt)
  show ?thesis
    unfolding random_with_constant_term_def Let_def k rng_take_prefix by (simp add: p comp_def)
qed

lemma split_polynomials_prefix:
  assumes "\<forall>p\<in>set ps. length p = unat k" and "2 \<le> k" and "map hd ps = map Gf256 secret"
  shows "split_polynomials secret k (rng_prefix (concat (map (map into_u8) ps))) = (ps, rng_prefix [])"
  using assms(1,3)
proof (induction secret arbitrary: ps)
  case Nil
  then show ?case by simp
next
  case (Cons s secret)
  then obtain p ps' where ps: "ps = p # ps'" "hd p = Gf256 s" "map hd ps' = map Gf256 secret"
    by (cases ps) auto
  have "random_with_constant_term (rng_prefix (concat (map (map into_u8) ps))) k (gf256_new s) =
      (p, rng_prefix (concat (map (map into_u8) ps')))"
    using random_prefix [of p k "concat (map (map into_u8) ps')"] Cons.prems(1) assms(2) ps
    by (simp add: gf256_new_def)
  then show ?case using Cons.IH [of ps'] Cons.prems(1) ps by simp
qed

lemma poly_with_constant_through:
  fixes xs :: "gf256 list"
  assumes "distinct xs" and "0 \<notin> set xs" and "length ys = length xs" and "length xs < k"
  shows "\<exists>p. length p = k \<and> hd p = c \<and> map (horner p) xs = ys"
proof -
  obtain cs where cs: "length cs = length (0 # xs)" "map (horner cs) (0 # xs) = c # ys"
    using poly_through_points [of "0 # xs" "c # ys"] assms by auto
  have "is_poly k (horner cs)"
    using is_poly_mono [OF is_poly_horner [of cs]] cs(1) assms(4) by simp
  then obtain p where p: "length p = k" "horner cs = horner p" by (auto simp: is_poly_def)
  then have "p \<noteq> []" using assms(4) by auto
  then have "hd p = c" using cs(2) p(2) horner_at_0 [of p] by simp
  with p cs(2) show ?thesis by auto
qed

text \<open>
  C12: fewer shares than the threshold are consistent with every secret of the same length: for
  any other secret there are random choices that deal the same shares at those places.
\<close>

theorem too_few_shares_reveal_nothing:
  assumes "split_secret secret n k rng = Done (Ok (ss, rng'))"
    and "length other = length secret" and "I \<subseteq> {..<unat n}" and "card I < unat k"
  shows "\<exists>rng2 ss2 rng2'. split_secret other n k rng2 = Done (Ok (ss2, rng2')) \<and>
    (\<forall>i\<in>I. ss_shares ss2 ! i = ss_shares ss ! i)"
proof -
  from assms(1) obtain d where d: "wf_deal d" "fst d = unat k" "deal_secret d = secret"
    "ss_shares ss = map (share_at (snd d)) (split_coordinates n)" "2 \<le> k" "k \<le> n"
    unfolding split_secret_def by (rule split_deal)
  define xs where "xs = map ((!) (split_coordinates n)) (sorted_list_of_set I)"
  have finI: "finite I" using assms(3) finite_subset by blast
  have "inj_on ((!) (split_coordinates n)) I"
    using assms(3) split_coordinates_props by (intro inj_on_nth) auto
  then have dist: "distinct xs" using finI by (simp add: xs_def distinct_map)
  have nz: "0 \<notin> set xs"
    using split_coordinates_props(2,3) [of n] assms(3) finI by (auto simp: xs_def) (metis lessThan_iff nth_mem subsetD)
  have len: "length xs < unat k" using assms(4) finI by (simp add: xs_def)
  have "\<exists>p. length p = unat k \<and> hd p = Gf256 (other ! c) \<and>
      map (horner p) xs = map (horner (snd d ! c)) xs" for c
    by (rule poly_with_constant_through [OF dist nz _ len]) simp
  then obtain P where P: "\<And>c. length (P c) = unat k" "\<And>c. hd (P c) = Gf256 (other ! c)"
    "\<And>c. map (horner (P c)) xs = map (horner (snd d ! c)) xs" by metis
  define ps where "ps = map P [0..<length other]"
  have hds: "map hd ps = map Gf256 other" by (auto simp: ps_def P(2) intro: nth_equalityI)
  have sp: "split_polynomials other k (rng_prefix (concat (map (map into_u8) ps))) = (ps, rng_prefix [])"
    by (rule split_polynomials_prefix [OF _ d(5) hds]) (auto simp: ps_def P(1))
  have lend: "length (snd d) = length other" using d(3) assms(2) by (auto simp: deal_secret_def)
  have same: "share_at ps x = share_at (snd d) x" if x: "x \<in> set xs" for x
  proof -
    have "horner (P c) x = horner (snd d ! c) x" for c using P(3) [of c] x by (auto simp: map_eq_conv)
    then show ?thesis using lend by (auto simp: share_at_def ps_def intro: nth_equalityI)
  qed
  have "split_coordinates n ! i \<in> set xs" if "i \<in> I" for i using that finI by (simp add: xs_def)
  then have "\<forall>i\<in>I. map (share_at ps) (split_coordinates n) ! i = ss_shares ss ! i"
    using same d(4) assms(3) split_coordinates_props(3) by (auto simp: subset_iff)
  moreover have "split_secret other n k (rng_prefix (concat (map (map into_u8) ps))) =
      Done (Ok (\<lparr>ss_threshold = ValidThreshold k, ss_shares = map (share_at ps) (split_coordinates n)\<rparr>,
        rng_prefix []))"
    using split_secret_impl_eq [OF d(5,6)] by (simp add: split_secret_def sp)
  ultimately show ?thesis by (metis secret_shares.select_convs(2))
qed

theorem too_few_shares_reveal_nothing_witness:
  "\<exists>rng2 ss2 rng2'. split_secret [99] 3 2 rng2 = Done (Ok (ss2, rng2')) \<and>
     (\<forall>i\<in>{1}. ss_shares ss2 ! i = example_shares ! i)"
  using too_few_shares_reveal_nothing [OF example_split, of "[99]" "{1}"] by simp

text \<open>
  Splitting never panics, and fails exactly on the two documented errors; otherwise there
  are \<open>n\<close> shares, each with a different nonzero coordinate and one byte per secret byte.
\<close>

theorem split_secret_shape:
  "case split_secret secret n k rng of
     Panic m \<Rightarrow> False
   | Diverge \<Rightarrow> False
   | Done (Inl e) \<Rightarrow>
       k < 2 \<and> e = ThresholdToSmall \<or> 2 \<le> k \<and> n < k \<and> e = TooFewTotalShares n k
   | Done (Inr (ss, rng')) \<Rightarrow>
       2 \<le> k \<and> k \<le> n \<and> ss_threshold ss = ValidThreshold k \<and>
       length (ss_shares ss) = unat n \<and> distinct (map x_coordinate (ss_shares ss)) \<and>
       0 \<notin> x_coordinate ` set (ss_shares ss) \<and>
       list_all (\<lambda>s. length (y_coordinates s) = length secret) (ss_shares ss)"
proof (cases "2 \<le> k \<and> k \<le> n")
  case True
  obtain ps rng' where ps: "split_polynomials secret k rng = (ps, rng')" by fastforce
  show ?thesis
    using True split_coordinates_props [of n] split_polynomials_props(1) [OF ps]
    by (simp add: split_secret_def split_secret_impl_eq ps comp_def image_image list_all_iff)
next
  case False
  then show ?thesis using split_secret_impl_cases [of secret n k rng]
    by (auto simp: split_secret_def not_le)
qed

end
