(* ===== verification/Ordered_Map.thy ===== *)
theory Ordered_Map
  imports Rust_Prelude
begin

text \<open>
  The ordered containers of the Rust sources, \<open>BTreeMap\<close>, \<open>BTreeSet\<close> and
  \<open>IdOrdMap\<close>, as association lists and lists in increasing key order: iteration order
  is list order, which the protocol relies on (\<open>iter().last()\<close> is the greatest key,
  members and shares are paired by position). The contract the clients use is the locale
  \<open>ordered_container\<close>.
\<close>

section \<open>Maps\<close>

type_synonym ('k, 'v) btree_map = "('k \<times> 'v) list"

definition bt_get :: "('k, 'v) btree_map \<Rightarrow> 'k \<Rightarrow> 'v option" where
  "bt_get m k = map_of m k"

definition bt_contains_key :: "('k, 'v) btree_map \<Rightarrow> 'k \<Rightarrow> bool" where
  "bt_contains_key m k = (k \<in> set (map fst m))"

fun bt_insert :: "'k::linorder \<Rightarrow> 'v \<Rightarrow> ('k, 'v) btree_map \<Rightarrow> ('k, 'v) btree_map" where
  "bt_insert k v [] = [(k, v)]"
| "bt_insert k v ((k', v') # m) =
     (if k < k' then (k, v) # (k', v') # m
      else if k = k' then (k, v) # m
      else (k', v') # bt_insert k v m)"

definition bt_remove :: "'k \<Rightarrow> ('k, 'v) btree_map \<Rightarrow> ('k, 'v) btree_map" where
  "bt_remove k m = filter (\<lambda>(k', v). k' \<noteq> k) m"

definition bt_retain :: "('k \<Rightarrow> 'v \<Rightarrow> bool) \<Rightarrow> ('k, 'v) btree_map \<Rightarrow> ('k, 'v) btree_map" where
  "bt_retain p m = filter (\<lambda>(k, v). p k v) m"

definition bt_keys :: "('k, 'v) btree_map \<Rightarrow> 'k list" where
  "bt_keys m = map fst m"

definition bt_values :: "('k, 'v) btree_map \<Rightarrow> 'v list" where
  "bt_values m = map snd m"

text \<open>\<open>iter().last()\<close>: the last element, if there is one.\<close>

definition last_opt :: "'a list \<Rightarrow> 'a option" where
  "last_opt xs = (if xs = [] then None else Some (last xs))"

definition bt_ok :: "('k::linorder, 'v) btree_map \<Rightarrow> bool" where
  "bt_ok m = sorted_wrt (<) (map fst m)"

section \<open>Sets\<close>

type_synonym 'k btree_set = "'k list"

definition bs_contains :: "'k btree_set \<Rightarrow> 'k \<Rightarrow> bool" where
  "bs_contains s k = (k \<in> set s)"

fun bs_insert :: "'k::linorder \<Rightarrow> 'k btree_set \<Rightarrow> 'k btree_set" where
  "bs_insert k [] = [k]"
| "bs_insert k (k' # s) =
     (if k < k' then k # k' # s
      else if k = k' then k # s
      else k' # bs_insert k s)"

definition bs_remove :: "'k \<Rightarrow> 'k btree_set \<Rightarrow> 'k btree_set" where
  "bs_remove k s = filter (\<lambda>k'. k' \<noteq> k) s"

definition bs_ok :: "'k::linorder btree_set \<Rightarrow> bool" where
  "bs_ok s = sorted_wrt (<) s"

section \<open>Laws\<close>

lemma last_opt_simps [simp]:
  "last_opt [] = None"
  "last_opt (xs @ [x]) = Some x"
  "last_opt [x] = Some x"
  "last_opt (x # y # xs) = last_opt (y # xs)"
  by (simp_all add: last_opt_def)

lemma last_opt_None [simp]: "last_opt xs = None \<longleftrightarrow> xs = []"
  by (simp add: last_opt_def)

lemma last_opt_in_set: "last_opt xs = Some x \<Longrightarrow> x \<in> set xs"
  by (auto simp: last_opt_def split: if_splits)

lemma last_opt_map: "last_opt (map f xs) = map_option f (last_opt xs)"
  by (simp add: last_opt_def last_map)

lemma last_opt_greatest:
  fixes x :: "'a::linorder"
  shows "sorted_wrt (<) xs \<Longrightarrow> last_opt xs = Some x \<Longrightarrow> y \<in> set xs \<Longrightarrow> y \<le> x"
  by (induction xs rule: rev_induct) (auto simp: sorted_wrt_append)

lemma last_opt_iff_greatest:
  fixes x :: "'a::linorder"
  assumes "sorted_wrt (<) xs"
  shows "last_opt xs = Some x \<longleftrightarrow> x \<in> set xs \<and> (\<forall>y\<in>set xs. y \<le> x)"
proof
  assume "last_opt xs = Some x"
  then show "x \<in> set xs \<and> (\<forall>y\<in>set xs. y \<le> x)"
    using last_opt_in_set last_opt_greatest [OF assms] by metis
next
  assume x: "x \<in> set xs \<and> (\<forall>y\<in>set xs. y \<le> x)"
  then obtain z where z: "last_opt xs = Some z" by (cases "last_opt xs") auto
  with last_opt_in_set [OF z] last_opt_greatest [OF assms z] x have "z = x" by (meson order_antisym)
  with z show "last_opt xs = Some x" by simp
qed

text \<open>What \<open>iter().last()\<close> returns on a strictly increasing sequence.\<close>

definition is_greatest :: "'a::linorder list \<Rightarrow> 'a option \<Rightarrow> bool" where
  "is_greatest xs x =
     (case x of None \<Rightarrow> xs = [] | Some g \<Rightarrow> g \<in> set xs \<and> (\<forall>y\<in>set xs. y \<le> g))"

lemma is_greatest_last_opt: "sorted_wrt (<) xs \<Longrightarrow> is_greatest xs (last_opt xs)"
  using last_opt_iff_greatest [of xs] by (auto simp: is_greatest_def split: option.split)

lemma bt_get_empty [simp]: "bt_get [] k = None"
  by (simp add: bt_get_def)

lemma bt_get_Cons: "bt_get ((k', v) # m) k = (if k = k' then Some v else bt_get m k)"
  by (simp add: bt_get_def)

lemma bt_get_insert: "bt_get (bt_insert k v m) k' = (if k' = k then Some v else bt_get m k')"
  by (induction m) (auto simp: bt_get_def)

lemma bt_get_insert_same [simp]: "bt_get (bt_insert k v m) k = Some v"
  by (simp add: bt_get_insert)

lemma bt_get_remove: "bt_get (bt_remove k m) k' = (if k' = k then None else bt_get m k')"
  by (induction m) (auto simp: bt_get_def bt_remove_def)

lemma bt_contains_get: "bt_contains_key m k \<longleftrightarrow> bt_get m k \<noteq> None"
  by (auto simp: bt_contains_key_def bt_get_def map_of_eq_None_iff)

lemma set_keys_insert [simp]: "fst ` set (bt_insert k v m) = insert k (fst ` set m)"
  by (induction k v m rule: bt_insert.induct) (simp_all add: insert_commute)

lemma set_bt_keys_insert [simp]: "set (bt_keys (bt_insert k v m)) = insert k (set (bt_keys m))"
  by (simp add: bt_keys_def)

lemma set_bt_keys_remove [simp]: "set (bt_keys (bt_remove k m)) = set (bt_keys m) - {k}"
  by (auto simp: bt_keys_def bt_remove_def)

lemma bt_contains_keys: "bt_contains_key m k \<longleftrightarrow> k \<in> set (bt_keys m)"
  by (simp add: bt_contains_key_def bt_keys_def)

lemma bt_get_in_keys: "bt_get m k = Some v \<Longrightarrow> k \<in> set (bt_keys m)"
  by (force simp: bt_get_def bt_keys_def dest!: map_of_SomeD)

lemma bt_get_in_set: "bt_get m k = Some v \<Longrightarrow> (k, v) \<in> set m"
  by (simp add: bt_get_def map_of_SomeD)

lemma bt_get_None: "bt_get m k = None \<longleftrightarrow> k \<notin> set (bt_keys m)"
  by (simp add: bt_get_def bt_keys_def map_of_eq_None_iff)

lemma bt_insert_not_Nil [simp]: "bt_insert k v m \<noteq> []"
  by (induction k v m rule: bt_insert.induct) simp_all

lemma bt_keys_simps:
  "bt_keys [] = []"
  "bt_keys (kv # m) = fst kv # bt_keys m"
  by (simp_all add: bt_keys_def)

lemma bt_ok_iff_keys: "bt_ok m \<longleftrightarrow> sorted_wrt (<) (bt_keys m)"
  by (simp add: bt_ok_def bt_keys_def)

lemma bt_ok_empty [simp]: "bt_ok []"
  by (simp add: bt_ok_def)

lemma bt_ok_Cons: "bt_ok ((k, v) # m) \<longleftrightarrow> (\<forall>k'\<in>fst ` set m. k < k') \<and> bt_ok m"
  by (auto simp: bt_ok_def)

lemma bt_ok_insert [simp]: "bt_ok m \<Longrightarrow> bt_ok (bt_insert k v m)"
proof (induction k v m rule: bt_insert.induct)
  case (2 k v k' v' m)
  then show ?case by (cases k k' rule: linorder_cases) (force simp: bt_ok_Cons)+
qed (simp add: bt_ok_def)

lemma bt_ok_remove [simp]: "bt_ok m \<Longrightarrow> bt_ok (bt_remove k m)"
  by (induction m) (auto simp: bt_ok_def bt_remove_def)

lemma bt_ok_distinct: "bt_ok m \<Longrightarrow> distinct (map fst m)"
  by (simp add: bt_ok_def strict_sorted_iff)

lemma bt_get_of_set: "bt_ok m \<Longrightarrow> (k, v) \<in> set m \<Longrightarrow> bt_get m k = Some v"
  by (simp add: bt_get_def bt_ok_distinct)

lemma bt_set_insert:
  "bt_ok m \<Longrightarrow> set (bt_insert k v m) = insert (k, v) (set (bt_remove k m))"
proof (induction k v m rule: bt_insert.induct)
  case (2 k v k' v' m)
  then show ?case
    by (cases k k' rule: linorder_cases) (force simp: bt_ok_Cons bt_remove_def)+
qed (simp add: bt_remove_def)

lemma bt_insert_above:
  "\<forall>k'\<in>set (map fst m). k' < k \<Longrightarrow> bt_insert k v m = m @ [(k, v)]"
  by (induction m) auto

lemma foldl_bt_insert_in_order:
  assumes "bt_ok (m @ kvs)"
  shows "foldl (\<lambda>m kv. bt_insert (fst kv) (snd kv) m) m kvs = m @ kvs"
  using assms
proof (induction kvs arbitrary: m)
  case (Cons kv kvs)
  have "bt_insert (fst kv) (snd kv) m = m @ [kv]"
    using Cons.prems bt_insert_above [of m "fst kv" "snd kv"] by (auto simp: bt_ok_def sorted_wrt_append)
  then show ?case using Cons.IH [of "m @ [kv]"] Cons.prems by simp
qed simp

lemma bt_ok_zip: "bs_ok ks \<Longrightarrow> bt_ok (zip ks vs)"
proof (induction ks arbitrary: vs)
  case (Cons k ks)
  then show ?case by (cases vs) (auto simp: bs_ok_def bt_ok_def dest: set_zip_leftD)
qed simp

lemma bt_get_zip:
  assumes "distinct ks" and "length ks = length vs" and "i < length ks"
  shows "bt_get (zip ks vs) (ks ! i) = Some (vs ! i)"
  using map_of_zip_nth [OF assms(2,1)] assms(3) assms(2) by (simp add: bt_get_def)

lemma bs_set_insert [simp]: "set (bs_insert k s) = insert k (set s)"
  by (induction s) auto

lemma bs_insert_not_Nil [simp]: "bs_insert k s \<noteq> []"
  by (cases s) auto

lemma bs_set_remove [simp]: "set (bs_remove k s) = set s - {k}"
  by (auto simp: bs_remove_def)

lemma bs_ok_empty [simp]: "bs_ok []"
  by (simp add: bs_ok_def)

lemma bs_ok_insert [simp]: "bs_ok s \<Longrightarrow> bs_ok (bs_insert k s)"
  by (induction k s rule: bs_insert.induct) (auto simp: bs_ok_def)

lemma bs_ok_remove [simp]: "bs_ok s \<Longrightarrow> bs_ok (bs_remove k s)"
  by (simp add: bs_ok_def bs_remove_def sorted_wrt_filter)

lemma bs_ok_distinct: "bs_ok s \<Longrightarrow> distinct s"
  by (simp add: bs_ok_def strict_sorted_iff)

lemma bs_insert_length: "bs_ok s \<Longrightarrow> k \<notin> set s \<Longrightarrow> length (bs_insert k s) = Suc (length s)"
  by (induction s) (auto simp: bs_ok_def)

lemma bs_insert_idem: "bs_ok s \<Longrightarrow> k \<in> set s \<Longrightarrow> bs_insert k s = s"
  by (induction s) (auto simp: bs_ok_def)

lemma bs_ok_length: "bs_ok s \<Longrightarrow> length s = card (set s)"
  by (simp add: bs_ok_distinct distinct_card)

lemma bt_insert_length: "\<not> bt_contains_key m k \<Longrightarrow> length (bt_insert k v m) = Suc (length m)"
  by (induction k v m rule: bt_insert.induct) (auto simp: bt_contains_key_def)

lemma bt_ok_length: "bt_ok m \<Longrightarrow> length m = card (set (bt_keys m))"
  using distinct_card [OF bt_ok_distinct, of m] by (simp add: bt_keys_def)

section \<open>The contract of an ordered container\<close>

text \<open>
  What the clients of the containers use, whatever is stored: keys come in increasing
  order, inserting adds exactly one key, and the last key is the greatest.
\<close>

locale ordered_container =
  fixes ok :: "'c \<Rightarrow> bool"
    and empty :: 'c
    and ordered_keys :: "'c \<Rightarrow> 'k::linorder list"
    and insert_key :: "'k \<Rightarrow> 'v \<Rightarrow> 'c \<Rightarrow> 'c"
    and remove_key :: "'k \<Rightarrow> 'c \<Rightarrow> 'c"
  assumes ok_empty: "ok empty"
    and keys_empty: "ordered_keys empty = []"
    and ok_insert: "ok c \<Longrightarrow> ok (insert_key k v c)"
    and ok_remove: "ok c \<Longrightarrow> ok (remove_key k c)"
    and keys_sorted: "ok c \<Longrightarrow> sorted_wrt (<) (ordered_keys c)"
    and keys_insert: "set (ordered_keys (insert_key k v c)) = insert k (set (ordered_keys c))"
    and keys_remove: "set (ordered_keys (remove_key k c)) = set (ordered_keys c) - {k}"
begin

definition greatest :: "'c \<Rightarrow> 'k option" where
  "greatest c = last_opt (ordered_keys c)"

lemma greatest_iff:
  "ok c \<Longrightarrow> greatest c = Some k \<longleftrightarrow> k \<in> set (ordered_keys c) \<and> (\<forall>k'\<in>set (ordered_keys c). k' \<le> k)"
  unfolding greatest_def by (rule last_opt_iff_greatest [OF keys_sorted])

lemma greatest_None: "greatest c = None \<longleftrightarrow> set (ordered_keys c) = {}"
  by (simp add: greatest_def)

lemma greatest_insert:
  assumes "ok c"
  shows "greatest (insert_key k v c) =
    Some (case greatest c of None \<Rightarrow> k | Some k' \<Rightarrow> max k' k)"
proof (cases "greatest c")
  case None
  then show ?thesis
    using greatest_iff [OF ok_insert [OF assms], of k v k] greatest_None [of c] by (simp add: keys_insert)
next
  case (Some k')
  with greatest_iff [OF assms, of k'] have "k' \<in> set (ordered_keys c)" "\<forall>j\<in>set (ordered_keys c). j \<le> k'"
    by auto
  then show ?thesis
    using greatest_iff [OF ok_insert [OF assms], of k v "max k' k"] Some
    by (auto simp: keys_insert max_def)
qed

lemma greatest_mono:
  assumes "ok c" and "ok c'" and "set (ordered_keys c) \<subseteq> set (ordered_keys c')"
    and "greatest c = Some k"
  obtains k' where "greatest c' = Some k'" and "k \<le> k'"
proof -
  have "k \<in> set (ordered_keys c')" using assms by (auto simp: greatest_iff)
  then obtain k' where "greatest c' = Some k'"
    using greatest_None [of c'] by (cases "greatest c'") auto
  moreover have "k \<le> k'" using calculation \<open>k \<in> set (ordered_keys c')\<close> assms(2)
    by (auto simp: greatest_iff)
  ultimately show thesis by (rule that)
qed

end

interpretation btm: ordered_container bt_ok "[]" bt_keys bt_insert bt_remove
  by unfold_locales (simp_all, simp_all add: bt_ok_def bt_keys_def)

interpretation bts: ordered_container bs_ok "[]" "\<lambda>s. s" "\<lambda>k u. bs_insert k" bs_remove
  by unfold_locales (simp_all, simp_all add: bs_ok_def)

end
