(* ===== verification/TQ_Types.thy ===== *)
theory TQ_Types
  imports Shamir Ordered_Map
begin

text \<open>
  The data of the trust quorum protocol: hardware identifiers and their order, epochs,
  configurations, encrypted rack secrets, alarms, the messages between peers and from
  Nexus (\<^verbatim>\<open>trust-quorum/types/versions/src/initial\<close>,
  \<^verbatim>\<open>trust-quorum/protocol/src/messages.rs\<close>, \<^verbatim>\<open>sled-hardware/types/src/lib.rs\<close>).
\<close>

section \<open>Identifiers\<close>

datatype baseboard_id = BaseboardId (part_number: string) (serial_number: string)

text \<open>The derived order compares the part number first, then the serial number.\<close>

instantiation baseboard_id :: linorder
begin

definition less_baseboard_id :: "baseboard_id \<Rightarrow> baseboard_id \<Rightarrow> bool" where
  "less_baseboard_id a b \<longleftrightarrow>
     part_number a < part_number b \<or> part_number a = part_number b \<and> serial_number a < serial_number b"

definition less_eq_baseboard_id :: "baseboard_id \<Rightarrow> baseboard_id \<Rightarrow> bool" where
  "less_eq_baseboard_id a b \<longleftrightarrow> a < b \<or> a = b" for a b :: baseboard_id

instance
  by standard
    (auto simp: less_baseboard_id_def less_eq_baseboard_id_def intro: baseboard_id.expand)

end

definition baseboard_display :: "baseboard_id \<Rightarrow> string" where
  "baseboard_display b = part_number b @ '':'' @ serial_number b"

type_synonym rack_uuid = "u8 list"
type_synonym epoch = u64
type_synonym threshold = u8

definition epoch_next :: "epoch \<Rightarrow> epoch outcome" where
  "epoch_next e = expect ''fewer than 2^64 epochs'' (if unat e + 1 < 2 ^ 64 then Some (e + 1) else None)"

definition epoch_previous :: "epoch \<Rightarrow> epoch option" where
  "epoch_previous e = (if e = 0 then None else Some (e - 1))"

section \<open>Configurations\<close>

type_synonym sha3_256_digest = "u8 list"
type_synonym salt = "u8 list"

record encrypted_rack_secrets =
  ers_salt :: salt
  ers_data :: "u8 list"

record configuration =
  cfg_rack_id :: rack_uuid
  cfg_epoch :: epoch
  cfg_coordinator :: baseboard_id
  cfg_members :: "(baseboard_id, sha3_256_digest) btree_map"
  cfg_threshold :: threshold
  cfg_encrypted_rack_secrets :: "encrypted_rack_secrets option"

record new_config_params =
  ncp_rack_id :: rack_uuid
  ncp_epoch :: epoch
  ncp_members :: "baseboard_id btree_set"
  ncp_threshold :: threshold
  ncp_coordinator_id :: baseboard_id

datatype configuration_error = RackSecretSplit split_error | TooManyMembers

section \<open>Persistent state\<close>

text \<open>The data of the previous protocol (LRTQ) that the upgrade reads.\<close>

type_synonym lrtq_share = "u8 list"

record lrtq_share_data =
  lsd_rack_uuid :: rack_uuid
  lsd_epoch :: "32 word"
  lsd_threshold :: u8
  lsd_share :: lrtq_share
  lsd_share_digests :: "sha3_256_digest btree_set"

record expunged_metadata =
  exp_epoch :: epoch
  exp_from :: baseboard_id

record persistent_state_summary =
  pss_rack_id :: "rack_uuid option"
  pss_is_lrtq_only :: bool
  pss_is_uninitialized :: bool
  pss_latest_config :: "epoch option"
  pss_latest_committed_config :: "epoch option"
  pss_latest_share :: "epoch option"
  pss_expunged :: "expunged_metadata option"

record node_persistent_state_summary =
  nps_has_lrtq_share :: bool
  nps_configs :: "epoch btree_set"
  nps_shares :: "epoch btree_set"
  nps_commits :: "epoch btree_set"
  nps_expunged :: "expunged_metadata option"

section \<open>Errors and alarms\<close>

datatype rack_secret_reconstruct_error = Combine combine_error | Size

datatype decryption_error = Aead | InvalidLength

datatype alarm =
  MismatchedConfigurations configuration configuration string
| ShareComputationFailed epoch combine_error
| CommittedConfigurationLost epoch epoch
| RackSecretDecryptionFailed epoch decryption_error
| RackSecretReconstructionFailed epoch rack_secret_reconstruct_error

section \<open>Messages\<close>

record reconfigure_msg =
  rm_rack_id :: rack_uuid
  rm_epoch :: epoch
  rm_last_committed_epoch :: "epoch option"
  rm_members :: "baseboard_id btree_set"
  rm_threshold :: threshold

record lrtq_upgrade_msg =
  lum_rack_id :: rack_uuid
  lum_epoch :: epoch
  lum_members :: "baseboard_id btree_set"
  lum_threshold :: threshold

datatype peer_msg_kind =
  Prepare configuration share
| PrepareAck epoch
| GetShare epoch
| ShareMsg epoch share
| GetLrtqShare
| LrtqShareMsg lrtq_share
| Expunged epoch
| CommitAdvance configuration

record peer_msg =
  pm_rack_id :: rack_uuid
  pm_kind :: peer_msg_kind

record envelope =
  env_to :: baseboard_id
  env_from :: baseboard_id
  env_msg :: peer_msg

fun peer_msg_kind_name :: "peer_msg_kind \<Rightarrow> string" where
  "peer_msg_kind_name (Prepare _ _) = ''prepare''"
| "peer_msg_kind_name (PrepareAck _) = ''prepare_ack''"
| "peer_msg_kind_name (GetShare _) = ''get_share''"
| "peer_msg_kind_name (ShareMsg _ _) = ''share''"
| "peer_msg_kind_name GetLrtqShare = ''get_lrtq_share''"
| "peer_msg_kind_name (LrtqShareMsg _) = ''lrtq_share''"
| "peer_msg_kind_name (Expunged _) = ''expunged''"
| "peer_msg_kind_name (CommitAdvance _) = ''commit_advance''"

section \<open>Epoch arithmetic\<close>

lemma epoch_next_Done: "epoch_next e = Done e' \<longleftrightarrow> e' = e + 1 \<and> e' \<noteq> 0"
proof -
  have "e + 1 \<noteq> 0 \<longleftrightarrow> unat e \<noteq> unat (- 1 :: u64)"
    by (simp only: eq_neg_iff_add_eq_0 [symmetric] word_unat_eq_iff [of e "- 1"] simp_thms)
  then have "unat e + 1 < 2 ^ 64 \<longleftrightarrow> e + 1 \<noteq> 0"
    using unsigned_less [of e, where 'a = nat] by (auto simp: unsigned_minus_1_eq_mask mask_eq_exp_minus_1)
  then show ?thesis by (auto simp: epoch_next_def)
qed

lemma epoch_next_previous: "epoch_next e = Done e' \<longleftrightarrow> epoch_previous e' = Some e"
  by (auto simp: epoch_next_Done epoch_previous_def)

section \<open>Identifiers for the witnesses\<close>

definition sled_a :: baseboard_id where "sled_a = BaseboardId ''g'' ''''"
definition sled_b :: baseboard_id where "sled_b = BaseboardId ''g'' ''x''"
definition sled_c :: baseboard_id where "sled_c = BaseboardId ''g'' ''xx''"

lemma sleds_less [simp]:
  "sled_a < sled_b" "sled_a < sled_c" "sled_b < sled_c"
  "\<not> sled_b < sled_a" "\<not> sled_c < sled_a" "\<not> sled_c < sled_b"
  by (simp_all add: sled_a_def sled_b_def sled_c_def less_baseboard_id_def)

lemma sleds_distinct [simp]:
  "sled_a \<noteq> sled_b" "sled_a \<noteq> sled_c" "sled_b \<noteq> sled_c"
  "sled_b \<noteq> sled_a" "sled_c \<noteq> sled_a" "sled_c \<noteq> sled_b"
  by (simp_all add: sled_a_def sled_b_def sled_c_def)

end
