(* ===== verification/TQ_Crypto.thy ===== *)
theory TQ_Crypto
  imports TQ_Types
begin

text \<open>
  The cryptographic constructs of \<^verbatim>\<open>trust-quorum/protocol/src/crypto.rs\<close>: rack
  secrets, their splitting and reconstruction, the derivation of the key that encrypts the
  rack secrets of earlier epochs, their encoding, encryption and decryption. The
  primitives come from other crates (\<open>sha3\<close>, \<open>hkdf\<close>, \<open>chacha20poly1305\<close>,
  \<open>vsss_rs\<close>), so they are a parameter, the record \<open>crypto_env\<close>.
\<close>

section \<open>Primitives\<close>

text \<open>
  \<open>hkdf_expand salt ikm info n\<close> is \<open>Hkdf::<Sha3_256>::new(Some(salt), ikm)\<close> followed by
  \<open>expand_multi_info\<close> into \<open>n\<close> bytes; \<open>chacha_encrypt key nonce text\<close> and
  \<open>chacha_decrypt key nonce text\<close> are the \<open>aead\<close> operations, \<open>None\<close> for an error;
  \<open>lrtq_combine\<close> is \<open>vsss_rs::combine_shares\<close> read as bytes.
\<close>

record crypto_env =
  sha3_256 :: "u8 list \<Rightarrow> sha3_256_digest"
  hkdf_expand :: "salt \<Rightarrow> u8 list \<Rightarrow> u8 list list \<Rightarrow> nat \<Rightarrow> u8 list option"
  chacha_encrypt :: "u8 list \<Rightarrow> u8 list \<Rightarrow> u8 list \<Rightarrow> u8 list option"
  chacha_decrypt :: "u8 list \<Rightarrow> u8 list \<Rightarrow> u8 list \<Rightarrow> u8 list option"
  lrtq_combine :: "u8 list list \<Rightarrow> u8 list option"

text \<open>What the code relies on: decrypting with the same key and nonce undoes encrypting.\<close>

definition aead_inverts :: "crypto_env \<Rightarrow> bool" where
  "aead_inverts E \<longleftrightarrow>
     (\<forall>key nonce p c. chacha_encrypt E key nonce p = Some c \<longrightarrow> chacha_decrypt E key nonce c = Some p)"

text \<open>
  And that the primitives are usable: HKDF gives a key of the requested length (it refuses only
  much longer ones) which is not all zeroes, and the cipher encrypts.
\<close>

definition crypto_usable :: "crypto_env \<Rightarrow> bool" where
  "crypto_usable E \<longleftrightarrow>
     (\<forall>salt ikm info. \<exists>key. hkdf_expand E salt ikm info 32 = Some key \<and> key \<noteq> replicate 32 0) \<and>
     (\<forall>key nonce p. chacha_encrypt E key nonce p \<noteq> None)"

section \<open>Definitions\<close>

definition lrtq_share_size :: nat where
  "lrtq_share_size = 33"

definition secret_len :: nat where
  "secret_len = 32"

definition epoch_len :: nat where
  "epoch_len = 8"

definition chacha20poly1305_nonce_len :: nat where
  "chacha20poly1305_nonce_len = 12"

definition lrtq_share_new :: "u8 list \<Rightarrow> lrtq_share outcome" where
  "lrtq_share_new share =
     obind (assert_that ''share.len() == LRTQ_SHARE_SIZE'' (length share = lrtq_share_size))
       (\<lambda>_. Done share)"

definition lrtq_share_digest :: "crypto_env \<Rightarrow> lrtq_share \<Rightarrow> sha3_256_digest" where
  "lrtq_share_digest E share = sha3_256 E share"

definition share_digest :: "crypto_env \<Rightarrow> share \<Rightarrow> sha3_256_digest" where
  "share_digest E s = sha3_256 E (share_bytes s)"

text \<open>A rack secret, random or reconstructed, is an array of \<open>SECRET_LEN\<close> bytes.\<close>

type_synonym rack_secret = "u8 list"

definition reconstructed_try_from ::
  "u8 list \<Rightarrow> (rack_secret, rack_secret_reconstruct_error) rust_result" where
  "reconstructed_try_from bs = (if length bs = secret_len then Ok bs else Err Size)"

definition salt_new :: "rng \<Rightarrow> salt \<times> rng" where
  "salt_new rng = rng_take 32 rng"

text \<open>The loop of \<open>RackSecret::new\<close> draws until the data is not all zeroes.\<close>

partial_function (option) rack_secret_loop :: "u8 list \<Rightarrow> rng \<Rightarrow> (rack_secret \<times> rng) option" where
  "rack_secret_loop data rng =
     (if data = replicate secret_len 0
      then rack_secret_loop (fst (rng_take secret_len rng)) (snd (rng_take secret_len rng))
      else Some (data, rng))"

definition rack_secret_new :: "rng \<Rightarrow> (rack_secret \<times> rng) outcome" where
  "rack_secret_new rng =
     (case rack_secret_loop (replicate secret_len 0) rng of
        None \<Rightarrow> Diverge
      | Some r \<Rightarrow> Done r)"

definition rack_secret_split ::
  "rack_secret \<Rightarrow> threshold \<Rightarrow> u8 \<Rightarrow> rng \<Rightarrow> (secret_shares \<times> rng, split_error) rust_result outcome" where
  "rack_secret_split secret threshold total_shares rng = split_secret secret total_shares threshold rng"

definition rack_secret_reconstruct ::
  "share list \<Rightarrow> (rack_secret, rack_secret_reconstruct_error) rust_result" where
  "rack_secret_reconstruct shares =
     (case compute_secret shares of
        Inl e \<Rightarrow> Err (Combine e)
      | Inr secret \<Rightarrow> reconstructed_try_from secret)"

text \<open>\<open>u64::to_be_bytes\<close> and \<open>u64::from_be_bytes\<close>.\<close>

definition to_be_bytes :: "u64 \<Rightarrow> u8 list" where
  "to_be_bytes w = map (\<lambda>i. word_of_nat (unat w div 256 ^ i)) (rev [0..<8])"

definition from_be_bytes :: "u8 list \<Rightarrow> u64" where
  "from_be_bytes bs = word_of_nat (foldl (\<lambda>a b. a * 256 + unat b) 0 bs)"

definition ascii :: "string \<Rightarrow> u8 list" where
  "ascii s = map (\<lambda>c. word_of_nat (of_char c)) s"

definition derive_encryption_key_for_rack_secrets ::
  "crypto_env \<Rightarrow> rack_uuid \<Rightarrow> epoch \<Rightarrow> salt \<Rightarrow> rack_secret \<Rightarrow> u8 list outcome" where
  "derive_encryption_key_for_rack_secrets E rack_id epoch salt rack_secret =
     obind (expect ''called `Result::unwrap()` on an `Err` value''
              (hkdf_expand E salt rack_secret
                 [ascii ''trust-quorum-v1-rack-secrets'', rack_id, to_be_bytes epoch] secret_len))
       (\<lambda>key. obind (assert_that ''!is_key_all_zeroes'' (key \<noteq> replicate secret_len 0))
         (\<lambda>_. Done key))"

type_synonym plaintext_rack_secrets = "(epoch, rack_secret) btree_map"

definition plaintext_insert ::
  "plaintext_rack_secrets \<Rightarrow> epoch \<Rightarrow> rack_secret \<Rightarrow> plaintext_rack_secrets outcome" where
  "plaintext_insert secrets epoch secret =
     obind (assert_that ''self.secrets.insert(epoch, secret).is_none()'' (\<not> bt_contains_key secrets epoch))
       (\<lambda>_. Done (bt_insert epoch secret secrets))"

text \<open>\<open>chunks_exact\<close>: whole chunks only.\<close>

function chunks_exact :: "nat \<Rightarrow> 'a list \<Rightarrow> 'a list list" where
  "chunks_exact n xs = (if n = 0 \<or> length xs < n then [] else take n xs # chunks_exact n (drop n xs))"
  by pat_completeness auto
termination by (relation "measure (length \<circ> snd)") auto

declare chunks_exact.simps [simp del]

definition decrypt_rack_secrets ::
  "crypto_env \<Rightarrow> encrypted_rack_secrets \<Rightarrow> rack_uuid \<Rightarrow> epoch \<Rightarrow> rack_secret \<Rightarrow>
   (plaintext_rack_secrets, decryption_error) rust_result outcome" where
  "decrypt_rack_secrets E encrypted rack_id epoch rack_secret =
     obind (derive_encryption_key_for_rack_secrets E rack_id epoch (ers_salt encrypted) rack_secret)
       (\<lambda>key.
         case chacha_decrypt E key (replicate chacha20poly1305_nonce_len 0) (ers_data encrypted) of
           None \<Rightarrow> Done (Err Aead)
         | Some plaintext \<Rightarrow>
             (if length plaintext mod (secret_len + epoch_len) \<noteq> 0 then Done (Err InvalidLength)
              else obind
                (ofold (\<lambda>secrets p. plaintext_insert secrets (from_be_bytes (take epoch_len p)) (drop epoch_len p))
                   [] (chunks_exact (secret_len + epoch_len) plaintext))
                (\<lambda>secrets. Done (Ok secrets))))"

text \<open>The plaintext that \<open>encrypt\<close> builds.\<close>

definition encode_rack_secrets :: "plaintext_rack_secrets \<Rightarrow> u8 list" where
  "encode_rack_secrets secrets = concat (map (\<lambda>(epoch, secret). to_be_bytes epoch @ secret) secrets)"

datatype aead_error = AeadError

definition encrypt_rack_secrets ::
  "crypto_env \<Rightarrow> plaintext_rack_secrets \<Rightarrow> rack_uuid \<Rightarrow> epoch \<Rightarrow> rack_secret \<Rightarrow> rng \<Rightarrow>
   (encrypted_rack_secrets \<times> rng, aead_error) rust_result outcome" where
  "encrypt_rack_secrets E secrets rack_id new_epoch new_rack_secret rng =
     obind (assert_that ''!self.secrets.is_empty()'' (secrets \<noteq> []))
       (\<lambda>_. let (salt, rng) = salt_new rng in
         obind (derive_encryption_key_for_rack_secrets E rack_id new_epoch salt new_rack_secret)
           (\<lambda>key.
             case chacha_encrypt E key (replicate chacha20poly1305_nonce_len 0) (encode_rack_secrets secrets) of
               None \<Rightarrow> Done (Err AeadError)
             | Some encrypted \<Rightarrow> Done (Ok (\<lparr>ers_salt = salt, ers_data = encrypted\<rparr>, rng))))"

text \<open>
  \<open>validate_share\<close> of \<^verbatim>\<open>trust-quorum/protocol/src/lib.rs\<close>: the share is for the
  configuration's epoch, from one of its members, and has the recorded digest.
\<close>

definition validate_share :: "crypto_env \<Rightarrow> configuration \<Rightarrow> baseboard_id \<Rightarrow> epoch \<Rightarrow> share \<Rightarrow> bool" where
  "validate_share E config from epoch share =
     (if epoch \<noteq> cfg_epoch config then False
      else (case bt_get (cfg_members config) from of
              None \<Rightarrow> False
            | Some expected_digest \<Rightarrow> share_digest E share = expected_digest))"

section \<open>Random rack secrets\<close>

text \<open>The \<open>i\<close>-th block of \<open>SECRET_LEN\<close> bytes of the random source.\<close>

definition rng_block :: "rng \<Rightarrow> nat \<Rightarrow> u8 list" where
  "rng_block rng i = map (\<lambda>j. rng (j + secret_len * i)) [0..<secret_len]"

definition rng_skip :: "nat \<Rightarrow> rng \<Rightarrow> rng" where
  "rng_skip n rng = (\<lambda>j. rng (j + n))"

lemma rng_take_block: "rng_take secret_len rng = (rng_block rng 0, rng_skip secret_len rng)"
  by (simp add: rng_take_def rng_block_def rng_skip_def)

lemma rng_block_skip: "rng_block (rng_skip (secret_len * n) rng) i = rng_block rng (n + i)"
  by (auto simp: rng_block_def rng_skip_def algebra_simps)

lemma rng_skip_skip: "rng_skip n (rng_skip m rng) = rng_skip (n + m) rng"
  by (simp add: rng_skip_def add.assoc)

lemma length_rng_block [simp]: "length (rng_block rng i) = secret_len"
  by (simp add: rng_block_def)

abbreviation zero_block :: "u8 list" where
  "zero_block \<equiv> replicate secret_len 0"

lemma rack_secret_loop_first_block:
  assumes "rng_block rng n \<noteq> zero_block" and "\<And>i. i < n \<Longrightarrow> rng_block rng i = zero_block"
  shows "rack_secret_loop zero_block rng = Some (rng_block rng n, rng_skip (secret_len * Suc n) rng)"
  using assms
proof (induction n arbitrary: rng)
  case 0
  then show ?case
    by (subst rack_secret_loop.simps, simp only: if_True rng_take_block fst_conv snd_conv)
      (subst rack_secret_loop.simps, simp)
next
  case (Suc n)
  let ?rng = "rng_skip secret_len rng"
  have blk: "rng_block ?rng i = rng_block rng (Suc i)" for i
    using rng_block_skip [of 1 rng i] by simp
  have "rng_block rng 0 = zero_block" using Suc.prems(2) by simp
  moreover have "rack_secret_loop zero_block ?rng =
      Some (rng_block ?rng n, rng_skip (secret_len * Suc n) ?rng)"
    by (rule Suc.IH) (simp_all add: blk Suc.prems)
  ultimately show ?case
    by (subst rack_secret_loop.simps) (simp add: rng_take_block blk rng_skip_skip algebra_simps)
qed

lemma rack_secret_loop_returns_nonzero:
  assumes "rack_secret_loop zero_block rng = Some r"
  shows "\<exists>n. rng_block rng n \<noteq> zero_block"
proof -
  have "data = zero_block \<longrightarrow> (\<exists>n. rng_block rng n \<noteq> zero_block)"
    if "rack_secret_loop data rng = Some r" for data rng r
  proof (rule rack_secret_loop.raw_induct [OF _ that], intro impI)
    fix loop and data :: "u8 list" and rng r
    assume IH: "\<And>data rng r. loop data rng = Some r \<Longrightarrow>
        data = zero_block \<longrightarrow> (\<exists>n. rng_block rng n \<noteq> zero_block)"
      and body: "(if data = zero_block
          then loop (fst (rng_take secret_len rng)) (snd (rng_take secret_len rng))
          else Some (data, rng)) = Some r"
      and zero: "data = zero_block"
    from body zero IH [of "rng_block rng 0" "rng_skip secret_len rng" r] rng_block_skip [of 1 rng]
    show "\<exists>n. rng_block rng n \<noteq> zero_block" by (auto simp: rng_take_block)
  qed
  with assms show ?thesis by blast
qed

lemma rack_secret_new_Done:
  assumes "rack_secret_new rng = Done (secret, rng')"
  obtains n where "secret = rng_block rng n" and "rng_block rng n \<noteq> zero_block"
    and "rng' = rng_skip (secret_len * Suc n) rng"
proof -
  from assms have ret: "rack_secret_loop zero_block rng = Some (secret, rng')"
    by (auto simp: rack_secret_new_def split: option.splits)
  define n where "n = (LEAST n. rng_block rng n \<noteq> zero_block)"
  have "rng_block rng n \<noteq> zero_block"
    using rack_secret_loop_returns_nonzero [OF ret] unfolding n_def by (rule LeastI_ex)
  moreover have "rng_block rng i = zero_block" if "i < n" for i
    using not_less_Least that unfolding n_def by blast
  ultimately show thesis using rack_secret_loop_first_block [of rng n] ret that by auto
qed

text \<open>
  Creating a rack secret ends exactly when the random source has a block that is not all
  zeroes, and then the secret is the first such block.
\<close>

theorem rack_secret_new_total:
  "(rack_secret_new rng = Diverge \<longleftrightarrow> rng_block rng = (\<lambda>n. zero_block)) \<and>
   (rack_secret_new rng \<noteq> Diverge \<longleftrightarrow>
     (\<exists>n. rng_block rng n \<noteq> zero_block \<and> map (rng_block rng) [0..<n] = replicate n zero_block \<and>
        rack_secret_new rng = Done (rng_block rng n, rng_skip (secret_len * Suc n) rng)))"
proof (cases "\<exists>n. rng_block rng n \<noteq> zero_block")
  case True
  define n where "n = (LEAST n. rng_block rng n \<noteq> zero_block)"
  have n: "rng_block rng n \<noteq> zero_block" using True unfolding n_def by (rule LeastI_ex)
  have before: "rng_block rng i = zero_block" if "i < n" for i
    using not_less_Least that unfolding n_def by blast
  have "rack_secret_new rng = Done (rng_block rng n, rng_skip (secret_len * Suc n) rng)"
    using rack_secret_loop_first_block [OF n before] by (simp add: rack_secret_new_def)
  moreover have "map (rng_block rng) [0..<n] = replicate n zero_block"
    by (rule nth_equalityI) (simp_all add: before)
  ultimately show ?thesis using n by (auto simp: fun_eq_iff)
next
  case False
  then have "rack_secret_loop zero_block rng = None"
    using rack_secret_loop_returns_nonzero [of rng] by (cases "rack_secret_loop zero_block rng") auto
  with False show ?thesis by (auto simp: rack_secret_new_def)
qed

section \<open>Encoding of rack secrets\<close>

lemma length_to_be_bytes [simp]: "length (to_be_bytes w) = epoch_len"
  by (simp add: to_be_bytes_def epoch_len_def)

lemma foldl_base256:
  "foldl (\<lambda>a b. a * 256 + unat (b :: u8)) a (map (\<lambda>i. word_of_nat (n div 256 ^ i)) (rev [0..<k])) =
     a * 256 ^ k + n mod 256 ^ k"
proof (induction k arbitrary: a)
  case (Suc k)
  have "n mod 256 ^ Suc k = 256 ^ k * (n div 256 ^ k mod 256) + n mod 256 ^ k"
    using mod_mult2_eq [of n "256 ^ k" 256] by (simp add: mult.commute)
  moreover have "unat (word_of_nat (n div 256 ^ k) :: u8) = n div 256 ^ k mod 256"
    by (simp add: unat_of_nat)
  ultimately show ?case using Suc.IH [of "a * 256 + n div 256 ^ k mod 256"]
    by (simp add: algebra_simps)
qed simp

lemma from_to_be_bytes [simp]: "from_be_bytes (to_be_bytes w) = w"
proof -
  have "unat w < 256 ^ 8" using unsigned_less [of w, where 'a = nat] by simp
  then show ?thesis
    unfolding from_be_bytes_def to_be_bytes_def foldl_base256 by (simp only: mod_less mult_0 add_0) simp
qed

lemma chunks_exact_append:
  "length x = n \<Longrightarrow> 0 < n \<Longrightarrow> chunks_exact n (x @ xs) = x # chunks_exact n xs"
  by (subst chunks_exact.simps) simp

lemma chunks_exact_concat:
  "0 < n \<Longrightarrow> (\<And>x. x \<in> set xs \<Longrightarrow> length x = n) \<Longrightarrow> chunks_exact n (concat xs) = xs"
  by (induction xs) (auto simp: chunks_exact_append, simp add: chunks_exact.simps)

definition wf_secrets :: "plaintext_rack_secrets \<Rightarrow> bool" where
  "wf_secrets secrets = (bt_ok secrets \<and> list_all (\<lambda>(e, s). length s = secret_len) secrets)"

lemma wf_secrets_insert [simp]:
  assumes "wf_secrets m" and "length s = secret_len"
  shows "wf_secrets (bt_insert e s m)"
  using assms by (auto simp: wf_secrets_def list_all_iff bt_set_insert bt_remove_def)

lemma insert_in_order:
  assumes "bt_ok (m @ secrets)"
  shows "ofold (\<lambda>m p. plaintext_insert m (fst p) (snd p)) m secrets = Done (m @ secrets)"
  using assms
proof (induction secrets arbitrary: m)
  case (Cons p secrets)
  obtain e s where p: "p = (e, s)" by fastforce
  have below: "\<forall>k\<in>set (map fst m). k < e"
    using Cons.prems by (auto simp: p bt_ok_def sorted_wrt_append)
  then have "plaintext_insert m e s = Done (m @ [(e, s)])"
    using bt_insert_above [OF below] less_irrefl below
    by (auto simp: plaintext_insert_def bt_contains_key_def image_iff assert_that_def)
  then show ?case using Cons.IH [of "m @ [(e, s)]"] Cons.prems by (simp add: p)
qed simp

lemma length_encode_rack_secrets:
  "list_all (\<lambda>(e, s). length s = secret_len) m \<Longrightarrow>
   length (encode_rack_secrets m) = length m * (secret_len + epoch_len)"
  by (induction m) (auto simp: encode_rack_secrets_def)

lemma decode_encode_rack_secrets:
  assumes "wf_secrets secrets"
  shows "ofold (\<lambda>m p. plaintext_insert m (from_be_bytes (take epoch_len p)) (drop epoch_len p)) []
      (chunks_exact (secret_len + epoch_len) (encode_rack_secrets secrets)) = Done secrets"
proof -
  have "chunks_exact (secret_len + epoch_len) (encode_rack_secrets secrets) =
      map (\<lambda>(e, s). to_be_bytes e @ s) secrets"
    unfolding encode_rack_secrets_def using assms
    by (intro chunks_exact_concat)
      (auto simp: wf_secrets_def list_all_iff secret_len_def epoch_len_def [symmetric])
  moreover have "bt_ok ([] @ secrets)" using assms by (simp add: wf_secrets_def)
  ultimately show ?thesis
    by (simp add: ofold_map split_beta insert_in_order [of "[]" secrets])
qed

lemma decrypt_encrypted:
  assumes "aead_inverts E" and "wf_secrets secrets"
    and "encrypt_rack_secrets E secrets rack_id epoch rack_secret rng = Done (Ok (encrypted, rng'))"
  shows "decrypt_rack_secrets E encrypted rack_id epoch rack_secret = Done (Ok secrets)"
proof -
  from assms(3) obtain key c where
    key: "derive_encryption_key_for_rack_secrets E rack_id epoch (ers_salt encrypted) rack_secret = Done key"
    and c: "chacha_encrypt E key (replicate chacha20poly1305_nonce_len 0) (encode_rack_secrets secrets) = Some c"
      "ers_data encrypted = c"
    by (auto simp: encrypt_rack_secrets_def obind_eq_Done Let_def split: prod.splits option.splits)
  have "chacha_decrypt E key (replicate chacha20poly1305_nonce_len 0) c = Some (encode_rack_secrets secrets)"
    using assms(1) c by (simp add: aead_inverts_def)
  with key c decode_encode_rack_secrets [OF assms(2)] assms(2) show ?thesis
    by (simp add: decrypt_rack_secrets_def wf_secrets_def length_encode_rack_secrets)
qed

lemma derive_key_returns:
  assumes "crypto_usable E"
  obtains key where "derive_encryption_key_for_rack_secrets E rack_id epoch salt rack_secret = Done key"
proof -
  obtain key where "hkdf_expand E salt rack_secret
      [ascii ''trust-quorum-v1-rack-secrets'', rack_id, to_be_bytes epoch] secret_len = Some key"
    "key \<noteq> replicate secret_len 0"
    using assms unfolding crypto_usable_def secret_len_def by blast
  then show thesis using that by (simp add: derive_encryption_key_for_rack_secrets_def)
qed

lemma encrypt_returns:
  assumes "crypto_usable E" and "secrets \<noteq> []"
  obtains enc rng' where "encrypt_rack_secrets E secrets rack_id epoch rack_secret rng = Done (Ok (enc, rng'))"
proof -
  obtain salt rng1 where s: "salt_new rng = (salt, rng1)" by fastforce
  from assms(1) obtain key where
    "derive_encryption_key_for_rack_secrets E rack_id epoch salt rack_secret = Done key"
    by (rule derive_key_returns)
  moreover obtain c where
    "chacha_encrypt E key (replicate chacha20poly1305_nonce_len 0) (encode_rack_secrets secrets) = Some c"
    using assms(1) unfolding crypto_usable_def by blast
  ultimately show thesis using that assms(2) s by (simp add: encrypt_rack_secrets_def)
qed

text \<open>
  C38: the rack secrets of earlier epochs survive encryption: whatever \<open>encrypt\<close> produced
  is decrypted to the same map by the same rack secret, rack id and epoch, without a panic.
\<close>

theorem decrypt_encrypted_rack_secrets:
  assumes "aead_inverts E" and "wf_secrets secrets"
    and "encrypt_rack_secrets E secrets rack_id epoch rack_secret rng = Done (Ok (encrypted, rng'))"
  shows "decrypt_rack_secrets E encrypted rack_id epoch rack_secret = Done (Ok secrets)"
  using assms by (rule decrypt_encrypted)

text \<open>Primitives with the assumed laws, for the witnesses.\<close>

definition toy_env :: crypto_env where
  "toy_env = \<lparr>sha3_256 = (\<lambda>bs. bs), hkdf_expand = (\<lambda>salt ikm info n. Some (replicate n 1)),
     chacha_encrypt = (\<lambda>key nonce p. Some (key @ p)),
     chacha_decrypt = (\<lambda>key nonce c. if take (length key) c = key then Some (drop (length key) c) else None),
     lrtq_combine = (\<lambda>ss. Some (replicate 32 1))\<rparr>"

lemma toy_env_ok: "aead_inverts toy_env"
  by (simp add: aead_inverts_def toy_env_def)

lemma toy_env_usable: "crypto_usable toy_env"
  by (simp add: crypto_usable_def toy_env_def numeral_eq_Suc)

lemma toy_env_simps [simp]:
  "chacha_encrypt toy_env key nonce p = Some (key @ p)"
  "sha3_256 toy_env bs = bs"
  by (simp_all add: toy_env_def)

lemma toy_key:
  "derive_encryption_key_for_rack_secrets toy_env rack_id e salt rs = Done (replicate secret_len 1)"
  by (simp add: derive_encryption_key_for_rack_secrets_def toy_env_def secret_len_def)

lemma salt_new_const: "salt_new (\<lambda>_. b) = (replicate 32 b, \<lambda>_. b)"
  by (simp only: salt_new_def rng_take_def map_replicate_const length_upt diff_zero)

theorem decrypt_encrypted_rack_secrets_witness:
  "decrypt_rack_secrets toy_env
     \<lparr>ers_salt = replicate 32 5,
      ers_data = replicate secret_len 1 @
        encode_rack_secrets [(1, replicate secret_len 9), (2, replicate secret_len 8)]\<rparr>
     [] 3 (replicate secret_len 7) = Done (Ok [(1, replicate secret_len 9), (2, replicate secret_len 8)])"
  by (rule decrypt_encrypted_rack_secrets [OF toy_env_ok, where rng = "\<lambda>_. 5" and rng' = "\<lambda>_. 5"])
    (simp_all add: wf_secrets_def bt_ok_def encrypt_rack_secrets_def salt_new_const toy_key)

section \<open>Reconstruction\<close>

text \<open>
  A rack secret that was created and split is reconstructed by any selection of at least
  \<open>threshold\<close> of its shares.
\<close>

theorem rack_secret_reconstruct_split:
  assumes "rack_secret_new rng = Done (secret, rng1)"
    and "rack_secret_split secret threshold total_shares rng1 = Done (Ok (ss, rng2))"
    and "set picked \<subseteq> set (ss_shares ss)" and "distinct picked" and "unat threshold \<le> length picked"
  shows "rack_secret_reconstruct picked = Ok secret"
proof -
  from assms(2) obtain d where d: "wf_deal d" "fst d = unat threshold" "deal_secret d = secret"
    "ss_shares ss = map (share_at (snd d)) (split_coordinates total_shares)"
    unfolding rack_secret_split_def split_secret_def by (rule split_deal)
  have "compute_secret picked = Ok secret"
    using gfss.combine_selection [OF d(1) selection_dealt [OF d(4) assms(3,4)]] assms(5) d by simp
  moreover have "length secret = secret_len"
    by (rule rack_secret_new_Done [OF assms(1)]) simp
  ultimately show ?thesis by (simp add: rack_secret_reconstruct_def reconstructed_try_from_def)
qed

lemma rack_secret_new_example: "rack_secret_new (\<lambda>_. 7) = Done (replicate secret_len 7, \<lambda>_. 7)"
proof -
  have blk: "rng_block (\<lambda>_. 7) n = replicate secret_len 7" for n
    by (simp add: rng_block_def map_replicate_const)
  have "rng_block (\<lambda>_. 7) 0 \<noteq> zero_block" by (simp add: blk secret_len_def)
  from rack_secret_loop_first_block [OF this] show ?thesis
    by (simp add: rack_secret_new_def blk rng_skip_def)
qed

definition example_secret_shares :: "share list" where
  "example_secret_shares = map (share_at (replicate secret_len [Gf256 7, Gf256 7])) (split_coordinates 3)"

lemma split_polynomials_const:
  "split_polynomials (replicate n b) 2 (\<lambda>_. b) = (replicate n [Gf256 b, Gf256 b], \<lambda>_. b)"
  by (induction n) (simp_all add: random_with_constant_term_def rng_take_def gf256_new_def upt_rec)

lemma example_secret_split:
  "rack_secret_split (replicate secret_len 7) 2 3 (\<lambda>_. 7) =
     Done (Ok (\<lparr>ss_threshold = ValidThreshold 2, ss_shares = example_secret_shares\<rparr>, \<lambda>_. 7))"
  by (simp add: rack_secret_split_def split_secret_def split_secret_impl_eq split_polynomials_const
      example_secret_shares_def)

lemma example_secret_shares_props:
  "length example_secret_shares = 3" "distinct example_secret_shares"
  by (simp_all add: example_secret_shares_def example_coordinates share_at_def)

theorem rack_secret_reconstruct_split_witness:
  "rack_secret_reconstruct [example_secret_shares ! 1, example_secret_shares ! 2] =
     Ok (replicate secret_len 7)"
  by (rule rack_secret_reconstruct_split [OF rack_secret_new_example example_secret_split])
    (simp_all add: example_secret_shares_props nth_eq_iff_index_eq)

end
