(* ===== verification/TQ_Configuration.thy ===== *)
theory TQ_Configuration
  imports TQ_Crypto
begin

text \<open>
  \<^verbatim>\<open>trust-quorum/protocol/src/configuration.rs\<close>: creating the configuration of an epoch
  together with the key shares of its members. The main facts: the digests recorded in the
  configuration are those of the shares, and enough of the shares give the rack secret.
\<close>

section \<open>Definitions\<close>

definition new_configuration ::
  "crypto_env \<Rightarrow> new_config_params \<Rightarrow> rng \<Rightarrow>
   ((configuration \<times> (baseboard_id, share) btree_map) \<times> rng, configuration_error) rust_result outcome" where
  "new_configuration E params rng =
     obind (rack_secret_new rng) (\<lambda>(rack_secret, rng).
       if 255 < length (ncp_members params) then Done (Err TooManyMembers)
       else
         obind (rack_secret_split rack_secret (ncp_threshold params)
                  (word_of_nat (length (ncp_members params))) rng)
           (\<lambda>r. case r of
                  Inl e \<Rightarrow> Done (Err (RackSecretSplit e))
                | Inr (split, rng) \<Rightarrow>
                    (let shares_and_digests = map (\<lambda>s. (s, share_digest E s)) (ss_shares split);
                         (members, shares) =
                           foldl (\<lambda>(members, shares) (platform_id, (share, digest)).
                               (bt_insert platform_id digest members, bt_insert platform_id share shares))
                             ([], []) (zip (ncp_members params) shares_and_digests)
                     in Done (Ok ((\<lparr>cfg_rack_id = ncp_rack_id params,
                                    cfg_epoch = ncp_epoch params,
                                    cfg_coordinator = ncp_coordinator_id params,
                                    cfg_members = members,
                                    cfg_threshold = ncp_threshold params,
                                    cfg_encrypted_rack_secrets = None\<rparr>, shares), rng)))))"

definition configurations_equal_except_for_crypto_data :: "configuration \<Rightarrow> configuration \<Rightarrow> bool" where
  "configurations_equal_except_for_crypto_data a b =
     (let encrypted_rack_secrets_match =
            (case (cfg_encrypted_rack_secrets a, cfg_encrypted_rack_secrets b) of
               (None, None) \<Rightarrow> True
             | (Some _, Some _) \<Rightarrow> True
             | _ \<Rightarrow> False)
      in cfg_rack_id a = cfg_rack_id b \<and>
         cfg_epoch a = cfg_epoch b \<and>
         cfg_coordinator a = cfg_coordinator b \<and>
         list_all (\<lambda>(id1, id2). id1 = id2) (zip (bt_keys (cfg_members a)) (bt_keys (cfg_members b))) \<and>
         cfg_threshold a = cfg_threshold b \<and>
         encrypted_rack_secrets_match)"

section \<open>What a new configuration holds\<close>

lemma foldl_pair:
  "foldl (\<lambda>(a, b) x. (f a x, g b x)) (a, b) xs = (foldl f a xs, foldl g b xs)"
  by (induction xs arbitrary: a b) simp_all

lemma foldl_map_arg: "foldl f a (map g xs) = foldl (\<lambda>a x. f a (g x)) a xs"
  by (induction xs arbitrary: a) simp_all

lemma foldl_bt_insert_map:
  "bt_ok (map g xs) \<Longrightarrow> foldl (\<lambda>m x. bt_insert (fst (g x)) (snd (g x)) m) [] xs = map g xs"
  using foldl_bt_insert_in_order [of "[]" "map g xs"] by (simp add: foldl_map_arg)

lemma members_and_shares:
  assumes "bs_ok ks"
  shows "foldl (\<lambda>(members, shares) (k, (s, d)). (bt_insert k d members, bt_insert k s shares))
      ([], []) (zip ks (map (\<lambda>s. (s, h s)) ss)) = (zip ks (map h ss), zip ks ss)"
proof -
  let ?xs = "zip ks (map (\<lambda>s. (s, h s)) ss)"
  have m: "map (\<lambda>x. (fst x, snd (snd x))) ?xs = zip ks (map h ss)"
    and s: "map (\<lambda>x. (fst x, fst (snd x))) ?xs = zip ks ss"
    by (rule nth_equalityI; simp)+
  show ?thesis
    using foldl_pair [of "\<lambda>m x. bt_insert (fst x) (snd (snd x)) m"
        "\<lambda>m x. bt_insert (fst x) (fst (snd x)) m" "[]" "[]" ?xs]
      foldl_bt_insert_map [of "\<lambda>x. (fst x, snd (snd x))" ?xs, unfolded m fst_conv snd_conv, OF bt_ok_zip [OF assms]]
      foldl_bt_insert_map [of "\<lambda>x. (fst x, fst (snd x))" ?xs, unfolded s fst_conv snd_conv, OF bt_ok_zip [OF assms]]
    by (simp add: split_def)
qed

text \<open>Shares and digests that belong together: dealt for the members in order.\<close>

definition dealt_config :: "crypto_env \<Rightarrow> deal \<Rightarrow> configuration \<Rightarrow> (baseboard_id, share) btree_map \<Rightarrow> bool" where
  "dealt_config E d config shares \<longleftrightarrow>
     wf_deal d \<and> fst d = unat (cfg_threshold config) \<and> length (deal_secret d) = secret_len \<and>
     bt_ok shares \<and> length shares \<le> 255 \<and>
     map snd shares = map (share_at (snd d)) (split_coordinates (word_of_nat (length shares))) \<and>
     cfg_members config = map (\<lambda>(k, s). (k, share_digest E s)) shares"

lemma new_configuration_Ok:
  assumes "new_configuration E params rng = Done (Ok ((config, shares), rng'))"
    and "bs_ok (ncp_members params)"
  obtains d where "dealt_config E d config shares" and "deal_secret d \<noteq> zero_block"
    and "bt_keys shares = ncp_members params" and "bt_keys (cfg_members config) = ncp_members params"
    and "2 \<le> cfg_threshold config" and "unat (cfg_threshold config) \<le> length (ncp_members params)"
    and "cfg_rack_id config = ncp_rack_id params" and "cfg_epoch config = ncp_epoch params"
    and "cfg_coordinator config = ncp_coordinator_id params"
    and "cfg_threshold config = ncp_threshold params" and "cfg_encrypted_rack_secrets config = None"
proof -
  let ?n = "word_of_nat (length (ncp_members params)) :: u8"
  obtain secret rng1 where new: "rack_secret_new rng = Done (secret, rng1)"
    using assms(1) by (auto simp: new_configuration_def obind_eq_Done)
  have len: "length (ncp_members params) \<le> 255"
    using assms(1) new by (auto simp: new_configuration_def split: if_split_asm)
  then obtain r where r: "rack_secret_split secret (ncp_threshold params) ?n rng1 = Done r"
    using assms(1) new by (auto simp: new_configuration_def obind_eq_Done)
  with assms(1) new len obtain ss rng2 where rr: "r = Ok (ss, rng2)"
    by (cases r) (auto simp: new_configuration_def)
  note split = r [unfolded rr]
  from assms(1) new len split
  have config: "config = \<lparr>cfg_rack_id = ncp_rack_id params, cfg_epoch = ncp_epoch params,
        cfg_coordinator = ncp_coordinator_id params,
        cfg_members = zip (ncp_members params) (map (share_digest E) (ss_shares ss)),
        cfg_threshold = ncp_threshold params, cfg_encrypted_rack_secrets = None\<rparr>"
    and shares: "shares = zip (ncp_members params) (ss_shares ss)"
    by (auto simp: new_configuration_def members_and_shares [OF assms(2)] Let_def)
  from split obtain d where d: "wf_deal d" "fst d = unat (ncp_threshold params)" "deal_secret d = secret"
    "ss_shares ss = map (share_at (snd d)) (split_coordinates ?n)" "2 \<le> ncp_threshold params"
    "ncp_threshold params \<le> ?n"
    unfolding rack_secret_split_def split_secret_def by (rule split_deal)
  have n: "unat ?n = length (ncp_members params)" using len by (simp add: unat_of_nat)
  have lens: "length (ss_shares ss) = length (ncp_members params)"
    using d(4) n by (simp add: split_coordinates_props(3))
  have secret: "length secret = secret_len" "secret \<noteq> zero_block"
    using rack_secret_new_Done [OF new] length_rng_block by metis+
  have "dealt_config E d config shares"
    unfolding dealt_config_def config shares
    using d secret len lens bt_ok_zip [OF assms(2), of "ss_shares ss"]
    by (auto simp: intro!: nth_equalityI)
  then show thesis
    using that d secret n lens len config shares
    by (auto simp: bt_keys_def word_le_nat_alt)
qed

lemma new_configuration_returns:
  assumes "rack_secret_new rng = Done sr"
  shows "\<exists>r. new_configuration E params rng = Done r"
proof -
  obtain s rng1 where sr: "sr = (s, rng1)" by fastforce
  have "\<exists>r. rack_secret_split s k n rng1 = Done r" for k n
    using split_secret_impl_cases [of s n k rng1]
    by (auto simp: rack_secret_split_def split_secret_def Let_def split: prod.splits)
  then obtain r where "rack_secret_split s (ncp_threshold params)
      (word_of_nat (length (ncp_members params))) rng1 = Done r" by blast
  with assms sr show ?thesis
    by (cases r) (auto simp: new_configuration_def Let_def split: prod.splits)
qed

lemma dealt_config_keys: "dealt_config E d config shares \<Longrightarrow> bt_keys (cfg_members config) = bt_keys shares"
  by (auto simp: dealt_config_def bt_keys_def)

lemma dealt_config_digest:
  assumes "dealt_config E d config shares" and "(k, s) \<in> set shares"
  shows "bt_get (cfg_members config) k = Some (share_digest E s)"
proof -
  have "bt_ok shares" using assms(1) by (simp add: dealt_config_def)
  then have "bt_ok (cfg_members config)"
    using dealt_config_keys [OF assms(1)] by (simp add: bt_ok_iff_keys)
  moreover have "(k, share_digest E s) \<in> set (cfg_members config)"
    using assms by (force simp: dealt_config_def)
  ultimately show ?thesis by (rule bt_get_of_set)
qed

lemma dealt_config_validate:
  assumes "dealt_config E d config shares" and "(k, s) \<in> set shares"
  shows "validate_share E config k (cfg_epoch config) s"
  using dealt_config_digest [OF assms] by (simp add: validate_share_def)

lemma dealt_config_reconstruct:
  assumes "dealt_config E d config shares"
    and "set picked \<subseteq> set (bt_values shares)" and "distinct picked"
    and "unat (cfg_threshold config) \<le> length picked"
  shows "rack_secret_reconstruct picked = Ok (deal_secret d)"
proof -
  let ?xs = "split_coordinates (word_of_nat (length shares))"
  have "wf_deal d" and vals: "bt_values shares = map (share_at (snd d)) ?xs"
    using assms(1) by (auto simp: dealt_config_def bt_values_def)
  then have "compute_secret picked = Ok (deal_secret d)"
    using gfss.combine_selection [OF _ selection_dealt [OF vals assms(2,3)]] assms(1,4)
    by (simp add: dealt_config_def)
  then show ?thesis
    using assms(1) by (simp add: rack_secret_reconstruct_def reconstructed_try_from_def dealt_config_def)
qed

text \<open>
  C39: a new configuration and its shares belong together: the members are exactly those asked
  for, every member's share passes \<open>validate_share\<close>, and any selection of at least the
  threshold of the shares reconstructs one rack secret, which is not all zeroes.
\<close>

theorem new_configuration_sound:
  assumes "new_configuration E params rng = Done (Ok ((config, shares), rng'))"
    and "bs_ok (ncp_members params)"
  shows "bt_keys (cfg_members config) = ncp_members params \<and> bt_keys shares = ncp_members params \<and>
    (\<forall>(k, s)\<in>set shares. validate_share E config k (cfg_epoch config) s) \<and>
    (\<exists>secret. length secret = secret_len \<and> secret \<noteq> replicate secret_len 0 \<and>
      (\<forall>picked. set picked \<subseteq> set (bt_values shares) \<longrightarrow> distinct picked \<longrightarrow>
         unat (cfg_threshold config) \<le> length picked \<longrightarrow>
         rack_secret_reconstruct picked = Ok secret))"
proof -
  from assms obtain d where d: "dealt_config E d config shares" "deal_secret d \<noteq> zero_block"
    "bt_keys shares = ncp_members params" "bt_keys (cfg_members config) = ncp_members params"
    by (rule new_configuration_Ok)
  have "length (deal_secret d) = secret_len" using d(1) by (simp add: dealt_config_def)
  with d dealt_config_validate [OF d(1)] dealt_config_reconstruct [OF d(1)] show ?thesis by blast
qed

text \<open>A configuration of three sleds, for the witnesses.\<close>

definition example_params :: new_config_params where
  "example_params = \<lparr>ncp_rack_id = replicate 16 1, ncp_epoch = 1, ncp_members = [sled_a, sled_b, sled_c],
     ncp_threshold = 2, ncp_coordinator_id = sled_a\<rparr>"

definition example_config :: configuration where
  "example_config = \<lparr>cfg_rack_id = replicate 16 1, cfg_epoch = 1, cfg_coordinator = sled_a,
     cfg_members = zip [sled_a, sled_b, sled_c] (map share_bytes example_secret_shares),
     cfg_threshold = 2, cfg_encrypted_rack_secrets = None\<rparr>"

lemma example_params_ok: "bs_ok (ncp_members example_params)"
  by (simp add: example_params_def bs_ok_def)

lemma toy_share_digest: "share_digest toy_env = share_bytes"
  by (simp add: fun_eq_iff share_digest_def)

lemma example_new_configuration:
  "new_configuration toy_env example_params (\<lambda>_. 7) =
     Done (Ok ((example_config, zip [sled_a, sled_b, sled_c] example_secret_shares), \<lambda>_. 7))"
  using members_and_shares [OF example_params_ok, of share_bytes example_secret_shares]
  by (simp add: new_configuration_def rack_secret_new_example example_secret_split toy_share_digest
      example_params_def example_config_def Let_def)

theorem new_configuration_sound_witness:
  "\<exists>secret. rack_secret_reconstruct [example_secret_shares ! 2, example_secret_shares ! 0] = Ok secret \<and>
     secret \<noteq> replicate secret_len 0"
proof -
  have "{example_secret_shares ! 2, example_secret_shares ! 0} \<subseteq>
      set (bt_values (zip [sled_a, sled_b, sled_c] example_secret_shares))"
    by (simp add: bt_values_def example_secret_shares_props)
  then show ?thesis
    using new_configuration_sound [OF example_new_configuration example_params_ok]
    by (auto simp: example_secret_shares_props nth_eq_iff_index_eq example_config_def
        dest!: spec [of _ "[example_secret_shares ! 2, example_secret_shares ! 0]"])
qed

section \<open>Collected shares\<close>

text \<open>
  The digests bind: no other share has the digest of a dealt one. This is the collision
  resistance of SHA3-256 for the shares at hand.
\<close>

definition digests_bind :: "crypto_env \<Rightarrow> (baseboard_id, share) btree_map \<Rightarrow> bool" where
  "digests_bind E shares \<longleftrightarrow>
     (\<forall>s\<in>set (bt_values shares). \<forall>s'. share_digest E s' = share_digest E s \<longrightarrow> s' = s)"

text \<open>Every collected share has the digest that the configuration records for its sender.\<close>

definition collected_ok :: "crypto_env \<Rightarrow> configuration \<Rightarrow> (baseboard_id, share) btree_map \<Rightarrow> bool" where
  "collected_ok E config m \<longleftrightarrow>
     bt_ok m \<and> (\<forall>(k, s)\<in>set m. validate_share E config k (cfg_epoch config) s)"

lemma collected_ok_empty [simp]: "collected_ok E config []"
  by (simp add: collected_ok_def)

lemma collected_ok_insert:
  "collected_ok E config m \<Longrightarrow> validate_share E config k e s \<Longrightarrow> collected_ok E config (bt_insert k s m)"
  by (auto simp: collected_ok_def bt_set_insert bt_remove_def validate_share_def split: if_splits)

lemma dealt_config_values_distinct:
  assumes "dealt_config E d config shares"
  shows "distinct (map snd shares)"
proof -
  have "inj_on (share_at (snd d)) A" for A by (auto simp: inj_on_def share_at_def)
  with assms show ?thesis by (simp add: dealt_config_def distinct_map split_coordinates_props)
qed

lemma collected_dealt:
  assumes "dealt_config E d config shares" and "digests_bind E shares"
    and "collected_ok E config m" and "(k, s) \<in> set m"
  shows "(k, s) \<in> set shares"
proof -
  from assms(3,4) have dig: "bt_get (cfg_members config) k = Some (share_digest E s)"
    by (auto simp: collected_ok_def validate_share_def split: option.splits if_splits)
  then have "k \<in> set (bt_keys shares)"
    using bt_get_in_keys dealt_config_keys [OF assms(1)] by metis
  then obtain s' where s': "(k, s') \<in> set shares" by (auto simp: bt_keys_def)
  with dig dealt_config_digest [OF assms(1)] have "share_digest E s = share_digest E s'" by simp
  moreover have "s' \<in> set (bt_values shares)" using s' by (force simp: bt_values_def)
  ultimately have "s = s'" using assms(2) unfolding digests_bind_def by blast
  with s' show ?thesis by simp
qed

lemma collected_values:
  assumes "dealt_config E d config shares" and "digests_bind E shares" and "collected_ok E config m"
  shows "set (bt_values m) \<subseteq> set (bt_values shares)" and "distinct (bt_values m)"
proof -
  note dealt = collected_dealt [OF assms]
  show "set (bt_values m) \<subseteq> set (bt_values shares)" using dealt by (force simp: bt_values_def)
  have "inj_on snd (set shares)"
    using dealt_config_values_distinct [OF assms(1)] by (simp add: distinct_map)
  then have "inj_on snd (set m)" using dealt by (meson inj_on_subset subrelI)
  moreover have "distinct m" using assms(3) bt_ok_distinct distinct_map by (auto simp: collected_ok_def)
  ultimately show "distinct (bt_values m)" by (simp add: bt_values_def distinct_map)
qed

lemma collected_reconstruct:
  assumes "dealt_config E d config shares" and "digests_bind E shares" and "collected_ok E config m"
    and "unat (cfg_threshold config) \<le> length m"
  shows "rack_secret_reconstruct (bt_values m) = Ok (deal_secret d)"
  using dealt_config_reconstruct [OF assms(1) collected_values [OF assms(1-3)]] assms(4)
  by (simp add: bt_values_def)

lemma dealt_config_share_at:
  assumes "dealt_config E d config shares" and "i < length shares"
  shows "shares ! i = (bt_keys shares ! i, share_at (snd d) (Gf256 (word_of_nat (Suc i))))"
proof -
  have n: "unat (word_of_nat (length shares) :: u8) = length shares"
    using assms(1) by (simp add: unat_of_nat dealt_config_def)
  then have "split_coordinates (word_of_nat (length shares)) ! i = Gf256 (word_of_nat (Suc i))"
    using assms(2) by (simp add: split_coordinates_def del: upt_Suc)
  moreover have "map snd shares ! i =
      map (share_at (snd d)) (split_coordinates (word_of_nat (length shares))) ! i"
    using assms(1) by (simp only: dealt_config_def)
  then have "snd (shares ! i) = share_at (snd d) (split_coordinates (word_of_nat (length shares)) ! i)"
    using assms(2) n by (simp add: split_coordinates_props)
  ultimately show ?thesis using assms(2) by (simp add: bt_keys_def prod_eq_iff)
qed

lemma collected_compute_share:
  assumes "dealt_config E d config shares" and "digests_bind E shares" and "collected_ok E config m"
    and "unat (cfg_threshold config) \<le> length m" and "i < length shares"
  shows "compute_share (bt_values m) (Gf256 (word_of_nat (Suc i))) = Ok (snd (shares ! i))"
proof -
  have d: "wf_deal d" "fst d = unat (cfg_threshold config)"
    and vals: "bt_values shares = map (share_at (snd d)) (split_coordinates (word_of_nat (length shares)))"
    using assms(1) by (auto simp: dealt_config_def bt_values_def)
  have "length shares \<le> 255" using assms(1) by (simp add: dealt_config_def)
  then have "Gf256 (word_of_nat (Suc i)) \<noteq> 0"
    using nonzero_word_of_nat [of "Suc i"] assms(5) by (simp add: zero_gf256_def del: of_nat_Suc)
  then show ?thesis
    using gfss.recompute_selection [OF d(1) selection_dealt [OF vals collected_values [OF assms(1-3)]]]
      assms(4) d(2) dealt_config_share_at [OF assms(1,5)]
    by (simp add: bt_values_def del: of_nat_Suc)
qed

lemma toy_digests_bind: "digests_bind toy_env shares"
proof -
  have "s' = s" if "share_bytes s' = share_bytes s" for s s'
  proof -
    have "inj into_u8" by (auto simp: inj_def intro: gf256.expand)
    with that have "x_coordinate s' = x_coordinate s" "y_coordinates s' = y_coordinates s"
      by (auto simp: share_bytes_def inj_def inj_map_eq_map intro: gf256.expand)
    then show ?thesis by simp
  qed
  then show ?thesis by (simp add: digests_bind_def toy_share_digest)
qed

text \<open>The shares of the example configuration.\<close>

definition example_shares_map :: "(baseboard_id, share) btree_map" where
  "example_shares_map = zip [sled_a, sled_b, sled_c] example_secret_shares"

lemma example_dealt: "\<exists>d. dealt_config toy_env d example_config example_shares_map"
  using new_configuration_Ok [OF example_new_configuration example_params_ok] example_shares_map_def
  by metis

lemma example_shares_in_map:
  "(sled_a, example_secret_shares ! 0) \<in> set example_shares_map"
  "(sled_b, example_secret_shares ! 1) \<in> set example_shares_map"
  "(sled_c, example_secret_shares ! 2) \<in> set example_shares_map"
proof -
  have "example_secret_shares = [example_secret_shares ! 0, example_secret_shares ! 1, example_secret_shares ! 2]"
    by (rule nth_equalityI) (auto simp: example_secret_shares_props less_Suc_eq numeral_eq_Suc)
  then have eq: "example_shares_map = [(sled_a, example_secret_shares ! 0), (sled_b, example_secret_shares ! 1),
      (sled_c, example_secret_shares ! 2)]"
    unfolding example_shares_map_def by (metis zip.simps(2) zip_Cons_Cons zip_Nil)
  show "(sled_a, example_secret_shares ! 0) \<in> set example_shares_map"
    "(sled_b, example_secret_shares ! 1) \<in> set example_shares_map"
    "(sled_c, example_secret_shares ! 2) \<in> set example_shares_map"
    unfolding eq by simp_all
qed

lemma example_validate:
  "(k, s) \<in> set example_shares_map \<Longrightarrow> validate_share toy_env example_config k 1 s"
  using dealt_config_validate [of toy_env _ example_config example_shares_map k s] example_dealt
  by (auto simp: example_config_def)

end
