(* ===== verification/TQ_Persistent_State.thy ===== *)
theory TQ_Persistent_State
  imports TQ_Configuration
begin

text \<open>
  The state a node keeps on disk (\<^verbatim>\<open>trust-quorum/protocol/src/persistent_state.rs\<close>)
  with its queries and summaries, and the well-formedness it always has: whatever is
  committed has a configuration and a share, whatever has a share has a configuration.
\<close>

section \<open>Definitions\<close>

record persistent_state =
  ps_lrtq :: "lrtq_share_data option"
  ps_configs :: "(epoch, configuration) btree_map"
  ps_shares :: "(epoch, share) btree_map"
  ps_commits :: "epoch btree_set"
  ps_expunged :: "expunged_metadata option"

definition ps_empty :: persistent_state where
  "ps_empty = \<lparr>ps_lrtq = None, ps_configs = [], ps_shares = [], ps_commits = [], ps_expunged = None\<rparr>"

definition ps_new_lrtq_only :: "lrtq_share_data \<Rightarrow> persistent_state" where
  "ps_new_lrtq_only lrtq =
     \<lparr>ps_lrtq = Some lrtq, ps_configs = [], ps_shares = [], ps_commits = [], ps_expunged = None\<rparr>"

definition ps_latest_config :: "persistent_state \<Rightarrow> configuration option" where
  "ps_latest_config ps = last_opt (bt_values (ps_configs ps))"

definition ps_latest_committed_epoch :: "persistent_state \<Rightarrow> epoch option" where
  "ps_latest_committed_epoch ps = last_opt (ps_commits ps)"

definition ps_rack_id :: "persistent_state \<Rightarrow> rack_uuid option" where
  "ps_rack_id ps =
     (case map_option cfg_rack_id (ps_latest_config ps) of
        Some rack_id \<Rightarrow> Some rack_id
      | None \<Rightarrow> map_option lsd_rack_uuid (ps_lrtq ps))"

definition ps_is_lrtq_only :: "persistent_state \<Rightarrow> bool" where
  "ps_is_lrtq_only ps = (ps_lrtq ps \<noteq> None \<and> ps_latest_committed_epoch ps = None)"

definition ps_is_uninitialized :: "persistent_state \<Rightarrow> bool" where
  "ps_is_uninitialized ps = (ps_lrtq ps = None \<and> ps_latest_committed_epoch ps = None)"

definition ps_configuration :: "persistent_state \<Rightarrow> epoch \<Rightarrow> configuration option" where
  "ps_configuration ps epoch = bt_get (ps_configs ps) epoch"

definition ps_latest_committed_configuration :: "persistent_state \<Rightarrow> configuration option outcome" where
  "ps_latest_committed_configuration ps =
     (case ps_latest_committed_epoch ps of
        None \<Rightarrow> Done None
      | Some epoch \<Rightarrow>
          obind (expect ''missing prepare'' (ps_configuration ps epoch)) (\<lambda>config. Done (Some config)))"

definition ps_latest_committed_config_and_share ::
  "persistent_state \<Rightarrow> (configuration \<times> share) option outcome" where
  "ps_latest_committed_config_and_share ps =
     (case ps_latest_committed_epoch ps of
        None \<Rightarrow> Done None
      | Some epoch \<Rightarrow>
          obind (expect ''latest config exists'' (bt_get (ps_configs ps) epoch)) (\<lambda>config.
          obind (expect ''latest share exists'' (bt_get (ps_shares ps) epoch)) (\<lambda>share.
            Done (Some (config, share)))))"

definition ps_lrtq_key_share :: "persistent_state \<Rightarrow> lrtq_share option" where
  "ps_lrtq_key_share ps = map_option lsd_share (ps_lrtq ps)"

definition ps_has_prepared :: "persistent_state \<Rightarrow> epoch \<Rightarrow> bool" where
  "ps_has_prepared ps epoch = (bt_contains_key (ps_configs ps) epoch \<and> bt_contains_key (ps_shares ps) epoch)"

definition ps_is_expunged :: "persistent_state \<Rightarrow> bool" where
  "ps_is_expunged ps = (ps_expunged ps \<noteq> None)"

definition ps_summary :: "persistent_state \<Rightarrow> persistent_state_summary" where
  "ps_summary ps =
     \<lparr>pss_rack_id = ps_rack_id ps,
      pss_is_lrtq_only = ps_is_lrtq_only ps,
      pss_is_uninitialized = ps_is_uninitialized ps,
      pss_latest_config = map_option cfg_epoch (ps_latest_config ps),
      pss_latest_committed_config = ps_latest_committed_epoch ps,
      pss_latest_share = last_opt (bt_keys (ps_shares ps)),
      pss_expunged = ps_expunged ps\<rparr>"

definition ps_node_summary :: "persistent_state \<Rightarrow> node_persistent_state_summary" where
  "ps_node_summary ps =
     \<lparr>nps_has_lrtq_share = (ps_lrtq ps \<noteq> None),
      nps_configs = map cfg_epoch (bt_values (ps_configs ps)),
      nps_shares = bt_keys (ps_shares ps),
      nps_commits = ps_commits ps,
      nps_expunged = ps_expunged ps\<rparr>"

section \<open>Well-formedness\<close>

text \<open>
  The maps are in order, every configuration is stored under its own epoch, every share has
  a configuration, and every committed epoch has both.
\<close>

definition wf_configs :: "persistent_state \<Rightarrow> bool" where
  "wf_configs ps \<longleftrightarrow> bt_ok (ps_configs ps) \<and> (\<forall>(e, c)\<in>set (ps_configs ps). cfg_epoch c = e)"

definition wf_ps :: "persistent_state \<Rightarrow> bool" where
  "wf_ps ps \<longleftrightarrow>
     wf_configs ps \<and> bt_ok (ps_shares ps) \<and> bs_ok (ps_commits ps) \<and>
     set (bt_keys (ps_shares ps)) \<subseteq> set (bt_keys (ps_configs ps)) \<and>
     set (ps_commits ps) \<subseteq> set (bt_keys (ps_shares ps))"

lemma wf_ps_empty [simp]: "wf_ps ps_empty"
  by (simp add: wf_ps_def wf_configs_def ps_empty_def bt_keys_def)

lemma wf_ps_lrtq_only [simp]: "wf_ps (ps_new_lrtq_only lrtq)"
  by (simp add: wf_ps_def wf_configs_def ps_new_lrtq_only_def bt_keys_def)

lemma wf_ps_configs_values:
  assumes "wf_ps ps"
  shows "map cfg_epoch (bt_values (ps_configs ps)) = bt_keys (ps_configs ps)"
  using assms by (auto simp: wf_ps_def wf_configs_def bt_values_def bt_keys_def)

lemma wf_ps_latest_config_epoch:
  "wf_ps ps \<Longrightarrow> map_option cfg_epoch (ps_latest_config ps) = btm.greatest (ps_configs ps)"
  by (simp add: ps_latest_config_def btm.greatest_def wf_ps_configs_values [symmetric] last_opt_map)

lemma wf_ps_latest_config_get:
  assumes "wf_ps ps" and "ps_latest_config ps = Some c"
  shows "bt_get (ps_configs ps) (cfg_epoch c) = Some c"
proof -
  have "c \<in> snd ` set (ps_configs ps)"
    using last_opt_in_set [of "bt_values (ps_configs ps)" c] assms(2)
    by (simp add: ps_latest_config_def bt_values_def)
  then obtain e where "(e, c) \<in> set (ps_configs ps)" by auto
  with assms(1) show ?thesis by (auto simp: wf_ps_def wf_configs_def intro: bt_get_of_set)
qed

lemma wf_ps_configuration_epoch:
  assumes "wf_ps ps" and "ps_configuration ps e = Some c"
  shows "cfg_epoch c = e"
  using assms bt_get_in_set [of "ps_configs ps" e c]
  by (auto simp: wf_ps_def wf_configs_def ps_configuration_def)

lemma ps_latest_committed_epoch_greatest: "ps_latest_committed_epoch ps = bts.greatest (ps_commits ps)"
  by (simp add: ps_latest_committed_epoch_def bts.greatest_def)

lemma wf_ps_committed:
  assumes "wf_ps ps" and "e \<in> set (ps_commits ps)"
  obtains c s where "bt_get (ps_configs ps) e = Some c" and "bt_get (ps_shares ps) e = Some s"
    and "cfg_epoch c = e"
proof -
  have "e \<in> set (bt_keys (ps_configs ps))" "e \<in> set (bt_keys (ps_shares ps))"
    using assms by (auto simp: wf_ps_def)
  then obtain c s where "bt_get (ps_configs ps) e = Some c" "bt_get (ps_shares ps) e = Some s"
    by (metis bt_get_None not_None_eq)
  then show thesis using that wf_ps_configuration_epoch [OF assms(1)] by (simp add: ps_configuration_def)
qed

lemma latest_committed_in_commits:
  "ps_latest_committed_epoch ps = Some e \<Longrightarrow> e \<in> set (ps_commits ps)"
  by (simp add: ps_latest_committed_epoch_def last_opt_in_set)

lemma wf_ps_latest_committed_configuration:
  assumes "wf_ps ps"
  shows "ps_latest_committed_configuration ps =
    Done (case ps_latest_committed_epoch ps of None \<Rightarrow> None | Some e \<Rightarrow> ps_configuration ps e)"
  using wf_ps_committed [OF assms latest_committed_in_commits]
  by (fastforce simp: ps_latest_committed_configuration_def ps_configuration_def split: option.split)

lemma wf_ps_latest_committed_config_and_share:
  assumes "wf_ps ps"
  shows "ps_latest_committed_config_and_share ps =
    Done (case ps_latest_committed_epoch ps of
      None \<Rightarrow> None
    | Some e \<Rightarrow> Some (the (bt_get (ps_configs ps) e), the (bt_get (ps_shares ps) e)))"
proof (cases "ps_latest_committed_epoch ps")
  case (Some e)
  from assms latest_committed_in_commits [OF this] obtain c s
    where "bt_get (ps_configs ps) e = Some c" "bt_get (ps_shares ps) e = Some s"
    by (rule wf_ps_committed)
  with Some show ?thesis by (simp add: ps_latest_committed_config_and_share_def)
qed (simp add: ps_latest_committed_config_and_share_def)

text \<open>
  The summary of a well-formed state reports the greatest epochs: of all configurations, of
  the committed ones, and of the shares; the queries that expect a configuration and a share
  for the latest commit never panic.
\<close>

theorem latest_queries_total:
  assumes "wf_ps ps"
  shows "is_greatest (bt_keys (ps_configs ps)) (pss_latest_config (ps_summary ps)) \<and>
    is_greatest (ps_commits ps) (pss_latest_committed_config (ps_summary ps)) \<and>
    is_greatest (bt_keys (ps_shares ps)) (pss_latest_share (ps_summary ps)) \<and>
    returns (ps_latest_committed_configuration ps) \<and>
    returns (ps_latest_committed_config_and_share ps)"
proof -
  have "bt_ok (ps_configs ps)" "bs_ok (ps_commits ps)" "bt_ok (ps_shares ps)"
    using assms by (auto simp: wf_ps_def wf_configs_def)
  then show ?thesis
    using wf_ps_latest_config_epoch [OF assms] wf_ps_latest_committed_configuration [OF assms]
      wf_ps_latest_committed_config_and_share [OF assms]
    by (simp add: ps_summary_def ps_latest_committed_epoch_def btm.greatest_def is_greatest_last_opt
        bt_ok_iff_keys bs_ok_def split: option.split)
qed

text \<open>A state with one committed configuration, for the witnesses.\<close>

definition example_ps :: persistent_state where
  "example_ps = \<lparr>ps_lrtq = None, ps_configs = [(1, example_config)],
     ps_shares = [(1, example_secret_shares ! 0)], ps_commits = [1], ps_expunged = None\<rparr>"

lemma example_ps_wf: "wf_ps example_ps"
  by (simp add: wf_ps_def wf_configs_def example_ps_def bt_keys_def bt_ok_def bs_ok_def example_config_def)

theorem latest_queries_total_witness:
  "is_greatest (bt_keys (ps_configs example_ps)) (pss_latest_config (ps_summary example_ps)) \<and>
   returns (ps_latest_committed_config_and_share example_ps)"
  using latest_queries_total [OF example_ps_wf] by simp

section \<open>Updates the protocol makes\<close>

lemma wf_ps_commit:
  assumes "wf_ps ps" and "ps_has_prepared ps e"
  shows "wf_ps (ps\<lparr>ps_commits := bs_insert e (ps_commits ps)\<rparr>)"
  using assms by (auto simp: wf_ps_def wf_configs_def ps_has_prepared_def bt_contains_keys)

lemma wf_configs_insert:
  assumes "wf_configs ps"
  shows "wf_configs (ps\<lparr>ps_configs := bt_insert (cfg_epoch c) c (ps_configs ps)\<rparr>)"
  using assms by (auto simp: wf_configs_def bt_set_insert bt_remove_def)

lemma wf_ps_insert_config:
  assumes "wf_ps ps"
  shows "wf_ps (ps\<lparr>ps_configs := bt_insert (cfg_epoch c) c (ps_configs ps)\<rparr>)"
  using assms wf_configs_insert [of ps c] by (auto simp: wf_ps_def)

lemma wf_ps_insert_share:
  assumes "wf_ps ps" and "bt_contains_key (ps_configs ps) e"
  shows "wf_ps (ps\<lparr>ps_shares := bt_insert e s (ps_shares ps)\<rparr>)"
  using assms by (auto simp: wf_ps_def wf_configs_def bt_contains_keys)

lemma wf_ps_expunge [simp]: "wf_ps (ps\<lparr>ps_expunged := x\<rparr>) = wf_ps ps"
  by (simp add: wf_ps_def wf_configs_def)

end
