(* ===== verification/TQ_Node_Ctx.thy ===== *)
theory TQ_Node_Ctx
  imports TQ_Persistent_State
begin

text \<open>
  The context that the methods of a node act on
  (\<^verbatim>\<open>trust-quorum/protocol/src/node_ctx.rs\<close>): the persistent state with its change
  flag, the outgoing messages, the connected peers and the alarms.
\<close>

section \<open>Definitions\<close>

record node_ctx =
  ctx_platform_id :: baseboard_id
  ctx_persistent_state :: persistent_state
  ctx_persistent_state_changed :: bool
  ctx_outgoing :: "envelope list"
  ctx_connected :: "baseboard_id btree_set"
  ctx_alarms :: "alarm set"

definition ctx_new :: "baseboard_id \<Rightarrow> node_ctx" where
  "ctx_new platform_id =
     \<lparr>ctx_platform_id = platform_id, ctx_persistent_state = ps_empty,
      ctx_persistent_state_changed = False, ctx_outgoing = [], ctx_connected = [], ctx_alarms = {}\<rparr>"

definition ctx_new_with_persistent_state :: "baseboard_id \<Rightarrow> persistent_state \<Rightarrow> node_ctx" where
  "ctx_new_with_persistent_state platform_id persistent_state =
     \<lparr>ctx_platform_id = platform_id, ctx_persistent_state = persistent_state,
      ctx_persistent_state_changed = False, ctx_outgoing = [], ctx_connected = [], ctx_alarms = {}\<rparr>"

definition ctx_send :: "node_ctx \<Rightarrow> baseboard_id \<Rightarrow> peer_msg_kind \<Rightarrow> node_ctx outcome" where
  "ctx_send ctx to msg_kind =
     obind (expect ''rack id exists'' (ps_rack_id (ctx_persistent_state ctx))) (\<lambda>rack_id.
       Done (ctx\<lparr>ctx_outgoing := ctx_outgoing ctx @
         [\<lparr>env_to = to, env_from = ctx_platform_id ctx,
           env_msg = \<lparr>pm_rack_id = rack_id, pm_kind = msg_kind\<rparr>\<rparr>]\<rparr>))"

text \<open>The callback returns the new persistent state and whether it was updated.\<close>

definition ctx_update_persistent_state ::
  "node_ctx \<Rightarrow> (persistent_state \<Rightarrow> (persistent_state \<times> bool) outcome) \<Rightarrow> (node_ctx \<times> bool) outcome" where
  "ctx_update_persistent_state ctx f =
     obind (f (ctx_persistent_state ctx)) (\<lambda>(ps, updated).
       if updated
       then Done (ctx\<lparr>ctx_persistent_state := ps, ctx_persistent_state_changed := True\<rparr>, True)
       else Done (ctx\<lparr>ctx_persistent_state := ps\<rparr>, False))"

definition ctx_add_connection :: "node_ctx \<Rightarrow> baseboard_id \<Rightarrow> node_ctx" where
  "ctx_add_connection ctx peer = ctx\<lparr>ctx_connected := bs_insert peer (ctx_connected ctx)\<rparr>"

definition ctx_remove_connection :: "node_ctx \<Rightarrow> baseboard_id \<Rightarrow> node_ctx" where
  "ctx_remove_connection ctx peer = ctx\<lparr>ctx_connected := bs_remove peer (ctx_connected ctx)\<rparr>"

definition ctx_raise_alarm :: "node_ctx \<Rightarrow> alarm \<Rightarrow> node_ctx" where
  "ctx_raise_alarm ctx alarm = ctx\<lparr>ctx_alarms := insert alarm (ctx_alarms ctx)\<rparr>"

definition ctx_num_envelopes :: "node_ctx \<Rightarrow> nat" where
  "ctx_num_envelopes ctx = length (ctx_outgoing ctx)"

definition ctx_drain_envelopes :: "node_ctx \<Rightarrow> envelope list \<times> node_ctx" where
  "ctx_drain_envelopes ctx = (ctx_outgoing ctx, ctx\<lparr>ctx_outgoing := []\<rparr>)"

definition ctx_persistent_state_change_check_and_reset :: "node_ctx \<Rightarrow> bool \<times> node_ctx" where
  "ctx_persistent_state_change_check_and_reset ctx =
     (ctx_persistent_state_changed ctx, ctx\<lparr>ctx_persistent_state_changed := False\<rparr>)"

section \<open>Effects on the context\<close>

text \<open>
  Most methods only add messages and alarms. \<open>ctx_frame\<close> is that frame: the rest is unchanged.
\<close>

definition ctx_frame :: "node_ctx \<Rightarrow> node_ctx \<Rightarrow> bool" where
  "ctx_frame ctx ctx' \<longleftrightarrow>
     ctx_platform_id ctx' = ctx_platform_id ctx \<and>
     ctx_persistent_state ctx' = ctx_persistent_state ctx \<and>
     ctx_persistent_state_changed ctx' = ctx_persistent_state_changed ctx \<and>
     ctx_connected ctx' = ctx_connected ctx \<and>
     (\<exists>msgs. ctx_outgoing ctx' = ctx_outgoing ctx @ msgs) \<and>
     ctx_alarms ctx \<subseteq> ctx_alarms ctx'"

named_theorems frame_intros

lemma ctx_frame_refl [simp, frame_intros]: "ctx_frame ctx ctx"
  by (simp add: ctx_frame_def)

lemma ctx_frame_trans: "ctx_frame a b \<Longrightarrow> ctx_frame b c \<Longrightarrow> ctx_frame a c"
  by (auto simp: ctx_frame_def)

lemma ctx_frame_raise [simp, frame_intros]: "ctx_frame ctx (ctx_raise_alarm ctx a)"
  by (auto simp: ctx_frame_def ctx_raise_alarm_def)

lemma ctx_send_Done:
  "ctx_send ctx to k = Done ctx' \<longleftrightarrow>
     (\<exists>rack_id. ps_rack_id (ctx_persistent_state ctx) = Some rack_id \<and>
        ctx' = ctx\<lparr>ctx_outgoing := ctx_outgoing ctx @
          [\<lparr>env_to = to, env_from = ctx_platform_id ctx,
            env_msg = \<lparr>pm_rack_id = rack_id, pm_kind = k\<rparr>\<rparr>]\<rparr>)"
  by (auto simp: ctx_send_def obind_eq_Done)

lemma ctx_frame_send: "ctx_send ctx to k = Done ctx' \<Longrightarrow> ctx_frame ctx ctx'"
  by (auto simp: ctx_send_Done ctx_frame_def)

lemma ctx_send_returns:
  "ps_rack_id (ctx_persistent_state ctx) \<noteq> None \<Longrightarrow> \<exists>ctx'. ctx_send ctx to k = Done ctx'"
  by (auto simp: ctx_send_Done)

lemma ctx_frame_sel [simp]:
  assumes "ctx_frame ctx ctx'"
  shows "ctx_persistent_state ctx' = ctx_persistent_state ctx"
    and "ctx_platform_id ctx' = ctx_platform_id ctx"
    and "ctx_connected ctx' = ctx_connected ctx"
    and "ctx_persistent_state_changed ctx' = ctx_persistent_state_changed ctx"
  using assms by (simp_all add: ctx_frame_def)

text \<open>Sending one message to each of a list of peers.\<close>

definition ctx_send_all :: "node_ctx \<Rightarrow> (baseboard_id \<times> peer_msg_kind) list \<Rightarrow> node_ctx outcome" where
  "ctx_send_all ctx msgs = ofold (\<lambda>ctx (to, k). ctx_send ctx to k) ctx msgs"

lemma ctx_frame_send_all: "ctx_send_all ctx msgs = Done ctx' \<Longrightarrow> ctx_frame ctx ctx'"
  unfolding ctx_send_all_def
  by (erule ofold_invariant [where P = "ctx_frame ctx"])
    (simp, auto split: prod.splits dest!: ctx_frame_send elim: ctx_frame_trans)

lemma ctx_send_all_eq:
  assumes "ps_rack_id (ctx_persistent_state ctx) = Some rack_id"
  shows "ctx_send_all ctx msgs = Done (ctx\<lparr>ctx_outgoing := ctx_outgoing ctx @
    map (\<lambda>(to, k). \<lparr>env_to = to, env_from = ctx_platform_id ctx,
          env_msg = \<lparr>pm_rack_id = rack_id, pm_kind = k\<rparr>\<rparr>) msgs\<rparr>)"
  using assms unfolding ctx_send_all_def
  by (induction msgs arbitrary: ctx) (auto simp: ctx_send_def)

text \<open>The loops that send to the connected peers among a list.\<close>

definition ctx_send_connected :: "node_ctx \<Rightarrow> (baseboard_id \<times> peer_msg_kind) list \<Rightarrow> node_ctx outcome" where
  "ctx_send_connected ctx msgs =
     ofold (\<lambda>ctx (to, k). if bs_contains (ctx_connected ctx) to then ctx_send ctx to k else Done ctx) ctx msgs"

lemma ctx_send_connected_eq:
  "ctx_send_connected ctx msgs = ctx_send_all ctx (filter (\<lambda>(to, k). bs_contains (ctx_connected ctx) to) msgs)"
proof (induction msgs arbitrary: ctx)
  case (Cons m msgs)
  have "obind (ctx_send ctx to k) (\<lambda>ctx'. ctx_send_connected ctx' msgs) =
      obind (ctx_send ctx to k) (\<lambda>ctx'. ctx_send_all ctx' (filter (\<lambda>(to, k). bs_contains (ctx_connected ctx) to) msgs))"
    for to k
    by (rule obind_cong) (auto simp: Cons.IH dest!: ctx_frame_send)
  with Cons.IH [of ctx] show ?case
    by (cases m) (simp add: ctx_send_connected_def ctx_send_all_def)
qed (simp add: ctx_send_connected_def ctx_send_all_def)

lemma ctx_frame_send_connected: "ctx_send_connected ctx msgs = Done ctx' \<Longrightarrow> ctx_frame ctx ctx'"
  by (simp add: ctx_send_connected_eq ctx_frame_send_all)

lemma ctx_send_connected_returns:
  "ps_rack_id (ctx_persistent_state ctx) \<noteq> None \<Longrightarrow> \<exists>ctx'. ctx_send_connected ctx msgs = Done ctx'"
  by (auto simp: ctx_send_connected_eq ctx_send_all_eq)

lemma ctx_send_all_returns:
  "ps_rack_id (ctx_persistent_state ctx) \<noteq> None \<Longrightarrow> \<exists>ctx'. ctx_send_all ctx msgs = Done ctx'"
  by (auto simp: ctx_send_all_eq)

lemma ctx_update_Done:
  "ctx_update_persistent_state ctx f = Done (ctx', b) \<longleftrightarrow>
     (\<exists>ps. f (ctx_persistent_state ctx) = Done (ps, b) \<and>
        ctx' = ctx\<lparr>ctx_persistent_state := ps,
                 ctx_persistent_state_changed := (b \<or> ctx_persistent_state_changed ctx)\<rparr>)"
proof (cases "f (ctx_persistent_state ctx)")
  case (Done r)
  obtain ps b' where r: "r = (ps, b')" by fastforce
  have "ctx\<lparr>ctx_persistent_state := ps\<rparr> = ctx\<lparr>ctx_persistent_state := ps,
      ctx_persistent_state_changed := ctx_persistent_state_changed ctx\<rparr>" by simp
  with Done show ?thesis
    by (cases b'; cases b) (simp_all add: ctx_update_persistent_state_def r eq_commute [of ctx'])
qed (simp_all add: ctx_update_persistent_state_def)

text \<open>
  The change flag is set by an update that reports a change, is never cleared by another
  update, and is read and cleared by the caller's check.
\<close>

theorem change_flag_protocol:
  assumes "ctx_update_persistent_state ctx f = Done (ctx', updated)"
  shows "ctx_persistent_state_changed ctx' = (ctx_persistent_state_changed ctx \<or> updated) \<and>
    fst (ctx_persistent_state_change_check_and_reset ctx') =
      (ctx_persistent_state_changed ctx \<or> updated) \<and>
    \<not> ctx_persistent_state_changed (snd (ctx_persistent_state_change_check_and_reset ctx'))"
  using assms by (auto simp: ctx_update_Done ctx_persistent_state_change_check_and_reset_def)

theorem change_flag_protocol_witness:
  "\<exists>ctx'. ctx_update_persistent_state (ctx_new sled_a) (\<lambda>ps. Done (ps\<lparr>ps_commits := [2]\<rparr>, True)) =
       Done (ctx', True) \<and> ctx_persistent_state_changed ctx'"
proof -
  have "ctx_update_persistent_state (ctx_new sled_a) (\<lambda>ps. Done (ps\<lparr>ps_commits := [2]\<rparr>, True)) =
      Done ((ctx_new sled_a)\<lparr>ctx_persistent_state := ps_empty\<lparr>ps_commits := [2]\<rparr>,
        ctx_persistent_state_changed := True\<rparr>, True)"
    by (simp add: ctx_update_persistent_state_def ctx_new_def)
  with change_flag_protocol [OF this] show ?thesis by blast
qed

end
