(* ===== verification/TQ_Key_Share.thy ===== *)
theory TQ_Key_Share
  imports TQ_Node_Ctx
begin

text \<open>
  \<^verbatim>\<open>trust-quorum/protocol/src/compute_key_share.rs\<close>: a node that missed the prepare phase
  of a committed configuration collects the shares of other members and computes its own.
  The main fact: the share it stores is exactly the one that was dealt to it.
\<close>

section \<open>Definitions\<close>

record key_share_computer =
  ksc_config :: configuration
  ksc_collected_shares :: "(baseboard_id, share) btree_map"

definition ksc_new :: "node_ctx \<Rightarrow> configuration \<Rightarrow> (key_share_computer \<times> node_ctx) outcome" where
  "ksc_new ctx config =
     obind (ctx_send_connected ctx
              (map (\<lambda>id. (id, GetShare (cfg_epoch config))) (bt_keys (cfg_members config))))
       (\<lambda>ctx. Done (\<lparr>ksc_config = config, ksc_collected_shares = []\<rparr>, ctx))"

definition ksc_on_connect :: "key_share_computer \<Rightarrow> node_ctx \<Rightarrow> baseboard_id \<Rightarrow> node_ctx outcome" where
  "ksc_on_connect self ctx peer =
     (if bt_contains_key (cfg_members (ksc_config self)) peer \<and>
         \<not> bt_contains_key (ksc_collected_shares self) peer
      then ctx_send ctx peer (GetShare (cfg_epoch (ksc_config self)))
      else Done ctx)"

text \<open>\<open>Iterator::position\<close>.\<close>

fun position :: "('a \<Rightarrow> bool) \<Rightarrow> 'a list \<Rightarrow> nat option" where
  "position p [] = None"
| "position p (x # xs) = (if p x then Some 0 else map_option Suc (position p xs))"

definition ksc_handle_share ::
  "crypto_env \<Rightarrow> key_share_computer \<Rightarrow> node_ctx \<Rightarrow> baseboard_id \<Rightarrow> epoch \<Rightarrow> share \<Rightarrow>
   (key_share_computer \<times> node_ctx \<times> bool) outcome" where
  "ksc_handle_share E self ctx from epoch share =
     (if \<not> validate_share E (ksc_config self) from epoch share then Done (self, ctx, False)
      else
        (let known = bt_contains_key (ksc_collected_shares self) from;
             self = self\<lparr>ksc_collected_shares := bt_insert from share (ksc_collected_shares self)\<rparr> in
         if known then Done (self, ctx, False)
         else if length (ksc_collected_shares self) < unat (cfg_threshold (ksc_config self))
         then Done (self, ctx, False)
         else (case position (\<lambda>id. id = ctx_platform_id ctx) (bt_keys (cfg_members (ksc_config self))) of
                 None \<Rightarrow> Done (self, ctx, False)
               | Some index \<Rightarrow>
                   obind (expect ''index fits in u8'' (u8_try_from (index + 1))) (\<lambda>x.
                     let x_coordinate = gf256_new x;
                         shares = bt_values (ksc_collected_shares self) in
                     case compute_share shares x_coordinate of
                       Inr our_share \<Rightarrow>
                         obind (ctx_update_persistent_state ctx (\<lambda>ps.
                             let inserted_share = \<not> bt_contains_key (ps_shares ps) epoch;
                                 inserted_commit = \<not> bs_contains (ps_commits ps) epoch
                             in Done (ps\<lparr>ps_shares := bt_insert epoch our_share (ps_shares ps),
                                         ps_commits := bs_insert epoch (ps_commits ps)\<rparr>,
                                      inserted_share \<or> inserted_commit)))
                           (\<lambda>(ctx, _). Done (self, ctx, True))
                     | Inl err \<Rightarrow>
                         Done (self, ctx_raise_alarm ctx (ShareComputationFailed epoch err), False)))))"

section \<open>Properties\<close>

lemma position_Some:
  "position p xs = Some i \<longleftrightarrow> i < length xs \<and> p (xs ! i) \<and> (\<forall>j<i. \<not> p (xs ! j))"
proof (induction xs arbitrary: i)
  case (Cons x xs)
  show ?case
  proof (cases i)
    case (Suc n)
    then show ?thesis using Cons.IH [of n] by (auto simp: less_Suc_eq_0_disj)
  qed simp
qed simp

lemma position_None: "position p xs = None \<longleftrightarrow> (\<forall>x\<in>set xs. \<not> p x)"
  by (induction xs) auto

definition ksc_ok :: "crypto_env \<Rightarrow> key_share_computer \<Rightarrow> bool" where
  "ksc_ok E k = collected_ok E (ksc_config k) (ksc_collected_shares k)"

lemma ksc_new_frame:
  "ksc_new ctx config = Done (k, ctx') \<Longrightarrow>
     ctx_frame ctx ctx' \<and> ksc_config k = config \<and> ksc_collected_shares k = [] \<and> ksc_ok E k"
  by (auto simp: ksc_new_def obind_eq_Done ksc_ok_def dest: ctx_frame_send_connected)

lemma ksc_new_returns:
  "ps_rack_id (ctx_persistent_state ctx) \<noteq> None \<Longrightarrow> \<exists>k ctx'. ksc_new ctx config = Done (k, ctx')"
  by (drule ctx_send_connected_returns
      [of ctx "map (\<lambda>id. (id, GetShare (cfg_epoch config))) (bt_keys (cfg_members config))"])
    (auto simp: ksc_new_def)

lemma ksc_on_connect_frame: "ksc_on_connect k ctx peer = Done ctx' \<Longrightarrow> ctx_frame ctx ctx'"
  by (auto simp: ksc_on_connect_def dest: ctx_frame_send split: if_splits)

lemma ksc_on_connect_returns:
  "ps_rack_id (ctx_persistent_state ctx) \<noteq> None \<Longrightarrow> \<exists>ctx'. ksc_on_connect k ctx peer = Done ctx'"
  using ctx_send_returns [of ctx] by (auto simp: ksc_on_connect_def)

text \<open>What a handled share changes: nothing but messages and alarms, or the share and the commit.\<close>

lemma ksc_handle_share_cases:
  assumes "ksc_handle_share E k ctx from epoch share = Done (k', ctx', done)"
  obtains
    (Frame) "\<not> done" and "ctx_frame ctx ctx'"
  | (Stored) s x where "done" and "epoch = cfg_epoch (ksc_config k)"
      and "compute_share (bt_values (ksc_collected_shares k')) x = Ok s"
      and "ctx_persistent_state ctx' = (ctx_persistent_state ctx)
        \<lparr>ps_shares := bt_insert epoch s (ps_shares (ctx_persistent_state ctx)),
         ps_commits := bs_insert epoch (ps_commits (ctx_persistent_state ctx))\<rparr>"
      and "ctx_platform_id ctx' = ctx_platform_id ctx" and "ctx_connected ctx' = ctx_connected ctx"
      and "ctx_outgoing ctx' = ctx_outgoing ctx" and "ctx_alarms ctx' = ctx_alarms ctx"
      and "ctx_persistent_state_changed ctx' = (ctx_persistent_state_changed ctx \<or>
        \<not> bt_contains_key (ps_shares (ctx_persistent_state ctx)) epoch \<or>
        \<not> bs_contains (ps_commits (ctx_persistent_state ctx)) epoch)"
proof (cases "done")
  case False
  with assms have "ctx_frame ctx ctx'"
    by (auto simp: ksc_handle_share_def Let_def outcome_simps)
  with False show thesis by (rule Frame)
next
  case True
  with assms show thesis
    by (auto simp: ksc_handle_share_def Let_def outcome_simps ctx_update_Done validate_share_def
        intro!: Stored split: if_split_asm option.split_asm)
qed

lemma ksc_handle_share_ok:
  assumes "ksc_handle_share E k ctx from epoch share = Done (k', ctx', done)" and "ksc_ok E k"
  shows "ksc_ok E k' \<and> ksc_config k' = ksc_config k"
  using assms collected_ok_insert [of E "ksc_config k" "ksc_collected_shares k" "from" epoch share]
  by (auto simp: ksc_handle_share_def ksc_ok_def Let_def outcome_simps)

lemma ksc_handle_share_returns:
  assumes "length (cfg_members (ksc_config k)) \<le> 255"
  shows "\<exists>r. ksc_handle_share E k ctx from epoch share = Done r"
proof (cases "position (\<lambda>id. id = ctx_platform_id ctx) (bt_keys (cfg_members (ksc_config k)))")
  case None
  then show ?thesis by (auto simp: ksc_handle_share_def Let_def)
next
  case (Some i)
  then have "i + 1 \<le> 255" using assms by (auto simp: position_Some bt_keys_def)
  with Some show ?thesis
    by (auto simp: ksc_handle_share_def Let_def u8_try_from_def ctx_update_persistent_state_def
        split: sum.split)
qed

lemma position_in_keys:
  assumes "x \<in> set xs"
  obtains i where "position (\<lambda>y. y = x) xs = Some i" and "i < length xs" and "xs ! i = x"
proof -
  obtain i where "position (\<lambda>y. y = x) xs = Some i"
    using assms position_None [of "\<lambda>y. y = x" xs] by (cases "position (\<lambda>y. y = x) xs") auto
  then show thesis using that by (auto simp: position_Some)
qed

text \<open>
  C20: a valid share from a new sender is added, and when it completes the threshold the node
  computes exactly the share that was dealt to it, stores it and commits the epoch. The
  configuration is one that was created with these shares, and the digests bind.
\<close>

theorem computed_share_is_dealt:
  assumes "dealt_config E d (ksc_config k) shares" and "digests_bind E shares" and "ksc_ok E k"
    and "(ctx_platform_id ctx, my_share) \<in> set shares"
    and "validate_share E (ksc_config k) from epoch share"
    and "\<not> bt_contains_key (ksc_collected_shares k) from"
  shows "\<exists>ctx'. ksc_handle_share E k ctx from epoch share =
      Done (k\<lparr>ksc_collected_shares := bt_insert from share (ksc_collected_shares k)\<rparr>, ctx',
        unat (cfg_threshold (ksc_config k)) \<le> Suc (length (ksc_collected_shares k))) \<and>
    (if unat (cfg_threshold (ksc_config k)) \<le> Suc (length (ksc_collected_shares k))
     then bt_get (ps_shares (ctx_persistent_state ctx')) epoch = Some my_share \<and>
          epoch \<in> set (ps_commits (ctx_persistent_state ctx'))
     else ctx' = ctx)"
proof -
  let ?m = "bt_insert from share (ksc_collected_shares k)"
  let ?keys = "bt_keys (cfg_members (ksc_config k))"
  have keys: "?keys = bt_keys shares" by (rule dealt_config_keys [OF assms(1)])
  have m: "collected_ok E (ksc_config k) ?m"
    using collected_ok_insert [OF _ assms(5)] assms(3) by (simp add: ksc_ok_def)
  have "ctx_platform_id ctx \<in> set (bt_keys shares)" using assms(4) by (force simp: bt_keys_def)
  then obtain i where i: "position (\<lambda>id. id = ctx_platform_id ctx) (bt_keys shares) = Some i"
    "i < length (bt_keys shares)" "bt_keys shares ! i = ctx_platform_id ctx"
    by (rule position_in_keys)
  have shares_ok: "bt_ok shares" "length shares \<le> 255" using assms(1) by (simp_all add: dealt_config_def)
  have il: "i < length shares" using i(2) by (simp add: bt_keys_def)
  then have "shares ! i \<in> set shares" by simp
  moreover have "fst (shares ! i) = ctx_platform_id ctx" using i(3) il by (simp add: bt_keys_def)
  ultimately have mine: "snd (shares ! i) = my_share"
    using assms(4) bt_get_of_set [OF shares_ok(1)] by (metis option.inject prod.collapse)
  have "compute_share (bt_values ?m) (Gf256 (word_of_nat (Suc i))) = Ok my_share"
    if "unat (cfg_threshold (ksc_config k)) \<le> length ?m"
    using collected_compute_share [OF assms(1,2) m that il] mine by simp
  moreover have "u8_try_from (i + 1) = Some (word_of_nat (Suc i))"
    using il shares_ok(2) by (simp add: u8_try_from_def)
  ultimately show ?thesis
    using assms(5,6) i(1) bt_insert_length [OF assms(6), of share]
    by (auto simp: ksc_handle_share_def Let_def keys gf256_new_def not_less [symmetric]
        ctx_update_persistent_state_def simp del: of_nat_Suc)
qed

text \<open>A computer that has the share of one other member.\<close>

definition example_ksc :: key_share_computer where
  "example_ksc = \<lparr>ksc_config = example_config, ksc_collected_shares = [(sled_b, example_secret_shares ! 1)]\<rparr>"

theorem computed_share_is_dealt_witness:
  "\<exists>k' ctx'. ksc_handle_share toy_env example_ksc (ctx_new sled_a) sled_c 1 (example_secret_shares ! 2) =
     Done (k', ctx', True) \<and>
     bt_get (ps_shares (ctx_persistent_state ctx')) 1 = Some (example_secret_shares ! 0)"
proof -
  obtain d where d: "dealt_config toy_env d (ksc_config example_ksc) example_shares_map"
    using example_dealt by (auto simp: example_ksc_def)
  have ok: "ksc_ok toy_env example_ksc"
    using example_validate [OF example_shares_in_map(2)]
    by (simp add: ksc_ok_def example_ksc_def collected_ok_def bt_ok_def example_config_def)
  have mine: "(ctx_platform_id (ctx_new sled_a), example_secret_shares ! 0) \<in> set example_shares_map"
    using example_shares_in_map by (simp add: ctx_new_def)
  have "validate_share toy_env (ksc_config example_ksc) sled_c 1 (example_secret_shares ! 2)"
    using example_validate [OF example_shares_in_map(3)] by (simp add: example_ksc_def)
  from computed_share_is_dealt [OF d toy_digests_bind ok mine this]
  show ?thesis by (auto simp: example_ksc_def bt_contains_key_def example_config_def)
qed

end
