(* ===== verification/TQ_Validators.thy ===== *)
theory TQ_Validators
  imports TQ_Node_Ctx
begin

text \<open>
  Validation of the requests of Nexus (\<^verbatim>\<open>trust-quorum/protocol/src/validators.rs\<close>):
  a reconfiguration and an upgrade from LRTQ. The theory characterises what is accepted, with
  every error in the order of the checks.
\<close>

section \<open>Definitions\<close>

record mismatched_rack_id_error =
  mre_expected :: rack_uuid
  mre_got :: rack_uuid

record sled_expunged_error =
  see_from :: baseboard_id
  see_epoch :: epoch
  see_last_prepared_epoch :: "epoch option"

definition check_rack_id ::
  "rack_uuid \<Rightarrow> persistent_state_summary \<Rightarrow> (unit, mismatched_rack_id_error) rust_result" where
  "check_rack_id msg_rack_id persistent_state =
     (case pss_rack_id persistent_state of
        Some rack_id \<Rightarrow>
          (if rack_id \<noteq> msg_rack_id then Err \<lparr>mre_expected = rack_id, mre_got = msg_rack_id\<rparr> else Ok ())
      | None \<Rightarrow> Ok ())"

definition check_in_service :: "persistent_state_summary \<Rightarrow> (unit, sled_expunged_error) rust_result" where
  "check_in_service persistent_state =
     (case pss_expunged persistent_state of
        Some expunged \<Rightarrow>
          Err \<lparr>see_from = exp_from expunged, see_epoch = exp_epoch expunged,
               see_last_prepared_epoch = pss_latest_committed_config persistent_state\<rparr>
      | None \<Rightarrow> Ok ())"

datatype reconfiguration_error =
  CoordinatorMustBeAMemberOfNewGroup
| UpgradeFromLrtqRequired
| UpgradeFromLrtqInProgress
| ThresholdMismatch nat threshold
| InvalidMembershipSize nat
| InvalidThreshold threshold
| LastCommittedEpochMismatch "epoch option" "epoch option"
| PreparedEpochMismatch epoch epoch
| InvalidRackId mismatched_rack_id_error
| DecommissionedSled sled_expunged_error
| ReconfigurationInProgress epoch epoch
| MismatchedReconfigurationForSameEpoch epoch
| ReconfigurationConfiguration configuration_error

datatype lrtq_upgrade_error =
  LrtqInvalidRackId mismatched_rack_id_error
| LrtqExpunged epoch baseboard_id
| NoLrtqShare
| AlreadyUpgraded epoch
| LrtqCoordinatorMustBeAMemberOfNewGroup
| LrtqThresholdMismatch nat threshold
| LrtqInvalidMembershipSize nat
| LrtqInvalidThreshold threshold
| LrtqPreparedEpochMismatch epoch epoch
| EpochMustBeAtLeast2 epoch
| LrtqConfiguration configuration_error

record validated_reconfigure_msg =
  vrm_rack_id :: rack_uuid
  vrm_epoch :: epoch
  vrm_last_committed_epoch :: "epoch option"
  vrm_members :: "baseboard_id btree_set"
  vrm_threshold :: threshold
  vrm_coordinator_id :: baseboard_id

definition vrm_new_config_params :: "validated_reconfigure_msg \<Rightarrow> new_config_params" where
  "vrm_new_config_params value =
     \<lparr>ncp_rack_id = vrm_rack_id value, ncp_epoch = vrm_epoch value, ncp_members = vrm_members value,
      ncp_threshold = vrm_threshold value, ncp_coordinator_id = vrm_coordinator_id value\<rparr>"

text \<open>\<open>ReconfigureMsg == ValidatedReconfigureMsg\<close>: all fields but the coordinator.\<close>

definition reconfigure_msg_eq :: "reconfigure_msg \<Rightarrow> validated_reconfigure_msg \<Rightarrow> bool" where
  "reconfigure_msg_eq self other =
     (rm_rack_id self = vrm_rack_id other \<and>
      rm_epoch self = vrm_epoch other \<and>
      rm_last_committed_epoch self = vrm_last_committed_epoch other \<and>
      rm_members self = vrm_members other \<and>
      rm_threshold self = vrm_threshold other)"

definition check_membership_sizes :: "reconfigure_msg \<Rightarrow> (unit, reconfiguration_error) rust_result" where
  "check_membership_sizes msg =
     (let num_members = length (rm_members msg) in
      if num_members \<le> unat (rm_threshold msg)
      then Err (ThresholdMismatch num_members (rm_threshold msg))
      else if num_members < 3 \<or> num_members > 32 then Err (InvalidMembershipSize num_members)
      else if rm_threshold msg < 2 \<or> rm_threshold msg > 31 then Err (InvalidThreshold (rm_threshold msg))
      else Ok ())"

definition check_epoch ::
  "reconfigure_msg \<Rightarrow> persistent_state_summary \<Rightarrow> (unit, reconfiguration_error) rust_result" where
  "check_epoch msg persistent_state =
     (if rm_last_committed_epoch msg \<noteq> pss_latest_committed_config persistent_state
      then Err (LastCommittedEpochMismatch (pss_latest_committed_config persistent_state)
                  (rm_last_committed_epoch msg))
      else (case pss_latest_config persistent_state of
              Some latest_epoch \<Rightarrow>
                (if rm_epoch msg \<le> latest_epoch then Err (PreparedEpochMismatch latest_epoch (rm_epoch msg))
                 else Ok ())
            | None \<Rightarrow> Ok ()))"

definition check_existing_coordination ::
  "reconfigure_msg \<Rightarrow> validated_reconfigure_msg option \<Rightarrow> (bool, reconfiguration_error) rust_result" where
  "check_existing_coordination new_msg last_reconfig_msg =
     (case last_reconfig_msg of
        None \<Rightarrow> Ok False
      | Some existing_msg \<Rightarrow>
          (let current_epoch = vrm_epoch existing_msg in
           if current_epoch > rm_epoch new_msg
           then Err (ReconfigurationInProgress (vrm_epoch existing_msg) (rm_epoch new_msg))
           else if current_epoch = rm_epoch new_msg then
             (if \<not> reconfigure_msg_eq new_msg existing_msg
              then Err (MismatchedReconfigurationForSameEpoch (rm_epoch new_msg))
              else Ok True)
           else Ok False))"

definition validated_reconfigure_msg_new ::
  "baseboard_id \<Rightarrow> reconfigure_msg \<Rightarrow> persistent_state_summary \<Rightarrow> validated_reconfigure_msg option \<Rightarrow>
   (validated_reconfigure_msg option, reconfiguration_error) rust_result" where
  "validated_reconfigure_msg_new coordinator_id msg persistent_state last_reconfig_msg =
     (if pss_is_lrtq_only persistent_state then Err UpgradeFromLrtqRequired
      else if \<not> bs_contains (rm_members msg) coordinator_id then Err CoordinatorMustBeAMemberOfNewGroup
      else (case check_membership_sizes msg of Inl e \<Rightarrow> Err e | Inr _ \<Rightarrow>
           (case check_rack_id (rm_rack_id msg) persistent_state of Inl e \<Rightarrow> Err (InvalidRackId e) | Inr _ \<Rightarrow>
           (case check_in_service persistent_state of Inl e \<Rightarrow> Err (DecommissionedSled e) | Inr _ \<Rightarrow>
           (case check_epoch msg persistent_state of Inl e \<Rightarrow> Err e | Inr _ \<Rightarrow>
           (case check_existing_coordination msg last_reconfig_msg of Inl e \<Rightarrow> Err e
            | Inr is_idempotent_request \<Rightarrow>
                (if is_idempotent_request then Ok None
                 else Ok (Some \<lparr>vrm_rack_id = rm_rack_id msg, vrm_epoch = rm_epoch msg,
                                vrm_last_committed_epoch = rm_last_committed_epoch msg,
                                vrm_members = rm_members msg, vrm_threshold = rm_threshold msg,
                                vrm_coordinator_id = coordinator_id\<rparr>))))))))"

record validated_lrtq_upgrade_msg =
  vlm_rack_id :: rack_uuid
  vlm_epoch :: epoch
  vlm_members :: "baseboard_id btree_set"
  vlm_threshold :: threshold
  vlm_coordinator_id :: baseboard_id

definition vlm_new_config_params :: "validated_lrtq_upgrade_msg \<Rightarrow> new_config_params" where
  "vlm_new_config_params value =
     \<lparr>ncp_rack_id = vlm_rack_id value, ncp_epoch = vlm_epoch value, ncp_members = vlm_members value,
      ncp_threshold = vlm_threshold value, ncp_coordinator_id = vlm_coordinator_id value\<rparr>"

definition lrtq_check_membership_sizes :: "lrtq_upgrade_msg \<Rightarrow> (unit, lrtq_upgrade_error) rust_result" where
  "lrtq_check_membership_sizes msg =
     (let num_members = length (lum_members msg) in
      if num_members \<le> unat (lum_threshold msg)
      then Err (LrtqThresholdMismatch num_members (lum_threshold msg))
      else if num_members < 3 \<or> num_members > 32 then Err (LrtqInvalidMembershipSize num_members)
      else if lum_threshold msg < 2 \<or> lum_threshold msg > 31 then Err (LrtqInvalidThreshold (lum_threshold msg))
      else Ok ())"

definition lrtq_check_epoch :: "node_ctx \<Rightarrow> lrtq_upgrade_msg \<Rightarrow> (unit, lrtq_upgrade_error) rust_result" where
  "lrtq_check_epoch ctx msg =
     (if lum_epoch msg < 2 then Err (EpochMustBeAtLeast2 (lum_epoch msg))
      else (case ps_latest_config (ctx_persistent_state ctx) of
              Some latest_config \<Rightarrow>
                (if lum_epoch msg \<le> cfg_epoch latest_config
                 then Err (LrtqPreparedEpochMismatch (cfg_epoch latest_config) (lum_epoch msg))
                 else Ok ())
            | None \<Rightarrow> Ok ()))"

definition validated_lrtq_upgrade_msg_new ::
  "node_ctx \<Rightarrow> lrtq_upgrade_msg \<Rightarrow> (validated_lrtq_upgrade_msg, lrtq_upgrade_error) rust_result" where
  "validated_lrtq_upgrade_msg_new ctx msg =
     (let ps = ctx_persistent_state ctx in
      case ps_expunged ps of Some expunged \<Rightarrow> Err (LrtqExpunged (exp_epoch expunged) (exp_from expunged))
      | None \<Rightarrow>
      (case (case ps_rack_id ps of
               Some rack_id \<Rightarrow> (if lum_rack_id msg \<noteq> rack_id then Some rack_id else None)
             | None \<Rightarrow> None) of
         Some rack_id \<Rightarrow> Err (LrtqInvalidRackId \<lparr>mre_expected = rack_id, mre_got = lum_rack_id msg\<rparr>)
       | None \<Rightarrow>
       (if ps_lrtq ps = None then Err NoLrtqShare
        else (case ps_latest_committed_epoch ps of Some epoch \<Rightarrow> Err (AlreadyUpgraded epoch)
        | None \<Rightarrow>
          (if \<not> bs_contains (lum_members msg) (ctx_platform_id ctx)
           then Err LrtqCoordinatorMustBeAMemberOfNewGroup
           else (case lrtq_check_membership_sizes msg of Inl e \<Rightarrow> Err e | Inr _ \<Rightarrow>
                (case lrtq_check_epoch ctx msg of Inl e \<Rightarrow> Err e | Inr _ \<Rightarrow>
                   Ok \<lparr>vlm_rack_id = lum_rack_id msg, vlm_epoch = lum_epoch msg,
                       vlm_members = lum_members msg, vlm_threshold = lum_threshold msg,
                       vlm_coordinator_id = ctx_platform_id ctx\<rparr>)))))))"

section \<open>What is accepted\<close>

text \<open>A group and a threshold of admissible sizes.\<close>

definition sizes_ok :: "baseboard_id btree_set \<Rightarrow> threshold \<Rightarrow> bool" where
  "sizes_ok members threshold \<longleftrightarrow>
     3 \<le> length members \<and> length members \<le> 32 \<and> 2 \<le> unat threshold \<and> unat threshold < length members"

lemma check_membership_sizes_Ok:
  "check_membership_sizes msg = Ok u \<longleftrightarrow> sizes_ok (rm_members msg) (rm_threshold msg)"
  by (auto simp: check_membership_sizes_def sizes_ok_def Let_def word_less_nat_alt)

lemma lrtq_check_membership_sizes_Ok:
  "lrtq_check_membership_sizes msg = Ok u \<longleftrightarrow> sizes_ok (lum_members msg) (lum_threshold msg)"
  by (auto simp: lrtq_check_membership_sizes_def sizes_ok_def Let_def word_less_nat_alt)

lemma check_rack_id_Ok:
  "check_rack_id rack_id s = Ok u \<longleftrightarrow> pss_rack_id s = None \<or> pss_rack_id s = Some rack_id"
  by (auto simp: check_rack_id_def split: option.splits)

lemma check_in_service_Ok: "check_in_service s = Ok u \<longleftrightarrow> pss_expunged s = None"
  by (auto simp: check_in_service_def split: option.splits)

text \<open>The epoch is newer than every epoch of a list of stored ones.\<close>

definition newer_than_all :: "epoch \<Rightarrow> epoch option \<Rightarrow> bool" where
  "newer_than_all e latest = (case latest of None \<Rightarrow> True | Some e' \<Rightarrow> e' < e)"

lemma check_epoch_Ok:
  "check_epoch msg s = Ok u \<longleftrightarrow>
     rm_last_committed_epoch msg = pss_latest_committed_config s \<and>
     newer_than_all (rm_epoch msg) (pss_latest_config s)"
  by (auto simp: check_epoch_def newer_than_all_def not_le split: option.splits)

lemma check_existing_coordination_Ok:
  "check_existing_coordination msg prev = Ok b \<longleftrightarrow>
     (case prev of
        None \<Rightarrow> \<not> b
      | Some m \<Rightarrow> if b then vrm_epoch m = rm_epoch msg \<and> reconfigure_msg_eq msg m
                 else vrm_epoch m < rm_epoch msg)"
  by (auto simp: check_existing_coordination_def Let_def reconfigure_msg_eq_def split: option.splits)

lemmas validator_Ok = check_membership_sizes_Ok lrtq_check_membership_sizes_Ok check_rack_id_Ok
  check_in_service_Ok check_epoch_Ok check_existing_coordination_Ok

text \<open>The message as it is stored once validated.\<close>

definition validated_of :: "baseboard_id \<Rightarrow> reconfigure_msg \<Rightarrow> validated_reconfigure_msg" where
  "validated_of coordinator_id msg =
     \<lparr>vrm_rack_id = rm_rack_id msg, vrm_epoch = rm_epoch msg,
      vrm_last_committed_epoch = rm_last_committed_epoch msg,
      vrm_members = rm_members msg, vrm_threshold = rm_threshold msg,
      vrm_coordinator_id = coordinator_id\<rparr>"

lemma case_sum_Err_Ok:
  "(case r of Inl e \<Rightarrow> Err (g e) | Inr v \<Rightarrow> f v) = Ok x \<longleftrightarrow> (\<exists>v. r = Ok v \<and> f v = Ok x)"
  by (cases r) auto

lemma reconfigure_accepted:
  "validated_reconfigure_msg_new me msg s prev = Ok (Some v) \<longleftrightarrow>
     v = validated_of me msg \<and> \<not> pss_is_lrtq_only s \<and> me \<in> set (rm_members msg) \<and>
     sizes_ok (rm_members msg) (rm_threshold msg) \<and>
     (pss_rack_id s = None \<or> pss_rack_id s = Some (rm_rack_id msg)) \<and> pss_expunged s = None \<and>
     rm_last_committed_epoch msg = pss_latest_committed_config s \<and>
     newer_than_all (rm_epoch msg) (pss_latest_config s) \<and>
     newer_than_all (rm_epoch msg) (map_option vrm_epoch prev)"
  by (auto simp: validated_reconfigure_msg_new_def case_sum_Err_Ok validator_Ok bs_contains_def
      validated_of_def newer_than_all_def split: option.splits if_split_asm)

lemma newer_than_all_greatest:
  "is_greatest xs g \<Longrightarrow> newer_than_all e g \<longleftrightarrow> (\<forall>x\<in>set xs. x < e)"
  by (auto simp: newer_than_all_def is_greatest_def split: option.splits)

lemma wf_ps_summary_latest_config:
  "wf_ps ps \<Longrightarrow> is_greatest (bt_keys (ps_configs ps)) (pss_latest_config (ps_summary ps))"
  using wf_ps_latest_config_epoch [of ps]
  by (simp add: ps_summary_def btm.greatest_def is_greatest_last_opt wf_ps_def wf_configs_def bt_ok_iff_keys)

text \<open>
  C40: a reconfiguration is accepted exactly when the node is not waiting for an LRTQ upgrade, is a
  member of the new group, the sizes are in range (3 to 32 members, threshold from 2 up to
  fewer than the members), the rack id fits, the node is not expunged, the last committed
  epoch agrees, and the epoch is newer than every stored configuration and than the
  reconfiguration being coordinated; the message is then taken over unchanged.
\<close>

theorem reconfigure_accepted_iff:
  assumes "wf_ps ps"
  shows "validated_reconfigure_msg_new me msg (ps_summary ps) prev = Ok (Some v) \<longleftrightarrow>
    v = validated_of me msg \<and> \<not> ps_is_lrtq_only ps \<and> me \<in> set (rm_members msg) \<and>
    sizes_ok (rm_members msg) (rm_threshold msg) \<and>
    (ps_rack_id ps = None \<or> ps_rack_id ps = Some (rm_rack_id msg)) \<and> ps_expunged ps = None \<and>
    rm_last_committed_epoch msg = ps_latest_committed_epoch ps \<and>
    (\<forall>e\<in>set (bt_keys (ps_configs ps)). e < rm_epoch msg) \<and>
    newer_than_all (rm_epoch msg) (map_option vrm_epoch prev)"
  unfolding reconfigure_accepted newer_than_all_greatest [OF wf_ps_summary_latest_config [OF assms]]
  by (simp add: ps_summary_def)

definition example_reconfigure_msg :: reconfigure_msg where
  "example_reconfigure_msg = \<lparr>rm_rack_id = replicate 16 1, rm_epoch = 2, rm_last_committed_epoch = Some 1,
     rm_members = [sled_a, sled_b, sled_c], rm_threshold = 2\<rparr>"

lemma example_ps_queries [simp]:
  "ps_latest_config example_ps = Some example_config"
  "ps_latest_committed_epoch example_ps = Some 1"
  "ps_rack_id example_ps = Some (replicate 16 1)"
  "ps_expunged example_ps = None"
  "ps_lrtq example_ps = None"
  "bt_keys (ps_configs example_ps) = [1]"
  by (simp_all add: example_ps_def ps_latest_config_def bt_values_def ps_latest_committed_epoch_def
      ps_rack_id_def example_config_def bt_keys_def)

theorem reconfigure_accepted_iff_witness:
  "validated_reconfigure_msg_new sled_a example_reconfigure_msg (ps_summary example_ps) None =
     Ok (Some (validated_of sled_a example_reconfigure_msg))"
  using reconfigure_accepted_iff [OF example_ps_wf, of sled_a example_reconfigure_msg None
      "validated_of sled_a example_reconfigure_msg"]
  by (simp add: example_reconfigure_msg_def sizes_ok_def newer_than_all_def ps_is_lrtq_only_def)

text \<open>
  A repeated request is answered as idempotent (\<open>Ok(None)\<close>) only while its configuration has
  not been stored: once it has, the epoch check, which comes first, rejects the repetition.
\<close>

theorem duplicate_request_answer:
  assumes "wf_ps ps"
    and "validated_reconfigure_msg_new me msg (ps_summary ps) prev = Ok (Some v)"
    and "wf_ps ps'" and "ps_is_lrtq_only ps' = ps_is_lrtq_only ps" and "ps_rack_id ps' = Some (rm_rack_id msg)"
    and "ps_expunged ps' = None" and "ps_latest_committed_epoch ps' = ps_latest_committed_epoch ps"
  shows "validated_reconfigure_msg_new me msg (ps_summary ps') (Some v) =
    (if (\<forall>e\<in>set (bt_keys (ps_configs ps')). e < rm_epoch msg) then Ok None
     else Err (PreparedEpochMismatch (the (pss_latest_config (ps_summary ps'))) (rm_epoch msg)))"
proof -
  have acc: "v = validated_of me msg" "\<not> ps_is_lrtq_only ps" "me \<in> set (rm_members msg)"
    "sizes_ok (rm_members msg) (rm_threshold msg)" "rm_last_committed_epoch msg = ps_latest_committed_epoch ps"
    using assms(2) unfolding reconfigure_accepted by (simp_all add: ps_summary_def)
  have ok: "check_membership_sizes msg = Ok ()" "check_rack_id (rm_rack_id msg) (ps_summary ps') = Ok ()"
    "check_in_service (ps_summary ps') = Ok ()" "check_existing_coordination msg (Some v) = Ok True"
    unfolding validator_Ok using acc assms(5,6)
    by (simp_all add: ps_summary_def validated_of_def reconfigure_msg_eq_def)
  have new: "newer_than_all (rm_epoch msg) (pss_latest_config (ps_summary ps')) \<longleftrightarrow>
      (\<forall>e\<in>set (bt_keys (ps_configs ps')). e < rm_epoch msg)"
    by (rule newer_than_all_greatest [OF wf_ps_summary_latest_config [OF assms(3)]])
  have "check_epoch msg (ps_summary ps') =
      (if (\<forall>e\<in>set (bt_keys (ps_configs ps')). e < rm_epoch msg) then Ok ()
       else Err (PreparedEpochMismatch (the (pss_latest_config (ps_summary ps'))) (rm_epoch msg)))"
    unfolding new [symmetric] using acc(5) assms(7)
    by (auto simp: check_epoch_def newer_than_all_def ps_summary_def not_le split: option.splits)
  with ok acc assms(4) show ?thesis
    by (simp add: validated_reconfigure_msg_new_def bs_contains_def ps_summary_def)
qed

text \<open>The state after the coordinator has stored the new configuration.\<close>

definition example_ps_prepared :: persistent_state where
  "example_ps_prepared = example_ps\<lparr>ps_configs := [(1, example_config), (2, example_config\<lparr>cfg_epoch := 2\<rparr>)]\<rparr>"

lemma example_ps_prepared_wf: "wf_ps example_ps_prepared"
  using example_ps_wf
  by (simp add: wf_ps_def wf_configs_def example_ps_prepared_def example_ps_def bt_keys_def bt_ok_def)

theorem duplicate_request_answer_witness:
  "validated_reconfigure_msg_new sled_a example_reconfigure_msg (ps_summary example_ps_prepared)
     (Some (validated_of sled_a example_reconfigure_msg)) = Err (PreparedEpochMismatch 2 2)"
proof -
  have acc: "validated_reconfigure_msg_new sled_a example_reconfigure_msg (ps_summary example_ps) None =
      Ok (Some (validated_of sled_a example_reconfigure_msg))"
    unfolding reconfigure_accepted
    by (simp add: example_reconfigure_msg_def sizes_ok_def newer_than_all_def ps_is_lrtq_only_def
        ps_summary_def example_config_def)
  show ?thesis
    using duplicate_request_answer [OF example_ps_wf acc example_ps_prepared_wf]
    by (simp add: example_ps_prepared_def example_ps_def ps_is_lrtq_only_def ps_rack_id_def
        ps_latest_config_def bt_values_def bt_keys_def ps_latest_committed_epoch_def
        example_reconfigure_msg_def ps_summary_def example_config_def)
qed

text \<open>
  An upgrade from LRTQ is accepted exactly on an LRTQ node that has committed nothing, is not
  expunged and is a member of the new group, with sizes in range, the rack id of the LRTQ
  data or of the latest configuration, and an epoch that is at least 2 and newer than every
  stored configuration.
\<close>

theorem lrtq_upgrade_accepted_iff:
  assumes "wf_ps (ctx_persistent_state ctx)"
  shows "validated_lrtq_upgrade_msg_new ctx msg = Ok v \<longleftrightarrow>
    v = \<lparr>vlm_rack_id = lum_rack_id msg, vlm_epoch = lum_epoch msg, vlm_members = lum_members msg,
         vlm_threshold = lum_threshold msg, vlm_coordinator_id = ctx_platform_id ctx\<rparr> \<and>
    ps_expunged (ctx_persistent_state ctx) = None \<and>
    ps_is_lrtq_only (ctx_persistent_state ctx) \<and>
    ps_rack_id (ctx_persistent_state ctx) = Some (lum_rack_id msg) \<and>
    ctx_platform_id ctx \<in> set (lum_members msg) \<and>
    sizes_ok (lum_members msg) (lum_threshold msg) \<and> 2 \<le> lum_epoch msg \<and>
    (\<forall>e\<in>set (bt_keys (ps_configs (ctx_persistent_state ctx))). e < lum_epoch msg)"
proof -
  let ?ps = "ctx_persistent_state ctx"
  have "lrtq_check_epoch ctx msg = Ok u \<longleftrightarrow> 2 \<le> lum_epoch msg \<and>
      newer_than_all (lum_epoch msg) (pss_latest_config (ps_summary ?ps))" for u
    by (cases "ps_latest_config ?ps")
      (simp_all add: lrtq_check_epoch_def newer_than_all_def ps_summary_def not_le [symmetric])
  then have "lrtq_check_epoch ctx msg = Ok u \<longleftrightarrow> 2 \<le> lum_epoch msg \<and>
      (\<forall>e\<in>set (bt_keys (ps_configs ?ps)). e < lum_epoch msg)" for u
    unfolding newer_than_all_greatest [OF wf_ps_summary_latest_config [OF assms]] .
  moreover have "ps_lrtq ?ps \<noteq> None \<Longrightarrow> ps_rack_id ?ps \<noteq> None"
    by (auto simp: ps_rack_id_def split: option.splits)
  ultimately show ?thesis
    by (cases "ps_expunged ?ps"; cases "ps_rack_id ?ps"; cases "ps_lrtq ?ps";
        cases "ps_latest_committed_epoch ?ps")
      (simp_all add: validated_lrtq_upgrade_msg_new_def Let_def case_sum_Err_Ok validator_Ok
        bs_contains_def ps_is_lrtq_only_def, safe)
qed

definition example_lrtq_ctx :: node_ctx where
  "example_lrtq_ctx = ctx_new_with_persistent_state sled_b (ps_new_lrtq_only
     \<lparr>lsd_rack_uuid = replicate 16 1, lsd_epoch = 1, lsd_threshold = 2, lsd_share = replicate 33 4,
      lsd_share_digests = []\<rparr>)"

theorem lrtq_upgrade_accepted_iff_witness:
  "\<exists>v. validated_lrtq_upgrade_msg_new example_lrtq_ctx
     \<lparr>lum_rack_id = replicate 16 1, lum_epoch = 2, lum_members = [sled_a, sled_b, sled_c], lum_threshold = 2\<rparr> = Ok v"
proof -
  have wf: "wf_ps (ctx_persistent_state example_lrtq_ctx)"
    by (simp add: example_lrtq_ctx_def ctx_new_with_persistent_state_def)
  show ?thesis
    unfolding lrtq_upgrade_accepted_iff [OF wf]
    by (simp add: example_lrtq_ctx_def ctx_new_with_persistent_state_def ps_new_lrtq_only_def
        ps_is_lrtq_only_def ps_latest_committed_epoch_def ps_rack_id_def ps_latest_config_def
        bt_values_def bt_keys_def sizes_ok_def)
qed

end
