(* ===== verification/TQ_Rack_Secret_Loader.thy ===== *)
theory TQ_Rack_Secret_Loader
  imports TQ_Node_Ctx
begin

text \<open>
  \<^verbatim>\<open>trust-quorum/protocol/src/rack_secret_loader.rs\<close>: collecting the shares of the latest
  committed configuration, reconstructing its rack secret and decrypting those of earlier
  epochs. The theory shows what \<open>load\<close> answers in every case, that its
  \<open>unreachable!\<close> is never reached, and that what is loaded are the dealt secrets.
\<close>

section \<open>Definitions\<close>

datatype load_rack_secret_error =
  NoCommittedConfigurations | NotCommitted epoch | LoadAlarm | NotAvailable epoch

record share_collector =
  sc_config :: configuration
  sc_shares :: "(baseboard_id, share) btree_map"

record rack_secret_loader =
  rsl_loaded :: "(epoch, rack_secret) btree_map"
  rsl_collector :: "share_collector option"

definition sc_send_get_share_requests :: "share_collector \<Rightarrow> node_ctx \<Rightarrow> node_ctx outcome" where
  "sc_send_get_share_requests self ctx =
     ctx_send_connected ctx
       (map (\<lambda>to. (to, GetShare (cfg_epoch (sc_config self)))) (bt_keys (cfg_members (sc_config self))))"

definition sc_new :: "node_ctx \<Rightarrow> (share_collector \<times> node_ctx, load_rack_secret_error) rust_result outcome" where
  "sc_new ctx =
     obind (ps_latest_committed_configuration (ctx_persistent_state ctx)) (\<lambda>latest.
       case latest of
         None \<Rightarrow> Done (Err NoCommittedConfigurations)
       | Some config \<Rightarrow>
           obind (expect ''share exists because config is committed''
                    (bt_get (ps_shares (ctx_persistent_state ctx)) (cfg_epoch config))) (\<lambda>my_share.
             let collector = \<lparr>sc_config = config, sc_shares = [(ctx_platform_id ctx, my_share)]\<rparr> in
             obind (sc_send_get_share_requests collector ctx) (\<lambda>ctx. Done (Ok (collector, ctx)))))"

definition sc_handle_share ::
  "crypto_env \<Rightarrow> share_collector \<Rightarrow> node_ctx \<Rightarrow> baseboard_id \<Rightarrow> epoch \<Rightarrow> share \<Rightarrow>
   (share_collector \<times> node_ctx \<times> (epoch, rack_secret) btree_map option) outcome" where
  "sc_handle_share E self ctx from epoch share =
     (if \<not> validate_share E (sc_config self) from epoch share then Done (self, ctx, None)
      else
        (let known = bt_contains_key (sc_shares self) from;
             self = self\<lparr>sc_shares := bt_insert from share (sc_shares self)\<rparr> in
         if known then Done (self, ctx, None)
         else if length (sc_shares self) < unat (cfg_threshold (sc_config self)) then Done (self, ctx, None)
         else
           (let shares = bt_values (sc_shares self) in
            case rack_secret_reconstruct shares of
              Inr secret \<Rightarrow>
                (case cfg_encrypted_rack_secrets (sc_config self) of
                   Some encrypted \<Rightarrow>
                     obind (decrypt_rack_secrets E encrypted (cfg_rack_id (sc_config self))
                              (cfg_epoch (sc_config self)) secret) (\<lambda>r.
                       case r of
                         Inr plaintext \<Rightarrow>
                           Done (self, ctx, Some (bt_insert (cfg_epoch (sc_config self)) secret plaintext))
                       | Inl err \<Rightarrow>
                           Done (self, ctx_raise_alarm ctx (RackSecretDecryptionFailed epoch err), None))
                 | None \<Rightarrow> Done (self, ctx, Some [(cfg_epoch (sc_config self), secret)]))
            | Inl err \<Rightarrow>
                Done (self, ctx_raise_alarm ctx (RackSecretReconstructionFailed epoch err), None))))"

definition sc_on_connect :: "share_collector \<Rightarrow> node_ctx \<Rightarrow> baseboard_id \<Rightarrow> node_ctx outcome" where
  "sc_on_connect self ctx peer =
     (if bt_contains_key (cfg_members (sc_config self)) peer
      then ctx_send ctx peer (GetShare (cfg_epoch (sc_config self)))
      else Done ctx)"

definition rsl_new :: rack_secret_loader where
  "rsl_new = \<lparr>rsl_loaded = [], rsl_collector = None\<rparr>"

definition rsl_is_collecting_shares_for_rack_secret :: "rack_secret_loader \<Rightarrow> epoch \<Rightarrow> bool" where
  "rsl_is_collecting_shares_for_rack_secret self epoch =
     (case rsl_collector self of
        None \<Rightarrow> False
      | Some c \<Rightarrow> cfg_epoch (sc_config c) \<ge> epoch)"

text \<open>Starting a collector, as both branches of \<open>load\<close> do.\<close>

definition rsl_start_collecting ::
  "rack_secret_loader \<Rightarrow> node_ctx \<Rightarrow>
   (rack_secret_loader \<times> node_ctx \<times> (rack_secret option, load_rack_secret_error) rust_result) outcome" where
  "rsl_start_collecting self ctx =
     obind (sc_new ctx) (\<lambda>r.
       case r of
         Inl e \<Rightarrow> Done (self, ctx, Err e)
       | Inr (collector, ctx) \<Rightarrow> Done (self\<lparr>rsl_collector := Some collector\<rparr>, ctx, Ok None))"

definition rsl_load ::
  "rack_secret_loader \<Rightarrow> node_ctx \<Rightarrow> epoch \<Rightarrow>
   (rack_secret_loader \<times> node_ctx \<times> (rack_secret option, load_rack_secret_error) rust_result) outcome" where
  "rsl_load self ctx epoch =
     (case bt_get (rsl_loaded self) epoch of
        Some secret \<Rightarrow> Done (self, ctx, Ok (Some secret))
      | None \<Rightarrow>
          (case ps_latest_committed_epoch (ctx_persistent_state ctx) of
             None \<Rightarrow> Done (self, ctx, Err NoCommittedConfigurations)
           | Some latest_committed_epoch \<Rightarrow>
               (if epoch > latest_committed_epoch then Done (self, ctx, Err (NotCommitted epoch))
                else if bt_contains_key (rsl_loaded self) latest_committed_epoch then
                  (if epoch < latest_committed_epoch then Done (self, ctx, Err (NotAvailable epoch))
                   else Panic ''unreachable: epoch comparisons already handled'')
                else (case rsl_collector self of
                        None \<Rightarrow> rsl_start_collecting self ctx
                      | Some collector \<Rightarrow>
                          (if cfg_epoch (sc_config collector) = latest_committed_epoch
                           then Done (self, ctx, Ok None)
                           else if cfg_epoch (sc_config collector) < latest_committed_epoch
                           then rsl_start_collecting self ctx
                           else Done (self,
                                  ctx_raise_alarm ctx (CommittedConfigurationLost latest_committed_epoch
                                    (cfg_epoch (sc_config collector))),
                                  Err LoadAlarm))))))"

definition rsl_handle_share ::
  "crypto_env \<Rightarrow> rack_secret_loader \<Rightarrow> node_ctx \<Rightarrow> baseboard_id \<Rightarrow> epoch \<Rightarrow> share \<Rightarrow>
   (rack_secret_loader \<times> node_ctx) outcome" where
  "rsl_handle_share E self ctx from epoch share =
     (if bt_contains_key (rsl_loaded self) epoch then Done (self, ctx)
      else (case rsl_collector self of
              None \<Rightarrow> Done (self, ctx)
            | Some collector \<Rightarrow>
                obind (sc_handle_share E collector ctx from epoch share) (\<lambda>(collector, ctx, r).
                  case r of
                    Some loaded \<Rightarrow> Done (self\<lparr>rsl_loaded := loaded, rsl_collector := None\<rparr>, ctx)
                  | None \<Rightarrow> Done (self\<lparr>rsl_collector := Some collector\<rparr>, ctx))))"

definition rsl_clear_secrets :: "rack_secret_loader \<Rightarrow> rack_secret_loader" where
  "rsl_clear_secrets self = self\<lparr>rsl_loaded := [], rsl_collector := None\<rparr>"

definition rsl_on_connect :: "rack_secret_loader \<Rightarrow> node_ctx \<Rightarrow> baseboard_id \<Rightarrow> node_ctx outcome" where
  "rsl_on_connect self ctx peer =
     (case rsl_collector self of
        Some collector \<Rightarrow> sc_on_connect collector ctx peer
      | None \<Rightarrow> Done ctx)"

section \<open>Frame and invariant\<close>

text \<open>A collector works on a committed configuration of the persistent state.\<close>

definition rsl_ok :: "persistent_state \<Rightarrow> rack_secret_loader \<Rightarrow> bool" where
  "rsl_ok ps l = (case rsl_collector l of
     None \<Rightarrow> True
   | Some c \<Rightarrow> cfg_epoch (sc_config c) \<in> set (ps_commits ps) \<and>
       bt_get (ps_configs ps) (cfg_epoch (sc_config c)) = Some (sc_config c))"

lemma rsl_ok_new [simp]: "rsl_ok ps rsl_new"
  by (simp add: rsl_ok_def rsl_new_def)

lemma rsl_ok_clear [simp]: "rsl_ok ps (rsl_clear_secrets l)"
  by (simp add: rsl_ok_def rsl_clear_secrets_def)

lemma sc_new_wf:
  assumes "wf_ps (ctx_persistent_state ctx)" and "ps_rack_id (ctx_persistent_state ctx) \<noteq> None"
    and "ps_latest_committed_epoch (ctx_persistent_state ctx) = Some e"
  obtains c ctx' where "sc_new ctx = Done (Ok (c, ctx'))" and "ctx_frame ctx ctx'"
    and "cfg_epoch (sc_config c) = e" and "bt_get (ps_configs (ctx_persistent_state ctx)) e = Some (sc_config c)"
    and "e \<in> set (ps_commits (ctx_persistent_state ctx))"
    and "bt_keys (sc_shares c) = [ctx_platform_id ctx]"
proof -
  let ?ps = "ctx_persistent_state ctx"
  have e: "e \<in> set (ps_commits ?ps)" by (rule latest_committed_in_commits [OF assms(3)])
  from assms(1) e obtain config s where c: "bt_get (ps_configs ?ps) e = Some config"
    "bt_get (ps_shares ?ps) e = Some s" "cfg_epoch config = e" by (rule wf_ps_committed)
  let ?c = "\<lparr>sc_config = config, sc_shares = [(ctx_platform_id ctx, s)]\<rparr>"
  from ctx_send_connected_returns [OF assms(2)] obtain ctx' where
    ctx': "sc_send_get_share_requests ?c ctx = Done ctx'" by (auto simp: sc_send_get_share_requests_def)
  have "sc_new ctx = Done (Ok (?c, ctx'))"
    using c ctx' assms(3)
    by (simp add: sc_new_def wf_ps_latest_committed_configuration [OF assms(1)] ps_configuration_def Let_def)
  moreover have "ctx_frame ctx ctx'"
    using ctx' by (simp add: sc_send_get_share_requests_def ctx_frame_send_connected)
  ultimately show thesis using that [of ?c ctx'] c e by (simp add: bt_keys_def)
qed

lemma committed_rack_id:
  assumes "wf_ps ps" and "ps_latest_committed_epoch ps = Some e"
  shows "ps_rack_id ps \<noteq> None"
proof -
  have "e \<in> set (ps_commits ps)" by (rule latest_committed_in_commits [OF assms(2)])
  with assms(1) have "ps_configs ps \<noteq> []" by (auto simp: wf_ps_def bt_keys_def)
  then show ?thesis by (auto simp: ps_rack_id_def ps_latest_config_def bt_values_def split: option.split)
qed

lemma rsl_start_collecting_wf:
  assumes "wf_ps (ctx_persistent_state ctx)"
    and "ps_latest_committed_epoch (ctx_persistent_state ctx) = Some e"
  obtains c ctx' where "rsl_start_collecting l ctx = Done (l\<lparr>rsl_collector := Some c\<rparr>, ctx', Ok None)"
    and "ctx_frame ctx ctx'" and "cfg_epoch (sc_config c) = e"
    and "rsl_ok (ctx_persistent_state ctx) (l\<lparr>rsl_collector := Some c\<rparr>)"
proof -
  from assms(1) committed_rack_id [OF assms] assms(2) obtain c ctx' where
    c: "sc_new ctx = Done (Ok (c, ctx'))" "ctx_frame ctx ctx'" "cfg_epoch (sc_config c) = e"
    "bt_get (ps_configs (ctx_persistent_state ctx)) e = Some (sc_config c)"
    "e \<in> set (ps_commits (ctx_persistent_state ctx))"
    by (rule sc_new_wf)
  then show thesis using that [of c ctx'] by (simp add: rsl_start_collecting_def rsl_ok_def)
qed

lemma rsl_load_collects:
  assumes "bt_get (rsl_loaded l) epoch = None"
    and "ps_latest_committed_epoch (ctx_persistent_state ctx) = Some latest"
    and "\<not> latest < epoch" and "\<not> bt_contains_key (rsl_loaded l) latest"
    and "\<And>c. rsl_collector l = Some c \<Longrightarrow> cfg_epoch (sc_config c) < latest"
  shows "rsl_load l ctx epoch = rsl_start_collecting l ctx"
  using assms by (cases "rsl_collector l") (auto simp: rsl_load_def)

text \<open>The answer of \<open>load\<close> as a function of what is loaded and of the latest committed epoch.\<close>

definition load_answer ::
  "(epoch, rack_secret) btree_map \<Rightarrow> epoch option \<Rightarrow> epoch \<Rightarrow> (rack_secret option, load_rack_secret_error) rust_result" where
  "load_answer loaded latest_committed epoch =
     (case bt_get loaded epoch of
        Some secret \<Rightarrow> Ok (Some secret)
      | None \<Rightarrow> (case latest_committed of
          None \<Rightarrow> Err NoCommittedConfigurations
        | Some latest \<Rightarrow> if latest < epoch then Err (NotCommitted epoch)
            else if bt_contains_key loaded latest then Err (NotAvailable epoch)
            else Ok None))"

lemma rsl_load_wf:
  assumes "wf_ps (ctx_persistent_state ctx)" and "rsl_ok (ctx_persistent_state ctx) l"
  shows "\<exists>l' ctx'. rsl_load l ctx epoch = Done (l', ctx',
      load_answer (rsl_loaded l) (ps_latest_committed_epoch (ctx_persistent_state ctx)) epoch) \<and>
    rsl_loaded l' = rsl_loaded l \<and> ctx_frame ctx ctx' \<and> rsl_ok (ctx_persistent_state ctx') l' \<and>
    (rsl_load l ctx epoch = Done (l', ctx', Ok None) \<longrightarrow>
       map_option (\<lambda>c. cfg_epoch (sc_config c)) (rsl_collector l') =
         ps_latest_committed_epoch (ctx_persistent_state ctx))"
proof (cases "bt_get (rsl_loaded l) epoch")
  case (Some s)
  then show ?thesis using assms(2) by (auto simp: rsl_load_def load_answer_def)
next
  case None
  show ?thesis
  proof (cases "ps_latest_committed_epoch (ctx_persistent_state ctx)")
    case None
    then show ?thesis using \<open>bt_get (rsl_loaded l) epoch = None\<close> assms(2) by (auto simp: rsl_load_def load_answer_def)
  next
    case (Some latest)
    obtain c ctx' where start: "rsl_start_collecting l ctx = Done (l\<lparr>rsl_collector := Some c\<rparr>, ctx', Ok None)"
      "ctx_frame ctx ctx'" "cfg_epoch (sc_config c) = latest"
      "rsl_ok (ctx_persistent_state ctx) (l\<lparr>rsl_collector := Some c\<rparr>)"
      by (rule rsl_start_collecting_wf [OF assms(1) Some])
    have bs: "bs_ok (ps_commits (ctx_persistent_state ctx))" using assms(1) by (simp add: wf_ps_def)
    have le: "cfg_epoch (sc_config c') \<le> latest" if "rsl_collector l = Some c'" for c'
      using that assms(2) last_opt_greatest [OF bs [unfolded bs_ok_def]] Some
      by (simp add: rsl_ok_def ps_latest_committed_epoch_def)
    have ne: "bt_contains_key (rsl_loaded l) latest \<Longrightarrow> epoch \<noteq> latest"
      using None by (auto simp: bt_contains_get)
    have frame: "ctx_persistent_state ctx' = ctx_persistent_state ctx" using start(2) by simp
    consider (future) "latest < epoch" | (gone) "\<not> latest < epoch" "bt_contains_key (rsl_loaded l) latest"
      | (start) "\<not> latest < epoch" "\<not> bt_contains_key (rsl_loaded l) latest"
          "rsl_load l ctx epoch = rsl_start_collecting l ctx"
      | (wait) c' where "\<not> latest < epoch" "\<not> bt_contains_key (rsl_loaded l) latest"
          "rsl_collector l = Some c'" "cfg_epoch (sc_config c') = latest"
      using rsl_load_collects [OF None Some] le le_less by blast
    then show ?thesis
    proof cases
      case future
      then show ?thesis using None Some assms(2) by (simp add: rsl_load_def load_answer_def)
    next
      case gone
      with ne have "epoch < latest" by force
      with gone show ?thesis using None Some assms(2) by (simp add: rsl_load_def load_answer_def)
    next
      case start
      then show ?thesis using None Some \<open>rsl_start_collecting l ctx = _\<close> \<open>ctx_frame ctx ctx'\<close> frame
          \<open>rsl_ok (ctx_persistent_state ctx) (l\<lparr>rsl_collector := Some c\<rparr>)\<close> \<open>cfg_epoch (sc_config c) = latest\<close>
        by (intro exI [of _ "l\<lparr>rsl_collector := Some c\<rparr>"] exI [of _ ctx']) (simp add: load_answer_def)
    next
      case wait
      then show ?thesis using None Some assms(2) by (simp add: rsl_load_def load_answer_def)
    qed
  qed
qed

text \<open>
  On a well-formed state \<open>load\<close> never panics and answers as follows: a loaded secret is
  returned; otherwise there must be a commit at that epoch or later; if the latest secret
  is loaded, the one asked for is gone; else shares for the latest committed epoch are
  being collected afterwards.
\<close>

theorem load_answers:
  assumes "wf_ps (ctx_persistent_state ctx)" and "rsl_ok (ctx_persistent_state ctx) l"
  shows "\<exists>l' ctx'. rsl_load l ctx epoch = Done (l', ctx',
      load_answer (rsl_loaded l) (ps_latest_committed_epoch (ctx_persistent_state ctx)) epoch) \<and>
    rsl_loaded l' = rsl_loaded l \<and> ctx_frame ctx ctx' \<and> rsl_ok (ctx_persistent_state ctx') l' \<and>
    (rsl_load l ctx epoch = Done (l', ctx', Ok None) \<longrightarrow>
       map_option (\<lambda>c. cfg_epoch (sc_config c)) (rsl_collector l') =
         ps_latest_committed_epoch (ctx_persistent_state ctx))"
  using assms by (rule rsl_load_wf)

definition example_ctx :: node_ctx where
  "example_ctx = ctx_new_with_persistent_state sled_a example_ps"

theorem load_answers_witness:
  "\<exists>l ctx. rsl_load rsl_new example_ctx 1 = Done (l, ctx, Ok None)"
  using load_answers [of example_ctx rsl_new 1] example_ps_wf
  by (auto simp: load_answer_def example_ctx_def ctx_new_with_persistent_state_def rsl_new_def rsl_ok_def
      bt_contains_key_def ps_latest_committed_epoch_def example_ps_def)

section \<open>The loaded secrets\<close>

lemma sc_handle_share_frame:
  "sc_handle_share E c ctx from epoch share = Done (c', ctx', r) \<Longrightarrow>
     ctx_frame ctx ctx' \<and> sc_config c' = sc_config c"
  by (auto simp: sc_handle_share_def Let_def outcome_simps)

lemma sc_handle_share_collected:
  assumes "sc_handle_share E c ctx from epoch share = Done (c', ctx', r)"
    and "collected_ok E (sc_config c) (sc_shares c)"
  shows "collected_ok E (sc_config c') (sc_shares c')"
  using assms collected_ok_insert [OF assms(2), of "from" epoch share]
  by (auto simp: sc_handle_share_def Let_def outcome_simps)

lemma rsl_handle_share_frame:
  "rsl_handle_share E l ctx from epoch share = Done (l', ctx') \<Longrightarrow> ctx_frame ctx ctx'"
  by (auto simp: rsl_handle_share_def outcome_simps dest: sc_handle_share_frame)

lemma rsl_handle_share_ok:
  assumes "rsl_handle_share E l ctx from epoch share = Done (l', ctx')" and "rsl_ok ps l"
  shows "rsl_ok ps l'"
  using assms
  by (auto simp: rsl_handle_share_def rsl_ok_def outcome_simps dest!: sc_handle_share_frame
      split: option.splits)

lemma rsl_on_connect_frame: "rsl_on_connect l ctx peer = Done ctx' \<Longrightarrow> ctx_frame ctx ctx'"
  by (auto simp: rsl_on_connect_def sc_on_connect_def dest: ctx_frame_send split: option.splits if_splits)

lemma rsl_on_connect_returns:
  "ps_rack_id (ctx_persistent_state ctx) \<noteq> None \<Longrightarrow> \<exists>ctx'. rsl_on_connect l ctx peer = Done ctx'"
  using ctx_send_returns [of ctx peer]
  by (auto simp: rsl_on_connect_def sc_on_connect_def split: option.split)

text \<open>
  What the configuration's encrypted part holds: the secrets of earlier epochs under the
  rack secret of this configuration, or nothing for an initial configuration.
\<close>

definition holds_secrets ::
  "crypto_env \<Rightarrow> configuration \<Rightarrow> rack_secret \<Rightarrow> plaintext_rack_secrets \<Rightarrow> bool" where
  "holds_secrets E config secret prior \<longleftrightarrow>
     (case cfg_encrypted_rack_secrets config of
        None \<Rightarrow> prior = []
      | Some encrypted \<Rightarrow> wf_secrets prior \<and>
          (\<exists>rng rng'. encrypt_rack_secrets E prior (cfg_rack_id config) (cfg_epoch config) secret rng =
             Done (Ok (encrypted, rng'))))"

lemma holds_secrets_decrypt:
  assumes "aead_inverts E" and "holds_secrets E config secret prior"
    and "cfg_encrypted_rack_secrets config = Some encrypted"
  shows "decrypt_rack_secrets E encrypted (cfg_rack_id config) (cfg_epoch config) secret = Done (Ok prior)"
proof -
  from assms(2,3) obtain rng rng' where enc: "wf_secrets prior"
    "encrypt_rack_secrets E prior (cfg_rack_id config) (cfg_epoch config) secret rng = Done (Ok (encrypted, rng'))"
    by (auto simp: holds_secrets_def)
  then show ?thesis using decrypt_encrypted [OF assms(1) enc] by simp
qed

lemma sc_handle_share_loads:
  assumes "dealt_config E d (sc_config c) shares" and "digests_bind E shares" and "aead_inverts E"
    and "holds_secrets E (sc_config c) (deal_secret d) prior"
    and "collected_ok E (sc_config c) (sc_shares c)"
    and "validate_share E (sc_config c) from epoch share" and "\<not> bt_contains_key (sc_shares c) from"
  shows "sc_handle_share E c ctx from epoch share =
    Done (c\<lparr>sc_shares := bt_insert from share (sc_shares c)\<rparr>, ctx,
      if unat (cfg_threshold (sc_config c)) \<le> Suc (length (sc_shares c))
      then Some (bt_insert epoch (deal_secret d) prior) else None)"
proof -
  let ?m = "bt_insert from share (sc_shares c)"
  have m: "collected_ok E (sc_config c) ?m" by (rule collected_ok_insert [OF assms(5,6)])
  have e: "epoch = cfg_epoch (sc_config c)" using assms(6) by (simp add: validate_share_def split: if_splits)
  have rec: "rack_secret_reconstruct (bt_values ?m) = Ok (deal_secret d)"
    if "unat (cfg_threshold (sc_config c)) \<le> length ?m"
    by (rule collected_reconstruct [OF assms(1,2) m that])
  show ?thesis
  proof (cases "cfg_encrypted_rack_secrets (sc_config c)")
    case None
    then have "prior = []" using assms(4) by (simp add: holds_secrets_def)
    with None rec assms(6,7) bt_insert_length [OF assms(7), of share] e show ?thesis
      by (simp add: sc_handle_share_def Let_def not_less)
  next
    case (Some encrypted)
    with holds_secrets_decrypt [OF assms(3,4) Some] rec assms(6,7) bt_insert_length [OF assms(7), of share] e
    show ?thesis by (simp add: sc_handle_share_def Let_def not_less)
  qed
qed

text \<open>
  C21: a valid share from a new sender that completes the threshold loads the rack secret that
  was dealt for the collector's configuration, together with all the secrets of earlier
  epochs that the configuration holds; before that it is only recorded.
\<close>

theorem collector_loads_dealt_secret:
  assumes "dealt_config E d (sc_config c) shares" and "digests_bind E shares" and "aead_inverts E"
    and "holds_secrets E (sc_config c) (deal_secret d) prior"
    and "collected_ok E (sc_config c) (sc_shares c)"
    and "validate_share E (sc_config c) from epoch share" and "\<not> bt_contains_key (sc_shares c) from"
  shows "sc_handle_share E c ctx from epoch share =
    Done (c\<lparr>sc_shares := bt_insert from share (sc_shares c)\<rparr>, ctx,
      if unat (cfg_threshold (sc_config c)) \<le> Suc (length (sc_shares c))
      then Some (bt_insert epoch (deal_secret d) prior) else None)"
  using assms by (rule sc_handle_share_loads)

text \<open>A collector for a configuration that also holds the secret of an earlier epoch.\<close>

definition example_encrypted :: encrypted_rack_secrets where
  "example_encrypted = \<lparr>ers_salt = replicate 32 5,
     ers_data = replicate secret_len 1 @ encode_rack_secrets [(0, replicate secret_len 9)]\<rparr>"

definition example_collector :: share_collector where
  "example_collector = \<lparr>sc_config = example_config\<lparr>cfg_encrypted_rack_secrets := Some example_encrypted\<rparr>,
     sc_shares = [(sled_a, example_secret_shares ! 0)]\<rparr>"

theorem collector_loads_dealt_secret_witness:
  "\<exists>c secret. sc_handle_share toy_env example_collector (ctx_new sled_a) sled_b 1 (example_secret_shares ! 1) =
     Done (c, ctx_new sled_a, Some (bt_insert 1 secret [(0, replicate secret_len 9)]))"
proof -
  obtain d where "dealt_config toy_env d example_config example_shares_map"
    using example_dealt by blast
  then have d: "dealt_config toy_env d (sc_config example_collector) example_shares_map"
    by (simp add: example_collector_def dealt_config_def)
  have valid: "validate_share toy_env (sc_config example_collector) k 1 s"
    if "(k, s) \<in> set example_shares_map" for k s
    using example_validate [OF that]
    by (simp add: example_collector_def validate_share_def split: if_splits)
  have held: "holds_secrets toy_env (sc_config example_collector) (deal_secret d) [(0, replicate secret_len 9)]"
    by (auto simp: holds_secrets_def example_collector_def example_encrypted_def wf_secrets_def bt_ok_def
        encrypt_rack_secrets_def toy_key salt_new_const intro!: exI [of _ "\<lambda>_. 5"])
  have coll: "collected_ok toy_env (sc_config example_collector) (sc_shares example_collector)"
    using valid [OF example_shares_in_map(1)]
    by (simp add: collected_ok_def example_collector_def bt_ok_def example_config_def)
  from collector_loads_dealt_secret [OF d toy_digests_bind toy_env_ok held coll
      valid [OF example_shares_in_map(2)], of "ctx_new sled_a"]
  show ?thesis by (auto simp: example_collector_def bt_contains_key_def example_config_def)
qed

end
