(* ===== verification/TQ_Ledger.thy ===== *)
theory TQ_Ledger
  imports TQ_Node_Ctx
begin

text \<open>
  An abstract specification of the persistent state: the only ways in which it may ever
  change, as a step relation with a label that says whether the change is reported to the
  caller. The methods of a node refine this relation, so that the safety properties of the
  stored data (nothing is forgotten, commits are prepared, an expunged node is frozen) are
  proved once, by rule induction.
\<close>

section \<open>Steps\<close>

inductive ledger_step :: "baseboard_id \<Rightarrow> persistent_state \<Rightarrow> bool \<Rightarrow> persistent_state \<Rightarrow> bool"
  for me :: baseboard_id where
  Store: "ps_expunged ps = None \<Longrightarrow> \<not> bt_contains_key (ps_configs ps) (cfg_epoch c) \<Longrightarrow>
    me \<in> set (bt_keys (cfg_members c)) \<Longrightarrow>
    ledger_step me ps True
      (ps\<lparr>ps_shares := bt_insert (cfg_epoch c) s (ps_shares ps),
         ps_configs := bt_insert (cfg_epoch c) c (ps_configs ps)\<rparr>)"
| Restore: "ps_expunged ps = None \<Longrightarrow> bt_contains_key (ps_configs ps) e \<Longrightarrow>
    ledger_step me ps (\<not> bt_contains_key (ps_shares ps) e) (ps\<lparr>ps_shares := bt_insert e s (ps_shares ps)\<rparr>)"
| Learn: "ps_expunged ps = None \<Longrightarrow> \<not> bt_contains_key (ps_configs ps) (cfg_epoch c) \<Longrightarrow>
    me \<in> set (bt_keys (cfg_members c)) \<Longrightarrow>
    ledger_step me ps True (ps\<lparr>ps_configs := bt_insert (cfg_epoch c) c (ps_configs ps)\<rparr>)"
| Commit: "ps_expunged ps = None \<Longrightarrow> ps_has_prepared ps e \<Longrightarrow> e \<notin> set (ps_commits ps) \<Longrightarrow>
    ledger_step me ps True (ps\<lparr>ps_commits := bs_insert e (ps_commits ps)\<rparr>)"
| Compute: "ps_expunged ps = None \<Longrightarrow> bt_contains_key (ps_configs ps) e \<Longrightarrow>
    ledger_step me ps (\<not> bt_contains_key (ps_shares ps) e \<or> e \<notin> set (ps_commits ps))
      (ps\<lparr>ps_shares := bt_insert e s (ps_shares ps), ps_commits := bs_insert e (ps_commits ps)\<rparr>)"
| Expunge: "ps_expunged ps = None \<Longrightarrow> ps_latest_config ps = Some c \<Longrightarrow> cfg_epoch c \<le> exp_epoch x \<Longrightarrow>
    ledger_step me ps True (ps\<lparr>ps_expunged := Some x\<rparr>)"

inductive ledger_steps :: "baseboard_id \<Rightarrow> persistent_state \<Rightarrow> bool \<Rightarrow> persistent_state \<Rightarrow> bool"
  for me :: baseboard_id where
  Refl [simp, intro]: "ledger_steps me ps False ps"
| Step: "ledger_steps me ps b ps' \<Longrightarrow> ledger_step me ps' b' ps'' \<Longrightarrow> ledger_steps me ps (b \<or> b') ps''"

lemma ledger_steps_single: "ledger_step me ps b ps' \<Longrightarrow> ledger_steps me ps b ps'"
  using ledger_steps.Step [OF ledger_steps.Refl, of me ps b ps'] by simp

lemma ledger_steps_trans:
  assumes "ledger_steps me ps b ps'" and "ledger_steps me ps' b' ps''"
  shows "ledger_steps me ps (b \<or> b') ps''"
  using assms(2,1)
proof (induction arbitrary: ps b)
  case (Step ps1 b1 ps2 b2 ps3)
  from ledger_steps.Step [OF Step.IH [OF Step.prems] Step.hyps(2)] show ?case
    by (simp add: disj_assoc)
qed simp

inductive_cases ledger_stepE: "ledger_step me ps b ps'"

section \<open>Invariants\<close>

text \<open>A property that every step preserves holds after any number of steps.\<close>

locale ledger_invariant =
  fixes me :: baseboard_id and inv :: "persistent_state \<Rightarrow> bool"
  assumes preserved: "ledger_step me ps b ps' \<Longrightarrow> inv ps \<Longrightarrow> inv ps'"
begin

lemma steps_preserve: "ledger_steps me ps b ps' \<Longrightarrow> inv ps \<Longrightarrow> inv ps'"
  by (induction rule: ledger_steps.induct) (auto intro: preserved)

end

text \<open>The node is a member of every configuration it stores.\<close>

definition member_of_all :: "baseboard_id \<Rightarrow> persistent_state \<Rightarrow> bool" where
  "member_of_all me ps \<longleftrightarrow>
     (\<forall>e c. bt_get (ps_configs ps) e = Some c \<longrightarrow> me \<in> set (bt_keys (cfg_members c)))"

lemma ledger_step_wf: "ledger_step me ps b ps' \<Longrightarrow> wf_ps ps \<Longrightarrow> wf_ps ps'"
proof (induction rule: ledger_step.induct)
  case (Store ps c s)
  let ?ps = "ps\<lparr>ps_configs := bt_insert (cfg_epoch c) c (ps_configs ps)\<rparr>"
  have "wf_ps (?ps\<lparr>ps_shares := bt_insert (cfg_epoch c) s (ps_shares ?ps)\<rparr>)"
    using Store by (intro wf_ps_insert_share wf_ps_insert_config) (simp_all add: bt_contains_keys)
  then show ?case by (cases ps) simp
next
  case (Compute ps e s)
  let ?ps = "ps\<lparr>ps_shares := bt_insert e s (ps_shares ps)\<rparr>"
  have "wf_ps (?ps\<lparr>ps_commits := bs_insert e (ps_commits ?ps)\<rparr>)"
    using Compute by (intro wf_ps_commit wf_ps_insert_share)
      (simp_all add: ps_has_prepared_def bt_contains_keys)
  then show ?case by simp
qed (simp_all add: wf_ps_insert_share wf_ps_insert_config wf_ps_commit)

lemma ledger_step_member:
  "ledger_step me ps b ps' \<Longrightarrow> member_of_all me ps \<Longrightarrow> member_of_all me ps'"
  by (induction rule: ledger_step.induct) (auto simp: member_of_all_def bt_get_insert split: if_splits)

interpretation ledger_wf: ledger_invariant me wf_ps for me
  by unfold_locales (rule ledger_step_wf)

interpretation ledger_member: ledger_invariant me "member_of_all me" for me
  by unfold_locales (rule ledger_step_member)

section \<open>Nothing is forgotten\<close>

text \<open>The order in which persistent states grow.\<close>

definition ps_extends :: "persistent_state \<Rightarrow> persistent_state \<Rightarrow> bool" where
  "ps_extends ps ps' \<longleftrightarrow>
     ps_lrtq ps' = ps_lrtq ps \<and>
     (\<forall>e c. bt_get (ps_configs ps) e = Some c \<longrightarrow> bt_get (ps_configs ps') e = Some c) \<and>
     set (bt_keys (ps_shares ps)) \<subseteq> set (bt_keys (ps_shares ps')) \<and>
     set (ps_commits ps) \<subseteq> set (ps_commits ps') \<and>
     (\<forall>x. ps_expunged ps = Some x \<longrightarrow> ps_expunged ps' = Some x)"

lemma ps_extends_refl [simp]: "ps_extends ps ps"
  by (simp add: ps_extends_def)

lemma ps_extends_trans: "ps_extends a b \<Longrightarrow> ps_extends b c \<Longrightarrow> ps_extends a c"
  by (fastforce simp: ps_extends_def)

lemma ledger_step_extends: "ledger_step me ps b ps' \<Longrightarrow> ps_extends ps ps'"
  by (induction rule: ledger_step.induct)
    (auto simp: ps_extends_def bt_get_insert bt_contains_get)

lemma ledger_steps_extends: "ledger_steps me ps b ps' \<Longrightarrow> ps_extends ps ps'"
  by (induction rule: ledger_steps.induct) (auto intro: ps_extends_trans dest: ledger_step_extends)

lemma ps_extends_committed:
  assumes "ps_extends ps ps'" and "wf_ps ps" and "wf_ps ps'" and "ps_latest_committed_epoch ps = Some e"
  obtains e' where "ps_latest_committed_epoch ps' = Some e'" and "e \<le> e'"
  using bts.greatest_mono [of "ps_commits ps" "ps_commits ps'" e] assms
  by (auto simp: ps_extends_def wf_ps_def ps_latest_committed_epoch_greatest)

lemma ps_extends_rack_id:
  assumes "ps_extends ps ps'" and "ps_rack_id ps \<noteq> None"
  shows "ps_rack_id ps' \<noteq> None"
proof (cases "ps_configs ps = []")
  case True
  then show ?thesis using assms
    by (auto simp: ps_extends_def ps_rack_id_def ps_latest_config_def bt_values_def split: option.splits)
next
  case False
  then obtain e c rest where "ps_configs ps = (e, c) # rest"
    by (cases "ps_configs ps") auto
  then have "bt_get (ps_configs ps) e = Some c" by (simp add: bt_get_Cons)
  then have "ps_configs ps' \<noteq> []" using assms(1) by (auto simp: ps_extends_def)
  then show ?thesis by (auto simp: ps_rack_id_def ps_latest_config_def bt_values_def split: option.split)
qed

lemma ledger_step_expunged: "ledger_step me ps b ps' \<Longrightarrow> ps_expunged ps = None"
  by (induction rule: ledger_step.induct) simp_all

lemma ledger_steps_expunged:
  "ledger_steps me ps b ps' \<Longrightarrow> ps_expunged ps \<noteq> None \<Longrightarrow> ps' = ps \<and> \<not> b"
  by (induction rule: ledger_steps.induct) (auto dest: ledger_step_expunged)

text \<open>
  Only replacing the share of an epoch that has one goes unreported; whenever a
  configuration, a commit, an expungement or a first share is added, the label is set.
\<close>

lemma ledger_step_unreported:
  "ledger_step me ps b ps' \<Longrightarrow> \<not> b \<Longrightarrow>
     ps_configs ps' = ps_configs ps \<and> set (ps_commits ps') = set (ps_commits ps) \<and>
     ps_expunged ps' = ps_expunged ps \<and> set (bt_keys (ps_shares ps')) = set (bt_keys (ps_shares ps))"
  by (induction rule: ledger_step.induct) (auto simp: bt_contains_keys)

lemma ledger_steps_unreported:
  "ledger_steps me ps b ps' \<Longrightarrow> \<not> b \<Longrightarrow>
     ps_configs ps' = ps_configs ps \<and> set (ps_commits ps') = set (ps_commits ps) \<and>
     ps_expunged ps' = ps_expunged ps \<and> set (bt_keys (ps_shares ps')) = set (bt_keys (ps_shares ps))"
  by (induction rule: ledger_steps.induct) (auto dest: ledger_step_unreported)

section \<open>Contexts\<close>

text \<open>A change of the context whose persistent state follows the ledger.\<close>

definition ctx_ledger :: "node_ctx \<Rightarrow> node_ctx \<Rightarrow> bool" where
  "ctx_ledger ctx ctx' \<longleftrightarrow>
     ctx_platform_id ctx' = ctx_platform_id ctx \<and>
     ctx_alarms ctx \<subseteq> ctx_alarms ctx' \<and>
     (\<exists>msgs. ctx_outgoing ctx' = ctx_outgoing ctx @ msgs) \<and>
     (\<exists>b. ledger_steps (ctx_platform_id ctx) (ctx_persistent_state ctx) b (ctx_persistent_state ctx') \<and>
          ctx_persistent_state_changed ctx' = (ctx_persistent_state_changed ctx \<or> b))"

lemma ctx_frame_ledger: "ctx_frame ctx ctx' \<Longrightarrow> ctx_ledger ctx ctx'"
  unfolding ctx_frame_def ctx_ledger_def using ledger_steps.Refl by fastforce

lemma ctx_ledger_refl [simp]: "ctx_ledger ctx ctx"
  by (rule ctx_frame_ledger) simp

lemma ctx_ledger_trans:
  assumes "ctx_ledger a b" and "ctx_ledger b c"
  shows "ctx_ledger a c"
proof -
  from assms obtain x y where
    "ledger_steps (ctx_platform_id a) (ctx_persistent_state a) x (ctx_persistent_state b)"
    "ledger_steps (ctx_platform_id a) (ctx_persistent_state b) y (ctx_persistent_state c)"
    "ctx_persistent_state_changed c = (ctx_persistent_state_changed a \<or> x \<or> y)"
    by (auto simp: ctx_ledger_def)
  with ledger_steps_trans [OF this(1,2)] assms show ?thesis
    by (auto simp: ctx_ledger_def intro!: exI [of _ "x \<or> y"])
qed

lemma ctx_ledger_update:
  assumes "ledger_step (ctx_platform_id ctx) (ctx_persistent_state ctx) b ps"
  shows "ctx_ledger ctx (ctx\<lparr>ctx_persistent_state := ps,
    ctx_persistent_state_changed := (b \<or> ctx_persistent_state_changed ctx)\<rparr>)"
  using ledger_steps_single [OF assms] by (auto simp: ctx_ledger_def)

lemma ctx_ledger_extends: "ctx_ledger ctx ctx' \<Longrightarrow> ps_extends (ctx_persistent_state ctx) (ctx_persistent_state ctx')"
  by (auto simp: ctx_ledger_def dest: ledger_steps_extends)

lemma ctx_ledger_wf: "ctx_ledger ctx ctx' \<Longrightarrow> wf_ps (ctx_persistent_state ctx) \<Longrightarrow> wf_ps (ctx_persistent_state ctx')"
  by (auto simp: ctx_ledger_def intro: ledger_wf.steps_preserve)

lemma ctx_ledger_member:
  "ctx_ledger ctx ctx' \<Longrightarrow> member_of_all (ctx_platform_id ctx) (ctx_persistent_state ctx) \<Longrightarrow>
     member_of_all (ctx_platform_id ctx) (ctx_persistent_state ctx')"
  by (auto simp: ctx_ledger_def intro: ledger_member.steps_preserve)

end
