(* ===== verification/TQ_Coordinator.thy ===== *)
theory TQ_Coordinator
  imports TQ_Validators TQ_Rack_Secret_Loader TQ_Ledger
begin

text \<open>
  The coordinator of a reconfiguration (\<^verbatim>\<open>trust-quorum/protocol/src/coordinator_state.rs\<close>):
  it creates the new configuration and its shares, collects the shares of the last committed
  configuration (or the LRTQ shares), encrypts the old rack secrets under the new one, sends
  the prepares and counts the acknowledgements.
\<close>

section \<open>Definitions\<close>

datatype coordinating_msg =
  Upgrade validated_lrtq_upgrade_msg
| Reconfig validated_reconfigure_msg

fun coordinating_msg_epoch :: "coordinating_msg \<Rightarrow> epoch" where
  "coordinating_msg_epoch (Upgrade msg) = vlm_epoch msg"
| "coordinating_msg_epoch (Reconfig msg) = vrm_epoch msg"

datatype coordinator_operation =
  CollectShares epoch "(baseboard_id, share) btree_map" "(baseboard_id, share) btree_map"
| CollectLrtqShares "(baseboard_id, lrtq_share) btree_map" "(baseboard_id, share) btree_map"
| PrepareOp "(baseboard_id, configuration \<times> share) btree_map" "baseboard_id btree_set"

fun coordinator_operation_name :: "coordinator_operation \<Rightarrow> string" where
  "coordinator_operation_name (CollectShares _ _ _) = ''collect shares''"
| "coordinator_operation_name (CollectLrtqShares _ _) = ''collect lrtq shares''"
| "coordinator_operation_name (PrepareOp _ _) = ''prepare''"

fun acked_prepares :: "coordinator_operation \<Rightarrow> baseboard_id btree_set" where
  "acked_prepares (PrepareOp _ prepare_acks) = prepare_acks"
| "acked_prepares _ = []"

record coordinator_state =
  cs_msg :: coordinating_msg
  cs_configuration :: configuration
  cs_op :: coordinator_operation

definition cs_new ::
  "validated_reconfigure_msg \<Rightarrow> configuration \<Rightarrow> coordinator_operation \<Rightarrow> coordinator_state" where
  "cs_new reconfigure_msg configuration op =
     \<lparr>cs_msg = Reconfig reconfigure_msg, cs_configuration = configuration, cs_op = op\<rparr>"

definition cs_new_uninitialized ::
  "crypto_env \<Rightarrow> validated_reconfigure_msg \<Rightarrow> rng \<Rightarrow>
   ((coordinator_state \<times> configuration \<times> share) \<times> rng, reconfiguration_error) rust_result outcome" where
  "cs_new_uninitialized E msg rng =
     obind (new_configuration E (vrm_new_config_params msg) rng) (\<lambda>r.
       case r of
         Inl e \<Rightarrow> Done (Err (ReconfigurationConfiguration e))
       | Inr ((config, shares), rng) \<Rightarrow>
           (let (prepares, my_share) =
                  foldl (\<lambda>(prepares, my_share) (platform_id, share).
                      if platform_id = vrm_coordinator_id msg then (prepares, Some share)
                      else (bt_insert platform_id (config, share) prepares, my_share))
                    ([], None) shares;
                op = PrepareOp prepares [vrm_coordinator_id msg];
                state = cs_new msg config op
            in obind (expect ''called `Option::unwrap()` on a `None` value'' my_share) (\<lambda>my_share.
                 Done (Ok ((state, config, my_share), rng)))))"

definition cs_new_reconfiguration ::
  "crypto_env \<Rightarrow> validated_reconfigure_msg \<Rightarrow> configuration \<Rightarrow> share \<Rightarrow> rng \<Rightarrow>
   (coordinator_state \<times> rng, reconfiguration_error) rust_result outcome" where
  "cs_new_reconfiguration E msg latest_committed_config our_latest_committed_share rng =
     obind (new_configuration E (vrm_new_config_params msg) rng) (\<lambda>r.
       case r of
         Inl e \<Rightarrow> Done (Err (ReconfigurationConfiguration e))
       | Inr ((config, new_shares), rng) \<Rightarrow>
           (let op = CollectShares (cfg_epoch latest_committed_config)
                       [(vrm_coordinator_id msg, our_latest_committed_share)] new_shares
            in Done (Ok (cs_new msg config op, rng))))"

definition cs_new_upgrade_from_lrtq ::
  "crypto_env \<Rightarrow> node_ctx \<Rightarrow> validated_lrtq_upgrade_msg \<Rightarrow> rng \<Rightarrow>
   (coordinator_state \<times> rng, configuration_error) rust_result outcome" where
  "cs_new_upgrade_from_lrtq E ctx msg rng =
     obind (new_configuration E (vlm_new_config_params msg) rng) (\<lambda>r.
       case r of
         Inl e \<Rightarrow> Done (Err e)
       | Inr ((configuration, new_shares), rng) \<Rightarrow>
           obind (expect ''lrtq config exists'' (ps_lrtq (ctx_persistent_state ctx))) (\<lambda>lrtq.
           obind (lrtq_share_new (lsd_share lrtq)) (\<lambda>my_share.
             let op = CollectLrtqShares [(vlm_coordinator_id msg, my_share)] new_shares
             in Done (Ok (\<lparr>cs_msg = Upgrade msg, cs_configuration = configuration, cs_op = op\<rparr>, rng)))))"

definition cs_send_msgs :: "coordinator_state \<Rightarrow> node_ctx \<Rightarrow> node_ctx outcome" where
  "cs_send_msgs self ctx =
     (case cs_op self of
        CollectShares old_epoch old_collected_shares _ \<Rightarrow>
          obind (expect ''config exists'' (ps_configuration (ctx_persistent_state ctx) old_epoch)) (\<lambda>config.
            let destinations = filter (\<lambda>id. \<not> bt_contains_key old_collected_shares id \<and>
                                            bs_contains (ctx_connected ctx) id)
                                 (bt_keys (cfg_members config))
            in ctx_send_all ctx (map (\<lambda>to. (to, GetShare old_epoch)) destinations))
      | CollectLrtqShares collected_lrtq_shares _ \<Rightarrow>
          (let destinations = filter (\<lambda>id. \<not> bt_contains_key collected_lrtq_shares id \<and>
                                           bs_contains (ctx_connected ctx) id)
                                (bt_keys (cfg_members (cs_configuration self)))
           in ctx_send_all ctx (map (\<lambda>to. (to, GetLrtqShare)) destinations))
      | PrepareOp prepares _ \<Rightarrow>
          ctx_send_connected ctx (map (\<lambda>(platform_id, (config, share)). (platform_id, Prepare config share)) prepares))"

definition cs_send_msgs_to :: "coordinator_state \<Rightarrow> node_ctx \<Rightarrow> baseboard_id \<Rightarrow> node_ctx outcome" where
  "cs_send_msgs_to self ctx to =
     (case cs_op self of
        CollectShares old_epoch old_collected_shares _ \<Rightarrow>
          (if \<not> bt_contains_key old_collected_shares to \<and> bs_contains (ctx_connected ctx) to then
             obind (expect ''config exists'' (ps_configuration (ctx_persistent_state ctx) old_epoch)) (\<lambda>config.
               if bt_contains_key (cfg_members config) to then ctx_send ctx to (GetShare old_epoch)
               else Done ctx)
           else Done ctx)
      | CollectLrtqShares collected_lrtq_shares _ \<Rightarrow>
          (if \<not> bt_contains_key collected_lrtq_shares to \<and> bs_contains (ctx_connected ctx) to \<and>
              bt_contains_key (cfg_members (cs_configuration self)) to
           then ctx_send ctx to GetLrtqShare
           else Done ctx)
      | PrepareOp prepares _ \<Rightarrow>
          (case bt_get prepares to of
             Some (config, share) \<Rightarrow> ctx_send ctx to (Prepare config share)
           | None \<Rightarrow> Done ctx))"

definition cs_ack_prepare :: "coordinator_state \<Rightarrow> baseboard_id \<Rightarrow> coordinator_state" where
  "cs_ack_prepare self from =
     (case cs_op self of
        PrepareOp prepares prepare_acks \<Rightarrow>
          (if \<not> bt_contains_key (cfg_members (cs_configuration self)) from then self
           else self\<lparr>cs_op := PrepareOp (bt_remove from prepares) (bs_insert from prepare_acks)\<rparr>)
      | _ \<Rightarrow> self)"

definition cs_transition_to_preparing ::
  "crypto_env \<Rightarrow> coordinator_state \<Rightarrow> node_ctx \<Rightarrow> (baseboard_id, share) btree_map \<Rightarrow>
   plaintext_rack_secrets \<Rightarrow> rng \<Rightarrow> (coordinator_state \<times> node_ctx) outcome" where
  "cs_transition_to_preparing E self ctx new_shares plaintext_secrets rng =
     (let new_epoch = cfg_epoch (cs_configuration self) in
      case rack_secret_reconstruct (bt_values new_shares) of
        Inl err \<Rightarrow> Done (self, ctx)
      | Inr new_rack_secret \<Rightarrow>
          obind (encrypt_rack_secrets E plaintext_secrets (cfg_rack_id (cs_configuration self)) new_epoch
                   new_rack_secret rng) (\<lambda>r.
            case r of
              Inl _ \<Rightarrow> Done (self, ctx)
            | Inr (new_encrypted_rack_secrets, _) \<Rightarrow>
                obind (assert_that ''self.configuration.encrypted_rack_secrets.is_none()''
                         (cfg_encrypted_rack_secrets (cs_configuration self) = None)) (\<lambda>_.
                  let configuration = (cs_configuration self)
                        \<lparr>cfg_encrypted_rack_secrets := Some new_encrypted_rack_secrets\<rparr>;
                      self = self\<lparr>cs_configuration := configuration\<rparr> in
                  obind (expect ''my share exists'' (bt_get new_shares (ctx_platform_id ctx))) (\<lambda>share.
                    let new_shares = bt_remove (ctx_platform_id ctx) new_shares in
                    obind (ctx_update_persistent_state ctx (\<lambda>ps.
                        obind (assert_that ''no existing configuration''
                                 (\<not> bt_contains_key (ps_configs ps) (cfg_epoch configuration))) (\<lambda>_.
                          Done (ps\<lparr>ps_shares := bt_insert new_epoch share (ps_shares ps),
                                   ps_configs := bt_insert (cfg_epoch configuration) configuration (ps_configs ps)\<rparr>,
                                True)))) (\<lambda>(ctx, _).
                      let prepares = map (\<lambda>(id, share). (id, (configuration, share))) new_shares;
                          self = self\<lparr>cs_op := PrepareOp prepares [ctx_platform_id ctx]\<rparr> in
                      obind (cs_send_msgs self ctx) (\<lambda>ctx. Done (self, ctx)))))))"

definition cs_handle_share ::
  "crypto_env \<Rightarrow> coordinator_state \<Rightarrow> node_ctx \<Rightarrow> baseboard_id \<Rightarrow> epoch \<Rightarrow> share \<Rightarrow> rng \<Rightarrow>
   (coordinator_state \<times> node_ctx) outcome" where
  "cs_handle_share E self ctx from epoch share rng =
     (case cs_op self of
        CollectShares old_epoch old_collected_shares new_shares \<Rightarrow>
          obind (expect ''config exists'' (ps_configuration (ctx_persistent_state ctx) old_epoch)) (\<lambda>old_config.
            if \<not> validate_share E old_config from epoch share then Done (self, ctx)
            else
              (let known = bt_contains_key old_collected_shares from;
                   old_collected_shares = bt_insert from share old_collected_shares;
                   self = self\<lparr>cs_op := CollectShares old_epoch old_collected_shares new_shares\<rparr> in
               if known then Done (self, ctx)
               else if length old_collected_shares < unat (cfg_threshold old_config) then Done (self, ctx)
               else (case rack_secret_reconstruct (bt_values old_collected_shares) of
                       Inl err \<Rightarrow> Done (self, ctx)
                     | Inr old_rack_secret \<Rightarrow>
                         obind (case cfg_encrypted_rack_secrets old_config of
                                  Some encrypted_secrets \<Rightarrow>
                                    decrypt_rack_secrets E encrypted_secrets (cfg_rack_id old_config)
                                      (cfg_epoch old_config) old_rack_secret
                                | None \<Rightarrow> Done (Ok [])) (\<lambda>r.
                           case r of
                             Inl err \<Rightarrow> Done (self, ctx)
                           | Inr plaintext_secrets \<Rightarrow>
                               obind (plaintext_insert plaintext_secrets old_epoch old_rack_secret)
                                 (\<lambda>plaintext_secrets.
                                   let self = self\<lparr>cs_op := CollectShares old_epoch old_collected_shares []\<rparr> in
                                   cs_transition_to_preparing E self ctx new_shares plaintext_secrets rng)))))
      | _ \<Rightarrow> Done (self, ctx))"

definition cs_handle_lrtq_share ::
  "crypto_env \<Rightarrow> coordinator_state \<Rightarrow> node_ctx \<Rightarrow> baseboard_id \<Rightarrow> lrtq_share \<Rightarrow> rng \<Rightarrow>
   (coordinator_state \<times> node_ctx) outcome" where
  "cs_handle_lrtq_share E self ctx from share rng =
     (case cs_op self of
        CollectLrtqShares collected_lrtq_shares new_shares \<Rightarrow>
          (if bt_contains_key collected_lrtq_shares from then Done (self, ctx)
           else obind (expect ''lrtq share data exists'' (ps_lrtq (ctx_persistent_state ctx))) (\<lambda>lrtq_share_data.
             let digest = lrtq_share_digest E share in
             if \<not> bs_contains (lsd_share_digests lrtq_share_data) digest then Done (self, ctx)
             else if list_ex (\<lambda>(_, s). lrtq_share_digest E s = digest) collected_lrtq_shares then Done (self, ctx)
             else
               (let collected_lrtq_shares = bt_insert from share collected_lrtq_shares;
                    self = self\<lparr>cs_op := CollectLrtqShares collected_lrtq_shares new_shares\<rparr> in
                if length collected_lrtq_shares < unat (lsd_threshold lrtq_share_data) then Done (self, ctx)
                else (case lrtq_combine E (bt_values collected_lrtq_shares) of
                        None \<Rightarrow> Done (self, ctx)
                      | Some lrtq_rack_secret \<Rightarrow>
                          obind (plaintext_insert [] 1 lrtq_rack_secret) (\<lambda>plaintext_secrets.
                            let self = self\<lparr>cs_op := CollectLrtqShares collected_lrtq_shares []\<rparr> in
                            cs_transition_to_preparing E self ctx new_shares plaintext_secrets rng)))))
      | _ \<Rightarrow> Done (self, ctx))"

section \<open>Messages\<close>

lemma cs_send_msgs_frame: "cs_send_msgs cs ctx = Done ctx' \<Longrightarrow> ctx_frame ctx ctx'"
  by (cases "cs_op cs")
    (auto simp: cs_send_msgs_def Let_def outcome_simps dest: ctx_frame_send_all ctx_frame_send_connected)

lemma cs_send_msgs_to_frame: "cs_send_msgs_to cs ctx to = Done ctx' \<Longrightarrow> ctx_frame ctx ctx'"
  by (cases "cs_op cs")
    (auto simp: cs_send_msgs_to_def outcome_simps dest: ctx_frame_send)

section \<open>The acknowledgements\<close>

text \<open>
  In the prepare phase every member either still has a prepare waiting for it or has
  acknowledged, and the prepares carry the configuration.
\<close>

definition prepare_partition ::
  "configuration \<Rightarrow> (baseboard_id, configuration \<times> share) btree_map \<Rightarrow> baseboard_id btree_set \<Rightarrow> bool" where
  "prepare_partition config prepares acks \<longleftrightarrow>
     bt_ok prepares \<and> bs_ok acks \<and>
     set (bt_keys prepares) \<inter> set acks = {} \<and>
     set (bt_keys prepares) \<union> set acks = set (bt_keys (cfg_members config)) \<and>
     (\<forall>(k, (c, s))\<in>set prepares. c = config)"

definition cs_ok :: "baseboard_id \<Rightarrow> persistent_state \<Rightarrow> coordinator_state \<Rightarrow> bool" where
  "cs_ok me ps cs \<longleftrightarrow>
     coordinating_msg_epoch (cs_msg cs) = cfg_epoch (cs_configuration cs) \<and>
     me \<in> set (bt_keys (cfg_members (cs_configuration cs))) \<and>
     (case cs_op cs of
        CollectShares old_epoch collected new_shares \<Rightarrow>
          cfg_encrypted_rack_secrets (cs_configuration cs) = None \<and>
          bt_contains_key (ps_configs ps) old_epoch \<and>
          (new_shares = [] \<or> bt_ok new_shares \<and> bt_keys new_shares = bt_keys (cfg_members (cs_configuration cs)))
      | CollectLrtqShares collected new_shares \<Rightarrow>
          cfg_encrypted_rack_secrets (cs_configuration cs) = None \<and>
          ps_lrtq ps \<noteq> None \<and>
          (new_shares = [] \<or> bt_ok new_shares \<and> bt_keys new_shares = bt_keys (cfg_members (cs_configuration cs)))
      | PrepareOp prepares acks \<Rightarrow>
          me \<in> set acks \<and>
          bt_get (ps_configs ps) (cfg_epoch (cs_configuration cs)) = Some (cs_configuration cs) \<and>
          prepare_partition (cs_configuration cs) prepares acks)"

lemma cs_ok_extends:
  assumes "cs_ok me ps cs" and "ps_extends ps ps'"
  shows "cs_ok me ps' cs"
proof -
  have "bt_contains_key (ps_configs ps) e \<Longrightarrow> bt_contains_key (ps_configs ps') e" for e
    using assms(2) by (fastforce simp: ps_extends_def bt_contains_get)
  moreover have "bt_get (ps_configs ps) e = Some c \<Longrightarrow> bt_get (ps_configs ps') e = Some c" for e c
    using assms(2) by (simp add: ps_extends_def)
  moreover have "ps_lrtq ps' = ps_lrtq ps" using assms(2) by (simp add: ps_extends_def)
  ultimately show ?thesis using assms(1) by (auto simp: cs_ok_def split: coordinator_operation.splits)
qed

lemma prepare_partition_ack:
  assumes "prepare_partition config prepares acks" and "from \<in> set (bt_keys (cfg_members config))"
  shows "prepare_partition config (bt_remove from prepares) (bs_insert from acks)"
  using assms by (auto simp: prepare_partition_def) (auto simp: bt_remove_def)

lemma cs_ok_ack: "cs_ok me ps cs \<Longrightarrow> cs_ok me ps (cs_ack_prepare cs from)"
  by (auto simp: cs_ok_def cs_ack_prepare_def bt_contains_keys prepare_partition_ack
      split: coordinator_operation.splits)

lemma cs_msg_ack [simp]:
  "cs_msg (cs_ack_prepare cs from) = cs_msg cs"
  "cs_configuration (cs_ack_prepare cs from) = cs_configuration cs"
  by (simp_all add: cs_ack_prepare_def split: coordinator_operation.split)

text \<open>
  Acknowledging a prepare keeps the partition of the members into waiting and acknowledged: a
  member moves from the first to the second, a stranger changes nothing.
\<close>

theorem ack_prepare_partition:
  assumes "prepare_partition (cs_configuration cs) prepares acks" and "cs_op cs = PrepareOp prepares acks"
  shows "\<exists>prepares' acks'. cs_op (cs_ack_prepare cs from) = PrepareOp prepares' acks' \<and>
    prepare_partition (cs_configuration (cs_ack_prepare cs from)) prepares' acks' \<and>
    set acks' = set acks \<union> ({from} \<inter> set (bt_keys (cfg_members (cs_configuration cs)))) \<and>
    set (bt_keys prepares') = set (bt_keys prepares) - {from}"
proof (cases "from \<in> set (bt_keys (cfg_members (cs_configuration cs)))")
  case True
  with prepare_partition_ack [OF assms(1) True] assms show ?thesis
    by (auto simp: cs_ack_prepare_def bt_contains_keys)
next
  case False
  with assms have "from \<notin> set (bt_keys prepares)" by (auto simp: prepare_partition_def)
  with False assms show ?thesis by (simp add: cs_ack_prepare_def bt_contains_keys)
qed

theorem ack_prepare_partition_witness:
  "\<exists>prepares' acks'. cs_op (cs_ack_prepare
     \<lparr>cs_msg = Reconfig (validated_of sled_a example_reconfigure_msg), cs_configuration = example_config,
      cs_op = PrepareOp [(sled_b, (example_config, example_secret_shares ! 1)),
                         (sled_c, (example_config, example_secret_shares ! 2))] [sled_a]\<rparr> sled_c) =
       PrepareOp prepares' acks' \<and> set acks' = {sled_a, sled_c} \<and> set (bt_keys prepares') = {sled_b}"
proof -
  let ?p = "[(sled_b, (example_config, example_secret_shares ! 1)),
    (sled_c, (example_config, example_secret_shares ! 2))]"
  let ?cs = "\<lparr>cs_msg = Reconfig (validated_of sled_a example_reconfigure_msg),
    cs_configuration = example_config, cs_op = PrepareOp ?p [sled_a]\<rparr>"
  have keys: "bt_keys (cfg_members example_config) = [sled_a, sled_b, sled_c]"
    by (simp add: example_config_def bt_keys_def example_secret_shares_props)
  have "prepare_partition (cs_configuration ?cs) ?p [sled_a]"
    by (auto simp: prepare_partition_def keys bt_ok_def bs_ok_def bt_keys_simps)
  from ack_prepare_partition [OF this, of sled_c] show ?thesis
    by (auto simp: keys bt_keys_simps)
qed

section \<open>Effects on the persistent state\<close>

lemma cs_transition_cases:
  assumes "cs_transition_to_preparing E cs ctx new_shares secrets rng = Done (cs', ctx')"
  obtains (Failed) "cs' = cs" and "ctx' = ctx"
  | (Prepared) enc share ctx1 where
      "cs' = cs\<lparr>cs_configuration := (cs_configuration cs)\<lparr>cfg_encrypted_rack_secrets := Some enc\<rparr>,
         cs_op := PrepareOp (map (\<lambda>(id, share). (id, ((cs_configuration cs)\<lparr>cfg_encrypted_rack_secrets := Some enc\<rparr>, share)))
           (bt_remove (ctx_platform_id ctx) new_shares)) [ctx_platform_id ctx]\<rparr>"
      and "bt_get new_shares (ctx_platform_id ctx) = Some share"
      and "\<not> bt_contains_key (ps_configs (ctx_persistent_state ctx)) (cfg_epoch (cs_configuration cs))"
      and "ctx1 = ctx\<lparr>ctx_persistent_state := (ctx_persistent_state ctx)
             \<lparr>ps_shares := bt_insert (cfg_epoch (cs_configuration cs)) share (ps_shares (ctx_persistent_state ctx)),
              ps_configs := bt_insert (cfg_epoch (cs_configuration cs))
                ((cs_configuration cs)\<lparr>cfg_encrypted_rack_secrets := Some enc\<rparr>)
                (ps_configs (ctx_persistent_state ctx))\<rparr>,
             ctx_persistent_state_changed := True\<rparr>"
      and "ctx_frame ctx1 ctx'"
proof (cases "cs' = cs \<and> ctx' = ctx")
  case True
  then show thesis using Failed by simp
next
  case False
  with assms show thesis
    by (auto simp: cs_transition_to_preparing_def Let_def outcome_simps ctx_update_Done
        dest!: cs_send_msgs_frame intro!: Prepared)
qed

lemma prepare_partition_start:
  assumes "bt_ok shares" and "bt_keys shares = bt_keys (cfg_members config)"
    and "me \<in> set (bt_keys (cfg_members config))"
  shows "prepare_partition config (map (\<lambda>(id, s). (id, (config, s))) (bt_remove me shares)) [me]"
proof -
  have keys: "bt_keys (map (\<lambda>(id, s). (id, (config, s))) m) = bt_keys m" for m :: "(baseboard_id, share) btree_map"
    by (simp add: bt_keys_def split_beta)
  have "bt_ok (map (\<lambda>(id, s). (id, (config, s))) (bt_remove me shares))"
    using assms(1) by (simp add: bt_ok_iff_keys [of "map _ _"] keys) (simp add: bt_ok_iff_keys [symmetric])
  then show ?thesis
    using assms by (auto simp: prepare_partition_def keys bs_ok_def)
qed

text \<open>
  The two ways in which handling a share ends: the context is unchanged and the coordinator
  still collects (or ignores the share), or it has prepared: then the configuration with
  the encrypted secrets and this node's share are stored.
\<close>

definition cs_step :: "coordinator_state \<Rightarrow> node_ctx \<Rightarrow> coordinator_state \<Rightarrow> node_ctx \<Rightarrow> bool" where
  "cs_step cs ctx cs' ctx' \<longleftrightarrow>
     cs_msg cs' = cs_msg cs \<and> cs_ok (ctx_platform_id ctx) (ctx_persistent_state ctx') cs' \<and>
     ctx_connected ctx' = ctx_connected ctx \<and>
     (ctx' = ctx \<or>
      \<not> bt_contains_key (ps_configs (ctx_persistent_state ctx)) (cfg_epoch (cs_configuration cs)) \<and>
      (\<exists>config share.
        cfg_epoch config = cfg_epoch (cs_configuration cs) \<and> cfg_members config = cfg_members (cs_configuration cs) \<and>
        ctx_frame (ctx\<lparr>ctx_persistent_state := (ctx_persistent_state ctx)
            \<lparr>ps_shares := bt_insert (cfg_epoch config) share (ps_shares (ctx_persistent_state ctx)),
             ps_configs := bt_insert (cfg_epoch config) config (ps_configs (ctx_persistent_state ctx))\<rparr>,
           ctx_persistent_state_changed := True\<rparr>) ctx'))"

lemma cs_step_ledger:
  assumes "cs_step cs ctx cs' ctx'" and "ps_expunged (ctx_persistent_state ctx) = None"
    and "ctx_platform_id ctx \<in> set (bt_keys (cfg_members (cs_configuration cs)))"
  shows "ctx_ledger ctx ctx'"
proof (cases "ctx' = ctx")
  case False
  with assms(1) obtain config share where c: "cfg_epoch config = cfg_epoch (cs_configuration cs)"
    "cfg_members config = cfg_members (cs_configuration cs)"
    "\<not> bt_contains_key (ps_configs (ctx_persistent_state ctx)) (cfg_epoch config)"
    "ctx_frame (ctx\<lparr>ctx_persistent_state := (ctx_persistent_state ctx)
            \<lparr>ps_shares := bt_insert (cfg_epoch config) share (ps_shares (ctx_persistent_state ctx)),
             ps_configs := bt_insert (cfg_epoch config) config (ps_configs (ctx_persistent_state ctx))\<rparr>,
           ctx_persistent_state_changed := True\<rparr>) ctx'"
    by (auto simp: cs_step_def)
  from ctx_ledger_update [OF ledger_step.Store [OF assms(2) c(3)], of share] assms(3) c(2)
  have "ctx_ledger ctx (ctx\<lparr>ctx_persistent_state := (ctx_persistent_state ctx)
            \<lparr>ps_shares := bt_insert (cfg_epoch config) share (ps_shares (ctx_persistent_state ctx)),
             ps_configs := bt_insert (cfg_epoch config) config (ps_configs (ctx_persistent_state ctx))\<rparr>,
           ctx_persistent_state_changed := True\<rparr>)"
    by simp
  then show ?thesis by (rule ctx_ledger_trans) (rule ctx_frame_ledger [OF c(4)])
qed simp

lemma cs_transition_step:
  assumes "cs_transition_to_preparing E cs ctx new_shares secrets rng = Done (cs', ctx')"
    and "cs_ok (ctx_platform_id ctx) (ctx_persistent_state ctx) cs"
    and "new_shares = [] \<or> bt_ok new_shares \<and> bt_keys new_shares = bt_keys (cfg_members (cs_configuration cs))"
  shows "cs_step cs ctx cs' ctx'"
  using assms(1)
proof (cases rule: cs_transition_cases)
  case Failed
  then show ?thesis using assms(2) by (simp add: cs_step_def)
next
  case (Prepared enc share ctx1)
  let ?config = "(cs_configuration cs)\<lparr>cfg_encrypted_rack_secrets := Some enc\<rparr>"
  let ?me = "ctx_platform_id ctx"
  have me: "?me \<in> set (bt_keys (cfg_members ?config))" using assms(2) by (simp add: cs_ok_def)
  have "new_shares \<noteq> []" using Prepared(2) by auto
  with assms(3) prepare_partition_start [OF _ _ me, of new_shares]
  have "prepare_partition ?config
      (map (\<lambda>(id, s). (id, (?config, s))) (bt_remove ?me new_shares)) [?me]" by simp
  moreover have ps: "ctx_persistent_state ctx' = ctx_persistent_state ctx1" using Prepared(5) by simp
  ultimately have "cs_ok ?me (ctx_persistent_state ctx') cs'"
    using assms(2) Prepared(1,4) by (simp add: cs_ok_def bt_contains_keys)
  moreover have "ctx_connected ctx' = ctx_connected ctx" using Prepared(4,5) by simp
  ultimately show ?thesis
    using Prepared(1,3,4,5) unfolding cs_step_def
    by (intro conjI disjI2 exI [of _ ?config] exI [of _ share]) simp_all
qed

lemma cs_step_refl: "cs_ok (ctx_platform_id ctx) (ctx_persistent_state ctx) cs \<Longrightarrow> cs_step cs ctx cs ctx"
  by (simp add: cs_step_def)

lemma cs_step_op:
  assumes "cs_step (cs\<lparr>cs_op := op\<rparr>) ctx cs' ctx'"
  shows "cs_step cs ctx cs' ctx'"
  using assms by (simp add: cs_step_def)

lemma cs_ok_collected:
  assumes "cs_ok me ps cs" and "cs_op cs = CollectShares old_epoch collected new_shares"
  shows "cs_ok me ps (cs\<lparr>cs_op := CollectShares old_epoch collected' new_shares\<rparr>)"
    and "cs_ok me ps (cs\<lparr>cs_op := CollectShares old_epoch collected' []\<rparr>)"
  using assms by (simp_all add: cs_ok_def)

lemma cs_ok_lrtq_collected:
  assumes "cs_ok me ps cs" and "cs_op cs = CollectLrtqShares collected new_shares"
  shows "cs_ok me ps (cs\<lparr>cs_op := CollectLrtqShares collected' new_shares\<rparr>)"
    and "cs_ok me ps (cs\<lparr>cs_op := CollectLrtqShares collected' []\<rparr>)"
  using assms by (simp_all add: cs_ok_def)

lemma cs_handle_share_step:
  assumes "cs_handle_share E cs ctx from epoch share rng = Done (cs', ctx')"
    and "cs_ok (ctx_platform_id ctx) (ctx_persistent_state ctx) cs"
  shows "cs_step cs ctx cs' ctx'"
proof (cases "cs_op cs")
  case (CollectShares old_epoch collected new_shares)
  let ?op = "\<lambda>m n. CollectShares old_epoch m n"
  have ns: "new_shares = [] \<or> bt_ok new_shares \<and> bt_keys new_shares = bt_keys (cfg_members (cs_configuration cs))"
    using assms(2) CollectShares by (simp add: cs_ok_def)
  note ok = cs_ok_collected [OF assms(2) CollectShares]
  have same: "cs_step cs ctx (cs\<lparr>cs_op := ?op m new_shares\<rparr>) ctx" for m
    using cs_step_op [OF cs_step_refl [OF ok(1)]] .
  have trans: "cs_step cs ctx cs' ctx'"
    if "cs_transition_to_preparing E (cs\<lparr>cs_op := ?op m []\<rparr>) ctx new_shares secrets rng = Done (cs', ctx')"
    for m secrets
    by (rule cs_step_op [OF cs_transition_step [OF that ok(2)]]) (simp add: ns)
  from assms(1) CollectShares show ?thesis
    using cs_step_refl [OF assms(2)] same trans
    by (auto simp: cs_handle_share_def Let_def outcome_simps)
qed (use assms in \<open>simp_all add: cs_handle_share_def cs_step_refl\<close>)

lemma cs_handle_lrtq_share_step:
  assumes "cs_handle_lrtq_share E cs ctx from share rng = Done (cs', ctx')"
    and "cs_ok (ctx_platform_id ctx) (ctx_persistent_state ctx) cs"
  shows "cs_step cs ctx cs' ctx'"
proof (cases "cs_op cs")
  case (CollectLrtqShares collected new_shares)
  have ns: "new_shares = [] \<or> bt_ok new_shares \<and> bt_keys new_shares = bt_keys (cfg_members (cs_configuration cs))"
    using assms(2) CollectLrtqShares by (simp add: cs_ok_def)
  note ok = cs_ok_lrtq_collected [OF assms(2) CollectLrtqShares]
  have same: "cs_step cs ctx (cs\<lparr>cs_op := CollectLrtqShares m new_shares\<rparr>) ctx" for m
    using cs_step_op [OF cs_step_refl [OF ok(1)]] .
  have trans: "cs_step cs ctx cs' ctx'"
    if "cs_transition_to_preparing E (cs\<lparr>cs_op := CollectLrtqShares m []\<rparr>) ctx new_shares secrets rng = Done (cs', ctx')"
    for m secrets
    by (rule cs_step_op [OF cs_transition_step [OF that ok(2)]]) (simp add: ns)
  from assms(1) CollectLrtqShares show ?thesis
    using cs_step_refl [OF assms(2)] same trans
    by (auto simp: cs_handle_lrtq_share_def Let_def outcome_simps)
qed (use assms in \<open>simp_all add: cs_handle_lrtq_share_def cs_step_refl\<close>)

section \<open>Starting to coordinate\<close>

lemma split_off_my_share:
  assumes "bt_ok shares" and "\<forall>k\<in>fst ` set p. \<forall>k'\<in>fst ` set shares. k < k'"
  shows "foldl (\<lambda>(p, m) (k, s). if k = me then (p, Some s) else (bt_insert k (config, s) p, m)) (p, m) shares =
    (p @ map (\<lambda>(id, s). (id, (config, s))) (bt_remove me shares),
     case bt_get shares me of None \<Rightarrow> m | Some s \<Rightarrow> Some s)"
  using assms
proof (induction shares arbitrary: p m)
  case (Cons ks shares)
  obtain k s where ks: "ks = (k, s)" by fastforce
  have ok: "bt_ok shares" and above: "\<forall>k'\<in>fst ` set shares. k < k'"
    using Cons.prems(1) by (auto simp: ks bt_ok_Cons)
  show ?case
  proof (cases "k = me")
    case True
    have "bt_get shares me = None" using above True by (auto simp: bt_get_None bt_keys_def)
    with Cons.IH [OF ok, of p "Some s"] Cons.prems(2) True show ?thesis
      by (auto simp: ks bt_remove_def bt_get_Cons)
  next
    case False
    have "bt_insert k (config, s) p = p @ [(k, (config, s))]"
      using Cons.prems(2) by (intro bt_insert_above) (auto simp: ks)
    moreover have "\<forall>k1\<in>fst ` set (p @ [(k, (config, s))]). \<forall>k'\<in>fst ` set shares. k1 < k'"
      using Cons.prems(2) above by (auto simp: ks)
    ultimately show ?thesis using Cons.IH [OF ok, of "p @ [(k, (config, s))]" m] False
      by (simp add: ks bt_remove_def bt_get_Cons)
  qed
qed (simp add: bt_remove_def)

text \<open>A validated request: the members are a set that contains the coordinator.\<close>

definition vrm_ok :: "validated_reconfigure_msg \<Rightarrow> bool" where
  "vrm_ok msg \<longleftrightarrow> bs_ok (vrm_members msg) \<and> vrm_coordinator_id msg \<in> set (vrm_members msg)"

lemma cs_new_uninitialized_Ok:
  assumes "cs_new_uninitialized E msg rng = Done (Ok ((cs, config, my_share), rng'))" and "vrm_ok msg"
  obtains d shares where "dealt_config E d config shares" and "bt_keys shares = vrm_members msg"
    and "bt_get shares (vrm_coordinator_id msg) = Some my_share"
    and "cs = \<lparr>cs_msg = Reconfig msg, cs_configuration = config,
      cs_op = PrepareOp (map (\<lambda>(id, s). (id, (config, s))) (bt_remove (vrm_coordinator_id msg) shares))
        [vrm_coordinator_id msg]\<rparr>"
    and "cfg_epoch config = vrm_epoch msg" and "cfg_rack_id config = vrm_rack_id msg"
    and "cfg_threshold config = vrm_threshold msg" and "cfg_encrypted_rack_secrets config = None"
proof -
  have mem: "bs_ok (ncp_members (vrm_new_config_params msg))"
    using assms(2) by (simp add: vrm_ok_def vrm_new_config_params_def)
  obtain config' shares rng1 where new:
    "new_configuration E (vrm_new_config_params msg) rng = Done (Ok ((config', shares), rng1))"
    using assms(1) by (auto simp: cs_new_uninitialized_def outcome_simps)
  from new mem obtain d where d: "dealt_config E d config' shares"
    "bt_keys shares = vrm_members msg" "cfg_epoch config' = vrm_epoch msg"
    "cfg_rack_id config' = vrm_rack_id msg" "cfg_threshold config' = vrm_threshold msg"
    "cfg_encrypted_rack_secrets config' = None"
    by (rule new_configuration_Ok) (simp_all add: vrm_new_config_params_def)
  have "bt_ok shares" using d(1) by (simp add: dealt_config_def)
  from split_off_my_share [OF this, of "[]" "vrm_coordinator_id msg" config' None] new assms(1)
  have "bt_get shares (vrm_coordinator_id msg) = Some my_share \<and> config' = config \<and>
    cs = \<lparr>cs_msg = Reconfig msg, cs_configuration = config,
      cs_op = PrepareOp (map (\<lambda>(id, s). (id, (config, s))) (bt_remove (vrm_coordinator_id msg) shares))
        [vrm_coordinator_id msg]\<rparr>"
    by (auto simp: cs_new_uninitialized_def cs_new_def outcome_simps Let_def split: option.splits)
  then show thesis using that d by auto
qed

lemma cs_new_uninitialized_returns:
  assumes "rack_secret_new rng = Done sr" and "vrm_ok msg"
  shows "\<exists>r. cs_new_uninitialized E msg rng = Done r"
proof -
  have mem: "bs_ok (ncp_members (vrm_new_config_params msg))"
    using assms(2) by (simp add: vrm_ok_def vrm_new_config_params_def)
  obtain r where r: "new_configuration E (vrm_new_config_params msg) rng = Done r"
    using new_configuration_returns [OF assms(1)] by blast
  show ?thesis
  proof (cases r)
    case (Inr x)
    obtain config shares rng1 where x: "x = ((config, shares), rng1)" by (metis surj_pair)
    from r [unfolded Inr x] mem obtain d where d: "dealt_config E d config shares"
      "bt_keys shares = vrm_members msg"
      by (rule new_configuration_Ok) (simp_all add: vrm_new_config_params_def)
    have ok: "bt_ok shares" using d(1) by (simp add: dealt_config_def)
    obtain s where "bt_get shares (vrm_coordinator_id msg) = Some s"
      using assms(2) d(2) bt_get_None [of shares "vrm_coordinator_id msg"]
      by (cases "bt_get shares (vrm_coordinator_id msg)") (auto simp: vrm_ok_def)
    with split_off_my_share [OF ok, of "[]" "vrm_coordinator_id msg" config None] r Inr x show ?thesis
      by (simp add: cs_new_uninitialized_def)
  qed (use r in \<open>simp add: cs_new_uninitialized_def\<close>)
qed

lemma cs_new_uninitialized_cs_ok:
  assumes "cs_new_uninitialized E msg rng = Done (Ok ((cs, config, my_share), rng'))" and "vrm_ok msg"
    and "bt_get (ps_configs ps) (cfg_epoch config) = Some config"
  shows "cs_ok (vrm_coordinator_id msg) ps cs"
  using assms(1,2)
proof (rule cs_new_uninitialized_Ok)
  fix d shares
  assume d: "dealt_config E d config shares" and keys: "bt_keys shares = vrm_members msg"
    and cs: "cs = \<lparr>cs_msg = Reconfig msg, cs_configuration = config,
      cs_op = PrepareOp (map (\<lambda>(id, s). (id, (config, s))) (bt_remove (vrm_coordinator_id msg) shares))
        [vrm_coordinator_id msg]\<rparr>" and e: "cfg_epoch config = vrm_epoch msg"
  have mk: "bt_keys shares = bt_keys (cfg_members config)" using dealt_config_keys [OF d] by simp
  have me: "vrm_coordinator_id msg \<in> set (bt_keys (cfg_members config))"
    using mk keys assms(2) by (simp add: vrm_ok_def)
  have "bt_ok shares" using d by (simp add: dealt_config_def)
  from prepare_partition_start [OF this mk me] assms(3) me e cs show ?thesis by (simp add: cs_ok_def)
qed

lemma cs_new_reconfiguration_Ok:
  assumes "cs_new_reconfiguration E msg config my_share rng = Done (Ok (cs, rng'))" and "vrm_ok msg"
  obtains d shares where "dealt_config E d (cs_configuration cs) shares"
    and "bt_keys shares = vrm_members msg"
    and "unat (cfg_threshold (cs_configuration cs)) \<le> length shares"
    and "cs_msg cs = Reconfig msg"
    and "cs_op cs = CollectShares (cfg_epoch config) [(vrm_coordinator_id msg, my_share)] shares"
    and "cfg_epoch (cs_configuration cs) = vrm_epoch msg"
    and "cfg_encrypted_rack_secrets (cs_configuration cs) = None"
proof -
  have mem: "bs_ok (ncp_members (vrm_new_config_params msg))"
    using assms(2) by (simp add: vrm_ok_def vrm_new_config_params_def)
  obtain config' shares rng1 where new:
    "new_configuration E (vrm_new_config_params msg) rng = Done (Ok ((config', shares), rng1))"
    "cs = cs_new msg config' (CollectShares (cfg_epoch config) [(vrm_coordinator_id msg, my_share)] shares)"
    using assms(1) by (auto simp: cs_new_reconfiguration_def outcome_simps Let_def)
  from new(1) mem obtain d where d: "dealt_config E d config' shares"
    "bt_keys shares = vrm_members msg" "cfg_epoch config' = vrm_epoch msg"
    "cfg_encrypted_rack_secrets config' = None"
    "unat (cfg_threshold config') \<le> length (vrm_members msg)"
    by (rule new_configuration_Ok) (simp_all add: vrm_new_config_params_def)
  have "length shares = length (vrm_members msg)" by (simp add: d(2) [symmetric] bt_keys_def)
  then show thesis using that [of d shares] d new(2) by (simp add: cs_new_def)
qed

lemma cs_new_reconfiguration_cs_ok:
  assumes "cs_new_reconfiguration E msg config my_share rng = Done (Ok (cs, rng'))" and "vrm_ok msg"
    and "bt_contains_key (ps_configs ps) (cfg_epoch config)"
  shows "cs_ok (vrm_coordinator_id msg) ps cs"
  using assms(1,2)
proof (rule cs_new_reconfiguration_Ok)
  fix d shares
  assume d: "dealt_config E d (cs_configuration cs) shares" "bt_keys shares = vrm_members msg"
    and cs: "cs_op cs = CollectShares (cfg_epoch config) [(vrm_coordinator_id msg, my_share)] shares"
      "cs_msg cs = Reconfig msg" "cfg_epoch (cs_configuration cs) = vrm_epoch msg"
      "cfg_encrypted_rack_secrets (cs_configuration cs) = None"
  have "bt_ok shares" using d(1) by (simp add: dealt_config_def)
  then show ?thesis
    using cs d(2) dealt_config_keys [OF d(1)] assms(2,3) by (simp add: cs_ok_def vrm_ok_def)
qed

lemma cs_new_reconfiguration_returns:
  assumes "rack_secret_new rng = Done sr"
  shows "\<exists>r. cs_new_reconfiguration E msg config my_share rng = Done r"
  using new_configuration_returns [OF assms, of E "vrm_new_config_params msg"]
  by (auto simp: cs_new_reconfiguration_def Let_def split: sum.split prod.split)

definition vlm_ok :: "validated_lrtq_upgrade_msg \<Rightarrow> bool" where
  "vlm_ok msg \<longleftrightarrow> bs_ok (vlm_members msg) \<and> vlm_coordinator_id msg \<in> set (vlm_members msg)"

lemma cs_new_upgrade_cs_ok:
  assumes "cs_new_upgrade_from_lrtq E ctx msg rng = Done (Ok (cs, rng'))" and "vlm_ok msg"
  shows "cs_ok (vlm_coordinator_id msg) (ctx_persistent_state ctx) cs"
proof -
  have mem: "bs_ok (ncp_members (vlm_new_config_params msg))"
    using assms(2) by (simp add: vlm_ok_def vlm_new_config_params_def)
  obtain config shares rng1 my_share where new:
    "new_configuration E (vlm_new_config_params msg) rng = Done (Ok ((config, shares), rng1))"
    "cs = \<lparr>cs_msg = Upgrade msg, cs_configuration = config,
      cs_op = CollectLrtqShares [(vlm_coordinator_id msg, my_share)] shares\<rparr>"
    "ps_lrtq (ctx_persistent_state ctx) \<noteq> None"
    using assms(1) by (auto simp: cs_new_upgrade_from_lrtq_def outcome_simps Let_def)
  from new(1) mem obtain d where d: "dealt_config E d config shares"
    "bt_keys shares = vlm_members msg" "cfg_epoch config = vlm_epoch msg"
    "cfg_encrypted_rack_secrets config = None"
    by (rule new_configuration_Ok) (simp_all add: vlm_new_config_params_def)
  have "bt_ok shares" using d(1) by (simp add: dealt_config_def)
  then show ?thesis
    using d new dealt_config_keys [OF d(1)] assms(2) by (simp add: cs_ok_def vlm_ok_def)
qed

lemma cs_new_upgrade_returns:
  assumes "rack_secret_new rng = Done sr" and "ps_lrtq (ctx_persistent_state ctx) = Some lrtq"
    and "length (lsd_share lrtq) = lrtq_share_size"
  shows "\<exists>r. cs_new_upgrade_from_lrtq E ctx msg rng = Done r"
  using new_configuration_returns [OF assms(1), of E "vlm_new_config_params msg"] assms(2,3)
  by (auto simp: cs_new_upgrade_from_lrtq_def lrtq_share_new_def Let_def split: sum.split prod.split)

section \<open>Completing the collection\<close>

lemma cs_send_msgs_returns:
  assumes "cs_ok me (ctx_persistent_state ctx) cs" and "ps_rack_id (ctx_persistent_state ctx) \<noteq> None"
  shows "\<exists>ctx'. cs_send_msgs cs ctx = Done ctx'"
proof (cases "cs_op cs")
  case (CollectShares old_epoch collected new_shares)
  then obtain config where "ps_configuration (ctx_persistent_state ctx) old_epoch = Some config"
    using assms(1) by (auto simp: cs_ok_def ps_configuration_def bt_contains_get)
  with CollectShares show ?thesis
    using ctx_send_all_returns [OF assms(2)] by (simp add: cs_send_msgs_def Let_def)
qed (use ctx_send_all_returns [OF assms(2)] ctx_send_connected_returns [OF assms(2)] in
    \<open>simp_all add: cs_send_msgs_def Let_def\<close>)

lemma cs_send_msgs_to_returns:
  assumes "cs_ok me (ctx_persistent_state ctx) cs" and "ps_rack_id (ctx_persistent_state ctx) \<noteq> None"
  shows "\<exists>ctx'. cs_send_msgs_to cs ctx to = Done ctx'"
proof (cases "cs_op cs")
  case (CollectShares old_epoch collected new_shares)
  then obtain config where "ps_configuration (ctx_persistent_state ctx) old_epoch = Some config"
    using assms(1) by (auto simp: cs_ok_def ps_configuration_def bt_contains_get)
  with CollectShares show ?thesis
    using ctx_send_returns [OF assms(2)] by (simp add: cs_send_msgs_to_def)
qed (use ctx_send_returns [OF assms(2)] in \<open>auto simp: cs_send_msgs_to_def split: option.split\<close>)

lemma ps_rack_id_store:
  "ps_rack_id (ps\<lparr>ps_shares := s, ps_configs := bt_insert e c m\<rparr>) \<noteq> None"
  by (auto simp: ps_rack_id_def ps_latest_config_def bt_values_def split: option.split)

lemma cs_transition_Ok:
  assumes "rack_secret_reconstruct (bt_values new_shares) = Ok secret"
    and "encrypt_rack_secrets E secrets (cfg_rack_id (cs_configuration cs)) (cfg_epoch (cs_configuration cs)) secret rng =
      Done (Ok (enc, rng'))"
    and "cfg_encrypted_rack_secrets (cs_configuration cs) = None"
    and "bt_get new_shares (ctx_platform_id ctx) = Some my_share"
    and "\<not> bt_contains_key (ps_configs (ctx_persistent_state ctx)) (cfg_epoch (cs_configuration cs))"
  obtains ctx' where
    "cs_transition_to_preparing E cs ctx new_shares secrets rng =
       Done (cs\<lparr>cs_configuration := (cs_configuration cs)\<lparr>cfg_encrypted_rack_secrets := Some enc\<rparr>,
         cs_op := PrepareOp (map (\<lambda>(id, s). (id, ((cs_configuration cs)\<lparr>cfg_encrypted_rack_secrets := Some enc\<rparr>, s)))
           (bt_remove (ctx_platform_id ctx) new_shares)) [ctx_platform_id ctx]\<rparr>, ctx')"
    and "ctx_persistent_state ctx' = (ctx_persistent_state ctx)
      \<lparr>ps_shares := bt_insert (cfg_epoch (cs_configuration cs)) my_share (ps_shares (ctx_persistent_state ctx)),
       ps_configs := bt_insert (cfg_epoch (cs_configuration cs))
         ((cs_configuration cs)\<lparr>cfg_encrypted_rack_secrets := Some enc\<rparr>) (ps_configs (ctx_persistent_state ctx))\<rparr>"
    and "ctx_persistent_state_changed ctx'"
proof -
  let ?c = "cs_configuration cs"
  let ?c' = "?c\<lparr>cfg_encrypted_rack_secrets := Some enc\<rparr>"
  let ?ctx = "ctx\<lparr>ctx_persistent_state := (ctx_persistent_state ctx)
      \<lparr>ps_shares := bt_insert (cfg_epoch ?c) my_share (ps_shares (ctx_persistent_state ctx)),
       ps_configs := bt_insert (cfg_epoch ?c) ?c' (ps_configs (ctx_persistent_state ctx))\<rparr>,
      ctx_persistent_state_changed := True\<rparr>"
  let ?cs = "cs\<lparr>cs_configuration := ?c',
      cs_op := PrepareOp (map (\<lambda>(id, s). (id, (?c', s))) (bt_remove (ctx_platform_id ctx) new_shares))
        [ctx_platform_id ctx]\<rparr>"
  have "ps_rack_id (ctx_persistent_state ?ctx) \<noteq> None" using ps_rack_id_store by simp
  from ctx_send_connected_returns [OF this] obtain ctx' where ctx': "cs_send_msgs ?cs ?ctx = Done ctx'"
    unfolding cs_send_msgs_def by fastforce
  have "cs_transition_to_preparing E cs ctx new_shares secrets rng = Done (?cs, ctx')"
    using assms ctx' by (simp add: cs_transition_to_preparing_def Let_def ctx_update_persistent_state_def)
  then show thesis using that cs_send_msgs_frame [OF ctx'] by simp
qed

lemma cs_transition_prepares:
  assumes "dealt_config E d (cs_configuration cs) new_shares"
    and "unat (cfg_threshold (cs_configuration cs)) \<le> length new_shares"
    and "cfg_encrypted_rack_secrets (cs_configuration cs) = None"
    and "crypto_usable E" and "wf_secrets secrets" and "secrets \<noteq> []"
    and "bt_get new_shares (ctx_platform_id ctx) = Some my_share"
    and "\<not> bt_contains_key (ps_configs (ctx_persistent_state ctx)) (cfg_epoch (cs_configuration cs))"
  obtains enc ctx' where
    "cs_transition_to_preparing E cs ctx new_shares secrets rng =
       Done (cs\<lparr>cs_configuration := (cs_configuration cs)\<lparr>cfg_encrypted_rack_secrets := Some enc\<rparr>,
         cs_op := PrepareOp (map (\<lambda>(id, s). (id, ((cs_configuration cs)\<lparr>cfg_encrypted_rack_secrets := Some enc\<rparr>, s)))
           (bt_remove (ctx_platform_id ctx) new_shares)) [ctx_platform_id ctx]\<rparr>, ctx')"
    and "holds_secrets E ((cs_configuration cs)\<lparr>cfg_encrypted_rack_secrets := Some enc\<rparr>) (deal_secret d) secrets"
    and "ctx_persistent_state ctx' = (ctx_persistent_state ctx)
      \<lparr>ps_shares := bt_insert (cfg_epoch (cs_configuration cs)) my_share (ps_shares (ctx_persistent_state ctx)),
       ps_configs := bt_insert (cfg_epoch (cs_configuration cs))
         ((cs_configuration cs)\<lparr>cfg_encrypted_rack_secrets := Some enc\<rparr>) (ps_configs (ctx_persistent_state ctx))\<rparr>"
    and "ctx_persistent_state_changed ctx'"
proof -
  let ?c = "cs_configuration cs"
  have "set (bt_values new_shares) \<subseteq> set (bt_values new_shares)" by simp
  then have rec: "rack_secret_reconstruct (bt_values new_shares) = Ok (deal_secret d)"
    using dealt_config_reconstruct [OF assms(1)] dealt_config_values_distinct [OF assms(1)] assms(2)
    by (simp add: bt_values_def)
  from assms(4,6) obtain enc rng' where enc:
    "encrypt_rack_secrets E secrets (cfg_rack_id ?c) (cfg_epoch ?c) (deal_secret d) rng = Done (Ok (enc, rng'))"
    by (rule encrypt_returns)
  let ?c' = "?c\<lparr>cfg_encrypted_rack_secrets := Some enc\<rparr>"
  have "holds_secrets E ?c' (deal_secret d) secrets" using enc assms(5) by (auto simp: holds_secrets_def)
  then show thesis
    using cs_transition_Ok [OF rec enc assms(3,7,8)] that by metis
qed

lemma holds_secrets_wf: "holds_secrets E config secret prior \<Longrightarrow> wf_secrets prior"
  by (auto simp: holds_secrets_def wf_secrets_def split: option.splits)

text \<open>What a coordinator collecting the shares of the last committed configuration has at hand.\<close>

definition collecting ::
  "crypto_env \<Rightarrow> node_ctx \<Rightarrow> coordinator_state \<Rightarrow> configuration \<Rightarrow> (baseboard_id, share) btree_map \<Rightarrow>
   (baseboard_id, share) btree_map \<Rightarrow> deal \<Rightarrow> bool" where
  "collecting E ctx cs old_config collected new_shares d \<longleftrightarrow>
     cs_op cs = CollectShares (cfg_epoch old_config) collected new_shares \<and>
     ps_configuration (ctx_persistent_state ctx) (cfg_epoch old_config) = Some old_config \<and>
     collected_ok E old_config collected \<and>
     dealt_config E d (cs_configuration cs) new_shares \<and>
     unat (cfg_threshold (cs_configuration cs)) \<le> length new_shares \<and>
     cfg_encrypted_rack_secrets (cs_configuration cs) = None \<and>
     ctx_platform_id ctx \<in> set (bt_keys new_shares)"

lemma cs_handle_share_transition:
  assumes "collecting E ctx cs old_config collected new_shares d"
    and "dealt_config E d_old old_config old_shares" and "digests_bind E old_shares" and "aead_inverts E"
    and "holds_secrets E old_config (deal_secret d_old) prior" and "\<not> bt_contains_key prior (cfg_epoch old_config)"
    and "validate_share E old_config from epoch share" and "\<not> bt_contains_key collected from"
    and "unat (cfg_threshold old_config) \<le> Suc (length collected)"
  shows "cs_handle_share E cs ctx from epoch share rng =
    cs_transition_to_preparing E
      (cs\<lparr>cs_op := CollectShares (cfg_epoch old_config) (bt_insert from share collected) []\<rparr>) ctx new_shares
      (bt_insert (cfg_epoch old_config) (deal_secret d_old) prior) rng"
proof -
  note c = assms(1) [unfolded collecting_def]
  let ?m = "bt_insert from share collected"
  have m: "collected_ok E old_config ?m" using collected_ok_insert [OF _ assms(7)] c by blast
  have len: "length ?m = Suc (length collected)" by (rule bt_insert_length [OF assms(8)])
  have rec: "rack_secret_reconstruct (bt_values ?m) = Ok (deal_secret d_old)"
    using collected_reconstruct [OF assms(2,3) m] assms(9) len by simp
  have "(case cfg_encrypted_rack_secrets old_config of
        Some encrypted_secrets \<Rightarrow> decrypt_rack_secrets E encrypted_secrets (cfg_rack_id old_config)
          (cfg_epoch old_config) (deal_secret d_old)
      | None \<Rightarrow> Done (Ok [])) = Done (Ok prior)"
    using assms(5) holds_secrets_decrypt [OF assms(4,5)]
    by (auto simp: holds_secrets_def split: option.split)
  then show ?thesis
    using c assms(6-9) rec len by (simp add: cs_handle_share_def Let_def plaintext_insert_def not_less)
qed

lemma collecting_share:
  assumes "collecting E ctx cs old_config collected new_shares d"
  obtains my_share where "bt_get new_shares (ctx_platform_id ctx) = Some my_share"
  using assms bt_get_None [of new_shares "ctx_platform_id ctx"]
  by (cases "bt_get new_shares (ctx_platform_id ctx)") (auto simp: collecting_def)

lemma cs_handle_share_completes:
  assumes "collecting E ctx cs old_config collected new_shares d"
    and "dealt_config E d_old old_config old_shares" and "digests_bind E old_shares"
    and "aead_inverts E" and "crypto_usable E"
    and "holds_secrets E old_config (deal_secret d_old) prior" and "\<not> bt_contains_key prior (cfg_epoch old_config)"
    and "\<not> bt_contains_key (ps_configs (ctx_persistent_state ctx)) (cfg_epoch (cs_configuration cs))"
    and "validate_share E old_config from epoch share" and "\<not> bt_contains_key collected from"
    and "unat (cfg_threshold old_config) \<le> Suc (length collected)"
  obtains enc cs' ctx' where
    "cs_handle_share E cs ctx from epoch share rng = Done (cs', ctx')"
    and "cs_configuration cs' = (cs_configuration cs)\<lparr>cfg_encrypted_rack_secrets := Some enc\<rparr>"
    and "cs_op cs' = PrepareOp (map (\<lambda>(id, s). (id, (cs_configuration cs', s)))
        (bt_remove (ctx_platform_id ctx) new_shares)) [ctx_platform_id ctx]"
    and "holds_secrets E (cs_configuration cs') (deal_secret d)
        (bt_insert (cfg_epoch old_config) (deal_secret d_old) prior)"
    and "ps_configuration (ctx_persistent_state ctx') (cfg_epoch (cs_configuration cs)) = Some (cs_configuration cs')"
    and "bt_get (ps_shares (ctx_persistent_state ctx')) (cfg_epoch (cs_configuration cs)) =
        bt_get new_shares (ctx_platform_id ctx)"
    and "ctx_persistent_state_changed ctx'"
proof -
  note c = assms(1) [unfolded collecting_def]
  let ?m = "bt_insert from share collected"
  let ?secrets = "bt_insert (cfg_epoch old_config) (deal_secret d_old) prior"
  let ?cs = "cs\<lparr>cs_op := CollectShares (cfg_epoch old_config) ?m []\<rparr>"
  obtain my_share where my: "bt_get new_shares (ctx_platform_id ctx) = Some my_share"
    by (rule collecting_share [OF assms(1)])
  have "length (deal_secret d_old) = secret_len" using assms(2) by (simp add: dealt_config_def)
  then have wf: "wf_secrets ?secrets" using holds_secrets_wf [OF assms(6)] by simp
  have ne: "?secrets \<noteq> []" by simp
  note cs_handle_share_transition [OF assms(1-4,6,7,9-11)]
  moreover obtain enc ctx' where tr:
    "cs_transition_to_preparing E ?cs ctx new_shares ?secrets rng =
       Done (?cs\<lparr>cs_configuration := (cs_configuration ?cs)\<lparr>cfg_encrypted_rack_secrets := Some enc\<rparr>,
         cs_op := PrepareOp (map (\<lambda>(id, s). (id, ((cs_configuration ?cs)\<lparr>cfg_encrypted_rack_secrets := Some enc\<rparr>, s)))
           (bt_remove (ctx_platform_id ctx) new_shares)) [ctx_platform_id ctx]\<rparr>, ctx')"
    "holds_secrets E ((cs_configuration ?cs)\<lparr>cfg_encrypted_rack_secrets := Some enc\<rparr>) (deal_secret d) ?secrets"
    "ctx_persistent_state ctx' = (ctx_persistent_state ctx)
      \<lparr>ps_shares := bt_insert (cfg_epoch (cs_configuration ?cs)) my_share (ps_shares (ctx_persistent_state ctx)),
       ps_configs := bt_insert (cfg_epoch (cs_configuration ?cs))
         ((cs_configuration ?cs)\<lparr>cfg_encrypted_rack_secrets := Some enc\<rparr>) (ps_configs (ctx_persistent_state ctx))\<rparr>"
    "ctx_persistent_state_changed ctx'"
    by (rule cs_transition_prepares [of E d ?cs new_shares ?secrets ctx my_share rng])
      (use c assms(5,8) wf ne my in simp_all)
  ultimately have run: "cs_handle_share E cs ctx from epoch share rng =
      Done (?cs\<lparr>cs_configuration := (cs_configuration ?cs)\<lparr>cfg_encrypted_rack_secrets := Some enc\<rparr>,
         cs_op := PrepareOp (map (\<lambda>(id, s). (id, ((cs_configuration ?cs)\<lparr>cfg_encrypted_rack_secrets := Some enc\<rparr>, s)))
           (bt_remove (ctx_platform_id ctx) new_shares)) [ctx_platform_id ctx]\<rparr>, ctx')"
    by (simp only:)
  show thesis
    by (rule that [OF run]) (use tr(2-) my in \<open>simp_all add: ps_configuration_def\<close>)
qed

text \<open>
  A coordinator of the example node that asks for a second configuration of the same
  members and has only its own share of the first one.
\<close>

definition example_cs :: coordinator_state where
  "example_cs = \<lparr>cs_msg = Reconfig (validated_of sled_a example_reconfigure_msg),
     cs_configuration = example_config\<lparr>cfg_epoch := 2\<rparr>,
     cs_op = CollectShares 1 [(sled_a, example_secret_shares ! 0)] example_shares_map\<rparr>"

lemma example_cs_new:
  "cs_new_reconfiguration toy_env (validated_of sled_a example_reconfigure_msg) example_config
     (example_secret_shares ! 0) (\<lambda>_. 7) = Done (Ok (example_cs, \<lambda>_. 7))"
proof -
  have "vrm_new_config_params (validated_of sled_a example_reconfigure_msg) = example_params\<lparr>ncp_epoch := 2\<rparr>"
    by (simp add: vrm_new_config_params_def validated_of_def example_reconfigure_msg_def example_params_def)
  moreover have "new_configuration toy_env (example_params\<lparr>ncp_epoch := 2\<rparr>) (\<lambda>_. 7) =
      Done (Ok ((example_config\<lparr>cfg_epoch := 2\<rparr>, example_shares_map), \<lambda>_. 7))"
    using members_and_shares [OF example_params_ok, of share_bytes example_secret_shares]
    by (simp add: new_configuration_def rack_secret_new_example example_secret_split toy_share_digest
        example_params_def example_config_def example_shares_map_def Let_def)
  ultimately show ?thesis
    by (simp add: cs_new_reconfiguration_def example_cs_def cs_new_def validated_of_def)
      (simp add: example_config_def)
qed

lemma example_collecting:
  assumes "dealt_config toy_env d example_config example_shares_map"
  shows "collecting toy_env example_ctx example_cs example_config [(sled_a, example_secret_shares ! 0)]
    example_shares_map d"
proof -
  have "dealt_config toy_env d (example_config\<lparr>cfg_epoch := 2\<rparr>) example_shares_map"
    using assms by (simp add: dealt_config_def)
  moreover have "collected_ok toy_env example_config [(sled_a, example_secret_shares ! 0)]"
    using example_validate [OF example_shares_in_map(1)]
    by (simp add: collected_ok_def bt_ok_def example_config_def)
  moreover have "sled_a \<in> set (bt_keys example_shares_map)"
    using example_shares_in_map(1) by (force simp: bt_keys_def)
  moreover have "length example_shares_map = 3"
    by (simp add: example_shares_map_def example_secret_shares_props)
  ultimately show ?thesis
    by (simp add: collecting_def example_cs_def example_ctx_def ctx_new_with_persistent_state_def
        ps_configuration_def) (simp add: example_ps_def example_config_def bt_get_Cons)
qed

end
