(* ===== verification/TQ_Node.thy ===== *)
theory TQ_Node
  imports TQ_Key_Share TQ_Coordinator
begin

text \<open>
  The node of the trust quorum protocol (\<^verbatim>\<open>trust-quorum/protocol/src/node.rs\<close>): the
  requests of Nexus and the messages of the peers, composed from the coordinator, the key
  share computer and the rack secret loader. Every entry point refines the ledger of
  \<^verbatim>\<open>TQ_Ledger\<close>.
\<close>

section \<open>Definitions\<close>

record node =
  node_coordinator_state :: "coordinator_state option"
  node_key_share_computer :: "key_share_computer option"
  node_rack_secret_loader :: rack_secret_loader

datatype commit_error =
  CommitInvalidRackId mismatched_rack_id_error
| CommitNotPrepared epoch
| CommitExpunged epoch baseboard_id

datatype prepare_and_commit_error =
  PrepareAndCommitInvalidRackId mismatched_rack_id_error
| PrepareAndCommitExpunged epoch baseboard_id

definition node_new :: node where
  "node_new = \<lparr>node_coordinator_state = None, node_key_share_computer = None,
     node_rack_secret_loader = rsl_new\<rparr>"

definition node_load_rack_secret ::
  "node \<Rightarrow> node_ctx \<Rightarrow> epoch \<Rightarrow>
   (node \<times> node_ctx \<times> (rack_secret option, load_rack_secret_error) rust_result) outcome" where
  "node_load_rack_secret self ctx epoch =
     obind (rsl_load (node_rack_secret_loader self) ctx epoch) (\<lambda>(l, ctx, r).
       Done (self\<lparr>node_rack_secret_loader := l\<rparr>, ctx, r))"

definition node_clear_secrets :: "node \<Rightarrow> node" where
  "node_clear_secrets self =
     self\<lparr>node_rack_secret_loader := rsl_clear_secrets (node_rack_secret_loader self)\<rparr>"

definition send_coordinator_msgs :: "node \<Rightarrow> node_ctx \<Rightarrow> node_ctx outcome" where
  "send_coordinator_msgs self ctx =
     (case node_coordinator_state self of
        Some c \<Rightarrow> cs_send_msgs c ctx
      | None \<Rightarrow> Done ctx)"

definition send_coordinator_msgs_to :: "node \<Rightarrow> node_ctx \<Rightarrow> baseboard_id \<Rightarrow> node_ctx outcome" where
  "send_coordinator_msgs_to self ctx platform_id =
     (case node_coordinator_state self of
        Some c \<Rightarrow> cs_send_msgs_to c ctx platform_id
      | None \<Rightarrow> Done ctx)"

definition set_coordinator_state ::
  "crypto_env \<Rightarrow> node \<Rightarrow> node_ctx \<Rightarrow> validated_reconfigure_msg \<Rightarrow> rng \<Rightarrow>
   (node \<times> node_ctx \<times> (unit, reconfiguration_error) rust_result) outcome" where
  "set_coordinator_state E self ctx msg rng =
     (if ps_is_uninitialized (ctx_persistent_state ctx) then
        obind (cs_new_uninitialized E msg rng) (\<lambda>r.
          case r of
            Inl e \<Rightarrow> Done (self, ctx, Err e)
          | Inr ((coordinator_state, my_config, my_share), _) \<Rightarrow>
              (let self = self\<lparr>node_coordinator_state := Some coordinator_state\<rparr> in
               obind (ctx_update_persistent_state ctx (\<lambda>ps.
                   obind (assert_that ''empty state'' (\<not> bt_contains_key (ps_configs ps) (cfg_epoch my_config))) (\<lambda>_.
                     Done (ps\<lparr>ps_shares := bt_insert (cfg_epoch my_config) my_share (ps_shares ps),
                              ps_configs := bt_insert (cfg_epoch my_config) my_config (ps_configs ps)\<rparr>,
                           True)))) (\<lambda>(ctx, _).
                 Done (self, ctx, Ok ()))))
      else
        obind (ps_latest_committed_config_and_share (ctx_persistent_state ctx)) (\<lambda>latest.
        obind (expect ''committed configuration exists'' latest) (\<lambda>(config, our_share).
        obind (cs_new_reconfiguration E msg config our_share rng) (\<lambda>r.
          case r of
            Inl e \<Rightarrow> Done (self, ctx, Err e)
          | Inr (cs, _) \<Rightarrow> Done (self\<lparr>node_coordinator_state := Some cs\<rparr>, ctx, Ok ())))))"

definition coordinate_reconfiguration ::
  "crypto_env \<Rightarrow> node \<Rightarrow> node_ctx \<Rightarrow> reconfigure_msg \<Rightarrow> rng \<Rightarrow>
   (node \<times> node_ctx \<times> (unit, reconfiguration_error) rust_result) outcome" where
  "coordinate_reconfiguration E self ctx msg rng =
     (case (case node_coordinator_state self of
              Some cs \<Rightarrow> (case cs_msg cs of Upgrade _ \<Rightarrow> Err UpgradeFromLrtqInProgress | Reconfig m \<Rightarrow> Ok (Some m))
            | None \<Rightarrow> Ok None) of
        Inl e \<Rightarrow> Done (self, ctx, Err e)
      | Inr last_reconfig_msg \<Rightarrow>
          (case validated_reconfigure_msg_new (ctx_platform_id ctx) msg
                  (ps_summary (ctx_persistent_state ctx)) last_reconfig_msg of
             Inl e \<Rightarrow> Done (self, ctx, Err e)
           | Inr None \<Rightarrow> Done (self, ctx, Ok ())
           | Inr (Some validated_msg) \<Rightarrow>
               (let self = self\<lparr>node_key_share_computer := None\<rparr> in
                obind (set_coordinator_state E self ctx validated_msg rng) (\<lambda>(self, ctx, r).
                  case r of
                    Inl e \<Rightarrow> Done (self, ctx, Err e)
                  | Inr _ \<Rightarrow> obind (send_coordinator_msgs self ctx) (\<lambda>ctx. Done (self, ctx, Ok ()))))))"

definition coordinate_upgrade_from_lrtq ::
  "crypto_env \<Rightarrow> node \<Rightarrow> node_ctx \<Rightarrow> lrtq_upgrade_msg \<Rightarrow> rng \<Rightarrow>
   (node \<times> node_ctx \<times> (unit, lrtq_upgrade_error) rust_result) outcome" where
  "coordinate_upgrade_from_lrtq E self ctx msg rng =
     (case validated_lrtq_upgrade_msg_new ctx msg of
        Inl e \<Rightarrow> Done (self, ctx, Err e)
      | Inr validated_msg \<Rightarrow>
          (let self = self\<lparr>node_key_share_computer := None\<rparr> in
           obind (cs_new_upgrade_from_lrtq E ctx validated_msg rng) (\<lambda>r.
             case r of
               Inl e \<Rightarrow> Done (self, ctx, Err (LrtqConfiguration e))
             | Inr (cs, _) \<Rightarrow>
                 (let self = self\<lparr>node_coordinator_state := Some cs\<rparr> in
                  obind (send_coordinator_msgs self ctx) (\<lambda>ctx. Done (self, ctx, Ok ()))))))"

definition is_computing_key_share :: "node \<Rightarrow> bool" where
  "is_computing_key_share self = (node_key_share_computer self \<noteq> None)"

definition is_collecting_shares_for_rack_secret :: "node \<Rightarrow> epoch \<Rightarrow> bool" where
  "is_collecting_shares_for_rack_secret self epoch =
     rsl_is_collecting_shares_for_rack_secret (node_rack_secret_loader self) epoch"

text \<open>
  \<open>handle_commit_advance\<close> in three parts: recording the configuration or its commit (with
  \<open>None\<close> for the early return on a mismatch), cancelling the coordination of this or an earlier
  epoch, and computing the key share.
\<close>

definition commit_advance_record ::
  "node_ctx \<Rightarrow> string \<Rightarrow> configuration \<Rightarrow> (node_ctx \<times> bool option) outcome" where
  "commit_advance_record ctx from config =
     (if ps_has_prepared (ctx_persistent_state ctx) (cfg_epoch config) then
        obind (ctx_update_persistent_state ctx (\<lambda>ps.
            Done (ps\<lparr>ps_commits := bs_insert (cfg_epoch config) (ps_commits ps)\<rparr>,
                  \<not> bs_contains (ps_commits ps) (cfg_epoch config)))) (\<lambda>(ctx, _).
          Done (ctx, Some True))
      else (case ps_configuration (ctx_persistent_state ctx) (cfg_epoch config) of
              Some existing \<Rightarrow>
                (if existing \<noteq> config
                 then Done (ctx_raise_alarm ctx (MismatchedConfigurations existing config from), None)
                 else Done (ctx, Some False))
            | None \<Rightarrow>
                obind (ctx_update_persistent_state ctx (\<lambda>ps.
                    obind (assert_that ''new config'' (\<not> bt_contains_key (ps_configs ps) (cfg_epoch config))) (\<lambda>_.
                      Done (ps\<lparr>ps_configs := bt_insert (cfg_epoch config) config (ps_configs ps)\<rparr>, True))))
                  (\<lambda>(ctx, _). Done (ctx, Some False))))"

definition commit_advance_cancel :: "node \<Rightarrow> configuration \<Rightarrow> node" where
  "commit_advance_cancel self config =
     (case node_coordinator_state self of
        Some cs \<Rightarrow>
          (if coordinating_msg_epoch (cs_msg cs) < cfg_epoch config then self\<lparr>node_coordinator_state := None\<rparr>
           else if coordinating_msg_epoch (cs_msg cs) = cfg_epoch config
           then self\<lparr>node_coordinator_state := None\<rparr>
           else self)
      | None \<Rightarrow> self)"

definition commit_advance_compute ::
  "node \<Rightarrow> node_ctx \<Rightarrow> configuration \<Rightarrow> bool \<Rightarrow> (node \<times> node_ctx) outcome" where
  "commit_advance_compute self ctx config just_committed =
     (let compute = (\<lambda>self.
            if \<not> just_committed
            then obind (ksc_new ctx config) (\<lambda>(ksc, ctx).
                   Done (self\<lparr>node_key_share_computer := Some ksc\<rparr>, ctx))
            else Done (self, ctx))
      in case node_key_share_computer self of
           Some ksc \<Rightarrow>
             (if cfg_epoch (ksc_config ksc) > cfg_epoch config then Done (self, ctx)
              else if cfg_epoch (ksc_config ksc) = cfg_epoch config
              then Done (if just_committed then self\<lparr>node_key_share_computer := None\<rparr> else self, ctx)
              else compute (self\<lparr>node_key_share_computer := None\<rparr>))
         | None \<Rightarrow> compute self)"

definition handle_commit_advance ::
  "node \<Rightarrow> node_ctx \<Rightarrow> string \<Rightarrow> configuration \<Rightarrow> (node \<times> node_ctx) outcome" where
  "handle_commit_advance self ctx from config =
     (if \<not> bt_contains_key (cfg_members config) (ctx_platform_id ctx) then Done (self, ctx)
      else if (case ps_latest_committed_epoch (ctx_persistent_state ctx) of
                 Some latest_committed_epoch \<Rightarrow>
                   latest_committed_epoch > cfg_epoch config \<or> latest_committed_epoch = cfg_epoch config
               | None \<Rightarrow> False)
      then Done (self, ctx)
      else obind (commit_advance_record ctx from config) (\<lambda>(ctx, r).
             case r of
               None \<Rightarrow> Done (self, ctx)
             | Some just_committed \<Rightarrow>
                 commit_advance_compute (commit_advance_cancel self config) ctx config just_committed))"

definition prepare_and_commit ::
  "node \<Rightarrow> node_ctx \<Rightarrow> configuration \<Rightarrow>
   (node \<times> node_ctx \<times> (unit, prepare_and_commit_error) rust_result) outcome" where
  "prepare_and_commit self ctx config =
     (let ps = ctx_persistent_state ctx in
      case ps_expunged ps of
        Some expunged \<Rightarrow> Done (self, ctx, Err (PrepareAndCommitExpunged (exp_epoch expunged) (exp_from expunged)))
      | None \<Rightarrow>
          (case (case ps_rack_id ps of
                   Some expected \<Rightarrow> (if cfg_rack_id config \<noteq> expected then Some expected else None)
                 | None \<Rightarrow> None) of
             Some expected \<Rightarrow>
               Done (self, ctx, Err (PrepareAndCommitInvalidRackId
                 \<lparr>mre_expected = expected, mre_got = cfg_rack_id config\<rparr>))
           | None \<Rightarrow>
               obind (handle_commit_advance self ctx ''Nexus'' config) (\<lambda>(self, ctx). Done (self, ctx, Ok ()))))"

definition commit_configuration ::
  "node \<Rightarrow> node_ctx \<Rightarrow> rack_uuid \<Rightarrow> epoch \<Rightarrow> (node \<times> node_ctx \<times> (unit, commit_error) rust_result) outcome" where
  "commit_configuration self ctx rack_id epoch =
     (let ps = ctx_persistent_state ctx in
      case ps_expunged ps of
        Some expunged \<Rightarrow> Done (self, ctx, Err (CommitExpunged (exp_epoch expunged) (exp_from expunged)))
      | None \<Rightarrow>
          (case (case ps_rack_id ps of
                   Some expected \<Rightarrow> (if rack_id \<noteq> expected then Some expected else None)
                 | None \<Rightarrow> None) of
             Some expected \<Rightarrow>
               Done (self, ctx, Err (CommitInvalidRackId \<lparr>mre_expected = expected, mre_got = rack_id\<rparr>))
           | None \<Rightarrow>
               obind (ps_latest_committed_configuration ps) (\<lambda>latest.
                 if (case latest of Some config \<Rightarrow> cfg_epoch config \<ge> epoch | None \<Rightarrow> False)
                 then Done (self, ctx, Ok ())
                 else if \<not> ps_has_prepared ps epoch then Done (self, ctx, Err (CommitNotPrepared epoch))
                 else
                   obind (ctx_update_persistent_state ctx (\<lambda>ps.
                       Done (ps\<lparr>ps_commits := bs_insert epoch (ps_commits ps)\<rparr>,
                             \<not> bs_contains (ps_commits ps) epoch))) (\<lambda>(ctx, _).
                     Done (case node_coordinator_state self of
                             Some cs \<Rightarrow>
                               (if coordinating_msg_epoch (cs_msg cs) = epoch
                                then self\<lparr>node_coordinator_state := None\<rparr> else self)
                           | None \<Rightarrow> self, ctx, Ok ())))))"

definition node_on_connect :: "node \<Rightarrow> node_ctx \<Rightarrow> baseboard_id \<Rightarrow> node_ctx outcome" where
  "node_on_connect self ctx peer =
     (let ctx = ctx_add_connection ctx peer in
      obind (send_coordinator_msgs_to self ctx peer) (\<lambda>ctx.
      obind (case node_key_share_computer self of
               Some ksc \<Rightarrow> ksc_on_connect ksc ctx peer
             | None \<Rightarrow> Done ctx) (\<lambda>ctx.
        rsl_on_connect (node_rack_secret_loader self) ctx peer)))"

definition node_on_disconnect :: "node_ctx \<Rightarrow> baseboard_id \<Rightarrow> node_ctx" where
  "node_on_disconnect ctx peer = ctx_remove_connection ctx peer"

definition handle_prepare_ack :: "node \<Rightarrow> baseboard_id \<Rightarrow> epoch \<Rightarrow> node" where
  "handle_prepare_ack self from epoch =
     (case node_coordinator_state self of
        Some cs \<Rightarrow>
          (if coordinating_msg_epoch (cs_msg cs) = epoch
           then self\<lparr>node_coordinator_state := Some (cs_ack_prepare cs from)\<rparr>
           else self)
      | None \<Rightarrow> self)"

definition handle_expunged :: "node \<Rightarrow> node_ctx \<Rightarrow> baseboard_id \<Rightarrow> epoch \<Rightarrow> (node \<times> node_ctx) outcome" where
  "handle_expunged self ctx from epoch =
     (case ps_latest_config (ctx_persistent_state ctx) of
        Some config \<Rightarrow>
          (if epoch < cfg_epoch config then Done (self, ctx)
           else
             obind (ctx_update_persistent_state ctx (\<lambda>ps.
                 Done (ps\<lparr>ps_expunged := Some \<lparr>exp_epoch = epoch, exp_from = from\<rparr>\<rparr>, True))) (\<lambda>(ctx, _).
               Done (self\<lparr>node_coordinator_state := None, node_key_share_computer := None\<rparr>, ctx)))
      | None \<Rightarrow> Done (self, ctx))"

definition handle_get_share :: "node_ctx \<Rightarrow> baseboard_id \<Rightarrow> epoch \<Rightarrow> node_ctx outcome" where
  "handle_get_share ctx from epoch =
     (let ps = ctx_persistent_state ctx;
          reply = (case bt_get (ps_shares ps) epoch of
                     Some share \<Rightarrow> ctx_send ctx from (ShareMsg epoch share)
                   | None \<Rightarrow> Done ctx);
          check_member = (case ps_configuration ps epoch of
                            Some config \<Rightarrow>
                              (if \<not> bt_contains_key (cfg_members config) from
                               then ctx_send ctx from (Expunged epoch) else reply)
                          | None \<Rightarrow> reply)
      in obind (ps_latest_committed_configuration ps) (\<lambda>latest.
           case latest of
             Some latest_committed_config \<Rightarrow>
               (if cfg_epoch latest_committed_config > epoch then
                  (if \<not> bt_contains_key (cfg_members latest_committed_config) from
                   then ctx_send ctx from (Expunged (cfg_epoch latest_committed_config))
                   else ctx_send ctx from (CommitAdvance latest_committed_config))
                else check_member)
           | None \<Rightarrow> check_member))"

definition handle_share ::
  "crypto_env \<Rightarrow> node \<Rightarrow> node_ctx \<Rightarrow> baseboard_id \<Rightarrow> epoch \<Rightarrow> share \<Rightarrow> rng \<Rightarrow> (node \<times> node_ctx) outcome" where
  "handle_share E self ctx from epoch share rng =
     obind (case node_coordinator_state self of
              Some cs \<Rightarrow>
                obind (cs_handle_share E cs ctx from epoch share rng) (\<lambda>(cs, ctx).
                  Done (self\<lparr>node_coordinator_state := Some cs\<rparr>, ctx))
            | None \<Rightarrow>
                (case node_key_share_computer self of
                   Some ksc \<Rightarrow>
                     obind (ksc_handle_share E ksc ctx from epoch share) (\<lambda>(ksc, ctx, completed).
                       Done (self\<lparr>node_key_share_computer := (if completed then None else Some ksc)\<rparr>, ctx))
                 | None \<Rightarrow> Done (self, ctx))) (\<lambda>(self, ctx).
       obind (rsl_handle_share E (node_rack_secret_loader self) ctx from epoch share) (\<lambda>(l, ctx).
         Done (self\<lparr>node_rack_secret_loader := l\<rparr>, ctx)))"

text \<open>The update of the persistent state in \<open>handle_prepare\<close>.\<close>

definition save_prepare :: "configuration \<Rightarrow> share \<Rightarrow> persistent_state \<Rightarrow> persistent_state \<times> bool" where
  "save_prepare config share ps =
     (let share_inserted = \<not> bt_contains_key (ps_shares ps) (cfg_epoch config);
          ps = ps\<lparr>ps_shares := bt_insert (cfg_epoch config) share (ps_shares ps)\<rparr>;
          config_inserted = \<not> bt_contains_key (ps_configs ps) (cfg_epoch config);
          ps = (if config_inserted
                then ps\<lparr>ps_configs := bt_insert (cfg_epoch config) config (ps_configs ps)\<rparr> else ps)
      in (ps, share_inserted \<or> config_inserted))"

definition handle_prepare ::
  "node \<Rightarrow> node_ctx \<Rightarrow> baseboard_id \<Rightarrow> configuration \<Rightarrow> share \<Rightarrow> (node \<times> node_ctx) outcome" where
  "handle_prepare self ctx from config share =
     (let latest_committed_epoch =
            (case ps_latest_committed_epoch (ctx_persistent_state ctx) of Some e \<Rightarrow> e | None \<Rightarrow> 0) in
      if latest_committed_epoch > cfg_epoch config then Done (self, ctx)
      else if \<not> bt_contains_key (cfg_members config) (ctx_platform_id ctx) then Done (self, ctx)
      else
        (let msg_epoch = cfg_epoch config in
         obind (ctx_update_persistent_state ctx (\<lambda>ps. Done (save_prepare config share ps))) (\<lambda>(ctx, mutated).
           let self = (case node_coordinator_state self of
                         Some cs \<Rightarrow>
                           (if msg_epoch > coordinating_msg_epoch (cs_msg cs)
                            then self\<lparr>node_coordinator_state := None\<rparr> else self)
                       | None \<Rightarrow> self)
           in obind (ctx_send ctx from (PrepareAck msg_epoch)) (\<lambda>ctx. Done (self, ctx)))))"

definition handle_get_lrtq_share :: "node_ctx \<Rightarrow> baseboard_id \<Rightarrow> node_ctx outcome" where
  "handle_get_lrtq_share ctx from =
     obind (ps_latest_committed_configuration (ctx_persistent_state ctx)) (\<lambda>latest.
       case latest of
         Some latest_committed_config \<Rightarrow>
           (if \<not> bt_contains_key (cfg_members latest_committed_config) from
            then ctx_send ctx from (Expunged (cfg_epoch latest_committed_config))
            else ctx_send ctx from (CommitAdvance latest_committed_config))
       | None \<Rightarrow>
           (case ps_lrtq (ctx_persistent_state ctx) of
              Some lrtq_share_data \<Rightarrow>
                obind (lrtq_share_new (lsd_share lrtq_share_data)) (\<lambda>share.
                  ctx_send ctx from (LrtqShareMsg share))
            | None \<Rightarrow> Done ctx))"

definition handle_lrtq_share ::
  "crypto_env \<Rightarrow> node \<Rightarrow> node_ctx \<Rightarrow> baseboard_id \<Rightarrow> lrtq_share \<Rightarrow> rng \<Rightarrow> (node \<times> node_ctx) outcome" where
  "handle_lrtq_share E self ctx from share rng =
     (case node_coordinator_state self of
        Some cs \<Rightarrow>
          obind (cs_handle_lrtq_share E cs ctx from share rng) (\<lambda>(cs, ctx).
            Done (self\<lparr>node_coordinator_state := Some cs\<rparr>, ctx))
      | None \<Rightarrow> Done (self, ctx))"

definition node_dispatch ::
  "crypto_env \<Rightarrow> node \<Rightarrow> node_ctx \<Rightarrow> baseboard_id \<Rightarrow> peer_msg_kind \<Rightarrow> rng \<Rightarrow> (node \<times> node_ctx) outcome" where
  "node_dispatch E self ctx from kind rng =
     (case kind of
        PrepareAck epoch \<Rightarrow> Done (handle_prepare_ack self from epoch, ctx)
      | Prepare config share \<Rightarrow> handle_prepare self ctx from config share
      | GetShare epoch \<Rightarrow> obind (handle_get_share ctx from epoch) (\<lambda>ctx. Done (self, ctx))
      | ShareMsg epoch share \<Rightarrow> handle_share E self ctx from epoch share rng
      | CommitAdvance config \<Rightarrow> handle_commit_advance self ctx (baseboard_display from) config
      | Expunged epoch \<Rightarrow> handle_expunged self ctx from epoch
      | GetLrtqShare \<Rightarrow> obind (handle_get_lrtq_share ctx from) (\<lambda>ctx. Done (self, ctx))
      | LrtqShareMsg share \<Rightarrow> handle_lrtq_share E self ctx from share rng)"

definition node_handle ::
  "crypto_env \<Rightarrow> node \<Rightarrow> node_ctx \<Rightarrow> baseboard_id \<Rightarrow> peer_msg \<Rightarrow> rng \<Rightarrow> (node \<times> node_ctx) outcome" where
  "node_handle E self ctx from msg rng =
     (if ps_is_expunged (ctx_persistent_state ctx) then Done (self, ctx)
      else if (case ps_rack_id (ctx_persistent_state ctx) of
                 Some rack_id \<Rightarrow> rack_id \<noteq> pm_rack_id msg
               | None \<Rightarrow> False)
      then Done (self, ctx)
      else node_dispatch E self ctx from (pm_kind msg) rng)"

section \<open>The invariant\<close>

text \<open>
  What holds of a node between two calls. A coordinator is in one of its phases, a key share
  is computed for a stored configuration from valid shares, a loader works on a committed
  configuration, and an expunged node neither coordinates nor computes.
\<close>

definition ksc_stored :: "crypto_env \<Rightarrow> persistent_state \<Rightarrow> key_share_computer \<Rightarrow> bool" where
  "ksc_stored E ps k \<longleftrightarrow>
     ksc_ok E k \<and> bt_get (ps_configs ps) (cfg_epoch (ksc_config k)) = Some (ksc_config k)"

definition node_ok :: "crypto_env \<Rightarrow> baseboard_id \<Rightarrow> persistent_state \<Rightarrow> node \<Rightarrow> bool" where
  "node_ok E me ps n \<longleftrightarrow>
     pred_option (cs_ok me ps) (node_coordinator_state n) \<and>
     pred_option (ksc_stored E ps) (node_key_share_computer n) \<and>
     rsl_ok ps (node_rack_secret_loader n) \<and>
     (ps_expunged ps = None \<or> node_coordinator_state n = None \<and> node_key_share_computer n = None)"

definition node_inv :: "crypto_env \<Rightarrow> node_ctx \<Rightarrow> node \<Rightarrow> bool" where
  "node_inv E ctx n \<longleftrightarrow>
     wf_ps (ctx_persistent_state ctx) \<and>
     member_of_all (ctx_platform_id ctx) (ctx_persistent_state ctx) \<and>
     node_ok E (ctx_platform_id ctx) (ctx_persistent_state ctx) n"

text \<open>A call: the persistent state follows the ledger and the invariant holds again.\<close>

definition node_refines :: "crypto_env \<Rightarrow> node_ctx \<Rightarrow> node_ctx \<Rightarrow> node \<Rightarrow> bool" where
  "node_refines E ctx ctx' n' \<longleftrightarrow> ctx_ledger ctx ctx' \<and> node_inv E ctx' n'"

lemma node_inv_new:
  "wf_ps (ctx_persistent_state ctx) \<Longrightarrow> member_of_all (ctx_platform_id ctx) (ctx_persistent_state ctx) \<Longrightarrow>
     node_inv E ctx node_new"
  by (simp add: node_inv_def node_ok_def node_new_def)

lemma rsl_ok_extends: "rsl_ok ps l \<Longrightarrow> ps_extends ps ps' \<Longrightarrow> rsl_ok ps' l"
  by (auto simp: rsl_ok_def ps_extends_def split: option.splits)

lemma ksc_stored_extends: "ksc_stored E ps k \<Longrightarrow> ps_extends ps ps' \<Longrightarrow> ksc_stored E ps' k"
  by (auto simp: ksc_stored_def ps_extends_def)

lemma node_ok_extends:
  assumes "node_ok E me ps n" and "ps_extends ps ps'" and "ps_expunged ps' = ps_expunged ps"
  shows "node_ok E me ps' n"
  using assms cs_ok_extends [OF _ assms(2)] ksc_stored_extends [OF _ assms(2)] rsl_ok_extends [OF _ assms(2)]
  by (auto simp: node_ok_def pred_option_def)

text \<open>Only \<open>handle_expunged\<close> changes whether the node is expunged.\<close>

lemma node_refinesI:
  assumes "node_inv E ctx n" and "ctx_ledger ctx ctx'"
    and "node_ok E (ctx_platform_id ctx) (ctx_persistent_state ctx') n'"
  shows "node_refines E ctx ctx' n'"
proof -
  have "ctx_platform_id ctx' = ctx_platform_id ctx" using assms(2) by (simp add: ctx_ledger_def)
  with assms ctx_ledger_wf [OF assms(2)] ctx_ledger_member [OF assms(2)] show ?thesis
    by (simp add: node_refines_def node_inv_def)
qed

lemma node_refines_same: "node_inv E ctx n \<Longrightarrow> node_refines E ctx ctx n"
  by (simp add: node_refines_def)

lemma node_refines_frame:
  assumes "node_inv E ctx n" and "ctx_frame ctx ctx'"
    and "node_ok E (ctx_platform_id ctx) (ctx_persistent_state ctx) n'"
  shows "node_refines E ctx ctx' n'"
  using node_refinesI [OF assms(1) ctx_frame_ledger [OF assms(2)]] assms(2,3) by simp

lemma node_refines_trans:
  "node_refines E ctx ctx1 n1 \<Longrightarrow> node_refines E ctx1 ctx2 n2 \<Longrightarrow> node_refines E ctx ctx2 n2"
  by (auto simp: node_refines_def intro: ctx_ledger_trans)

lemma node_inv_ok: "node_inv E ctx n \<Longrightarrow> node_ok E (ctx_platform_id ctx) (ctx_persistent_state ctx) n"
  by (simp add: node_inv_def)

lemma node_ok_cancel [simp]:
  "node_ok E me ps n \<Longrightarrow> node_ok E me ps (n\<lparr>node_coordinator_state := None\<rparr>)"
  "node_ok E me ps n \<Longrightarrow> node_ok E me ps (n\<lparr>node_key_share_computer := None\<rparr>)"
  "node_ok E me ps n \<Longrightarrow> rsl_ok ps l \<Longrightarrow> node_ok E me ps (n\<lparr>node_rack_secret_loader := l\<rparr>)"
  by (auto simp: node_ok_def)

lemma node_ok_coordinator:
  "node_ok E me ps n \<Longrightarrow> ps_expunged ps = None \<Longrightarrow> cs_ok me ps cs \<Longrightarrow>
     node_ok E me ps (n\<lparr>node_coordinator_state := Some cs\<rparr>)"
  "node_ok E me ps n \<Longrightarrow> ps_expunged ps = None \<Longrightarrow> ksc_stored E ps k \<Longrightarrow>
     node_ok E me ps (n\<lparr>node_key_share_computer := Some k\<rparr>)"
  by (auto simp: node_ok_def)

lemma node_ok_cs: "node_ok E me ps n \<Longrightarrow> node_coordinator_state n = Some cs \<Longrightarrow> cs_ok me ps cs"
  by (simp add: node_ok_def)

lemma node_ok_ksc: "node_ok E me ps n \<Longrightarrow> node_key_share_computer n = Some k \<Longrightarrow> ksc_stored E ps k"
  by (simp add: node_ok_def)

section \<open>Requests of Nexus\<close>

lemma node_load_refines:
  assumes "node_inv E ctx n" and "node_load_rack_secret n ctx epoch = Done (n', ctx', r)"
  shows "node_refines E ctx ctx' n'"
proof -
  have "wf_ps (ctx_persistent_state ctx)" "rsl_ok (ctx_persistent_state ctx) (node_rack_secret_loader n)"
    using assms(1) by (simp_all add: node_inv_def node_ok_def)
  from rsl_load_wf [OF this, of epoch] assms(2) obtain l where
    "n' = n\<lparr>node_rack_secret_loader := l\<rparr>" "ctx_frame ctx ctx'" "rsl_ok (ctx_persistent_state ctx') l"
    by (auto simp: node_load_rack_secret_def)
  then show ?thesis
    using node_refines_frame [OF assms(1)] node_inv_ok [OF assms(1)] by simp
qed

lemma node_clear_refines: "node_inv E ctx n \<Longrightarrow> node_refines E ctx ctx (node_clear_secrets n)"
  by (rule node_refines_frame) (simp_all add: node_clear_secrets_def node_inv_ok)

lemma send_coordinator_msgs_frame: "send_coordinator_msgs n ctx = Done ctx' \<Longrightarrow> ctx_frame ctx ctx'"
  by (auto simp: send_coordinator_msgs_def split: option.splits dest: cs_send_msgs_frame)

lemma send_coordinator_msgs_to_frame: "send_coordinator_msgs_to n ctx to = Done ctx' \<Longrightarrow> ctx_frame ctx ctx'"
  by (auto simp: send_coordinator_msgs_to_def split: option.splits dest: cs_send_msgs_to_frame)

lemma store_ledger:
  assumes "ps_expunged (ctx_persistent_state ctx) = None"
    and "\<not> bt_contains_key (ps_configs (ctx_persistent_state ctx)) (cfg_epoch c)"
    and "ctx_platform_id ctx \<in> set (bt_keys (cfg_members c))"
  shows "ctx_ledger ctx (ctx\<lparr>ctx_persistent_state := (ctx_persistent_state ctx)
    \<lparr>ps_shares := bt_insert (cfg_epoch c) s (ps_shares (ctx_persistent_state ctx)),
     ps_configs := bt_insert (cfg_epoch c) c (ps_configs (ctx_persistent_state ctx))\<rparr>,
    ctx_persistent_state_changed := True\<rparr>)"
  using ctx_ledger_update [OF ledger_step.Store [OF assms], of s] by simp

lemma set_coordinator_state_refines:
  assumes "node_inv E ctx n" and "set_coordinator_state E n ctx msg rng = Done (n', ctx', r)"
    and "vrm_ok msg" and "vrm_coordinator_id msg = ctx_platform_id ctx"
    and "ps_expunged (ctx_persistent_state ctx) = None"
  shows "node_refines E ctx ctx' n'"
proof (cases "ps_is_uninitialized (ctx_persistent_state ctx)")
  case True
  let ?ps = "ctx_persistent_state ctx"
  show ?thesis
  proof (cases r)
    case (Inl e)
    then have "n' = n \<and> ctx' = ctx" using assms(2) True
      by (auto simp: set_coordinator_state_def outcome_simps Let_def)
    then show ?thesis using node_refines_same [OF assms(1)] by simp
  next
    case (Inr u)
    with assms(2) True obtain cs config my_share rng' where new:
      "cs_new_uninitialized E msg rng = Done (Ok ((cs, config, my_share), rng'))"
      "\<not> bt_contains_key (ps_configs ?ps) (cfg_epoch config)"
      "n' = n\<lparr>node_coordinator_state := Some cs\<rparr>"
      "ctx' = ctx\<lparr>ctx_persistent_state := ?ps\<lparr>ps_shares := bt_insert (cfg_epoch config) my_share (ps_shares ?ps),
           ps_configs := bt_insert (cfg_epoch config) config (ps_configs ?ps)\<rparr>,
         ctx_persistent_state_changed := True\<rparr>"
      by (auto simp: set_coordinator_state_def outcome_simps Let_def ctx_update_Done)
    have ok: "cs_ok (ctx_platform_id ctx) (ctx_persistent_state ctx') cs"
      using cs_new_uninitialized_cs_ok [OF new(1) assms(3), of "ctx_persistent_state ctx'"] assms(4) new(4)
      by (simp add: bt_contains_keys)
    moreover have "cs_configuration cs = config"
      using cs_new_uninitialized_Ok [OF new(1) assms(3)] by (metis coordinator_state.select_convs(2))
    ultimately have led: "ctx_ledger ctx ctx'"
      using store_ledger [OF assms(5) new(2)] new(4) by (simp add: cs_ok_def)
    have "node_ok E (ctx_platform_id ctx) (ctx_persistent_state ctx') n"
      using node_ok_extends [OF node_inv_ok [OF assms(1)] ctx_ledger_extends [OF led]] new(4) by simp
    with ok node_refinesI [OF assms(1) led] node_ok_coordinator(1) show ?thesis
      using assms(5) new(3,4) by simp
  qed
next
  case False
  with assms(2) consider "n' = n" "ctx' = ctx"
    | config s cs rng' where "cs_new_reconfiguration E msg config s rng = Done (Ok (cs, rng'))" "ctx' = ctx"
      "ps_latest_committed_config_and_share (ctx_persistent_state ctx) = Done (Some (config, s))"
      "n' = n\<lparr>node_coordinator_state := Some cs\<rparr>"
    by (auto simp: set_coordinator_state_def outcome_simps)
  then show ?thesis
  proof cases
    case 1
    then show ?thesis using node_refines_same [OF assms(1)] by simp
  next
    case 2
    have wf: "wf_ps (ctx_persistent_state ctx)" using assms(1) by (simp add: node_inv_def)
    have "bt_contains_key (ps_configs (ctx_persistent_state ctx)) (cfg_epoch config)"
      using 2(3) wf_ps_configuration_epoch [OF wf, of _ config]
      by (auto simp: ps_latest_committed_config_and_share_def outcome_simps ps_configuration_def bt_contains_get)
    then have "cs_ok (ctx_platform_id ctx) (ctx_persistent_state ctx) cs"
      using cs_new_reconfiguration_cs_ok [OF 2(1) assms(3)] assms(4) by simp
    then show ?thesis
      using node_refines_frame [OF assms(1)] node_ok_coordinator(1) [OF node_inv_ok [OF assms(1)] assms(5)] 2(2,4)
      by simp
  qed
qed

lemma node_refines_send:
  assumes "node_refines E ctx ctx1 n" and "send_coordinator_msgs n ctx1 = Done ctx'"
  shows "node_refines E ctx ctx' n"
proof -
  have "node_inv E ctx1 n" using assms(1) by (simp add: node_refines_def)
  from node_refines_frame [OF this send_coordinator_msgs_frame [OF assms(2)] node_inv_ok [OF this]]
  show ?thesis by (rule node_refines_trans [OF assms(1)])
qed

lemma node_inv_cancel:
  "node_inv E ctx n \<Longrightarrow> node_inv E ctx (n\<lparr>node_key_share_computer := None\<rparr>)"
  "node_inv E ctx n \<Longrightarrow> node_inv E ctx (n\<lparr>node_coordinator_state := None\<rparr>)"
  by (simp_all add: node_inv_def)

lemma coordinate_reconfiguration_refines:
  assumes "node_inv E ctx n" and "coordinate_reconfiguration E n ctx msg rng = Done (n', ctx', r)"
    and "bs_ok (rm_members msg)"
  shows "node_refines E ctx ctx' n'"
proof (cases "n' = n \<and> ctx' = ctx")
  case True
  then show ?thesis using node_refines_same [OF assms(1)] by simp
next
  case False
  with assms(2) obtain prev v ctx1 r1 where v:
    "validated_reconfigure_msg_new (ctx_platform_id ctx) msg (ps_summary (ctx_persistent_state ctx)) prev = Ok (Some v)"
    "set_coordinator_state E (n\<lparr>node_key_share_computer := None\<rparr>) ctx v rng = Done (n', ctx1, r1)"
    "ctx' = ctx1 \<or> send_coordinator_msgs n' ctx1 = Done ctx'"
    by (auto simp: coordinate_reconfiguration_def outcome_simps Let_def)
  have "vrm_ok v" "vrm_coordinator_id v = ctx_platform_id ctx" "ps_expunged (ctx_persistent_state ctx) = None"
    using v(1) assms(3) by (auto simp: reconfigure_accepted vrm_ok_def validated_of_def ps_summary_def)
  from set_coordinator_state_refines [OF node_inv_cancel(1) [OF assms(1)] v(2) this]
  show ?thesis using v(3) node_refines_send by blast
qed

lemma validated_lrtq_Ok:
  assumes "validated_lrtq_upgrade_msg_new ctx msg = Ok v"
  shows "vlm_members v = lum_members msg" and "vlm_coordinator_id v = ctx_platform_id ctx"
    and "ctx_platform_id ctx \<in> set (lum_members msg)" and "ps_expunged (ctx_persistent_state ctx) = None"
    and "ps_lrtq (ctx_persistent_state ctx) \<noteq> None" and "ps_latest_committed_epoch (ctx_persistent_state ctx) = None"
  using assms
  by (auto simp: validated_lrtq_upgrade_msg_new_def Let_def case_sum_Err_Ok bs_contains_def
      split: option.splits if_split_asm)

lemma coordinate_upgrade_refines:
  assumes "node_inv E ctx n" and "coordinate_upgrade_from_lrtq E n ctx msg rng = Done (n', ctx', r)"
    and "bs_ok (lum_members msg)"
  shows "node_refines E ctx ctx' n'"
proof (cases "ctx' = ctx \<and> (n' = n \<or> n' = n\<lparr>node_key_share_computer := None\<rparr>)")
  case True
  then show ?thesis
    using node_refines_same [OF assms(1)] node_refines_same [OF node_inv_cancel(1) [OF assms(1)]] by auto
next
  case False
  with assms(2) obtain v cs rng' where v: "validated_lrtq_upgrade_msg_new ctx msg = Ok v"
    "cs_new_upgrade_from_lrtq E ctx v rng = Done (Ok (cs, rng'))"
    "n' = n\<lparr>node_key_share_computer := None, node_coordinator_state := Some cs\<rparr>"
    "send_coordinator_msgs n' ctx = Done ctx'"
    by (auto simp: coordinate_upgrade_from_lrtq_def outcome_simps Let_def)
  note val = validated_lrtq_Ok [OF v(1)]
  have "vlm_ok v" using val assms(3) by (simp add: vlm_ok_def)
  from cs_new_upgrade_cs_ok [OF v(2) this] val(2)
  have "cs_ok (ctx_platform_id ctx) (ctx_persistent_state ctx) cs" by simp
  from node_ok_coordinator(1) [OF node_inv_ok [OF node_inv_cancel(1) [OF assms(1)]] val(4) this]
  have "node_ok E (ctx_platform_id ctx) (ctx_persistent_state ctx) n'" using v(3) by simp
  then have "node_refines E ctx ctx n'" by (rule node_refines_frame [OF assms(1) ctx_frame_refl])
  then show ?thesis using v(4) by (rule node_refines_send)
qed

text \<open>Committing a prepared epoch, as Nexus and the peers ask for.\<close>

lemma commit_ledger:
  assumes "ps_expunged (ctx_persistent_state ctx) = None" and "ps_has_prepared (ctx_persistent_state ctx) e"
    and "wf_ps (ctx_persistent_state ctx)"
  shows "ctx_ledger ctx (ctx\<lparr>ctx_persistent_state := (ctx_persistent_state ctx)
      \<lparr>ps_commits := bs_insert e (ps_commits (ctx_persistent_state ctx))\<rparr>,
    ctx_persistent_state_changed := (\<not> bs_contains (ps_commits (ctx_persistent_state ctx)) e \<or>
      ctx_persistent_state_changed ctx)\<rparr>)"
proof (cases "e \<in> set (ps_commits (ctx_persistent_state ctx))")
  case True
  then have "bs_insert e (ps_commits (ctx_persistent_state ctx)) = ps_commits (ctx_persistent_state ctx)"
    using assms(3) by (simp add: bs_insert_idem wf_ps_def)
  then show ?thesis using True by (simp add: bs_contains_def)
next
  case False
  from ctx_ledger_update [OF ledger_step.Commit [OF assms(1,2) False]] False show ?thesis
    by (simp add: bs_contains_def)
qed

lemma commit_configuration_refines:
  assumes "node_inv E ctx n" and "commit_configuration n ctx rack_id epoch = Done (n', ctx', r)"
  shows "node_refines E ctx ctx' n'"
proof (cases "n' = n \<and> ctx' = ctx")
  case True
  then show ?thesis using node_refines_same [OF assms(1)] by simp
next
  case False
  let ?ps = "ctx_persistent_state ctx"
  from False assms(2) have c: "ps_expunged ?ps = None" "ps_has_prepared ?ps epoch"
    "n' = n \<or> n' = n\<lparr>node_coordinator_state := None\<rparr>"
    "ctx' = ctx\<lparr>ctx_persistent_state := ?ps\<lparr>ps_commits := bs_insert epoch (ps_commits ?ps)\<rparr>,
      ctx_persistent_state_changed := (\<not> bs_contains (ps_commits ?ps) epoch \<or> ctx_persistent_state_changed ctx)\<rparr>"
    by (cases "node_coordinator_state n";
        auto simp: commit_configuration_def outcome_simps Let_def ctx_update_Done split: if_split_asm)+
  have led: "ctx_ledger ctx ctx'"
    using commit_ledger [OF c(1,2)] assms(1) c(4) by (simp add: node_inv_def)
  have "node_ok E (ctx_platform_id ctx) (ctx_persistent_state ctx') n"
    using node_ok_extends [OF node_inv_ok [OF assms(1)] ctx_ledger_extends [OF led]] c(4) by simp
  then show ?thesis using node_refinesI [OF assms(1) led] c(3) node_ok_cancel(1) by blast
qed

lemma commit_advance_record_cases:
  assumes "commit_advance_record ctx from config = Done (ctx', r)"
  obtains
    (Committed) "r = Some True" and "ps_has_prepared (ctx_persistent_state ctx) (cfg_epoch config)"
      and "ctx' = ctx\<lparr>ctx_persistent_state := (ctx_persistent_state ctx)
          \<lparr>ps_commits := bs_insert (cfg_epoch config) (ps_commits (ctx_persistent_state ctx))\<rparr>,
        ctx_persistent_state_changed := (\<not> bs_contains (ps_commits (ctx_persistent_state ctx)) (cfg_epoch config) \<or>
          ctx_persistent_state_changed ctx)\<rparr>"
  | (Mismatch) "r = None" and "ctx_frame ctx ctx'"
  | (Known) "r = Some False" and "ctx' = ctx"
      and "bt_get (ps_configs (ctx_persistent_state ctx)) (cfg_epoch config) = Some config"
  | (Learned) "r = Some False"
      and "\<not> bt_contains_key (ps_configs (ctx_persistent_state ctx)) (cfg_epoch config)"
      and "ctx' = ctx\<lparr>ctx_persistent_state := (ctx_persistent_state ctx)
          \<lparr>ps_configs := bt_insert (cfg_epoch config) config (ps_configs (ctx_persistent_state ctx))\<rparr>,
        ctx_persistent_state_changed := True\<rparr>"
proof (cases "ps_has_prepared (ctx_persistent_state ctx) (cfg_epoch config)")
  case True
  with assms show thesis by (auto simp: commit_advance_record_def outcome_simps ctx_update_Done intro!: Committed)
next
  case False
  show thesis
  proof (cases "ps_configuration (ctx_persistent_state ctx) (cfg_epoch config)")
    case None
    with False assms show thesis
      by (auto simp: commit_advance_record_def outcome_simps ctx_update_Done intro!: Learned)
  next
    case (Some existing)
    with False assms show thesis
      by (cases "existing = config")
        (auto simp: commit_advance_record_def ps_configuration_def intro: Known Mismatch)
  qed
qed

lemma commit_advance_cancel_ok: "node_ok E me ps n \<Longrightarrow> node_ok E me ps (commit_advance_cancel n config)"
  by (auto simp: commit_advance_cancel_def split: option.split)

lemma commit_advance_compute_ok:
  assumes "commit_advance_compute n ctx config just_committed = Done (n', ctx')"
    and "node_ok E me (ctx_persistent_state ctx) n" and "ps_expunged (ctx_persistent_state ctx) = None"
    and "just_committed \<or> bt_get (ps_configs (ctx_persistent_state ctx)) (cfg_epoch config) = Some config"
  shows "ctx_frame ctx ctx' \<and> node_ok E me (ctx_persistent_state ctx) n'"
proof -
  have new: "ctx_frame ctx ctx1 \<and> node_ok E me (ctx_persistent_state ctx) (m\<lparr>node_key_share_computer := Some k\<rparr>)"
    if "ksc_new ctx config = Done (k, ctx1)" "\<not> just_committed" "node_ok E me (ctx_persistent_state ctx) m"
    for k ctx1 m
    using ksc_new_frame [OF that(1), of E] node_ok_coordinator(2) [OF that(3) assms(3)] assms(4) that(2)
    by (simp add: ksc_stored_def)
  from assms(1,2) show ?thesis
    using new [OF _ _ assms(2)] new [OF _ _ node_ok_cancel(2) [OF assms(2)]] node_ok_cancel(2) [OF assms(2)]
    by (auto simp: commit_advance_compute_def Let_def outcome_simps split: if_splits)
qed

lemma handle_commit_advance_refines:
  assumes "node_inv E ctx n" and "handle_commit_advance n ctx from config = Done (n', ctx')"
    and "ps_expunged (ctx_persistent_state ctx) = None"
  shows "node_refines E ctx ctx' n'"
proof (cases "n' = n \<and> ctx' = ctx")
  case True
  then show ?thesis using node_refines_same [OF assms(1)] by simp
next
  case False
  let ?ps = "ctx_persistent_state ctx"
  from False assms(2) obtain ctx1 r where r: "commit_advance_record ctx from config = Done (ctx1, r)"
    "ctx_platform_id ctx \<in> set (bt_keys (cfg_members config))"
    "case r of None \<Rightarrow> n' = n \<and> ctx' = ctx1
     | Some b \<Rightarrow> commit_advance_compute (commit_advance_cancel n config) ctx1 config b = Done (n', ctx')"
    by (auto simp: handle_commit_advance_def bt_contains_keys obind_eq_Done if_eq_Done case_prod_eq_Done
        split: option.splits)
  have led: "ctx_ledger ctx ctx1" and ex: "ps_expunged (ctx_persistent_state ctx1) = None"
    and stored: "r = Some False \<Longrightarrow> bt_get (ps_configs (ctx_persistent_state ctx1)) (cfg_epoch config) = Some config"
  proof -
    have wf: "wf_ps ?ps" using assms(1) by (simp add: node_inv_def)
    from r(1) show "ctx_ledger ctx ctx1"
    proof (cases rule: commit_advance_record_cases)
      case Committed
      then show ?thesis using commit_ledger [OF assms(3) Committed(2) wf] by simp
    next
      case Learned
      then show ?thesis using ctx_ledger_update [OF ledger_step.Learn [OF assms(3) Learned(2) r(2)]] by simp
    qed (simp_all add: ctx_frame_ledger)
    from r(1) assms(3) show "ps_expunged (ctx_persistent_state ctx1) = None"
      by (cases rule: commit_advance_record_cases) simp_all
    from r(1) show "bt_get (ps_configs (ctx_persistent_state ctx1)) (cfg_epoch config) = Some config"
      if "r = Some False"
      by (cases rule: commit_advance_record_cases) (use that in simp_all)
  qed
  have ok: "node_ok E (ctx_platform_id ctx) (ctx_persistent_state ctx1) n"
    using node_ok_extends [OF node_inv_ok [OF assms(1)] ctx_ledger_extends [OF led]] ex assms(3) by simp
  show ?thesis
  proof (cases r)
    case None
    then show ?thesis using r(3) node_refinesI [OF assms(1) led ok] by simp
  next
    case (Some b)
    then have run: "commit_advance_compute (commit_advance_cancel n config) ctx1 config b = Done (n', ctx')"
      using r(3) by simp
    have "b \<or> bt_get (ps_configs (ctx_persistent_state ctx1)) (cfg_epoch config) = Some config"
      using stored Some by (cases b) simp_all
    note fin = commit_advance_compute_ok [OF run commit_advance_cancel_ok [OF ok] ex this]
    show ?thesis
      using node_refinesI [OF assms(1) ctx_ledger_trans [OF led ctx_frame_ledger]] fin by simp
  qed
qed

lemma prepare_and_commit_refines:
  assumes "node_inv E ctx n" and "prepare_and_commit n ctx config = Done (n', ctx', r)"
  shows "node_refines E ctx ctx' n'"
proof (cases "n' = n \<and> ctx' = ctx")
  case True
  then show ?thesis using node_refines_same [OF assms(1)] by simp
next
  case False
  with assms(2) have "handle_commit_advance n ctx ''Nexus'' config = Done (n', ctx')"
    "ps_expunged (ctx_persistent_state ctx) = None"
    by (auto simp: prepare_and_commit_def outcome_simps Let_def)
  then show ?thesis by (rule handle_commit_advance_refines [OF assms(1)])
qed

section \<open>Connections and messages\<close>

lemma ctx_ledger_connections [simp]:
  "ctx_ledger ctx (ctx_add_connection ctx peer)" "ctx_ledger ctx (ctx_remove_connection ctx peer)"
  using ledger_steps.Refl by (fastforce simp: ctx_ledger_def ctx_add_connection_def ctx_remove_connection_def)+

lemma node_on_connect_refines:
  assumes "node_inv E ctx n" and "node_on_connect n ctx peer = Done ctx'"
  shows "node_refines E ctx ctx' n"
proof -
  let ?ctx = "ctx_add_connection ctx peer"
  from assms(2) obtain ctx1 ctx2 where c: "send_coordinator_msgs_to n ?ctx peer = Done ctx1"
    "(case node_key_share_computer n of Some ksc \<Rightarrow> ksc_on_connect ksc ctx1 peer | None \<Rightarrow> Done ctx1) = Done ctx2"
    "rsl_on_connect (node_rack_secret_loader n) ctx2 peer = Done ctx'"
    by (auto simp: node_on_connect_def Let_def obind_eq_Done)
  have "ctx_frame ctx1 ctx2" using c(2) by (auto dest: ksc_on_connect_frame split: option.splits)
  then have frame: "ctx_frame ?ctx ctx'"
    using ctx_frame_trans [OF send_coordinator_msgs_to_frame [OF c(1)]]
      ctx_frame_trans [OF _ rsl_on_connect_frame [OF c(3)]] by blast
  then have "ctx_ledger ctx ctx'" using ctx_ledger_trans [OF _ ctx_frame_ledger [OF frame]] by simp
  then show ?thesis using node_refinesI [OF assms(1)] node_inv_ok [OF assms(1)] frame
    by (simp add: ctx_add_connection_def)
qed

lemma node_on_disconnect_refines:
  assumes "node_inv E ctx n"
  shows "node_refines E ctx (node_on_disconnect ctx peer) n"
proof -
  have "ctx_persistent_state (ctx_remove_connection ctx peer) = ctx_persistent_state ctx"
    by (simp add: ctx_remove_connection_def)
  then show ?thesis
    using node_refinesI [OF assms ctx_ledger_connections(2)] node_inv_ok [OF assms]
    by (simp add: node_on_disconnect_def)
qed

lemma handle_prepare_ack_refines:
  assumes "node_inv E ctx n" and "ps_expunged (ctx_persistent_state ctx) = None"
  shows "node_refines E ctx ctx (handle_prepare_ack n from epoch)"
proof -
  have "node_ok E (ctx_platform_id ctx) (ctx_persistent_state ctx) (handle_prepare_ack n from epoch)"
    using node_inv_ok [OF assms(1)] assms(2)
    by (auto simp: handle_prepare_ack_def intro: node_ok_coordinator(1) cs_ok_ack node_ok_cs split: option.split)
  then show ?thesis by (rule node_refines_frame [OF assms(1) ctx_frame_refl])
qed

lemma handle_expunged_refines:
  assumes "node_inv E ctx n" and "handle_expunged n ctx from epoch = Done (n', ctx')"
    and "ps_expunged (ctx_persistent_state ctx) = None"
  shows "node_refines E ctx ctx' n'"
proof (cases "n' = n \<and> ctx' = ctx")
  case True
  then show ?thesis using node_refines_same [OF assms(1)] by simp
next
  case False
  let ?ps = "ctx_persistent_state ctx"
  let ?x = "\<lparr>exp_epoch = epoch, exp_from = from\<rparr>"
  from False assms(2) obtain config where c: "ps_latest_config ?ps = Some config" "cfg_epoch config \<le> exp_epoch ?x"
    "ctx' = ctx\<lparr>ctx_persistent_state := ?ps\<lparr>ps_expunged := Some ?x\<rparr>, ctx_persistent_state_changed := True\<rparr>"
    "n' = n\<lparr>node_coordinator_state := None, node_key_share_computer := None\<rparr>"
    by (auto simp: handle_expunged_def outcome_simps ctx_update_Done not_less)
  have led: "ctx_ledger ctx ctx'"
    using ctx_ledger_update [OF ledger_step.Expunge [OF assms(3) c(1,2)]] c(3) by simp
  have "rsl_ok (ctx_persistent_state ctx') (node_rack_secret_loader n)"
    using rsl_ok_extends [OF _ ctx_ledger_extends [OF led]] node_inv_ok [OF assms(1)] by (simp add: node_ok_def)
  then show ?thesis using node_refinesI [OF assms(1) led] c(4) by (simp add: node_ok_def)
qed

lemma handle_get_share_frame: "handle_get_share ctx from epoch = Done ctx' \<Longrightarrow> ctx_frame ctx ctx'"
  by (auto simp: handle_get_share_def Let_def outcome_simps dest: ctx_frame_send)

lemma handle_get_lrtq_share_frame: "handle_get_lrtq_share ctx from = Done ctx' \<Longrightarrow> ctx_frame ctx ctx'"
  by (auto simp: handle_get_lrtq_share_def outcome_simps dest: ctx_frame_send)

text \<open>A prepare that is not dropped: configuration and share are stored, then acknowledged.\<close>

lemma handle_prepare_cases:
  assumes "handle_prepare n ctx from config share = Done (n', ctx')"
  obtains
    (Dropped) "n' = n" and "ctx' = ctx"
  | (Saved) ps ctx1 where "n' = n \<or> n' = n\<lparr>node_coordinator_state := None\<rparr>"
      and "ctx_platform_id ctx \<in> set (bt_keys (cfg_members config))"
      and "ps = (let p = (ctx_persistent_state ctx)
            \<lparr>ps_shares := bt_insert (cfg_epoch config) share (ps_shares (ctx_persistent_state ctx))\<rparr> in
          if bt_contains_key (ps_configs (ctx_persistent_state ctx)) (cfg_epoch config) then p
          else p\<lparr>ps_configs := bt_insert (cfg_epoch config) config (ps_configs (ctx_persistent_state ctx))\<rparr>)"
      and "ctx1 = ctx\<lparr>ctx_persistent_state := ps, ctx_persistent_state_changed :=
          ((\<not> bt_contains_key (ps_shares (ctx_persistent_state ctx)) (cfg_epoch config) \<or>
            \<not> bt_contains_key (ps_configs (ctx_persistent_state ctx)) (cfg_epoch config)) \<or>
           ctx_persistent_state_changed ctx)\<rparr>"
      and "ctx_send ctx1 from (PrepareAck (cfg_epoch config)) = Done ctx'"
proof (cases "n' = n \<and> ctx' = ctx")
  case True
  then show thesis using Dropped by simp
next
  case False
  have coord: "(case node_coordinator_state n of
        Some cs \<Rightarrow> (if cfg_epoch config > coordinating_msg_epoch (cs_msg cs)
                    then n\<lparr>node_coordinator_state := None\<rparr> else n)
      | None \<Rightarrow> n) \<in> {n, n\<lparr>node_coordinator_state := None\<rparr>}"
    by (auto split: option.split)
  from False assms coord show thesis
    by (intro Saved [OF _ _ refl refl])
      (auto simp: handle_prepare_def save_prepare_def outcome_simps Let_def ctx_update_Done bt_contains_keys
        split: if_split_asm)
qed

lemma handle_prepare_refines:
  assumes "node_inv E ctx n" and "handle_prepare n ctx from config share = Done (n', ctx')"
    and "ps_expunged (ctx_persistent_state ctx) = None"
  shows "node_refines E ctx ctx' n'"
  using assms(2)
proof (cases rule: handle_prepare_cases)
  case Dropped
  then show ?thesis using node_refines_same [OF assms(1)] by simp
next
  case (Saved ps ctx1)
  let ?ps = "ctx_persistent_state ctx"
  have led: "ctx_ledger ctx ctx1"
  proof (cases "bt_contains_key (ps_configs ?ps) (cfg_epoch config)")
    case True
    then show ?thesis
      using ctx_ledger_update [OF ledger_step.Restore [OF assms(3) True]] Saved(3,4) by simp
  next
    case False
    then show ?thesis using store_ledger [OF assms(3) False Saved(2)] Saved(3,4) by simp
  qed
  note frame = ctx_frame_send [OF Saved(5)]
  have ok: "node_ok E (ctx_platform_id ctx) (ctx_persistent_state ctx1) n"
    using node_ok_extends [OF node_inv_ok [OF assms(1)] ctx_ledger_extends [OF led]] Saved(3,4)
    by (simp add: Let_def)
  show ?thesis
    using node_refinesI [OF assms(1) ctx_ledger_trans [OF led ctx_frame_ledger [OF frame]]] ok
      node_ok_cancel(1) [OF ok] Saved(1) frame by auto
qed

text \<open>What the first half of \<open>handle_share\<close> does, before the share goes to the loader.\<close>

lemma ksc_handle_share_refines:
  assumes "node_inv E ctx n" and "node_key_share_computer n = Some k"
    and "ksc_handle_share E k ctx from epoch share = Done (k', ctx', completed)"
    and "ps_expunged (ctx_persistent_state ctx) = None"
  shows "node_refines E ctx ctx' (n\<lparr>node_key_share_computer := (if completed then None else Some k')\<rparr>)"
proof -
  have stored: "ksc_stored E (ctx_persistent_state ctx) k"
    using node_ok_ksc [OF node_inv_ok [OF assms(1)] assms(2)] .
  have k': "ksc_ok E k'" "ksc_config k' = ksc_config k"
    using ksc_handle_share_ok [OF assms(3)] stored by (simp_all add: ksc_stored_def)
  from assms(3) show ?thesis
  proof (cases rule: ksc_handle_share_cases)
    case Frame
    have "ksc_stored E (ctx_persistent_state ctx) k'" using k' stored by (simp add: ksc_stored_def)
    with Frame show ?thesis
      using node_refines_frame [OF assms(1) Frame(2)] node_ok_coordinator(2) [OF node_inv_ok [OF assms(1)] assms(4)]
      by simp
  next
    case (Stored s x)
    let ?ps = "ctx_persistent_state ctx"
    have has: "bt_contains_key (ps_configs ?ps) epoch"
      using stored Stored(2) by (simp add: ksc_stored_def bt_contains_get)
    let ?ctx = "ctx\<lparr>ctx_persistent_state := ?ps\<lparr>ps_shares := bt_insert epoch s (ps_shares ?ps),
        ps_commits := bs_insert epoch (ps_commits ?ps)\<rparr>,
      ctx_persistent_state_changed := ((\<not> bt_contains_key (ps_shares ?ps) epoch \<or> epoch \<notin> set (ps_commits ?ps)) \<or>
        ctx_persistent_state_changed ctx)\<rparr>"
    have "ctx_ledger ctx ?ctx" by (rule ctx_ledger_update [OF ledger_step.Compute [OF assms(4) has]])
    moreover have "ctx' = ?ctx" using Stored(4-) by (simp add: bs_contains_def disj_commute disj_left_commute)
    ultimately have led: "ctx_ledger ctx ctx'" by simp
    have "node_ok E (ctx_platform_id ctx) (ctx_persistent_state ctx') n"
      using node_ok_extends [OF node_inv_ok [OF assms(1)] ctx_ledger_extends [OF led]] Stored(4) by simp
    then show ?thesis using node_refinesI [OF assms(1) led] Stored(1) by simp
  qed
qed

lemma cs_step_refines:
  assumes "node_inv E ctx n" and "node_coordinator_state n = Some cs" and "cs_step cs ctx cs' ctx'"
    and "ps_expunged (ctx_persistent_state ctx) = None"
  shows "node_refines E ctx ctx' (n\<lparr>node_coordinator_state := Some cs'\<rparr>)"
proof -
  have cs: "cs_ok (ctx_platform_id ctx) (ctx_persistent_state ctx) cs"
    using node_ok_cs [OF node_inv_ok [OF assms(1)] assms(2)] .
  then have led: "ctx_ledger ctx ctx'" using cs_step_ledger [OF assms(3,4)] by (simp add: cs_ok_def)
  have ex: "ps_expunged (ctx_persistent_state ctx') = None"
    using assms(3,4) by (auto simp: cs_step_def)
  have "node_ok E (ctx_platform_id ctx) (ctx_persistent_state ctx') n"
    using node_ok_extends [OF node_inv_ok [OF assms(1)] ctx_ledger_extends [OF led]] ex assms(4) by simp
  moreover have "cs_ok (ctx_platform_id ctx) (ctx_persistent_state ctx') cs'" using assms(3) by (simp add: cs_step_def)
  ultimately show ?thesis using node_refinesI [OF assms(1) led] node_ok_coordinator(1) ex by blast
qed

lemma handle_share_refines:
  assumes "node_inv E ctx n" and "handle_share E n ctx from epoch share rng = Done (n', ctx')"
    and "ps_expunged (ctx_persistent_state ctx) = None"
  shows "node_refines E ctx ctx' n'"
proof -
  from assms(2) obtain n1 ctx1 l where first:
    "(case node_coordinator_state n of
        Some cs \<Rightarrow> obind (cs_handle_share E cs ctx from epoch share rng) (\<lambda>(cs, ctx).
          Done (n\<lparr>node_coordinator_state := Some cs\<rparr>, ctx))
      | None \<Rightarrow> (case node_key_share_computer n of
          Some ksc \<Rightarrow> obind (ksc_handle_share E ksc ctx from epoch share) (\<lambda>(ksc, ctx, completed).
            Done (n\<lparr>node_key_share_computer := (if completed then None else Some ksc)\<rparr>, ctx))
        | None \<Rightarrow> Done (n, ctx))) = Done (n1, ctx1)"
    and rest: "rsl_handle_share E (node_rack_secret_loader n1) ctx1 from epoch share = Done (l, ctx')"
      "n' = n1\<lparr>node_rack_secret_loader := l\<rparr>"
    unfolding handle_share_def by (auto simp only: obind_eq_Done case_prod_eq_Done outcome.inject prod.inject)
  have step: "cs_step cs ctx cs' ctx''"
    if "cs_handle_share E cs ctx from epoch share rng = Done (cs', ctx'')" "node_coordinator_state n = Some cs"
    for cs cs' ctx''
    using cs_handle_share_step [OF that(1)] node_ok_cs [OF node_inv_ok [OF assms(1)] that(2)] by simp
  have "node_refines E ctx ctx1 n1"
  proof (cases "node_coordinator_state n")
    case (Some cs)
    with first show ?thesis
      using cs_step_refines [OF assms(1) Some step [OF _ Some] assms(3)] by (auto simp: outcome_simps)
  next
    case None
    with first show ?thesis
      using ksc_handle_share_refines [OF assms(1) _ _ assms(3)] node_refines_same [OF assms(1)]
      by (cases "node_key_share_computer n") (auto simp: obind_eq_Done case_prod_eq_Done)
  qed
  then have inv: "node_inv E ctx1 n1" by (simp add: node_refines_def)
  have "rsl_ok (ctx_persistent_state ctx1) l"
    using rsl_handle_share_ok [OF rest(1)] node_inv_ok [OF inv] by (simp add: node_ok_def)
  then have "node_refines E ctx1 ctx' n'"
    using node_refines_frame [OF inv rsl_handle_share_frame [OF rest(1)]] node_inv_ok [OF inv] rest(2) by simp
  then show ?thesis by (rule node_refines_trans [OF \<open>node_refines E ctx ctx1 n1\<close>])
qed

lemma handle_lrtq_share_refines:
  assumes "node_inv E ctx n" and "handle_lrtq_share E n ctx from share rng = Done (n', ctx')"
    and "ps_expunged (ctx_persistent_state ctx) = None"
  shows "node_refines E ctx ctx' n'"
proof (cases "node_coordinator_state n")
  case (Some cs)
  from assms(2) Some obtain cs' where "cs_handle_lrtq_share E cs ctx from share rng = Done (cs', ctx')"
    "n' = n\<lparr>node_coordinator_state := Some cs'\<rparr>"
    by (auto simp: handle_lrtq_share_def outcome_simps)
  then show ?thesis
    using cs_step_refines [OF assms(1) Some cs_handle_lrtq_share_step assms(3)]
      node_ok_cs [OF node_inv_ok [OF assms(1)] Some] by simp
qed (use assms(2) node_refines_same [OF assms(1)] in \<open>simp add: handle_lrtq_share_def\<close>)

lemma node_handle_refines:
  assumes "node_inv E ctx n" and "node_handle E n ctx from msg rng = Done (n', ctx')"
  shows "node_refines E ctx ctx' n'"
proof (cases "n' = n \<and> ctx' = ctx")
  case True
  then show ?thesis using node_refines_same [OF assms(1)] by simp
next
  case False
  with assms(2) have d: "node_dispatch E n ctx from (pm_kind msg) rng = Done (n', ctx')"
    and ex: "ps_expunged (ctx_persistent_state ctx) = None"
    by (auto simp: node_handle_def ps_is_expunged_def if_eq_Done)
  note frame = node_refines_frame [OF assms(1) _ node_inv_ok [OF assms(1)]]
  from d show ?thesis
  proof (cases "pm_kind msg")
    case (PrepareAck e)
    with d handle_prepare_ack_refines [OF assms(1) ex] show ?thesis by (auto simp: node_dispatch_def)
  next
    case (GetShare e)
    with d have "handle_get_share ctx from e = Done ctx'" "n' = n"
      by (auto simp: node_dispatch_def obind_eq_Done)
    then show ?thesis using frame [OF handle_get_share_frame] by simp
  next
    case GetLrtqShare
    with d have "handle_get_lrtq_share ctx from = Done ctx'" "n' = n"
      by (auto simp: node_dispatch_def obind_eq_Done)
    then show ?thesis using frame [OF handle_get_lrtq_share_frame] by simp
  qed (auto simp: node_dispatch_def
      intro: handle_prepare_refines [OF assms(1) _ ex]
        handle_share_refines [OF assms(1) _ ex] handle_commit_advance_refines [OF assms(1) _ ex]
        handle_expunged_refines [OF assms(1) _ ex] handle_lrtq_share_refines [OF assms(1) _ ex])
qed

end
