(* ===== verification/TQ_Node_Safety.thy ===== *)
theory TQ_Node_Safety
  imports TQ_Node
begin

text \<open>
  What a node never does. All entry points of \<^verbatim>\<open>trust-quorum/protocol/src/node.rs\<close> are
  gathered in one type of calls; every call refines the ledger, keeps the invariant, and
  every message it queues is justified by what is stored at that moment.
\<close>

section \<open>Justified messages\<close>

text \<open>
  What the persistent state of the sender must hold for a message to a peer: a share and a
  request for one go only to members of a stored configuration, an acknowledgement only out
  after both parts of the prepare are stored, an expungement only to a non-member.
\<close>

fun justified :: "persistent_state \<Rightarrow> baseboard_id \<Rightarrow> peer_msg_kind \<Rightarrow> bool" where
  "justified ps to (Prepare c s) =
     (bt_get (ps_configs ps) (cfg_epoch c) = Some c \<and> bt_contains_key (cfg_members c) to)"
| "justified ps to (PrepareAck e) = ps_has_prepared ps e"
| "justified ps to (GetShare e) =
     (\<exists>c. bt_get (ps_configs ps) e = Some c \<and> bt_contains_key (cfg_members c) to)"
| "justified ps to (ShareMsg e s) =
     (bt_get (ps_shares ps) e = Some s \<and>
      (\<exists>c. bt_get (ps_configs ps) e = Some c \<and> bt_contains_key (cfg_members c) to) \<and>
      (\<forall>e'\<in>set (ps_commits ps). e' \<le> e))"
| "justified ps to GetLrtqShare = (ps_lrtq ps \<noteq> None)"
| "justified ps to (LrtqShareMsg s) =
     (map_option lsd_share (ps_lrtq ps) = Some s \<and> ps_commits ps = [])"
| "justified ps to (Expunged e) =
     (\<exists>c. bt_get (ps_configs ps) e = Some c \<and> \<not> bt_contains_key (cfg_members c) to)"
| "justified ps to (CommitAdvance c) =
     (cfg_epoch c \<in> set (ps_commits ps) \<and> bt_get (ps_configs ps) (cfg_epoch c) = Some c \<and>
      bt_contains_key (cfg_members c) to)"

definition justified_envelope :: "node_ctx \<Rightarrow> envelope \<Rightarrow> bool" where
  "justified_envelope ctx m \<longleftrightarrow>
     env_from m = ctx_platform_id ctx \<and>
     ps_rack_id (ctx_persistent_state ctx) = Some (pm_rack_id (env_msg m)) \<and>
     justified (ctx_persistent_state ctx) (env_to m) (pm_kind (env_msg m))"

definition sends_justified :: "node_ctx \<Rightarrow> node_ctx \<Rightarrow> bool" where
  "sends_justified ctx ctx' \<longleftrightarrow>
     (\<exists>msgs. ctx_outgoing ctx' = ctx_outgoing ctx @ msgs \<and> (\<forall>m\<in>set msgs. justified_envelope ctx' m))"

lemma sends_justified_none: "ctx_outgoing ctx' = ctx_outgoing ctx \<Longrightarrow> sends_justified ctx ctx'"
  by (simp add: sends_justified_def)

lemma sends_justified_start:
  "ctx_outgoing ctx1 = ctx_outgoing ctx \<Longrightarrow> sends_justified ctx1 ctx' \<Longrightarrow> sends_justified ctx ctx'"
  by (simp add: sends_justified_def)

lemma sends_justified_trans:
  assumes "sends_justified ctx ctx1" and "sends_justified ctx1 ctx'" and "ctx_frame ctx1 ctx'"
  shows "sends_justified ctx ctx'"
proof -
  have "justified_envelope ctx1 m \<Longrightarrow> justified_envelope ctx' m" for m
    using assms(3) by (simp add: justified_envelope_def)
  with assms(1,2) show ?thesis by (auto simp: sends_justified_def)
qed

lemma ctx_send_justified:
  assumes "ctx_send ctx to k = Done ctx'" and "justified (ctx_persistent_state ctx) to k"
  shows "sends_justified ctx ctx'"
  using assms by (auto simp: ctx_send_Done sends_justified_def justified_envelope_def)

lemma ctx_send_all_justified:
  assumes "ctx_send_all ctx msgs = Done ctx'"
    and "\<And>to k. (to, k) \<in> set msgs \<Longrightarrow> justified (ctx_persistent_state ctx) to k"
  shows "sends_justified ctx ctx'"
proof -
  let ?P = "\<lambda>c. sends_justified ctx c \<and> ctx_frame ctx c"
  have "?P ctx'"
    using assms(1) [unfolded ctx_send_all_def]
  proof (rule ofold_invariant)
    fix c m c'
    assume c: "?P c" and m: "m \<in> set msgs" and send: "(case m of (to, k) \<Rightarrow> ctx_send c to k) = Done c'"
    obtain to k where tk: "m = (to, k)" by fastforce
    with send have s: "ctx_send c to k = Done c'" by simp
    have "ctx_persistent_state c = ctx_persistent_state ctx" using c by (simp only: ctx_frame_def)
    then have "justified (ctx_persistent_state c) to k" using assms(2) m tk by simp
    from ctx_send_justified [OF s this] c show "?P c'"
      using sends_justified_trans ctx_frame_trans ctx_frame_send [OF s] by blast
  qed (simp add: sends_justified_none)
  then show ?thesis by simp
qed

lemma ctx_send_connected_justified:
  assumes "ctx_send_connected ctx msgs = Done ctx'"
    and "\<And>to k. (to, k) \<in> set msgs \<Longrightarrow> justified (ctx_persistent_state ctx) to k"
  shows "sends_justified ctx ctx'"
  using ctx_send_all_justified [OF assms(1) [unfolded ctx_send_connected_eq]] assms(2) by auto

section \<open>The components\<close>

lemma cs_send_msgs_justified:
  assumes "cs_send_msgs cs ctx = Done ctx'" and "cs_ok me (ctx_persistent_state ctx) cs"
  shows "sends_justified ctx ctx'"
proof (cases "cs_op cs")
  case (CollectShares old_epoch collected new_shares)
  then obtain config where c: "bt_get (ps_configs (ctx_persistent_state ctx)) old_epoch = Some config"
    "ctx_send_all ctx (map (\<lambda>to. (to, GetShare old_epoch)) (filter (\<lambda>id. \<not> bt_contains_key collected id \<and>
       bs_contains (ctx_connected ctx) id) (bt_keys (cfg_members config)))) = Done ctx'"
    using assms(1) by (auto simp: cs_send_msgs_def Let_def obind_eq_Done ps_configuration_def)
  from c(2) show ?thesis by (rule ctx_send_all_justified) (use c(1) in \<open>auto simp: bt_contains_keys\<close>)
next
  case (CollectLrtqShares collected new_shares)
  with assms show ?thesis
    by (auto simp: cs_send_msgs_def Let_def cs_ok_def elim!: ctx_send_all_justified)
next
  case (PrepareOp prepares acks)
  then have stored: "bt_get (ps_configs (ctx_persistent_state ctx)) (cfg_epoch (cs_configuration cs)) =
      Some (cs_configuration cs)"
    and part: "prepare_partition (cs_configuration cs) prepares acks"
    using assms(2) by (simp_all add: cs_ok_def)
  have just: "justified (ctx_persistent_state ctx) to (Prepare c s)" if "(to, (c, s)) \<in> set prepares" for to c s
  proof -
    have "to \<in> set (bt_keys prepares)" using that by (force simp: bt_keys_def)
    with part that stored show ?thesis by (auto simp: prepare_partition_def bt_contains_keys)
  qed
  from assms(1) PrepareOp have "ctx_send_connected ctx
      (map (\<lambda>(platform_id, (config, share)). (platform_id, Prepare config share)) prepares) = Done ctx'"
    by (simp add: cs_send_msgs_def)
  then show ?thesis by (rule ctx_send_connected_justified) (use just in \<open>auto simp del: justified.simps\<close>)
qed

lemma cs_send_msgs_to_justified:
  assumes "cs_send_msgs_to cs ctx to = Done ctx'" and "cs_ok me (ctx_persistent_state ctx) cs"
  shows "sends_justified ctx ctx'"
proof (cases "cs_op cs")
  case (CollectShares old_epoch collected new_shares)
  with assms(1) show ?thesis
    by (auto simp: cs_send_msgs_to_def ps_configuration_def outcome_simps sends_justified_none
        elim!: ctx_send_justified)
next
  case (CollectLrtqShares collected new_shares)
  with assms show ?thesis
    by (auto simp: cs_send_msgs_to_def cs_ok_def if_eq_Done sends_justified_none elim!: ctx_send_justified)
next
  case (PrepareOp prepares acks)
  show ?thesis
  proof (cases "bt_get prepares to")
    case None
    with PrepareOp assms(1) show ?thesis by (auto simp: cs_send_msgs_to_def sends_justified_none)
  next
    case (Some cs')
    obtain c s where cs': "cs' = (c, s)" by fastforce
    have mem: "(to, (c, s)) \<in> set prepares" using bt_get_in_set [OF Some] cs' by simp
    then have "to \<in> set (bt_keys prepares)" by (force simp: bt_keys_def)
    with mem PrepareOp assms(2) have "justified (ctx_persistent_state ctx) to (Prepare c s)"
      by (auto simp: cs_ok_def prepare_partition_def bt_contains_keys)
    with Some PrepareOp assms(1) cs' show ?thesis
      by (auto simp: cs_send_msgs_to_def elim!: ctx_send_justified)
  qed
qed

lemma cs_transition_justified:
  assumes "cs_transition_to_preparing E cs ctx new_shares secrets rng = Done (cs', ctx')"
    and "cs_ok (ctx_platform_id ctx) (ctx_persistent_state ctx) cs"
    and "new_shares = [] \<or> bt_ok new_shares \<and> bt_keys new_shares = bt_keys (cfg_members (cs_configuration cs))"
  shows "sends_justified ctx ctx'"
proof (cases "ctx' = ctx")
  case False
  with assms(1) obtain ctx1 where c: "cs_send_msgs cs' ctx1 = Done ctx'"
    "ctx_outgoing ctx1 = ctx_outgoing ctx"
    by (auto simp: cs_transition_to_preparing_def Let_def outcome_simps ctx_update_Done)
  have "cs_ok (ctx_platform_id ctx) (ctx_persistent_state ctx') cs'"
    using cs_transition_step [OF assms] by (simp add: cs_step_def)
  then have "cs_ok (ctx_platform_id ctx) (ctx_persistent_state ctx1) cs'"
    using cs_send_msgs_frame [OF c(1)] by simp
  from sends_justified_start [OF c(2) cs_send_msgs_justified [OF c(1) this]] show ?thesis .
qed (simp add: sends_justified_none)

lemma cs_handle_share_justified:
  assumes "cs_handle_share E cs ctx from epoch share rng = Done (cs', ctx')"
    and "cs_ok (ctx_platform_id ctx) (ctx_persistent_state ctx) cs"
  shows "sends_justified ctx ctx'"
proof (cases "cs_op cs")
  case (CollectShares old_epoch collected new_shares)
  have ns: "new_shares = [] \<or> bt_ok new_shares \<and> bt_keys new_shares = bt_keys (cfg_members (cs_configuration cs))"
    using assms(2) CollectShares by (simp add: cs_ok_def)
  have trans: "sends_justified ctx ctx'"
    if "cs_transition_to_preparing E (cs\<lparr>cs_op := CollectShares old_epoch m []\<rparr>) ctx new_shares secrets rng =
      Done (cs', ctx')" for m secrets
    by (rule cs_transition_justified [OF that cs_ok_collected(2) [OF assms(2) CollectShares]]) (simp add: ns)
  from assms(1) CollectShares show ?thesis
    using trans by (auto simp: cs_handle_share_def Let_def outcome_simps sends_justified_none)
qed (use assms in \<open>simp_all add: cs_handle_share_def sends_justified_none\<close>)

lemma cs_handle_lrtq_share_justified:
  assumes "cs_handle_lrtq_share E cs ctx from share rng = Done (cs', ctx')"
    and "cs_ok (ctx_platform_id ctx) (ctx_persistent_state ctx) cs"
  shows "sends_justified ctx ctx'"
proof (cases "cs_op cs")
  case (CollectLrtqShares collected new_shares)
  have ns: "new_shares = [] \<or> bt_ok new_shares \<and> bt_keys new_shares = bt_keys (cfg_members (cs_configuration cs))"
    using assms(2) CollectLrtqShares by (simp add: cs_ok_def)
  have trans: "sends_justified ctx ctx'"
    if "cs_transition_to_preparing E (cs\<lparr>cs_op := CollectLrtqShares m []\<rparr>) ctx new_shares secrets rng =
      Done (cs', ctx')" for m secrets
    by (rule cs_transition_justified [OF that cs_ok_lrtq_collected(2) [OF assms(2) CollectLrtqShares]]) (simp add: ns)
  from assms(1) CollectLrtqShares show ?thesis
    using trans by (auto simp: cs_handle_lrtq_share_def Let_def outcome_simps sends_justified_none)
qed (use assms in \<open>simp_all add: cs_handle_lrtq_share_def sends_justified_none\<close>)

lemma latest_committed_configuration_Some:
  assumes "wf_ps ps" and "ps_latest_committed_configuration ps = Done (Some c)"
  shows "cfg_epoch c \<in> set (ps_commits ps)" and "bt_get (ps_configs ps) (cfg_epoch c) = Some c"
    and "\<forall>e\<in>set (ps_commits ps). e \<le> cfg_epoch c"
proof -
  obtain e where e: "ps_latest_committed_epoch ps = Some e" "ps_configuration ps e = Some c"
    using assms(2) by (auto simp: ps_latest_committed_configuration_def outcome_simps)
  have ep: "cfg_epoch c = e" by (rule wf_ps_configuration_epoch [OF assms(1) e(2)])
  show "cfg_epoch c \<in> set (ps_commits ps)" using latest_committed_in_commits [OF e(1)] ep by simp
  show "bt_get (ps_configs ps) (cfg_epoch c) = Some c" using e(2) ep by (simp add: ps_configuration_def)
  have "bs_ok (ps_commits ps)" using assms(1) by (simp add: wf_ps_def)
  then show "\<forall>e\<in>set (ps_commits ps). e \<le> cfg_epoch c"
    using last_opt_greatest e(1) ep by (auto simp: bs_ok_def ps_latest_committed_epoch_def)
qed

lemma latest_committed_configuration_None:
  "ps_latest_committed_configuration ps = Done None \<Longrightarrow> ps_commits ps = []"
  by (auto simp: ps_latest_committed_configuration_def outcome_simps ps_latest_committed_epoch_def
      last_opt_def split: if_splits)

lemma rsl_load_justified:
  assumes "rsl_load l ctx epoch = Done (l', ctx', r)" and "wf_ps (ctx_persistent_state ctx)"
  shows "sends_justified ctx ctx'"
proof -
  have start: "sends_justified ctx ctx''" if s: "rsl_start_collecting l ctx = Done (l'', ctx'', r'')" for l'' ctx'' r''
  proof (cases "ctx'' = ctx")
    case False
    with s obtain config where c: "ps_latest_committed_configuration (ctx_persistent_state ctx) = Done (Some config)"
      "ctx_send_connected ctx (map (\<lambda>to. (to, GetShare (cfg_epoch config))) (bt_keys (cfg_members config))) = Done ctx''"
      by (auto simp: rsl_start_collecting_def sc_new_def sc_send_get_share_requests_def Let_def outcome_simps)
    from c(2) show ?thesis
      by (rule ctx_send_connected_justified)
        (use latest_committed_configuration_Some(2) [OF assms(2) c(1)] in \<open>auto simp: bt_contains_keys\<close>)
  qed (simp add: sends_justified_none)
  from assms(1) show ?thesis
    using start by (auto simp: rsl_load_def outcome_simps ctx_raise_alarm_def sends_justified_none)
qed

lemma rsl_on_connect_justified:
  assumes "rsl_on_connect l ctx peer = Done ctx'" and "rsl_ok (ctx_persistent_state ctx) l"
  shows "sends_justified ctx ctx'"
  using assms
  by (auto simp: rsl_on_connect_def sc_on_connect_def rsl_ok_def outcome_simps sends_justified_none
      elim!: ctx_send_justified)

lemma rsl_handle_share_silent:
  "rsl_handle_share E l ctx from epoch share = Done (l', ctx') \<Longrightarrow> ctx_outgoing ctx' = ctx_outgoing ctx"
  by (auto simp: rsl_handle_share_def sc_handle_share_def Let_def outcome_simps ctx_raise_alarm_def)

lemma ksc_handle_share_silent:
  "ksc_handle_share E k ctx from epoch share = Done (k', ctx', b) \<Longrightarrow> ctx_outgoing ctx' = ctx_outgoing ctx"
  by (auto simp: ksc_handle_share_def Let_def outcome_simps ctx_raise_alarm_def ctx_update_Done)

lemma ksc_new_justified:
  assumes "ksc_new ctx config = Done (k, ctx')"
    and "bt_get (ps_configs (ctx_persistent_state ctx)) (cfg_epoch config) = Some config"
  shows "sends_justified ctx ctx'"
  using assms by (auto simp: ksc_new_def obind_eq_Done bt_contains_keys elim!: ctx_send_connected_justified)

lemma ksc_on_connect_justified:
  assumes "ksc_on_connect k ctx peer = Done ctx'" and "ksc_stored E (ctx_persistent_state ctx) k"
  shows "sends_justified ctx ctx'"
  using assms
  by (auto simp: ksc_on_connect_def ksc_stored_def if_eq_Done sends_justified_none elim!: ctx_send_justified)

section \<open>The handlers\<close>

lemma handle_get_share_justified:
  assumes "handle_get_share ctx from epoch = Done ctx'" and "wf_ps (ctx_persistent_state ctx)"
  shows "sends_justified ctx ctx'"
proof -
  let ?ps = "ctx_persistent_state ctx"
  obtain latest where latest: "ps_latest_committed_configuration ?ps = Done latest"
    using assms(1) by (auto simp: handle_get_share_def obind_eq_Done Let_def)
  note committed = latest_committed_configuration_Some [OF assms(2)]
  have reply: "sends_justified ctx ctx'"
    if send: "ctx_send ctx from (ShareMsg epoch s) = Done ctx'" and s: "bt_get (ps_shares ?ps) epoch = Some s"
      and mem: "\<And>c. ps_configuration ?ps epoch = Some c \<Longrightarrow> bt_contains_key (cfg_members c) from"
      and new: "\<forall>e\<in>set (ps_commits ?ps). e \<le> epoch" for s
  proof -
    have "epoch \<in> set (bt_keys (ps_configs ?ps))"
      using bt_get_in_keys [OF s] assms(2) by (auto simp: wf_ps_def)
    then obtain c where "bt_get (ps_configs ?ps) epoch = Some c" by (metis bt_get_None not_None_eq)
    with mem s new have "justified ?ps from (ShareMsg epoch s)" by (simp add: ps_configuration_def)
    then show ?thesis by (rule ctx_send_justified [OF send])
  qed
  have new: "\<forall>e\<in>set (ps_commits ?ps). e \<le> epoch"
    if "case latest of None \<Rightarrow> True | Some c \<Rightarrow> \<not> epoch < cfg_epoch c"
    using that latest committed(3) latest_committed_configuration_None [of ?ps]
    by (cases latest) fastforce+
  show ?thesis
  proof (cases "case latest of None \<Rightarrow> True | Some c \<Rightarrow> \<not> epoch < cfg_epoch c")
    case True
    note new = new [OF True]
    have expunged: "sends_justified ctx ctx'"
      if "ctx_send ctx from (Expunged epoch) = Done ctx'" "ps_configuration ?ps epoch = Some c"
        "\<not> bt_contains_key (cfg_members c) from" for c
      using ctx_send_justified [OF that(1)] that(2,3) by (simp add: ps_configuration_def)
    from True assms(1) latest show ?thesis
      using reply [OF _ _ _ new] expunged
      by (cases latest)
        (auto simp: handle_get_share_def Let_def case_option_eq_Done if_eq_Done sends_justified_none)
  next
    case False
    then obtain c where c: "latest = Some c" "epoch < cfg_epoch c" by (auto split: option.splits)
    with latest committed [of c] assms(1) show ?thesis
      by (auto simp: handle_get_share_def if_eq_Done elim!: ctx_send_justified)
  qed
qed

lemma handle_get_lrtq_share_justified:
  assumes "handle_get_lrtq_share ctx from = Done ctx'" and "wf_ps (ctx_persistent_state ctx)"
  shows "sends_justified ctx ctx'"
proof -
  let ?ps = "ctx_persistent_state ctx"
  obtain latest where latest: "ps_latest_committed_configuration ?ps = Done latest"
    using assms(1) by (auto simp: handle_get_lrtq_share_def obind_eq_Done)
  show ?thesis
  proof (cases latest)
    case None
    with latest assms(1) show ?thesis
      using latest_committed_configuration_None [of ?ps]
      by (auto simp: handle_get_lrtq_share_def lrtq_share_new_def outcome_simps sends_justified_none
          elim!: ctx_send_justified)
  next
    case (Some c)
    with latest latest_committed_configuration_Some [OF assms(2), of c] assms(1) show ?thesis
      by (auto simp: handle_get_lrtq_share_def if_eq_Done elim!: ctx_send_justified)
  qed
qed

lemma handle_prepare_justified:
  assumes "handle_prepare n ctx from config share = Done (n', ctx')"
  shows "sends_justified ctx ctx'"
  using assms
proof (cases rule: handle_prepare_cases)
  case (Saved ps ctx1)
  have out: "ctx_outgoing ctx1 = ctx_outgoing ctx" using Saved(4) by simp
  have "ps_has_prepared ps (cfg_epoch config)"
    using Saved(3) by (simp add: ps_has_prepared_def Let_def bt_contains_keys)
  then have "justified (ctx_persistent_state ctx1) from (PrepareAck (cfg_epoch config))" using Saved(4) by simp
  from sends_justified_start [OF out ctx_send_justified [OF Saved(5) this]] show ?thesis .
qed (simp add: sends_justified_none)

lemma handle_commit_advance_justified:
  assumes "handle_commit_advance n ctx from config = Done (n', ctx')"
  shows "sends_justified ctx ctx'"
proof (cases "ctx_outgoing ctx' = ctx_outgoing ctx")
  case False
  with assms obtain ctx1 r where r: "commit_advance_record ctx from config = Done (ctx1, r)"
    "case r of None \<Rightarrow> n' = n \<and> ctx' = ctx1
     | Some b \<Rightarrow> commit_advance_compute (commit_advance_cancel n config) ctx1 config b = Done (n', ctx')"
    by (auto simp: handle_commit_advance_def obind_eq_Done if_eq_Done case_prod_eq_Done split: option.splits)
  have out: "ctx_outgoing ctx1 = ctx_outgoing ctx"
    and stored: "r = Some False \<Longrightarrow> bt_get (ps_configs (ctx_persistent_state ctx1)) (cfg_epoch config) = Some config"
  proof -
    show "ctx_outgoing ctx1 = ctx_outgoing ctx"
      using r(1) by (auto simp: commit_advance_record_def outcome_simps ctx_update_Done ctx_raise_alarm_def)
    from r(1) show "bt_get (ps_configs (ctx_persistent_state ctx1)) (cfg_epoch config) = Some config"
      if "r = Some False"
      by (cases rule: commit_advance_record_cases) (use that in simp_all)
  qed
  have "sends_justified ctx1 ctx'"
  proof (cases "r = Some False")
    case True
    have new: "sends_justified ctx1 c" if "ksc_new ctx1 config = Done (k, c)" for k c
      using ksc_new_justified [OF that stored [OF True]] .
    from True r(2) show ?thesis
      using new by (auto simp: commit_advance_compute_def Let_def outcome_simps sends_justified_none)
  next
    case other: False
    with r(2) have "ctx' = ctx1"
      by (auto simp: commit_advance_compute_def Let_def outcome_simps split: option.splits)
    then show ?thesis by (simp add: sends_justified_none)
  qed
  then show ?thesis by (rule sends_justified_start [OF out])
qed (simp add: sends_justified_none)

lemma handle_share_justified:
  assumes "handle_share E n ctx from epoch share rng = Done (n', ctx')" and "node_inv E ctx n"
  shows "sends_justified ctx ctx'"
proof -
  from assms(1) obtain n1 ctx1 l where first:
    "(case node_coordinator_state n of
        Some cs \<Rightarrow> obind (cs_handle_share E cs ctx from epoch share rng) (\<lambda>(cs, ctx).
          Done (n\<lparr>node_coordinator_state := Some cs\<rparr>, ctx))
      | None \<Rightarrow> (case node_key_share_computer n of
          Some ksc \<Rightarrow> obind (ksc_handle_share E ksc ctx from epoch share) (\<lambda>(ksc, ctx, completed).
            Done (n\<lparr>node_key_share_computer := (if completed then None else Some ksc)\<rparr>, ctx))
        | None \<Rightarrow> Done (n, ctx))) = Done (n1, ctx1)"
    and rest: "rsl_handle_share E (node_rack_secret_loader n1) ctx1 from epoch share = Done (l, ctx')"
    unfolding handle_share_def by (auto simp only: obind_eq_Done case_prod_eq_Done outcome.inject prod.inject)
  have "sends_justified ctx ctx1"
  proof (cases "node_coordinator_state n")
    case (Some cs)
    with first show ?thesis
      using cs_handle_share_justified [of E cs ctx "from" epoch share rng] node_ok_cs [OF node_inv_ok [OF assms(2)] Some]
      by (auto simp: outcome_simps)
  next
    case None
    with first show ?thesis
      by (auto simp: outcome_simps intro: sends_justified_none dest: ksc_handle_share_silent)
  qed
  then show ?thesis
    using sends_justified_trans [OF _ sends_justified_none] rsl_handle_share_silent [OF rest]
      rsl_handle_share_frame [OF rest] by blast
qed

lemma handle_lrtq_share_justified:
  assumes "handle_lrtq_share E n ctx from share rng = Done (n', ctx')" and "node_inv E ctx n"
  shows "sends_justified ctx ctx'"
proof (cases "node_coordinator_state n")
  case (Some cs)
  with assms(1) show ?thesis
    using cs_handle_lrtq_share_justified [of E cs ctx "from" share rng] node_ok_cs [OF node_inv_ok [OF assms(2)] Some]
    by (auto simp: handle_lrtq_share_def outcome_simps)
qed (use assms(1) in \<open>simp add: handle_lrtq_share_def sends_justified_none\<close>)

lemma node_handle_justified:
  assumes "node_handle E n ctx from msg rng = Done (n', ctx')" and "node_inv E ctx n"
  shows "sends_justified ctx ctx'"
proof (cases "ctx' = ctx")
  case False
  with assms(1) have d: "node_dispatch E n ctx from (pm_kind msg) rng = Done (n', ctx')"
    by (auto simp: node_handle_def if_eq_Done)
  have wf: "wf_ps (ctx_persistent_state ctx)" using assms(2) by (simp add: node_inv_def)
  from d show ?thesis
  proof (cases "pm_kind msg")
    case (Expunged e)
    with d show ?thesis
      by (auto simp: node_dispatch_def handle_expunged_def outcome_simps ctx_update_Done sends_justified_none)
  qed (auto simp: node_dispatch_def obind_eq_Done sends_justified_none
      intro: handle_prepare_justified handle_commit_advance_justified handle_get_share_justified [OF _ wf]
        handle_get_lrtq_share_justified [OF _ wf] handle_share_justified [OF _ assms(2)]
        handle_lrtq_share_justified [OF _ assms(2)])
qed (simp add: sends_justified_none)

lemma send_coordinator_msgs_justified:
  assumes "send_coordinator_msgs n ctx = Done ctx'" and "node_inv E ctx n"
  shows "sends_justified ctx ctx'"
proof (cases "node_coordinator_state n")
  case (Some cs)
  then show ?thesis
    using cs_send_msgs_justified node_ok_cs [OF node_inv_ok [OF assms(2)] Some] assms(1)
    by (simp add: send_coordinator_msgs_def)
qed (use assms(1) in \<open>simp add: send_coordinator_msgs_def sends_justified_none\<close>)

lemma coordinate_reconfiguration_justified:
  assumes "coordinate_reconfiguration E n ctx msg rng = Done (n', ctx', r)" and "node_inv E ctx n"
    and "bs_ok (rm_members msg)"
  shows "sends_justified ctx ctx'"
proof (cases "ctx_outgoing ctx' = ctx_outgoing ctx")
  case False
  with assms(1) obtain n0 v ctx1 r1 where v: "set_coordinator_state E n0 ctx v rng = Done (n', ctx1, r1)"
    "ctx' = ctx1 \<or> send_coordinator_msgs n' ctx1 = Done ctx'"
    by (auto simp: coordinate_reconfiguration_def outcome_simps Let_def)
  have out: "ctx_outgoing ctx1 = ctx_outgoing ctx"
    using v(1) by (auto simp: set_coordinator_state_def outcome_simps Let_def ctx_update_Done)
  with False v(2) have send: "send_coordinator_msgs n' ctx1 = Done ctx'" by auto
  have "node_inv E ctx' n'"
    using coordinate_reconfiguration_refines [OF assms(2,1,3)] by (simp add: node_refines_def)
  then have "node_inv E ctx1 n'"
    using send_coordinator_msgs_frame [OF send] by (simp add: node_inv_def)
  from sends_justified_start [OF out send_coordinator_msgs_justified [OF send this]] show ?thesis .
qed (simp add: sends_justified_none)

lemma coordinate_upgrade_justified:
  assumes "coordinate_upgrade_from_lrtq E n ctx msg rng = Done (n', ctx', r)" and "node_inv E ctx n"
    and "bs_ok (lum_members msg)"
  shows "sends_justified ctx ctx'"
proof (cases "ctx' = ctx")
  case False
  with assms(1) have send: "send_coordinator_msgs n' ctx = Done ctx'"
    by (auto simp: coordinate_upgrade_from_lrtq_def outcome_simps Let_def)
  have "node_inv E ctx' n'"
    using coordinate_upgrade_refines [OF assms(2,1,3)] by (simp add: node_refines_def)
  then have "node_inv E ctx n'"
    using send_coordinator_msgs_frame [OF send] by (simp add: node_inv_def)
  from send_coordinator_msgs_justified [OF send this] show ?thesis .
qed (simp add: sends_justified_none)

lemma node_on_connect_justified:
  assumes "node_on_connect n ctx peer = Done ctx'" and "node_inv E ctx n"
  shows "sends_justified ctx ctx'"
proof -
  let ?ctx = "ctx_add_connection ctx peer"
  note ok = node_inv_ok [OF assms(2)]
  from assms(1) obtain ctx1 ctx2 where c: "send_coordinator_msgs_to n ?ctx peer = Done ctx1"
    "(case node_key_share_computer n of Some ksc \<Rightarrow> ksc_on_connect ksc ctx1 peer | None \<Rightarrow> Done ctx1) = Done ctx2"
    "rsl_on_connect (node_rack_secret_loader n) ctx2 peer = Done ctx'"
    by (auto simp: node_on_connect_def Let_def obind_eq_Done)
  have f1: "ctx_frame ?ctx ctx1" by (rule send_coordinator_msgs_to_frame [OF c(1)])
  have f2: "ctx_frame ctx1 ctx2" using c(2) by (auto dest: ksc_on_connect_frame split: option.splits)
  have ps: "ctx_persistent_state ?ctx = ctx_persistent_state ctx" by (simp add: ctx_add_connection_def)
  have "sends_justified ?ctx ctx1"
    using c(1) ok ps by (auto simp: send_coordinator_msgs_to_def sends_justified_none node_ok_def
        elim!: cs_send_msgs_to_justified split: option.splits)
  moreover have "sends_justified ctx1 ctx2"
    using c(2) ok ps f1
    by (auto simp: sends_justified_none node_ok_def elim!: ksc_on_connect_justified split: option.splits)
  moreover have "sends_justified ctx2 ctx'"
    using rsl_on_connect_justified [OF c(3)] ok ps f1 f2 by (simp add: node_ok_def)
  ultimately have "sends_justified ?ctx ctx'"
    using sends_justified_trans f2 rsl_on_connect_frame [OF c(3)] by blast
  then show ?thesis by (rule sends_justified_start [rotated]) (simp add: ctx_add_connection_def)
qed

section \<open>Calls\<close>

text \<open>The entry points of a node, with the answers to the caller left out.\<close>

datatype node_input =
  LoadRackSecret epoch
| ClearSecrets
| CoordinateReconfiguration reconfigure_msg
| CoordinateUpgradeFromLrtq lrtq_upgrade_msg
| PrepareAndCommit configuration
| CommitConfiguration rack_uuid epoch
| OnConnect baseboard_id
| OnDisconnect baseboard_id
| HandleMsg baseboard_id peer_msg

definition drop_answer :: "(node \<times> node_ctx \<times> 'r) outcome \<Rightarrow> (node \<times> node_ctx) outcome" where
  "drop_answer m = obind m (\<lambda>(n, ctx, _). Done (n, ctx))"

fun node_call ::
  "crypto_env \<Rightarrow> rng \<Rightarrow> node \<Rightarrow> node_ctx \<Rightarrow> node_input \<Rightarrow> (node \<times> node_ctx) outcome" where
  "node_call E rng n ctx (LoadRackSecret epoch) = drop_answer (node_load_rack_secret n ctx epoch)"
| "node_call E rng n ctx ClearSecrets = Done (node_clear_secrets n, ctx)"
| "node_call E rng n ctx (CoordinateReconfiguration msg) = drop_answer (coordinate_reconfiguration E n ctx msg rng)"
| "node_call E rng n ctx (CoordinateUpgradeFromLrtq msg) = drop_answer (coordinate_upgrade_from_lrtq E n ctx msg rng)"
| "node_call E rng n ctx (PrepareAndCommit config) = drop_answer (prepare_and_commit n ctx config)"
| "node_call E rng n ctx (CommitConfiguration rack_id epoch) = drop_answer (commit_configuration n ctx rack_id epoch)"
| "node_call E rng n ctx (OnConnect peer) = obind (node_on_connect n ctx peer) (\<lambda>ctx. Done (n, ctx))"
| "node_call E rng n ctx (OnDisconnect peer) = Done (n, node_on_disconnect ctx peer)"
| "node_call E rng n ctx (HandleMsg from msg) = node_handle E n ctx from msg rng"

text \<open>A request carries a set of members.\<close>

fun input_ok :: "node_input \<Rightarrow> bool" where
  "input_ok (CoordinateReconfiguration msg) = bs_ok (rm_members msg)"
| "input_ok (CoordinateUpgradeFromLrtq msg) = bs_ok (lum_members msg)"
| "input_ok _ = True"

lemma drop_answer_Done: "drop_answer m = Done (n, ctx) \<longleftrightarrow> (\<exists>r. m = Done (n, ctx, r))"
  by (auto simp: drop_answer_def outcome_simps)

lemma node_call_refines:
  assumes "node_inv E ctx n" and "node_call E rng n ctx i = Done (n', ctx')" and "input_ok i"
  shows "node_refines E ctx ctx' n'"
  using assms
  by (cases i)
    (auto simp: drop_answer_Done obind_eq_Done
      intro: node_load_refines node_clear_refines coordinate_reconfiguration_refines coordinate_upgrade_refines
        prepare_and_commit_refines commit_configuration_refines node_on_connect_refines
        node_on_disconnect_refines node_handle_refines)

lemma node_call_justified:
  assumes "node_inv E ctx n" and "node_call E rng n ctx i = Done (n', ctx')" and "input_ok i"
  shows "sends_justified ctx ctx'"
proof (cases i)
  case (LoadRackSecret e)
  with assms show ?thesis
    by (auto simp: drop_answer_Done node_load_rack_secret_def outcome_simps node_inv_def intro: rsl_load_justified)
next
  case (PrepareAndCommit config)
  with assms show ?thesis
    by (auto simp: drop_answer_Done prepare_and_commit_def outcome_simps Let_def sends_justified_none
        intro: handle_commit_advance_justified)
next
  case (CommitConfiguration rack_id e)
  with assms show ?thesis
    by (auto simp: drop_answer_Done commit_configuration_def outcome_simps Let_def ctx_update_Done sends_justified_none)
qed (use assms in \<open>auto simp: drop_answer_Done obind_eq_Done sends_justified_none node_on_disconnect_def
    ctx_remove_connection_def intro: coordinate_reconfiguration_justified coordinate_upgrade_justified
    node_on_connect_justified node_handle_justified\<close>)

section \<open>Runs\<close>

text \<open>
  What happens to a node over time: calls, the caller's reading of the change flag and of the
  outgoing messages, and a restart from the persistent state.
\<close>

inductive node_run :: "crypto_env \<Rightarrow> node \<Rightarrow> node_ctx \<Rightarrow> node \<Rightarrow> node_ctx \<Rightarrow> bool"
  for E :: crypto_env and n0 :: node and ctx0 :: node_ctx where
  Start: "node_run E n0 ctx0 n0 ctx0"
| Call: "node_run E n0 ctx0 n ctx \<Longrightarrow> input_ok i \<Longrightarrow> node_call E rng n ctx i = Done (n', ctx') \<Longrightarrow>
    node_run E n0 ctx0 n' ctx'"
| Check: "node_run E n0 ctx0 n ctx \<Longrightarrow>
    node_run E n0 ctx0 n (snd (ctx_persistent_state_change_check_and_reset ctx))"
| Drain: "node_run E n0 ctx0 n ctx \<Longrightarrow> node_run E n0 ctx0 n (snd (ctx_drain_envelopes ctx))"
| Restart: "node_run E n0 ctx0 n ctx \<Longrightarrow>
    node_run E n0 ctx0 node_new
      (ctx_new_with_persistent_state (ctx_platform_id ctx) (ctx_persistent_state ctx))"

lemma node_run_inv:
  assumes "node_run E n0 ctx0 n ctx" and "node_inv E ctx0 n0"
  shows "node_inv E ctx n \<and> ctx_platform_id ctx = ctx_platform_id ctx0 \<and>
    (\<exists>b. ledger_steps (ctx_platform_id ctx0) (ctx_persistent_state ctx0) b (ctx_persistent_state ctx))"
  using assms
proof (induction rule: node_run.induct)
  case (Call n ctx i rng n' ctx')
  then have "node_refines E ctx ctx' n'" by (intro node_call_refines) simp_all
  then have r: "ctx_ledger ctx ctx'" "node_inv E ctx' n'" by (simp_all add: node_refines_def)
  from r(1) Call obtain b where "ledger_steps (ctx_platform_id ctx0) (ctx_persistent_state ctx) b (ctx_persistent_state ctx')"
    "ctx_platform_id ctx' = ctx_platform_id ctx0"
    by (auto simp: ctx_ledger_def)
  with Call r(2) ledger_steps_trans show ?case by blast
next
  case (Restart n ctx)
  then show ?case
    by (auto simp: ctx_new_with_persistent_state_def node_inv_def node_ok_def node_new_def)
qed (auto simp: node_inv_def ctx_persistent_state_change_check_and_reset_def ctx_drain_envelopes_def
    intro: ledger_steps.Refl)


text \<open>
  C2: every message that a call queues is justified by the persistent state at that time: a key
  share is only ever sent to a member of the stored configuration of its epoch and never for
  an epoch before the last committed one, an acknowledgement is sent only when configuration
  and share are stored, a node is told that it is expunged only if it is not a member.
\<close>

theorem node_messages_justified:
  assumes "node_inv E ctx n" and "input_ok i" and "node_call E rng n ctx i = Done (n', ctx')"
  shows "\<exists>msgs. ctx_outgoing ctx' = ctx_outgoing ctx @ msgs \<and> (\<forall>m\<in>set msgs. justified_envelope ctx' m)"
  using node_call_justified [OF assms(1,3,2)] by (simp add: sends_justified_def)


text \<open>The example node: its only configuration is committed.\<close>

lemma example_node_inv: "node_inv E example_ctx node_new"
proof -
  have "sled_a \<in> set (bt_keys (cfg_members example_config))"
    by (simp add: example_config_def bt_keys_def example_secret_shares_props)
  then show ?thesis
    using example_ps_wf
    by (intro node_inv_new)
      (simp_all add: example_ctx_def ctx_new_with_persistent_state_def member_of_all_def example_ps_def bt_get_Cons
        split: if_splits)
qed

definition example_get_share :: node_input where
  "example_get_share = HandleMsg sled_b \<lparr>pm_rack_id = replicate 16 1, pm_kind = GetShare 1\<rparr>"

lemma example_call:
  "node_call E rng node_new example_ctx example_get_share =
     Done (node_new, example_ctx\<lparr>ctx_outgoing := [\<lparr>env_to = sled_b, env_from = sled_a,
       env_msg = \<lparr>pm_rack_id = replicate 16 1, pm_kind = ShareMsg 1 (example_secret_shares ! 0)\<rparr>\<rparr>]\<rparr>)"
proof -
  have "bt_contains_key (cfg_members example_config) sled_b"
    by (simp add: example_config_def bt_contains_keys bt_keys_def example_secret_shares_props)
  moreover have "bt_get (ps_configs example_ps) 1 = Some example_config" "cfg_epoch example_config = 1"
    "bt_get (ps_shares example_ps) 1 = Some (example_secret_shares ! 0)"
    by (simp_all add: example_ps_def bt_get_Cons example_config_def)
  ultimately show ?thesis
    by (simp add: example_get_share_def node_handle_def node_dispatch_def handle_get_share_def Let_def example_ctx_def
        ctx_new_with_persistent_state_def ps_latest_committed_configuration_def ps_configuration_def
        ctx_send_def ps_is_expunged_def)
qed


theorem node_messages_justified_witness:
  "justified example_ps sled_b (ShareMsg 1 (example_secret_shares ! 0))"
  using node_messages_justified [OF example_node_inv _ example_call]
  by (auto simp: example_get_share_def example_ctx_def ctx_new_with_persistent_state_def justified_envelope_def
      simp del: justified.simps)


end
