(* ===== verification/TQ_Node_Total.thy ===== *)
theory TQ_Node_Total
  imports TQ_Node_Safety
begin

text \<open>
  When the entry points of a node return. The code asserts what it relies on (\<open>expect\<close>,
  \<open>assert!\<close>, \<open>unwrap\<close>); this theory names the conditions under which none of
  these is reached, shows that they suffice, and exhibits the one that a peer can break.
\<close>

section \<open>Answers to a commit\<close>

definition commit_answer :: "persistent_state \<Rightarrow> rack_uuid \<Rightarrow> epoch \<Rightarrow> (unit, commit_error) rust_result" where
  "commit_answer ps rack_id epoch =
     (case ps_expunged ps of
        Some x \<Rightarrow> Err (CommitExpunged (exp_epoch x) (exp_from x))
      | None \<Rightarrow>
          (case ps_rack_id ps of
             Some expected \<Rightarrow>
               (if rack_id \<noteq> expected then Err (CommitInvalidRackId \<lparr>mre_expected = expected, mre_got = rack_id\<rparr>)
                else if (\<exists>e\<in>set (ps_commits ps). epoch \<le> e) \<or> ps_has_prepared ps epoch then Ok ()
                else Err (CommitNotPrepared epoch))
           | None \<Rightarrow> Err (CommitNotPrepared epoch)))"

lemma stale_commit:
  assumes "wf_ps ps"
  obtains latest where "ps_latest_committed_configuration ps = Done latest"
    and "(case latest of Some config \<Rightarrow> cfg_epoch config \<ge> epoch | None \<Rightarrow> False) \<longleftrightarrow>
      (\<exists>e\<in>set (ps_commits ps). epoch \<le> e)"
proof -
  obtain latest where latest: "ps_latest_committed_configuration ps = Done latest"
    using wf_ps_latest_committed_configuration [OF assms] by blast
  show thesis
  proof (cases latest)
    case None
    then show thesis using that [OF latest] latest_committed_configuration_None [of ps] latest by simp
  next
    case (Some c)
    with latest latest_committed_configuration_Some [OF assms, of c] show thesis
      by (intro that [OF latest]) (auto intro: order_trans)
  qed
qed

lemma no_rack_id_unprepared:
  assumes "ps_rack_id ps = None"
  shows "\<not> ps_has_prepared ps e" and "wf_ps ps \<Longrightarrow> ps_commits ps = []"
proof -
  have "ps_configs ps = []"
    using assms by (auto simp: ps_rack_id_def ps_latest_config_def bt_values_def split: option.splits)
  then show "\<not> ps_has_prepared ps e" and "wf_ps ps \<Longrightarrow> ps_commits ps = []"
    by (auto simp: ps_has_prepared_def bt_contains_key_def wf_ps_def bt_keys_def)
qed

lemma commit_configuration_eq:
  assumes "wf_ps (ctx_persistent_state ctx)"
  shows "commit_configuration n ctx rack_id epoch =
    (let ps = ctx_persistent_state ctx;
         commit = commit_answer ps rack_id epoch = Ok () \<and> \<not> (\<exists>e\<in>set (ps_commits ps). epoch \<le> e)
     in Done (if commit \<and> pred_option (\<lambda>cs. coordinating_msg_epoch (cs_msg cs) = epoch) (node_coordinator_state n)
                then n\<lparr>node_coordinator_state := None\<rparr> else n,
              if commit then ctx\<lparr>ctx_persistent_state := ps\<lparr>ps_commits := bs_insert epoch (ps_commits ps)\<rparr>,
                                 ctx_persistent_state_changed := True\<rparr> else ctx,
              commit_answer ps rack_id epoch))"
proof -
  let ?ps = "ctx_persistent_state ctx"
  obtain latest where latest: "ps_latest_committed_configuration ?ps = Done latest"
    "(case latest of Some config \<Rightarrow> cfg_epoch config \<ge> epoch | None \<Rightarrow> False) \<longleftrightarrow>
      (\<exists>e\<in>set (ps_commits ?ps). epoch \<le> e)"
    using stale_commit [OF assms] by blast
  have same: "n\<lparr>node_coordinator_state := None\<rparr> = n" if "node_coordinator_state n = None"
    using that by (cases n) simp
  have fresh: "\<not> bs_contains (ps_commits ?ps) epoch" if "\<not> (\<exists>e\<in>set (ps_commits ?ps). epoch \<le> e)"
    using that by (auto simp: bs_contains_def)
  show ?thesis
  proof (cases "ps_expunged ?ps")
    case None
    show ?thesis
    proof (cases "ps_rack_id ?ps")
      case no: None
      then show ?thesis
        using None latest no_rack_id_unprepared [OF no] assms
        by (simp add: commit_configuration_def commit_answer_def Let_def)
    next
      case (Some expected)
      then show ?thesis
        using None latest same fresh
        by (cases "node_coordinator_state n")
          (auto simp: commit_configuration_def commit_answer_def Let_def ctx_update_persistent_state_def)
    qed
  qed (simp add: commit_configuration_def commit_answer_def Let_def)
qed



section \<open>No panic\<close>

text \<open>
  A stored configuration the code can work with: the positions of its members fit in a byte,
  and what it encrypts is a map of secrets that does not contain its own epoch. The second
  part is what encrypting in \<open>transition_to_preparing\<close> produces and the cipher
  authenticates.
\<close>

definition sane_config :: "crypto_env \<Rightarrow> configuration \<Rightarrow> bool" where
  "sane_config E c \<longleftrightarrow>
     length (cfg_members c) \<le> 255 \<and>
     (\<forall>enc secret. cfg_encrypted_rack_secrets c = Some enc \<longrightarrow>
        (\<exists>r. decrypt_rack_secrets E enc (cfg_rack_id c) (cfg_epoch c) secret = Done r \<and>
             (\<forall>p. r = Ok p \<longrightarrow> \<not> bt_contains_key p (cfg_epoch c))))"

text \<open>A coordinator that still collects has not seen a configuration at its epoch.\<close>

definition no_rival :: "persistent_state \<Rightarrow> coordinator_state \<Rightarrow> bool" where
  "no_rival ps cs = (case cs_op cs of
     PrepareOp _ _ \<Rightarrow> True
   | _ \<Rightarrow> \<not> bt_contains_key (ps_configs ps) (cfg_epoch (cs_configuration cs)))"

definition node_safe :: "crypto_env \<Rightarrow> persistent_state \<Rightarrow> node \<Rightarrow> bool" where
  "node_safe E ps n \<longleftrightarrow>
     crypto_usable E \<and> (\<forall>e c. bt_get (ps_configs ps) e = Some c \<longrightarrow> sane_config E c) \<and>
     pred_option (\<lambda>l. length (lsd_share l) = lrtq_share_size) (ps_lrtq ps) \<and>
     pred_option (no_rival ps) (node_coordinator_state n)"

lemma reconstruct_nothing: "\<exists>e. rack_secret_reconstruct [] = Err e"
  by (simp add: rack_secret_reconstruct_def compute_secret_def valid_shares_new_def)

lemma cs_transition_returns:
  assumes "crypto_usable E" and "secrets \<noteq> []"
    and "cfg_encrypted_rack_secrets (cs_configuration cs) = None"
    and "ctx_platform_id ctx \<in> set (bt_keys (cfg_members (cs_configuration cs)))"
    and "new_shares = [] \<or> bt_ok new_shares \<and> bt_keys new_shares = bt_keys (cfg_members (cs_configuration cs))"
    and "\<not> bt_contains_key (ps_configs (ctx_persistent_state ctx)) (cfg_epoch (cs_configuration cs))"
  shows "\<exists>r. cs_transition_to_preparing E cs ctx new_shares secrets rng = Done r"
proof (cases "rack_secret_reconstruct (bt_values new_shares)")
  case (Inl e)
  then show ?thesis by (simp add: cs_transition_to_preparing_def Let_def)
next
  case (Inr secret)
  then have "new_shares \<noteq> []" using reconstruct_nothing by (auto simp: bt_values_def)
  with assms(4,5) bt_get_None [of new_shares "ctx_platform_id ctx"] obtain share where
    share: "bt_get new_shares (ctx_platform_id ctx) = Some share" by (metis not_None_eq)
  let ?c = "cs_configuration cs"
  from assms(1,2) obtain enc rng' where enc:
    "encrypt_rack_secrets E secrets (cfg_rack_id ?c) (cfg_epoch ?c) secret rng = Done (Ok (enc, rng'))"
    by (rule encrypt_returns)
  show ?thesis by (rule cs_transition_Ok [OF Inr enc assms(3) share assms(6)]) blast
qed

lemma cs_handle_share_returns:
  assumes "cs_ok (ctx_platform_id ctx) (ctx_persistent_state ctx) cs" and "crypto_usable E"
    and "no_rival (ctx_persistent_state ctx) cs" and "wf_ps (ctx_persistent_state ctx)"
    and "\<forall>e c. bt_get (ps_configs (ctx_persistent_state ctx)) e = Some c \<longrightarrow> sane_config E c"
  shows "\<exists>r. cs_handle_share E cs ctx from epoch share rng = Done r"
proof (cases "cs_op cs")
  case (CollectShares old_epoch collected new_shares)
  from assms(1) CollectShares obtain old_config where
    old: "ps_configuration (ctx_persistent_state ctx) old_epoch = Some old_config"
    by (auto simp: cs_ok_def ps_configuration_def bt_contains_get)
  have ep: "cfg_epoch old_config = old_epoch" by (rule wf_ps_configuration_epoch [OF assms(4) old])
  have sane: "sane_config E old_config" using assms(5) old by (simp add: ps_configuration_def)
  let ?m = "bt_insert from share collected"
  have trans: "\<exists>r. cs_transition_to_preparing E (cs\<lparr>cs_op := CollectShares old_epoch ?m []\<rparr>) ctx new_shares
      (bt_insert old_epoch s p) rng = Done r" for s p
    by (rule cs_transition_returns) (use assms(1,2,3) CollectShares in \<open>auto simp: cs_ok_def no_rival_def\<close>)
  have dec: "\<exists>r. (case cfg_encrypted_rack_secrets old_config of
        Some enc \<Rightarrow> decrypt_rack_secrets E enc (cfg_rack_id old_config) (cfg_epoch old_config) secret
      | None \<Rightarrow> Done (Ok [])) = Done r \<and> (\<forall>p. r = Ok p \<longrightarrow> \<not> bt_contains_key p old_epoch)" for secret
    using sane ep by (auto simp: sane_config_def bt_contains_key_def split: option.split)
  show ?thesis
  proof (cases "rack_secret_reconstruct (bt_values ?m)")
    case (Inl e)
    with CollectShares old show ?thesis by (simp add: cs_handle_share_def Let_def)
  next
    case (Inr secret)
    from dec [of secret] obtain r where r: "(case cfg_encrypted_rack_secrets old_config of
        Some enc \<Rightarrow> decrypt_rack_secrets E enc (cfg_rack_id old_config) (cfg_epoch old_config) secret
      | None \<Rightarrow> Done (Ok [])) = Done r" "\<forall>p. r = Ok p \<longrightarrow> \<not> bt_contains_key p old_epoch" by blast
    show ?thesis
      using CollectShares old Inr r trans
      by (cases r) (simp_all add: cs_handle_share_def Let_def plaintext_insert_def)
  qed
qed (simp_all add: cs_handle_share_def)

lemma cs_handle_lrtq_share_returns:
  assumes "cs_ok (ctx_platform_id ctx) (ctx_persistent_state ctx) cs" and "crypto_usable E"
    and "no_rival (ctx_persistent_state ctx) cs"
  shows "\<exists>r. cs_handle_lrtq_share E cs ctx from share rng = Done r"
proof (cases "cs_op cs")
  case (CollectLrtqShares collected new_shares)
  from assms(1) CollectLrtqShares obtain lrtq where
    lrtq: "ps_lrtq (ctx_persistent_state ctx) = Some lrtq" by (auto simp: cs_ok_def)
  have "\<exists>r. cs_transition_to_preparing E (cs\<lparr>cs_op := CollectLrtqShares m []\<rparr>) ctx new_shares
      (bt_insert 1 s []) rng = Done r" for s m
    by (rule cs_transition_returns) (use assms CollectLrtqShares in \<open>auto simp: cs_ok_def no_rival_def\<close>)
  then show ?thesis
    using CollectLrtqShares lrtq
    by (auto simp: cs_handle_lrtq_share_def Let_def plaintext_insert_def bt_contains_key_def split: option.split)
qed (simp_all add: cs_handle_lrtq_share_def)

lemma rsl_handle_share_returns:
  assumes "rsl_ok ps l" and "\<forall>e c. bt_get (ps_configs ps) e = Some c \<longrightarrow> sane_config E c"
  shows "\<exists>r. rsl_handle_share E l ctx from epoch share = Done r"
proof (cases "rsl_collector l")
  case (Some c)
  then have sane: "sane_config E (sc_config c)" using assms by (auto simp: rsl_ok_def)
  have "\<exists>r. sc_handle_share E c ctx from epoch share = Done r"
  proof (cases "cfg_encrypted_rack_secrets (sc_config c)")
    case None
    then show ?thesis by (auto simp: sc_handle_share_def Let_def split: sum.split)
  next
    case enc: (Some enc)
    have "\<exists>r. decrypt_rack_secrets E enc (cfg_rack_id (sc_config c)) (cfg_epoch (sc_config c)) s = Done r" for s
      using sane enc by (auto simp: sane_config_def)
    then obtain r where "\<And>s. decrypt_rack_secrets E enc (cfg_rack_id (sc_config c)) (cfg_epoch (sc_config c)) s =
        Done (r s)" by metis
    with enc show ?thesis by (auto simp: sc_handle_share_def Let_def split: sum.split)
  qed
  then obtain c' ctx' r where "sc_handle_share E c ctx from epoch share = Done (c', ctx', r)" by auto
  with Some show ?thesis by (cases r) (auto simp: rsl_handle_share_def)
qed (simp add: rsl_handle_share_def)

lemma stored_rack_id:
  assumes "bt_contains_key (ps_configs ps) e"
  shows "ps_rack_id ps \<noteq> None"
proof -
  have "ps_configs ps \<noteq> []" using assms by (auto simp: bt_contains_key_def)
  then show ?thesis by (auto simp: ps_rack_id_def ps_latest_config_def bt_values_def split: option.split)
qed

lemma cs_ok_rack_id: "cs_ok me ps cs \<Longrightarrow> ps_rack_id ps \<noteq> None"
proof (cases "cs_op cs")
  case (CollectLrtqShares collected new_shares)
  assume "cs_ok me ps cs"
  with CollectLrtqShares show ?thesis by (auto simp: cs_ok_def ps_rack_id_def split: option.splits)
qed (auto simp: cs_ok_def bt_contains_get intro!: stored_rack_id [of ps, unfolded not_None_eq])

lemma ksc_stored_rack_id: "ksc_stored E ps k \<Longrightarrow> ps_rack_id ps \<noteq> None"
  using stored_rack_id [of ps] by (auto simp: ksc_stored_def bt_contains_get)

lemma rsl_on_connect_returns_ok:
  assumes "rsl_ok (ctx_persistent_state ctx) l"
  shows "\<exists>ctx'. rsl_on_connect l ctx peer = Done ctx'"
proof (cases "rsl_collector l")
  case (Some c)
  then have "bt_contains_key (ps_configs (ctx_persistent_state ctx)) (cfg_epoch (sc_config c))"
    using assms by (simp add: rsl_ok_def bt_contains_get)
  then show ?thesis using rsl_on_connect_returns stored_rack_id by blast
qed (simp add: rsl_on_connect_def)

lemma send_coordinator_msgs_returns:
  assumes "node_inv E ctx n"
  shows "\<exists>ctx'. send_coordinator_msgs n ctx = Done ctx'"
    and "\<exists>ctx'. send_coordinator_msgs_to n ctx to = Done ctx'"
  using cs_send_msgs_returns cs_send_msgs_to_returns cs_ok_rack_id node_ok_cs [OF node_inv_ok [OF assms]]
  by (cases "node_coordinator_state n"; fastforce simp: send_coordinator_msgs_def send_coordinator_msgs_to_def)+

lemma node_inv_add_connection: "node_inv E ctx n \<Longrightarrow> node_inv E (ctx_add_connection ctx peer) n"
  by (simp add: node_inv_def ctx_add_connection_def)

lemma node_on_connect_returns:
  assumes "node_inv E ctx n"
  shows "\<exists>ctx'. node_on_connect n ctx peer = Done ctx'"
proof -
  let ?ctx = "ctx_add_connection ctx peer"
  obtain ctx1 where c1: "send_coordinator_msgs_to n ?ctx peer = Done ctx1"
    using send_coordinator_msgs_returns(2) [OF node_inv_add_connection [OF assms]] by blast
  have ps: "ctx_persistent_state ctx1 = ctx_persistent_state ctx"
    using send_coordinator_msgs_to_frame [OF c1] by (simp add: ctx_add_connection_def)
  obtain ctx2 where c2: "(case node_key_share_computer n of
      Some ksc \<Rightarrow> ksc_on_connect ksc ctx1 peer | None \<Rightarrow> Done ctx1) = Done ctx2"
    using ksc_on_connect_returns [of ctx1] ksc_stored_rack_id node_ok_ksc [OF node_inv_ok [OF assms]] ps
    by (cases "node_key_share_computer n") fastforce+
  have "ctx_frame ctx1 ctx2" using c2 by (auto dest: ksc_on_connect_frame split: option.splits)
  then have "rsl_ok (ctx_persistent_state ctx2) (node_rack_secret_loader n)"
    using node_inv_ok [OF assms] ps by (simp add: node_ok_def)
  from rsl_on_connect_returns_ok [OF this] c1 c2 show ?thesis by (simp add: node_on_connect_def Let_def)
qed

lemma handle_get_share_returns:
  assumes "wf_ps (ctx_persistent_state ctx)"
  shows "\<exists>ctx'. handle_get_share ctx from epoch = Done ctx'"
proof (cases "ps_rack_id (ctx_persistent_state ctx) = None")
  case True
  then have "ps_configs (ctx_persistent_state ctx) = []"
    by (auto simp: ps_rack_id_def ps_latest_config_def bt_values_def split: option.splits)
  with assms no_rack_id_unprepared(2) [OF True assms] show ?thesis
    by (auto simp: handle_get_share_def Let_def ps_latest_committed_configuration_def
        ps_latest_committed_epoch_def ps_configuration_def wf_ps_def bt_keys_def)
next
  case False
  note send = ctx_send_returns [OF False]
  obtain latest where "ps_latest_committed_configuration (ctx_persistent_state ctx) = Done latest"
    using wf_ps_latest_committed_configuration [OF assms] by blast
  with send show ?thesis by (simp add: handle_get_share_def Let_def split: option.split)
qed

lemma handle_get_lrtq_share_returns:
  assumes "wf_ps (ctx_persistent_state ctx)"
    and "pred_option (\<lambda>l. length (lsd_share l) = lrtq_share_size) (ps_lrtq (ctx_persistent_state ctx))"
  shows "\<exists>ctx'. handle_get_lrtq_share ctx from = Done ctx'"
proof -
  obtain latest where latest: "ps_latest_committed_configuration (ctx_persistent_state ctx) = Done latest"
    using wf_ps_latest_committed_configuration [OF assms(1)] by blast
  show ?thesis
  proof (cases "ps_rack_id (ctx_persistent_state ctx) = None")
    case True
    then have "ps_lrtq (ctx_persistent_state ctx) = None" by (auto simp: ps_rack_id_def split: option.splits)
    moreover have "latest = None"
      using latest no_rack_id_unprepared(2) [OF True assms(1)]
      by (simp add: ps_latest_committed_configuration_def ps_latest_committed_epoch_def)
    ultimately show ?thesis using latest by (simp add: handle_get_lrtq_share_def)
  next
    case False
    from ctx_send_returns [OF False] latest assms(2) show ?thesis
      by (auto simp: handle_get_lrtq_share_def lrtq_share_new_def split: option.split)
  qed
qed

lemma handle_commit_advance_returns: "\<exists>r. handle_commit_advance n ctx from config = Done r"
proof -
  have rec: "\<exists>c r. commit_advance_record ctx from config = Done (c, r) \<and>
      (r \<noteq> Some False \<or> bt_contains_key (ps_configs (ctx_persistent_state c)) (cfg_epoch config))"
    by (cases "ps_configuration (ctx_persistent_state ctx) (cfg_epoch config)")
      (auto simp: commit_advance_record_def ctx_update_persistent_state_def ps_configuration_def bt_contains_get)
  then obtain c r where r: "commit_advance_record ctx from config = Done (c, r)"
    "r \<noteq> Some False \<or> bt_contains_key (ps_configs (ctx_persistent_state c)) (cfg_epoch config)" by blast
  have "\<exists>k c'. ksc_new c config = Done (k, c')" if "r = Some False"
    using ksc_new_returns stored_rack_id r(2) that by blast
  then have "\<exists>x. commit_advance_compute m c config b = Done x" if "r = Some b" for m b
    using that by (cases b) (auto simp: commit_advance_compute_def Let_def split: option.split)
  with r(1) show ?thesis by (auto simp: handle_commit_advance_def split: option.split)
qed

lemma handle_prepare_returns: "\<exists>r. handle_prepare n ctx from config share = Done r"
proof -
  obtain ps b where save: "save_prepare config share (ctx_persistent_state ctx) = (ps, b)" by fastforce
  then have "bt_contains_key (ps_configs ps) (cfg_epoch config)"
    by (auto simp: save_prepare_def Let_def bt_contains_keys split: if_splits)
  then have "ps_rack_id ps \<noteq> None" by (rule stored_rack_id)
  then have send: "\<exists>ctx'. ctx_send (c\<lparr>ctx_persistent_state := ps\<rparr>) from k = Done ctx'"
    "\<exists>ctx'. ctx_send (c\<lparr>ctx_persistent_state := ps, ctx_persistent_state_changed := True\<rparr>) from k = Done ctx'" for c k
    using ctx_send_returns by simp_all
  show ?thesis
    using save send(1) [of ctx "PrepareAck (cfg_epoch config)"] send(2) [of ctx "PrepareAck (cfg_epoch config)"]
    by (cases b) (auto simp: handle_prepare_def Let_def ctx_update_persistent_state_def)
qed

lemma node_safe_stored: "node_safe E ps n \<Longrightarrow> \<forall>e c. bt_get (ps_configs ps) e = Some c \<longrightarrow> sane_config E c"
  by (simp add: node_safe_def)

lemma handle_share_returns:
  assumes "node_inv E ctx n" and "node_safe E (ctx_persistent_state ctx) n"
    and "ps_expunged (ctx_persistent_state ctx) = None"
  shows "\<exists>r. handle_share E n ctx from epoch share rng = Done r"
proof -
  let ?ps = "ctx_persistent_state ctx"
  note sane = node_safe_stored [OF assms(2)]
  have wf: "wf_ps ?ps" using assms(1) by (simp add: node_inv_def)
  have rest: "\<exists>r. rsl_handle_share E (node_rack_secret_loader n) ctx1 from epoch share = Done r" for ctx1
    using rsl_handle_share_returns [OF _ sane] node_inv_ok [OF assms(1)] by (simp add: node_ok_def)
  show ?thesis
  proof (cases "node_coordinator_state n")
    case (Some cs)
    obtain cs' ctx1 where "cs_handle_share E cs ctx from epoch share rng = Done (cs', ctx1)"
      using cs_handle_share_returns [OF node_ok_cs [OF node_inv_ok [OF assms(1)] Some] _ _ wf sane] assms(2) Some
      by (fastforce simp: node_safe_def)
    with Some rest [of ctx1] show ?thesis by (auto simp: handle_share_def)
  next
    case None
    show ?thesis
    proof (cases "node_key_share_computer n")
      case None
      with \<open>node_coordinator_state n = None\<close> rest [of ctx] show ?thesis by (auto simp: handle_share_def)
    next
      case (Some k)
      have "length (cfg_members (ksc_config k)) \<le> 255"
        using node_ok_ksc [OF node_inv_ok [OF assms(1)] Some] sane by (auto simp: ksc_stored_def sane_config_def)
      from ksc_handle_share_returns [OF this] obtain k' ctx1 b where
        "ksc_handle_share E k ctx from epoch share = Done (k', ctx1, b)" by (metis surj_pair)
      with Some \<open>node_coordinator_state n = None\<close> rest [of ctx1] show ?thesis by (auto simp: handle_share_def)
    qed
  qed
qed

lemma handle_lrtq_share_returns:
  assumes "node_inv E ctx n" and "node_safe E (ctx_persistent_state ctx) n"
  shows "\<exists>r. handle_lrtq_share E n ctx from share rng = Done r"
proof (cases "node_coordinator_state n")
  case (Some cs)
  obtain cs' ctx1 where "cs_handle_lrtq_share E cs ctx from share rng = Done (cs', ctx1)"
    using cs_handle_lrtq_share_returns [OF node_ok_cs [OF node_inv_ok [OF assms(1)] Some]] assms(2) Some
    by (fastforce simp: node_safe_def)
  with Some show ?thesis by (simp add: handle_lrtq_share_def)
qed (simp add: handle_lrtq_share_def)

lemma node_handle_returns:
  assumes "node_inv E ctx n" and "node_safe E (ctx_persistent_state ctx) n"
  shows "\<exists>r. node_handle E n ctx from msg rng = Done r"
proof (cases "ps_expunged (ctx_persistent_state ctx)")
  case None
  have wf: "wf_ps (ctx_persistent_state ctx)" using assms(1) by (simp add: node_inv_def)
  have lrtq: "pred_option (\<lambda>l. length (lsd_share l) = lrtq_share_size) (ps_lrtq (ctx_persistent_state ctx))"
    using assms(2) by (simp add: node_safe_def)
  have "\<exists>r. node_dispatch E n ctx from (pm_kind msg) rng = Done r"
  proof (cases "pm_kind msg")
    case (GetShare e)
    with handle_get_share_returns [OF wf] show ?thesis by (auto simp: node_dispatch_def obind_eq_Done)
  next
    case GetLrtqShare
    with handle_get_lrtq_share_returns [OF wf lrtq] show ?thesis by (auto simp: node_dispatch_def obind_eq_Done)
  next
    case (Expunged e)
    then show ?thesis
      by (auto simp: node_dispatch_def handle_expunged_def ctx_update_persistent_state_def split: option.split)
  qed (simp_all add: node_dispatch_def handle_share_returns [OF assms None] handle_lrtq_share_returns [OF assms]
      handle_prepare_returns handle_commit_advance_returns del: split_paired_Ex)
  then show ?thesis by (simp add: node_handle_def)
qed (simp add: node_handle_def ps_is_expunged_def)

lemma coordinate_reconfiguration_returns:
  assumes "node_inv E ctx n" and "bs_ok (rm_members msg)" and "rack_secret_new rng = Done sr"
  shows "\<exists>r. coordinate_reconfiguration E n ctx msg rng = Done r"
proof -
  let ?ps = "ctx_persistent_state ctx" and ?n = "n\<lparr>node_key_share_computer := None\<rparr>"
  have wf: "wf_ps ?ps" using assms(1) by (simp add: node_inv_def)
  have set: "\<exists>n' ctx' r. set_coordinator_state E ?n ctx v rng = Done (n', ctx', r)"
    if v: "validated_reconfigure_msg_new (ctx_platform_id ctx) msg (ps_summary ?ps) prev = Ok (Some v)" for prev v
  proof -
    have ok: "vrm_ok v" "\<not> ps_is_lrtq_only ?ps" "vrm_epoch v = rm_epoch msg"
      using v assms(2) by (auto simp: reconfigure_accepted vrm_ok_def validated_of_def ps_summary_def)
    have "newer_than_all (rm_epoch msg) (pss_latest_config (ps_summary ?ps))"
      using v by (simp add: reconfigure_accepted)
    then have new: "\<forall>e\<in>set (bt_keys (ps_configs ?ps)). e < rm_epoch msg"
      using newer_than_all_greatest [OF wf_ps_summary_latest_config [OF wf]] by simp
    show ?thesis
    proof (cases "ps_is_uninitialized ?ps")
      case True
      obtain r where r: "cs_new_uninitialized E v rng = Done r"
        using cs_new_uninitialized_returns [OF assms(3) ok(1)] by blast
      show ?thesis
      proof (cases r)
        case (Inr x)
        obtain cs config my_share rng' where x: "x = ((cs, config, my_share), rng')" by (metis surj_pair)
        from r [unfolded Inr x] ok(1) have "cfg_epoch config = vrm_epoch v"
          by (rule cs_new_uninitialized_Ok)
        then have "cfg_epoch config = rm_epoch msg" using ok(3) by simp
        with new have "\<not> bt_contains_key (ps_configs ?ps) (cfg_epoch config)" by (auto simp: bt_contains_keys)
        with True r Inr x show ?thesis
          by (simp add: set_coordinator_state_def ctx_update_persistent_state_def Let_def)
      qed (use True r in \<open>simp add: set_coordinator_state_def\<close>)
    next
      case False
      with ok(2) obtain e where "ps_latest_committed_epoch ?ps = Some e"
        by (auto simp: ps_is_uninitialized_def ps_is_lrtq_only_def)
      then obtain config s where
        "ps_latest_committed_config_and_share ?ps = Done (Some (config, s))"
        using wf_ps_latest_committed_config_and_share [OF wf] by simp
      moreover obtain r where "cs_new_reconfiguration E v config s rng = Done r"
        using cs_new_reconfiguration_returns [OF assms(3)] by blast
      ultimately show ?thesis using False
        by (cases r) (auto simp: set_coordinator_state_def split: prod.split)
    qed
  qed
  have send: "\<exists>c. send_coordinator_msgs n' ctx' = Done c"
    if "set_coordinator_state E ?n ctx v rng = Done (n', ctx', r)"
      "validated_reconfigure_msg_new (ctx_platform_id ctx) msg (ps_summary ?ps) prev = Ok (Some v)" for v prev n' ctx' r
  proof -
    have "vrm_ok v" "vrm_coordinator_id v = ctx_platform_id ctx" "ps_expunged ?ps = None"
      using that(2) assms(2) by (auto simp: reconfigure_accepted vrm_ok_def validated_of_def ps_summary_def)
    from set_coordinator_state_refines [OF node_inv_cancel(1) [OF assms(1)] that(1) this]
    have "node_inv E ctx' n'" by (simp add: node_refines_def)
    then show ?thesis by (rule send_coordinator_msgs_returns)
  qed
  have run: "\<exists>r. (case validated_reconfigure_msg_new (ctx_platform_id ctx) msg (ps_summary ?ps) prev of
             Inl e \<Rightarrow> Done (n, ctx, Err e)
           | Inr None \<Rightarrow> Done (n, ctx, Ok ())
           | Inr (Some validated_msg) \<Rightarrow>
                obind (set_coordinator_state E ?n ctx validated_msg rng) (\<lambda>(self, ctx, r).
                  case r of
                    Inl e \<Rightarrow> Done (self, ctx, Err e)
                  | Inr _ \<Rightarrow> obind (send_coordinator_msgs self ctx) (\<lambda>ctx. Done (self, ctx, Ok ())))) = Done r" for prev
    using set [of prev] send [of _ _ _ _ prev] by (fastforce split: sum.split option.split)
  show ?thesis
  proof (cases "node_coordinator_state n")
    case None
    with run [of None] show ?thesis
      unfolding coordinate_reconfiguration_def Let_def by (simp del: split_paired_Ex)
  next
    case (Some cs)
    with run show ?thesis
      unfolding coordinate_reconfiguration_def Let_def by (cases "cs_msg cs") (simp_all del: split_paired_Ex)
  qed
qed

lemma coordinate_upgrade_returns:
  assumes "node_inv E ctx n" and "bs_ok (lum_members msg)" and "rack_secret_new rng = Done sr"
    and "node_safe E (ctx_persistent_state ctx) n"
  shows "\<exists>r. coordinate_upgrade_from_lrtq E n ctx msg rng = Done r"
proof (cases "validated_lrtq_upgrade_msg_new ctx msg")
  case (Inr v)
  note val = validated_lrtq_Ok [OF Inr]
  let ?n = "n\<lparr>node_key_share_computer := None\<rparr>"
  from val(5) obtain lrtq where lrtq: "ps_lrtq (ctx_persistent_state ctx) = Some lrtq" by auto
  then have "length (lsd_share lrtq) = lrtq_share_size" using assms(4) by (simp add: node_safe_def)
  from cs_new_upgrade_returns [OF assms(3) lrtq this] obtain r where
    r: "cs_new_upgrade_from_lrtq E ctx v rng = Done r" by blast
  show ?thesis
  proof (cases r)
    case ok: (Inr x)
    obtain cs rng' where x: "x = (cs, rng')" by fastforce
    have "vlm_ok v" using val assms(2) by (simp add: vlm_ok_def)
    from cs_new_upgrade_cs_ok [OF r [unfolded ok x] this]
    have "cs_ok (ctx_platform_id ctx) (ctx_persistent_state ctx) cs" using val(2) by simp
    from node_ok_coordinator(1) [OF node_inv_ok [OF node_inv_cancel(1) [OF assms(1)]] val(4) this] assms(1)
    have "node_inv E ctx (?n\<lparr>node_coordinator_state := Some cs\<rparr>)" by (simp add: node_inv_def)
    from send_coordinator_msgs_returns(1) [OF this] show ?thesis
      using Inr r ok x by (auto simp: coordinate_upgrade_from_lrtq_def Let_def)
  qed (use Inr r in \<open>simp add: coordinate_upgrade_from_lrtq_def Let_def\<close>)
qed (simp add: coordinate_upgrade_from_lrtq_def)

text \<open>
  C15: under the invariant no call panics or diverges, provided that the primitives are usable, the
  stored configurations are sane, an LRTQ share has its fixed size, a coordinator that still
  collects has seen no configuration at its epoch, and (for new configurations) the random
  source eventually gives a nonzero block.
\<close>

theorem node_call_returns:
  assumes "node_inv E ctx n" and "input_ok i" and "node_safe E (ctx_persistent_state ctx) n"
    and "returns (rack_secret_new rng)"
  shows "\<exists>r. node_call E rng n ctx i = Done r"
proof -
  have wf: "wf_ps (ctx_persistent_state ctx)" "rsl_ok (ctx_persistent_state ctx) (node_rack_secret_loader n)"
    using assms(1) by (simp_all add: node_inv_def node_ok_def)
  obtain sr where rng: "rack_secret_new rng = Done sr" using assms(4) by (auto simp: returns_iff)
  have "returns (node_call E rng n ctx i)"
  proof (cases i)
    case (LoadRackSecret e)
    with rsl_load_wf [OF wf, of e] show ?thesis by (auto simp: drop_answer_def node_load_rack_secret_def)
  next
    case (CoordinateReconfiguration msg)
    with coordinate_reconfiguration_returns [OF assms(1) _ rng] assms(2) show ?thesis
      by (fastforce simp: drop_answer_def)
  next
    case (CoordinateUpgradeFromLrtq msg)
    with coordinate_upgrade_returns [OF assms(1) _ rng assms(3)] assms(2) show ?thesis
      by (fastforce simp: drop_answer_def)
  next
    case (PrepareAndCommit config)
    with handle_commit_advance_returns [of n ctx "''Nexus''" config] show ?thesis
      by (auto simp: drop_answer_def prepare_and_commit_def Let_def split: option.split)
  next
    case (CommitConfiguration rack_id e)
    with commit_configuration_eq [OF wf(1)] show ?thesis by (simp add: drop_answer_def Let_def)
  next
    case (OnConnect peer)
    with node_on_connect_returns [OF assms(1)] show ?thesis by (fastforce simp: returns_iff obind_eq_Done)
  next
    case (HandleMsg "from" msg)
    with node_handle_returns [OF assms(1,3)] show ?thesis by (fastforce simp: returns_iff)
  qed simp_all
  then show ?thesis by (simp add: returns_iff)
qed

lemma example_sane: "sane_config E example_config"
  by (simp add: sane_config_def example_config_def example_secret_shares_props)

theorem node_call_returns_witness:
  "\<exists>r. node_call toy_env (\<lambda>_. 7) node_new example_ctx (CoordinateReconfiguration example_reconfigure_msg) = Done r"
proof (rule node_call_returns)
  show "node_inv toy_env example_ctx node_new" by (rule example_node_inv)
  show "input_ok (CoordinateReconfiguration example_reconfigure_msg)"
    by (simp add: example_reconfigure_msg_def bs_ok_def)
  show "node_safe toy_env (ctx_persistent_state example_ctx) node_new"
    using toy_env_usable example_sane
    by (simp add: node_safe_def example_ctx_def ctx_new_with_persistent_state_def node_new_def)
      (simp add: example_ps_def bt_get_Cons split: if_splits)
  show "returns (rack_secret_new (\<lambda>_. 7))" by (simp add: rack_secret_new_example)
qed

section \<open>A rival prepare\<close>

lemma cs_handle_share_rival:
  assumes "collecting E ctx cs old_config collected new_shares d"
    and "dealt_config E d_old old_config old_shares" and "digests_bind E old_shares"
    and "aead_inverts E" and "crypto_usable E"
    and "holds_secrets E old_config (deal_secret d_old) prior" and "\<not> bt_contains_key prior (cfg_epoch old_config)"
    and "bt_contains_key (ps_configs (ctx_persistent_state ctx)) (cfg_epoch (cs_configuration cs))"
    and "validate_share E old_config from epoch share" and "\<not> bt_contains_key collected from"
    and "unat (cfg_threshold old_config) \<le> Suc (length collected)"
  shows "cs_handle_share E cs ctx from epoch share rng = Panic ''no existing configuration''"
proof -
  let ?c = "cs_configuration cs" and ?secrets = "bt_insert (cfg_epoch old_config) (deal_secret d_old) prior"
  have c: "dealt_config E d ?c new_shares" "unat (cfg_threshold ?c) \<le> length new_shares"
    "cfg_encrypted_rack_secrets ?c = None" using assms(1) by (simp_all add: collecting_def)
  have rec: "rack_secret_reconstruct (bt_values new_shares) = Ok (deal_secret d)"
    using dealt_config_reconstruct [OF c(1), of "bt_values new_shares"] dealt_config_values_distinct [OF c(1)] c(2)
    by (simp add: bt_values_def)
  have ne: "?secrets \<noteq> []" by simp
  obtain enc rng' where enc:
    "encrypt_rack_secrets E ?secrets (cfg_rack_id ?c) (cfg_epoch ?c) (deal_secret d) rng = Done (Ok (enc, rng'))"
    by (rule encrypt_returns [OF assms(5) ne])
  obtain s where s: "bt_get new_shares (ctx_platform_id ctx) = Some s" by (rule collecting_share [OF assms(1)])
  show ?thesis
    unfolding cs_handle_share_transition [OF assms(1-4,6,7,9-11)]
    using rec enc s c(3) assms(8)
    by (simp add: cs_transition_to_preparing_def Let_def ctx_update_persistent_state_def)
qed

text \<open>
  C27: what breaks the condition on coordinators. One that still collects shares stores and
  acknowledges a prepare for its own epoch from another coordinator without ending its own
  coordination; the share that completes the collection then hits the assertion that there
  is no configuration at that epoch.
\<close>

theorem rival_prepare_panics:
  assumes "node_coordinator_state n = Some cs" and "coordinating_msg_epoch (cs_msg cs) = cfg_epoch (cs_configuration cs)"
    and "collecting E ctx cs old_config collected new_shares d"
    and "dealt_config E d_old old_config old_shares" and "digests_bind E old_shares"
    and "aead_inverts E" and "crypto_usable E"
    and "holds_secrets E old_config (deal_secret d_old) prior" and "\<not> bt_contains_key prior (cfg_epoch old_config)"
    and "validate_share E old_config from epoch share" and "\<not> bt_contains_key collected from"
    and "unat (cfg_threshold old_config) \<le> Suc (length collected)"
    and "cfg_epoch rival = cfg_epoch (cs_configuration cs)"
    and "bt_contains_key (cfg_members rival) (ctx_platform_id ctx)"
    and "pred_option (\<lambda>e. e \<le> cfg_epoch rival) (ps_latest_committed_epoch (ctx_persistent_state ctx))"
  shows "\<exists>ctx'. handle_prepare n ctx peer rival s = Done (n, ctx') \<and>
    handle_share E n ctx' from epoch share rng = Panic ''no existing configuration''"
proof -
  have drop: "\<not> (case ps_latest_committed_epoch (ctx_persistent_state ctx) of Some e \<Rightarrow> e | None \<Rightarrow> 0) > cfg_epoch rival"
    using assms(15) by (auto simp: not_less split: option.split)
  obtain n' ctx' where prep: "handle_prepare n ctx peer rival s = Done (n', ctx')"
    using handle_prepare_returns [of n ctx peer rival s] by auto
  then have n': "n' = n"
    using drop assms(1,2,13,14)
    by (auto simp: handle_prepare_def Let_def outcome_simps)
  obtain ps b where ps: "save_prepare rival s (ctx_persistent_state ctx) = (ps, b)" by fastforce
  define ctx1 where "ctx1 = ctx\<lparr>ctx_persistent_state := ps,
    ctx_persistent_state_changed := (b \<or> ctx_persistent_state_changed ctx)\<rparr>"
  have ctx1: "ctx_persistent_state ctx1 = ps" "ctx_platform_id ctx1 = ctx_platform_id ctx"
    "ctx_send ctx1 peer (PrepareAck (cfg_epoch rival)) = Done ctx'"
    using prep drop assms(14) ps
    by (auto simp: ctx1_def handle_prepare_def Let_def outcome_simps ctx_update_Done)
  note frame = ctx_frame_send [OF ctx1(3)]
  have has: "bt_contains_key (ps_configs ps) (cfg_epoch (cs_configuration cs))"
    using ps assms(13) by (auto simp: save_prepare_def Let_def bt_contains_keys split: if_splits)
  have "ps_configuration ps (cfg_epoch old_config) = Some old_config"
    using ps assms(3) by (auto simp: save_prepare_def Let_def collecting_def ps_configuration_def bt_get_insert
        bt_contains_get split: if_splits)
  then have "collecting E ctx' cs old_config collected new_shares d"
    using assms(3) frame ctx1(1,2) by (simp add: collecting_def)
  from cs_handle_share_rival [OF this assms(4-9) _ assms(10-12)] has frame ctx1(1)
  have "cs_handle_share E cs ctx' from epoch share rng = Panic ''no existing configuration''" by simp
  with prep n' assms(1) show ?thesis by (simp add: handle_share_def)
qed

theorem rival_prepare_panics_witness:
  "\<exists>ctx'. handle_prepare (node_new\<lparr>node_coordinator_state := Some example_cs\<rparr>) example_ctx sled_b
       (example_config\<lparr>cfg_epoch := 2, cfg_coordinator := sled_b\<rparr>) (example_secret_shares ! 0) =
     Done (node_new\<lparr>node_coordinator_state := Some example_cs\<rparr>, ctx') \<and>
   handle_share toy_env (node_new\<lparr>node_coordinator_state := Some example_cs\<rparr>) ctx' sled_b 1
     (example_secret_shares ! 1) (\<lambda>_. 7) = Panic ''no existing configuration''"
proof -
  obtain d where d: "dealt_config toy_env d example_config example_shares_map" using example_dealt by blast
  have keys: "bt_contains_key (cfg_members example_config) sled_a"
    by (simp add: example_config_def bt_contains_keys bt_keys_def example_secret_shares_props)
  have "holds_secrets toy_env example_config (deal_secret d) []"
    by (simp add: holds_secrets_def example_config_def)
  from rival_prepare_panics [OF _ _ example_collecting [OF d] d toy_digests_bind toy_env_ok toy_env_usable this
      _ example_validate [OF example_shares_in_map(2)],
      of "node_new\<lparr>node_coordinator_state := Some example_cs\<rparr>"
        "example_config\<lparr>cfg_epoch := 2, cfg_coordinator := sled_b\<rparr>" sled_b "example_secret_shares ! 0" "\<lambda>_. 7"]
    keys
  show ?thesis
    by (simp add: example_cs_def validated_of_def example_reconfigure_msg_def bt_contains_key_def example_ctx_def
        ctx_new_with_persistent_state_def) (simp add: example_config_def word_le_nat_alt)
qed

end
