(* ===== verification/TQ_Proxy.thy ===== *)
theory TQ_Proxy
  imports TQ_Node "HOL-Library.Multiset"
begin

text \<open>
  Proxying requests of one node through another (\<^verbatim>\<open>trust-quorum/src/proxy.rs\<close>): the
  requests and responses on the wire, how a caller unpacks a response, and the tracker of
  requests in flight. Answers survive the trip, and every tracked request is answered
  exactly once.
\<close>

section \<open>Definitions\<close>

type_synonym task_id = nat
type_synonym channel = nat

datatype commit_status = Committed | Pending

record coordinator_status =
  cst_config :: configuration
  cst_acked_prepares :: "baseboard_id btree_set"

record node_status =
  ns_connected_peers :: "baseboard_id btree_set"
  ns_alarms :: "alarm set"
  ns_persistent_state :: node_persistent_state_summary
  ns_proxied_requests :: u64

datatype wire_op =
  WireCommit rack_uuid epoch
| WirePrepareAndCommit configuration
| WireStatus

record wire_request =
  wrq_request_id :: uuid
  wrq_op :: wire_op

datatype wire_value = WireCommitValue commit_status | WireStatusValue node_status

datatype no_inner_error = NoInnerError

datatype wire_error =
  WireCommitError commit_error
| WirePrepareAndCommitError prepare_and_commit_error
| WireNoInnerError no_inner_error

record wire_response =
  wrs_request_id :: uuid
  wrs_result :: "(wire_value, wire_error) rust_result"

datatype tracker_error = Wire wire_error | TrackerDisconnected

datatype 'e proxy_error =
  Inner 'e
| Disconnected
| InvalidResponse string
| RecvError
| Busy

text \<open>
  The three unpacking functions. How a value or an error of the wrong kind is printed is left
  to the arguments \<open>show_value\<close> and \<open>show_error\<close>.
\<close>

definition proxy_commit_response ::
  "(wire_value \<Rightarrow> string) \<Rightarrow> (wire_error \<Rightarrow> string) \<Rightarrow> (wire_value, wire_error) rust_result \<Rightarrow>
   (commit_status, commit_error proxy_error) rust_result" where
  "proxy_commit_response show_value show_error res =
     (case res of
        Inr val \<Rightarrow>
          (case val of
             WireCommitValue cs \<Rightarrow> Ok cs
           | other \<Rightarrow> Err (InvalidResponse (show_value other)))
      | Inl err \<Rightarrow>
          (case err of
             WireCommitError e \<Rightarrow> Err (Inner e)
           | other \<Rightarrow> Err (InvalidResponse (show_error other))))"

definition proxy_prepare_and_commit_response ::
  "(wire_value \<Rightarrow> string) \<Rightarrow> (wire_error \<Rightarrow> string) \<Rightarrow> (wire_value, wire_error) rust_result \<Rightarrow>
   (commit_status, prepare_and_commit_error proxy_error) rust_result" where
  "proxy_prepare_and_commit_response show_value show_error res =
     (case res of
        Inr val \<Rightarrow>
          (case val of
             WireCommitValue cs \<Rightarrow> Ok cs
           | other \<Rightarrow> Err (InvalidResponse (show_value other)))
      | Inl err \<Rightarrow>
          (case err of
             WirePrepareAndCommitError e \<Rightarrow> Err (Inner e)
           | other \<Rightarrow> Err (InvalidResponse (show_error other))))"

definition proxy_status_response ::
  "(wire_value \<Rightarrow> string) \<Rightarrow> (wire_error \<Rightarrow> string) \<Rightarrow> (wire_value, wire_error) rust_result \<Rightarrow>
   (node_status, no_inner_error proxy_error) rust_result" where
  "proxy_status_response show_value show_error res =
     (case res of
        Inr val \<Rightarrow>
          (case val of
             WireStatusValue status \<Rightarrow> Ok status
           | other \<Rightarrow> Err (InvalidResponse (show_value other)))
      | Inl err \<Rightarrow>
          (case err of
             WireNoInnerError e \<Rightarrow> Err (Inner e)
           | other \<Rightarrow> Err (InvalidResponse (show_error other))))"

text \<open>
  What \<open>send\<close> makes of the way the request ended: the channel to the task was full or
  closed, the task dropped the request, or it answered.
\<close>

datatype send_end = TrySendFull | TrySendClosed | ReceiveFailed | Answered "(wire_value, tracker_error) rust_result"

fun proxy_send ::
  "((wire_value, wire_error) rust_result \<Rightarrow> ('v, 'e proxy_error) rust_result) \<Rightarrow> send_end \<Rightarrow>
   ('v, 'e proxy_error) rust_result" where
  "proxy_send f TrySendFull = Err Busy"
| "proxy_send f TrySendClosed = Err RecvError"
| "proxy_send f ReceiveFailed = Err RecvError"
| "proxy_send f (Answered res) =
     (case res of
        Inl TrackerDisconnected \<Rightarrow> Err Disconnected
      | Inl (Wire err) \<Rightarrow> f (Err err)
      | Inr val \<Rightarrow> f (Ok val))"

record trackable_request =
  tr_task_id :: task_id
  tr_request_id :: uuid
  tr_tx :: "channel option"

definition trackable_request_new :: "task_id \<Rightarrow> uuid \<Rightarrow> channel \<Rightarrow> trackable_request" where
  "trackable_request_new task_id request_id tx =
     \<lparr>tr_task_id = task_id, tr_request_id = request_id, tr_tx = Some tx\<rparr>"

text \<open>The tracker: a collection of requests with different ids. Its methods return the answers they send.\<close>

type_synonym tracker = "trackable_request list"
type_synonym answers = "(channel \<times> (wire_value, tracker_error) rust_result) list"

definition tracker_new :: tracker where
  "tracker_new = []"

definition tracker_len :: "tracker \<Rightarrow> nat" where
  "tracker_len self = length self"

definition tracker_insert :: "tracker \<Rightarrow> trackable_request \<Rightarrow> tracker outcome" where
  "tracker_insert self req =
     obind (assert_that ''no duplicate request IDs'' (tr_request_id req \<notin> tr_request_id ` set self)) (\<lambda>_.
       Done (req # self))"

definition tracker_on_response ::
  "tracker \<Rightarrow> uuid \<Rightarrow> (wire_value, wire_error) rust_result \<Rightarrow> (tracker \<times> answers) outcome" where
  "tracker_on_response self request_id result =
     (case find (\<lambda>req. tr_request_id req = request_id) self of
        Some req \<Rightarrow>
          (let res = (case result of Inl e \<Rightarrow> Err (Wire e) | Inr v \<Rightarrow> Ok v) in
           obind (expect ''called `Option::unwrap()` on a `None` value'' (tr_tx req)) (\<lambda>tx.
             Done (filter (\<lambda>req. tr_request_id req \<noteq> request_id) self, [(tx, res)])))
      | None \<Rightarrow> Done (self, []))"

fun tracker_on_disconnect :: "tracker \<Rightarrow> task_id \<Rightarrow> (tracker \<times> answers) outcome" where
  "tracker_on_disconnect [] task_id = Done ([], [])"
| "tracker_on_disconnect (req # self) task_id =
     (if tr_task_id req = task_id then
        obind (expect ''called `Option::unwrap()` on a `None` value'' (tr_tx req)) (\<lambda>tx.
        obind (tracker_on_disconnect self task_id) (\<lambda>(self, answers).
          Done (self, (tx, Err TrackerDisconnected) # answers)))
      else
        obind (tracker_on_disconnect self task_id) (\<lambda>(self, answers). Done (req # self, answers)))"

section \<open>Answers\<close>

text \<open>How the receiving task puts its results on the wire.\<close>

definition wire_commit_result :: "(commit_status, commit_error) rust_result \<Rightarrow> (wire_value, wire_error) rust_result" where
  "wire_commit_result res = (case res of Inr cs \<Rightarrow> Ok (WireCommitValue cs) | Inl e \<Rightarrow> Err (WireCommitError e))"

definition wire_prepare_and_commit_result ::
  "(commit_status, prepare_and_commit_error) rust_result \<Rightarrow> (wire_value, wire_error) rust_result" where
  "wire_prepare_and_commit_result res =
     (case res of Inr cs \<Rightarrow> Ok (WireCommitValue cs) | Inl e \<Rightarrow> Err (WirePrepareAndCommitError e))"

section \<open>The tracker\<close>

definition tracker_ok :: "tracker \<Rightarrow> bool" where
  "tracker_ok self \<longleftrightarrow> distinct (map tr_request_id self) \<and> (\<forall>req\<in>set self. tr_tx req \<noteq> None)"

lemma tracker_ok_new [simp]: "tracker_ok tracker_new"
  by (simp add: tracker_ok_def tracker_new_def)

lemma tracker_on_disconnect_eq:
  assumes "tracker_ok self"
  shows "tracker_on_disconnect self task_id =
    Done (filter (\<lambda>req. tr_task_id req \<noteq> task_id) self,
      map (\<lambda>req. (the (tr_tx req), Err TrackerDisconnected)) (filter (\<lambda>req. tr_task_id req = task_id) self))"
  using assms by (induction self) (auto simp: tracker_ok_def)

lemma filter_eq_distinct: "distinct xs \<Longrightarrow> x \<in> set xs \<Longrightarrow> filter (\<lambda>y. y = x) xs = [x]"
  by (induction xs) (auto simp: filter_empty_conv)

lemma tracker_on_response_eq:
  assumes "tracker_ok self"
  shows "tracker_on_response self request_id result =
    Done (filter (\<lambda>req. tr_request_id req \<noteq> request_id) self,
      map (\<lambda>req. (the (tr_tx req), case result of Inl e \<Rightarrow> Err (Wire e) | Inr v \<Rightarrow> Ok v))
        (filter (\<lambda>req. tr_request_id req = request_id) self))"
proof (cases "find (\<lambda>req. tr_request_id req = request_id) self")
  case None
  then have "\<forall>req\<in>set self. tr_request_id req \<noteq> request_id" by (simp add: find_None_iff)
  then have "filter (\<lambda>req. tr_request_id req \<noteq> request_id) self = self"
    "filter (\<lambda>req. tr_request_id req = request_id) self = []" by (simp_all add: filter_id_conv filter_empty_conv)
  with None show ?thesis by (simp add: tracker_on_response_def)
next
  case (Some req)
  then have req: "req \<in> set self" "tr_request_id req = request_id" by (auto simp: find_Some_iff)
  have "\<forall>r\<in>set self. tr_request_id r = request_id \<longrightarrow> r = req"
    using assms req by (auto simp: tracker_ok_def distinct_map inj_on_def)
  then have "filter (\<lambda>r. tr_request_id r = request_id) self = filter (\<lambda>r. r = req) self"
    using req(2) by (auto intro: filter_cong)
  also have "\<dots> = [req]"
    using assms req(1) by (simp add: tracker_ok_def distinct_map filter_eq_distinct)
  finally show ?thesis using Some assms req(1)
    by (auto simp: tracker_on_response_def tracker_ok_def Let_def)
qed

text \<open>
  An answer survives the trip: when the response to a tracked commit request arrives, exactly its
  caller is answered, and gets the result that the remote node computed, errors included.
\<close>

theorem proxied_commit_answer:
  assumes "tracker_ok self" and "req \<in> set self" and "tr_tx req = Some tx"
  shows "\<exists>answer. tracker_on_response self (tr_request_id req) (wire_commit_result result) =
      Done (filter (\<lambda>r. tr_request_id r \<noteq> tr_request_id req) self, [(tx, answer)]) \<and>
    proxy_send (proxy_commit_response show_value show_error) (Answered answer) =
      (case result of Inr cs \<Rightarrow> Ok cs | Inl e \<Rightarrow> Err (Inner e))"
proof -
  have "filter (\<lambda>r. tr_request_id r = tr_request_id req) self = filter (\<lambda>r. r = req) self"
    using assms(1,2) by (intro filter_cong) (auto simp: tracker_ok_def distinct_map inj_on_def)
  also have "\<dots> = [req]"
    using assms(1,2) by (simp add: tracker_ok_def distinct_map filter_eq_distinct)
  finally show ?thesis
    using assms(3) by (simp add: tracker_on_response_eq [OF assms(1)])
      (simp add: wire_commit_result_def proxy_commit_response_def split: sum.split)
qed

definition example_tracker :: tracker where
  "example_tracker = [trackable_request_new 4 [1] 10, trackable_request_new 4 [2] 11, trackable_request_new 5 [3] 12]"

lemma example_tracker_ok: "tracker_ok example_tracker"
  by (simp add: tracker_ok_def example_tracker_def trackable_request_new_def)

theorem proxied_commit_answer_witness:
  "tracker_on_response example_tracker [2] (wire_commit_result (Err (CommitNotPrepared 7))) =
     Done ([trackable_request_new 4 [1] 10, trackable_request_new 5 [3] 12],
       [(11, Err (Wire (WireCommitError (CommitNotPrepared 7))))]) \<and>
   proxy_send (proxy_commit_response (\<lambda>_. []) (\<lambda>_. []))
     (Answered (Err (Wire (WireCommitError (CommitNotPrepared 7))))) = Err (Inner (CommitNotPrepared 7))"
proof -
  have "trackable_request_new 4 [2] 11 \<in> set example_tracker" "tr_tx (trackable_request_new 4 [2] 11) = Some 11"
    by (simp_all add: example_tracker_def trackable_request_new_def)
  from proxied_commit_answer [OF example_tracker_ok this, of "Err (CommitNotPrepared 7)" "\<lambda>_. []" "\<lambda>_. []"]
  show ?thesis
    by (auto simp: example_tracker_def trackable_request_new_def tracker_on_response_def wire_commit_result_def
        proxy_commit_response_def)
qed

section \<open>Conservation\<close>

datatype tracker_event =
  TrackInsert task_id uuid channel
| TrackResponse uuid "(wire_value, wire_error) rust_result"
| TrackDisconnect task_id

fun tracker_step :: "tracker \<Rightarrow> tracker_event \<Rightarrow> (tracker \<times> answers) outcome" where
  "tracker_step self (TrackInsert task_id request_id tx) =
     obind (tracker_insert self (trackable_request_new task_id request_id tx)) (\<lambda>self. Done (self, []))"
| "tracker_step self (TrackResponse request_id result) = tracker_on_response self request_id result"
| "tracker_step self (TrackDisconnect task_id) = tracker_on_disconnect self task_id"

definition tracker_run :: "tracker \<Rightarrow> tracker_event list \<Rightarrow> (tracker \<times> answers) outcome" where
  "tracker_run self events =
     ofold (\<lambda>(self, answers) event.
         obind (tracker_step self event) (\<lambda>(self, more). Done (self, answers @ more))) (self, []) events"

fun inserted_channels :: "tracker_event \<Rightarrow> channel list" where
  "inserted_channels (TrackInsert _ _ tx) = [tx]"
| "inserted_channels _ = []"

definition in_flight :: "tracker \<Rightarrow> channel list" where
  "in_flight self = map (\<lambda>req. the (tr_tx req)) self"


lemma in_flight_split:
  "mset (in_flight self) = mset (in_flight (filter P self)) + mset (map (\<lambda>r. the (tr_tx r)) (filter (\<lambda>x. \<not> P x) self))"
  unfolding in_flight_def by (induction self) auto

lemma tracker_ok_filter: "tracker_ok self \<Longrightarrow> tracker_ok (filter P self)"
  by (auto simp: tracker_ok_def distinct_map inj_on_def)

lemma tracker_step_conserves:
  assumes "tracker_ok self" and "tracker_step self event = Done (self', answers)"
  shows "tracker_ok self' \<and>
    mset (in_flight self) + mset (inserted_channels event) = mset (in_flight self') + mset (map fst answers)"
proof (cases event)
  case (TrackInsert task_id request_id tx)
  with assms show ?thesis
    by (auto simp: tracker_insert_def trackable_request_new_def outcome_simps tracker_ok_def in_flight_def)
next
  case (TrackResponse request_id result)
  with assms show ?thesis
    using in_flight_split [of self "\<lambda>req. tr_request_id req \<noteq> request_id"]
    by (auto simp: tracker_on_response_eq tracker_ok_filter image_mset.compositionality comp_def)
next
  case (TrackDisconnect task_id)
  with assms show ?thesis
    using in_flight_split [of self "\<lambda>req. tr_task_id req \<noteq> task_id"]
    by (auto simp: tracker_on_disconnect_eq tracker_ok_filter image_mset.compositionality comp_def)
qed

lemma tracker_run_conserves:
  assumes "tracker_ok self"
    and "ofold (\<lambda>(self, answers) event.
         obind (tracker_step self event) (\<lambda>(self, more). Done (self, answers @ more))) (self, before) events =
      Done (self', answers)"
  shows "tracker_ok self' \<and>
    mset (in_flight self) + mset (concat (map inserted_channels events)) + mset (map fst before) =
      mset (in_flight self') + mset (map fst answers)"
  using assms
proof (induction events arbitrary: self before)
  case (Cons event events)
  from Cons.prems(2) obtain self1 more where step: "tracker_step self event = Done (self1, more)"
    and rest: "ofold (\<lambda>(self, answers) event.
         obind (tracker_step self event) (\<lambda>(self, more). Done (self, answers @ more))) (self1, before @ more) events =
      Done (self', answers)"
    by (auto simp: obind_eq_Done)
  note c = tracker_step_conserves [OF Cons.prems(1) step]
  note ih = Cons.IH [OF conjunct1 [OF c] rest]
  have "mset (in_flight self) + mset (inserted_channels event) + mset (concat (map inserted_channels events)) +
      mset (map fst before) =
      mset (in_flight self1) + mset (concat (map inserted_channels events)) + mset (map fst (before @ more))"
    using c by (simp add: ac_simps)
  with ih show ?case by (simp add: ac_simps)
qed simp

text \<open>
  C35: every tracked request is answered exactly once or still in flight: over any sequence of
  insertions, responses (also unexpected or repeated ones) and disconnects, the callers'
  channels are, as a multiset, those answered together with those still tracked.
\<close>

theorem tracker_answers_exactly_once:
  assumes "tracker_run tracker_new events = Done (self, answers)"
  shows "mset (concat (map inserted_channels events)) = mset (map fst answers) + mset (in_flight self)"
  using tracker_run_conserves [OF tracker_ok_new assms [unfolded tracker_run_def]]
  by (simp add: tracker_new_def in_flight_def ac_simps)

theorem tracker_answers_exactly_once_witness:
  "mset [10, 11, 12] = mset (map fst [(11, Err (Wire (WireCommitError (CommitNotPrepared 7)))),
     (10, Err TrackerDisconnected)] :: nat list) + mset (in_flight [trackable_request_new 5 [3] 12])"
proof -
  have "tracker_run tracker_new [TrackInsert 4 [1] 10, TrackInsert 4 [2] 11, TrackInsert 5 [3] 12,
      TrackResponse [2] (Err (WireCommitError (CommitNotPrepared 7))),
      TrackResponse [2] (Err (WireCommitError (CommitNotPrepared 7))), TrackDisconnect 4] =
    Done ([trackable_request_new 5 [3] 12],
      [(11, Err (Wire (WireCommitError (CommitNotPrepared 7)))), (10, Err TrackerDisconnected)])"
    by (simp add: tracker_run_def tracker_new_def tracker_insert_def trackable_request_new_def tracker_on_response_def)
  from tracker_answers_exactly_once [OF this] show ?thesis by simp
qed

end
