(* ===== verification/Ledger_Store.thy ===== *)
theory Ledger_Store
  imports Rust_Prelude
begin

text \<open>
  The ledger that the trust quorum and the bootstore persist their state with
  (\<^verbatim>\<open>ledger/src/lib.rs\<close>): a value with a generation number, written to several paths,
  of which the newest readable copy counts. Serialisation (serde) and the file system are
  not code of the repository: the former is a pair of functions, the latter a map from
  paths to contents together with the paths that can be read and written at the moment.
\<close>

section \<open>Definitions\<close>

type_synonym path = string
type_synonym files = "path \<Rightarrow> string option"

record io_env =
  io_read_ok :: "path \<Rightarrow> bool"
  io_write_ok :: "path \<Rightarrow> bool"

datatype ledger_error =
  JsonSerialize path
| JsonDeserialize path
| Io path
| NotFound
| FailedToWrite "(path \<times> ledger_error) list"

text \<open>The trait \<open>Ledgerable\<close> as the record of its methods.\<close>

record 'a ledgerable =
  is_newer_than :: "'a \<Rightarrow> 'a \<Rightarrow> bool"
  generation_bump :: "'a \<Rightarrow> 'a"
  to_json :: "'a \<Rightarrow> string option"
  from_json :: "string \<Rightarrow> 'a option"

record 'a ledger =
  ledger_data :: 'a
  ledger_paths :: "path list"

definition ledger_new_with :: "path list \<Rightarrow> 'a \<Rightarrow> 'a ledger" where
  "ledger_new_with paths initial = \<lparr>ledger_data = initial, ledger_paths = paths\<rparr>"

definition read_from ::
  "'a ledgerable \<Rightarrow> io_env \<Rightarrow> files \<Rightarrow> path \<Rightarrow> ('a, ledger_error) rust_result" where
  "read_from L io fs path =
     (case fs path of
        Some content \<Rightarrow>
          (if \<not> io_read_ok io path then Err (Io path)
           else (case from_json L content of
                   None \<Rightarrow> Err (JsonDeserialize path)
                 | Some x \<Rightarrow> Ok x))
      | None \<Rightarrow> Err NotFound)"

text \<open>\<open>Iterator::reduce\<close> with the comparison of \<open>Ledger::read\<close>.\<close>

definition newest :: "('a \<Rightarrow> 'a \<Rightarrow> bool) \<Rightarrow> 'a list \<Rightarrow> 'a option" where
  "newest newer ledgers =
     (case ledgers of
        [] \<Rightarrow> None
      | x # xs \<Rightarrow> Some (foldl (\<lambda>prior ledger. if newer ledger prior then ledger else prior) x xs))"

definition readable :: "'a ledgerable \<Rightarrow> io_env \<Rightarrow> files \<Rightarrow> path list \<Rightarrow> 'a list" where
  "readable L io fs paths =
     foldl (\<lambda>ledgers path. case read_from L io fs path of Inr ledger \<Rightarrow> ledgers @ [ledger] | Inl _ \<Rightarrow> ledgers) [] paths"

definition ledger_read :: "'a ledgerable \<Rightarrow> io_env \<Rightarrow> files \<Rightarrow> path list \<Rightarrow> 'a option" where
  "ledger_read L io fs paths = newest (is_newer_than L) (readable L io fs paths)"

definition ledger_new :: "'a ledgerable \<Rightarrow> io_env \<Rightarrow> files \<Rightarrow> path list \<Rightarrow> 'a ledger option" where
  "ledger_new L io fs paths =
     (case ledger_read L io fs paths of
        Some ledger \<Rightarrow> Some \<lparr>ledger_data = ledger, ledger_paths = paths\<rparr>
      | None \<Rightarrow> None)"

text \<open>An atomic write leaves the old contents in place when it fails.\<close>

definition atomic_write ::
  "'a ledgerable \<Rightarrow> io_env \<Rightarrow> files \<Rightarrow> 'a \<Rightarrow> path \<Rightarrow> files \<times> (unit, ledger_error) rust_result" where
  "atomic_write L io fs data path =
     (case to_json L data of
        None \<Rightarrow> (fs, Err (JsonSerialize path))
      | Some content \<Rightarrow>
          (if io_write_ok io path then (fs(path \<mapsto> content), Ok ()) else (fs, Err (Io path))))"

definition ledger_commit ::
  "'a ledgerable \<Rightarrow> io_env \<Rightarrow> files \<Rightarrow> 'a ledger \<Rightarrow> 'a ledger \<times> files \<times> (unit, ledger_error) rust_result" where
  "ledger_commit L io fs self =
     (let self = self\<lparr>ledger_data := generation_bump L (ledger_data self)\<rparr>;
          (fs, failed_paths, one_successful_write) =
            foldl (\<lambda>(fs, failed_paths, one_successful_write) path.
                case atomic_write L io fs (ledger_data self) path of
                  (fs, Inl e) \<Rightarrow> (fs, failed_paths @ [(path, e)], one_successful_write)
                | (fs, Inr _) \<Rightarrow> (fs, failed_paths, True))
              (fs, [], False) (ledger_paths self)
      in if \<not> one_successful_write then (self, fs, Err (FailedToWrite failed_paths))
         else (self, fs, Ok ()))"

section \<open>Generations\<close>

text \<open>What the callers promise: newer means a greater generation, and committing raises it by one.\<close>

locale generation_numbered =
  fixes newer :: "'a \<Rightarrow> 'a \<Rightarrow> bool" and bump :: "'a \<Rightarrow> 'a" and gen :: "'a \<Rightarrow> u64"
  assumes newer_iff: "newer x y \<longleftrightarrow> gen y < gen x"
    and gen_bump: "gen (bump x) = gen x + 1"
begin

lemma newest_fold:
  "let r = foldl (\<lambda>prior l. if newer l prior then l else prior) x xs in
     r \<in> set (x # xs) \<and> (\<forall>y\<in>set (x # xs). gen y \<le> gen r)"
proof (induction xs arbitrary: x)
  case (Cons y xs)
  let ?z = "if newer y x then y else x"
  have "gen x \<le> gen ?z" "gen y \<le> gen ?z" by (auto simp: newer_iff)
  with Cons.IH [of ?z] show ?case by (force simp: Let_def)
qed simp

lemma newest_Some:
  assumes "newest newer xs = Some r"
  shows "r \<in> set xs" and "\<forall>y\<in>set xs. gen y \<le> gen r"
  using assms newest_fold by (auto simp: newest_def Let_def split: list.splits)

lemma newest_unique:
  assumes "x \<in> set xs" and "\<forall>y\<in>set xs. y = x \<or> gen y < gen x"
  shows "newest newer xs = Some x"
proof -
  obtain r where r: "newest newer xs = Some r" using assms(1) by (cases xs) (auto simp: newest_def)
  with newest_Some [OF r] assms show ?thesis by force
qed

lemma bump_newer: "gen x + 1 \<noteq> 0 \<Longrightarrow> newer (bump x) x"
  using unatSuc [of "gen x"] by (simp add: newer_iff gen_bump word_less_nat_alt add.commute)

end

section \<open>Reading and committing\<close>

definition json_inverts :: "'a ledgerable \<Rightarrow> bool" where
  "json_inverts L \<longleftrightarrow> (\<forall>x s. to_json L x = Some s \<longrightarrow> from_json L s = Some x)"

lemma readable_append: "readable L io fs (ps @ [p]) =
  readable L io fs ps @ (case read_from L io fs p of Inr x \<Rightarrow> [x] | Inl _ \<Rightarrow> [])"
  by (simp add: readable_def split: sum.split)

lemma set_readable: "set (readable L io fs paths) = {x. \<exists>p\<in>set paths. read_from L io fs p = Ok x}"
proof (induction paths rule: rev_induct)
  case (snoc p ps)
  then show ?case by (cases "read_from L io fs p") (auto simp: readable_append)
qed (simp add: readable_def)

definition written :: "'a ledgerable \<Rightarrow> io_env \<Rightarrow> files \<Rightarrow> 'a \<Rightarrow> path list \<Rightarrow> files" where
  "written L io fs x paths =
     (\<lambda>p. if p \<in> set paths \<and> io_write_ok io p \<and> to_json L x \<noteq> None then to_json L x else fs p)"

lemma commit_fold:
  "foldl (\<lambda>(fs, failed_paths, ok) path.
      case atomic_write L io fs x path of
        (fs, Inl e) \<Rightarrow> (fs, failed_paths @ [(path, e)], ok)
      | (fs, Inr _) \<Rightarrow> (fs, failed_paths, True)) (fs, [], False) paths =
   (written L io fs x paths,
    map (\<lambda>p. (p, if to_json L x = None then JsonSerialize p else Io p))
      (filter (\<lambda>p. \<not> (io_write_ok io p \<and> to_json L x \<noteq> None)) paths),
    \<exists>p\<in>set paths. io_write_ok io p \<and> to_json L x \<noteq> None)"
proof (induction paths rule: rev_induct)
  case (snoc p ps)
  then show ?case by (cases "to_json L x") (auto simp: atomic_write_def written_def fun_eq_iff)
qed (simp add: written_def)

lemma ledger_commit_eq:
  "ledger_commit L io fs l =
     (let x = generation_bump L (ledger_data l); ps = ledger_paths l in
      (l\<lparr>ledger_data := x\<rparr>, written L io fs x ps,
       if \<exists>p\<in>set ps. io_write_ok io p \<and> to_json L x \<noteq> None then Ok ()
       else Err (FailedToWrite (map (\<lambda>p. (p, if to_json L x = None then JsonSerialize p else Io p)) ps))))"
  unfolding ledger_commit_def Let_def by (simp add: commit_fold)

lemma read_written:
  assumes "json_inverts L"
  shows "read_from L io' (written L io fs x ps) p =
    (if p \<in> set ps \<and> io_write_ok io p \<and> to_json L x \<noteq> None
     then (if io_read_ok io' p then Ok x else Err (Io p)) else read_from L io' fs p)"
  using assms by (auto simp: read_from_def written_def json_inverts_def split: option.split)

text \<open>No readable copy has a greater generation than \<open>g\<close>, whatever can be read at the moment.\<close>

definition generations_below :: "'a ledgerable \<Rightarrow> ('a \<Rightarrow> u64) \<Rightarrow> files \<Rightarrow> path list \<Rightarrow> u64 \<Rightarrow> bool" where
  "generations_below L gen fs paths g \<longleftrightarrow>
     (\<forall>p\<in>set paths. \<forall>content x. fs p = Some content \<longrightarrow> from_json L content = Some x \<longrightarrow> gen x \<le> g)"

lemma generations_below_mono: "generations_below L gen fs paths g \<Longrightarrow> g \<le> g' \<Longrightarrow> generations_below L gen fs paths g'"
  unfolding generations_below_def by (meson order_trans)

lemma generations_below_read:
  "generations_below L gen fs paths g \<Longrightarrow> p \<in> set paths \<Longrightarrow> read_from L io fs p = Ok x \<Longrightarrow> gen x \<le> g"
  by (auto simp: generations_below_def read_from_def split: option.splits if_splits)

text \<open>A file system without failures.\<close>

definition all_io :: io_env where
  "all_io = \<lparr>io_read_ok = \<lambda>_. True, io_write_ok = \<lambda>_. True\<rparr>"

lemma newest_None: "newest newer xs = None \<longleftrightarrow> xs = []"
  by (simp add: newest_def split: list.split)

context generation_numbered
begin

lemma read_newest:
  assumes "is_newer_than L = newer"
  shows "generations_below L gen fs paths (case ledger_read L all_io fs paths of Some x \<Rightarrow> gen x | None \<Rightarrow> 0)"
proof -
  have "x \<in> set (readable L all_io fs paths)"
    if "p \<in> set paths" "fs p = Some content" "from_json L content = Some x" for p content x
    using that by (auto simp: set_readable read_from_def all_io_def intro: bexI [of _ p])
  then show ?thesis
    unfolding generations_below_def ledger_read_def assms using newest_Some(2)
    by (fastforce simp: newest_None split: option.split)
qed

lemma commit_then_read:
  assumes "is_newer_than L = newer" and "generation_bump L = bump" and "json_inverts L"
    and "ledger_commit L io fs l = (l', fs', Ok u)"
    and "generations_below L gen fs (ledger_paths l) (gen (ledger_data l))" and "gen (ledger_data l) + 1 \<noteq> 0"
    and "\<exists>p\<in>set (ledger_paths l). io_write_ok io p \<and> io_read_ok io' p"
  shows "ledger_read L io' fs' (ledger_paths l) = Some (bump (ledger_data l))"
proof -
  let ?x = "bump (ledger_data l)" and ?ps = "ledger_paths l"
  have c: "fs' = written L io fs ?x ?ps" "to_json L ?x \<noteq> None"
    using assms(2,4) by (auto simp: ledger_commit_eq Let_def split: if_splits)
  have less: "gen (ledger_data l) < gen ?x" using bump_newer [OF assms(6)] by (simp add: newer_iff)
  have old: "gen y < gen ?x" if "p \<in> set ?ps" "read_from L io' fs p = Ok y" for p y
    using generations_below_read [OF assms(5) that] less by (rule order.strict_trans1)
  have "?x \<in> set (readable L io' fs' ?ps)"
    using assms(7) c by (auto simp: set_readable read_written [OF assms(3)])
  moreover have "\<forall>y\<in>set (readable L io' fs' ?ps). y = ?x \<or> gen y < gen ?x"
    using old c by (auto simp: set_readable read_written [OF assms(3)] split: if_splits)
  ultimately show ?thesis using newest_unique assms(1) by (simp add: ledger_read_def)
qed

lemma commit_generations:
  assumes "generation_bump L = bump" and "json_inverts L"
    and "ledger_commit L io fs l = (l', fs', r)"
    and "generations_below L gen fs (ledger_paths l) (gen (ledger_data l))" and "gen (ledger_data l) + 1 \<noteq> 0"
  shows "generations_below L gen fs' (ledger_paths l) (gen (bump (ledger_data l)))"
proof -
  have "gen (ledger_data l) \<le> gen (bump (ledger_data l))"
    using bump_newer [OF assms(5)] by (simp add: newer_iff)
  with assms(4) have "generations_below L gen fs (ledger_paths l) (gen (bump (ledger_data l)))"
    by (rule generations_below_mono)
  then show ?thesis
    using assms(1-3)
    by (auto simp: ledger_commit_eq Let_def generations_below_def written_def json_inverts_def split: if_splits)
qed

end

end
