(* ===== verification/TQ_Storage.thy ===== *)
theory TQ_Storage
  imports TQ_Persistent_State Ledger_Store
begin

text \<open>
  What the trust quorum task keeps on disk (\<^verbatim>\<open>trust-quorum/src/ledgers.rs\<close> and the network
  configuration of \<^verbatim>\<open>bootstore/src/schemes/v0/storage.rs\<close>), on top of the ledger. Both
  save and load round trip, and the network configuration keeps its own generation.
\<close>

section \<open>Definitions\<close>

record persistent_state_ledger =
  psl_generation :: u64
  psl_state :: persistent_state

definition psl_is_newer_than :: "persistent_state_ledger \<Rightarrow> persistent_state_ledger \<Rightarrow> bool" where
  "psl_is_newer_than self other = (psl_generation self > psl_generation other)"

definition psl_generation_bump :: "persistent_state_ledger \<Rightarrow> persistent_state_ledger" where
  "psl_generation_bump self = self\<lparr>psl_generation := psl_generation self + 1\<rparr>"

text \<open>The derived serialisation is a parameter.\<close>

type_synonym 'a serde = "('a \<Rightarrow> string option) \<times> (string \<Rightarrow> 'a option)"

definition psl_ledgerable :: "persistent_state_ledger serde \<Rightarrow> persistent_state_ledger ledgerable" where
  "psl_ledgerable J = \<lparr>is_newer_than = psl_is_newer_than, generation_bump = psl_generation_bump,
     to_json = fst J, from_json = snd J\<rparr>"

definition psl_save ::
  "persistent_state_ledger serde \<Rightarrow> io_env \<Rightarrow> files \<Rightarrow> path list \<Rightarrow> u64 \<Rightarrow> persistent_state \<Rightarrow> (files \<times> u64) outcome" where
  "psl_save J io fs paths generation state =
     (let persistent_state = \<lparr>psl_generation = generation, psl_state = state\<rparr>;
          ledger = ledger_new_with paths persistent_state in
      case ledger_commit (psl_ledgerable J) io fs ledger of
        (ledger, fs, Inr _) \<Rightarrow> Done (fs, psl_generation (ledger_data ledger))
      | (_, _, Inl _) \<Rightarrow> Panic ''Critical: Failed to save ledger for persistent state'')"

definition psl_load ::
  "persistent_state_ledger serde \<Rightarrow> io_env \<Rightarrow> files \<Rightarrow> path list \<Rightarrow> persistent_state_ledger option" where
  "psl_load J io fs paths = map_option ledger_data (ledger_new (psl_ledgerable J) io fs paths)"

record network_config =
  nc_generation :: u64
  nc_blob :: "u8 list"

definition nc_is_newer_than :: "network_config \<Rightarrow> network_config \<Rightarrow> bool" where
  "nc_is_newer_than self other = (nc_generation self > nc_generation other)"

definition nc_generation_bump :: "network_config \<Rightarrow> network_config" where
  "nc_generation_bump self = self\<lparr>nc_generation := nc_generation self + 1\<rparr>"

definition nc_ledgerable :: "network_config serde \<Rightarrow> network_config ledgerable" where
  "nc_ledgerable J = \<lparr>is_newer_than = nc_is_newer_than, generation_bump = nc_generation_bump,
     to_json = fst J, from_json = snd J\<rparr>"

definition nc_save ::
  "network_config serde \<Rightarrow> io_env \<Rightarrow> files \<Rightarrow> path list \<Rightarrow> network_config \<Rightarrow> files outcome" where
  "nc_save J io fs paths config =
     obind (expect ''called `Option::unwrap()` on a `None` value''
              (if nc_generation config = 0 then None else Some (nc_generation config - 1))) (\<lambda>generation.
       let ledger = ledger_new_with paths (config\<lparr>nc_generation := generation\<rparr>) in
       case ledger_commit (nc_ledgerable J) io fs ledger of
         (ledger, fs, Inr _) \<Rightarrow> Done fs
       | (_, _, Inl _) \<Rightarrow> Panic ''Critical: Failed to save bootstore ledger for network config'')"

definition nc_load :: "network_config serde \<Rightarrow> io_env \<Rightarrow> files \<Rightarrow> path list \<Rightarrow> network_config option" where
  "nc_load J io fs paths = map_option ledger_data (ledger_new (nc_ledgerable J) io fs paths)"

section \<open>Round trips\<close>

interpretation psl_gen: generation_numbered psl_is_newer_than psl_generation_bump psl_generation
  by unfold_locales (simp_all add: psl_is_newer_than_def psl_generation_bump_def)

interpretation nc_gen: generation_numbered nc_is_newer_than nc_generation_bump nc_generation
  by unfold_locales (simp_all add: nc_is_newer_than_def nc_generation_bump_def)

lemma ledger_new_read: "map_option ledger_data (ledger_new L io fs paths) = ledger_read L io fs paths"
  by (simp add: ledger_new_def split: option.split)

lemma psl_save_Done:
  assumes "psl_save J io fs paths g st = Done (fs', g')"
  obtains l u where "ledger_commit (psl_ledgerable J) io fs (ledger_new_with paths \<lparr>psl_generation = g, psl_state = st\<rparr>) =
      (l, fs', Ok u)" and "g' = g + 1"
proof -
  let ?l = "ledger_new_with paths \<lparr>psl_generation = g, psl_state = st\<rparr>"
  obtain l fs1 r where c: "ledger_commit (psl_ledgerable J) io fs ?l = (l, fs1, r)" by (rule prod_cases3)
  then have "l = ?l\<lparr>ledger_data := psl_generation_bump (ledger_data ?l)\<rparr>"
    by (simp add: ledger_commit_eq Let_def psl_ledgerable_def)
  then have "psl_generation (ledger_data l) = g + 1" by (simp add: psl_generation_bump_def ledger_new_with_def)
  with c assms show thesis by (cases r) (auto simp: psl_save_def intro: that)
qed

lemma psl_save_load:
  assumes "json_inverts (psl_ledgerable J)" and "psl_save J io fs paths g st = Done (fs', g')"
    and "generations_below (psl_ledgerable J) psl_generation fs paths g" and "g + 1 \<noteq> 0"
    and "\<exists>p\<in>set paths. io_write_ok io p \<and> io_read_ok io' p"
  shows "psl_load J io' fs' paths = Some \<lparr>psl_generation = g', psl_state = st\<rparr>"
    and "generations_below (psl_ledgerable J) psl_generation fs' paths g'"
proof -
  let ?l = "ledger_new_with paths \<lparr>psl_generation = g, psl_state = st\<rparr>"
  from assms(2) obtain l u where c: "ledger_commit (psl_ledgerable J) io fs ?l = (l, fs', Ok u)" "g' = g + 1"
    by (rule psl_save_Done)
  have L: "is_newer_than (psl_ledgerable J) = psl_is_newer_than"
    "generation_bump (psl_ledgerable J) = psl_generation_bump" by (simp_all add: psl_ledgerable_def)
  show "psl_load J io' fs' paths = Some \<lparr>psl_generation = g', psl_state = st\<rparr>"
    using psl_gen.commit_then_read [OF L assms(1) c(1), of io'] assms(3-5) c(2)
    by (simp add: psl_load_def ledger_new_read ledger_new_with_def psl_generation_bump_def)
  show "generations_below (psl_ledgerable J) psl_generation fs' paths g'"
    using psl_gen.commit_generations [OF L(2) assms(1) c(1)] assms(3,4) c(2)
    by (simp add: ledger_new_with_def psl_generation_bump_def)
qed

text \<open>
  C34: a persistent state that was saved is the one that is loaded, with the next generation,
  whenever one of the paths that took the write can be read: older copies on the other
  paths lose. Afterwards no copy is newer than the returned generation, so this holds
  again for the next save.
\<close>

theorem saved_state_is_loaded:
  assumes "json_inverts (psl_ledgerable J)" and "psl_save J io fs paths g st = Done (fs', g')"
    and "generations_below (psl_ledgerable J) psl_generation fs paths g" and "g + 1 \<noteq> 0"
    and "\<exists>p\<in>set paths. io_write_ok io p \<and> io_read_ok io' p"
  shows "psl_load J io' fs' paths = Some \<lparr>psl_generation = g', psl_state = st\<rparr> \<and> g' = g + 1 \<and>
    generations_below (psl_ledgerable J) psl_generation fs' paths g'"
  using psl_save_load [OF assms] psl_save_Done [OF assms(2)] by auto

lemma nc_save_load:
  assumes "json_inverts (nc_ledgerable J)"
    and "generations_below (nc_ledgerable J) nc_generation fs paths (nc_generation config - 1)"
    and "nc_save J io fs paths config = Done fs'"
  shows "\<exists>p\<in>set paths. io_write_ok io p"
    and "\<exists>p\<in>set paths. io_write_ok io p \<and> io_read_ok io' p \<Longrightarrow> nc_load J io' fs' paths = Some config"
proof -
  let ?l = "ledger_new_with paths (config\<lparr>nc_generation := nc_generation config - 1\<rparr>)"
  have L: "is_newer_than (nc_ledgerable J) = nc_is_newer_than"
    "generation_bump (nc_ledgerable J) = nc_generation_bump" by (simp_all add: nc_ledgerable_def)
  have nz: "nc_generation config \<noteq> 0" using assms(3) by (auto simp: nc_save_def)
  with assms(3) obtain l u where c: "ledger_commit (nc_ledgerable J) io fs ?l = (l, fs', Ok u)"
    by (auto simp: nc_save_def Let_def split: prod.splits sum.splits)
  from c show "\<exists>p\<in>set paths. io_write_ok io p"
    by (auto simp: ledger_commit_eq Let_def ledger_new_with_def split: if_splits)
  show "nc_load J io' fs' paths = Some config" if "\<exists>p\<in>set paths. io_write_ok io p \<and> io_read_ok io' p"
    using nc_gen.commit_then_read [OF L assms(1) c, of io'] assms(2) that nz
    by (simp add: nc_load_def ledger_new_read ledger_new_with_def nc_generation_bump_def)
qed

text \<open>
  A network configuration with a nonzero generation is loaded exactly as it was saved, its
  generation included, if the older copies have smaller generations; one with generation
  zero panics.
\<close>

theorem network_config_roundtrip:
  assumes "json_inverts (nc_ledgerable J)"
    and "generations_below (nc_ledgerable J) nc_generation fs paths (nc_generation config - 1)"
    and "\<exists>p\<in>set paths. io_write_ok io p \<and> io_read_ok io' p"
  shows "if nc_generation config = 0 then \<not> returns (nc_save J io fs paths config)
    else nc_save J io fs paths config = Done fs' \<longrightarrow> nc_load J io' fs' paths = Some config"
  using nc_save_load(2) [OF assms(1,2)] assms(3) by (simp add: nc_save_def)

text \<open>A serialisation that knows one value, for the witnesses.\<close>

definition one_serde :: "'a \<Rightarrow> 'a serde" where
  "one_serde v = (\<lambda>x. if x = v then Some ''v'' else None, \<lambda>s. if s = ''v'' then Some v else None)"

lemma one_serde_inverts: "json_inverts (psl_ledgerable (one_serde v))" "json_inverts (nc_ledgerable (one_serde w))"
  by (auto simp: json_inverts_def psl_ledgerable_def nc_ledgerable_def one_serde_def split: if_splits)

theorem saved_state_is_loaded_witness:
  "\<exists>fs. psl_save (one_serde \<lparr>psl_generation = 1, psl_state = example_ps\<rparr>) all_io (\<lambda>_. None) [''a'', ''b''] 0 example_ps =
       Done (fs, 1) \<and>
     psl_load (one_serde \<lparr>psl_generation = 1, psl_state = example_ps\<rparr>) all_io fs [''a'', ''b''] =
       Some \<lparr>psl_generation = 1, psl_state = example_ps\<rparr>"
proof -
  let ?J = "one_serde \<lparr>psl_generation = 1, psl_state = example_ps\<rparr>"
  obtain fs where save: "psl_save ?J all_io (\<lambda>_. None) [''a'', ''b''] 0 example_ps = Done (fs, 1)"
    by (simp add: psl_save_def ledger_commit_eq Let_def ledger_new_with_def psl_ledgerable_def psl_generation_bump_def
        one_serde_def all_io_def ex_disj_distrib)
  have "generations_below (psl_ledgerable ?J) psl_generation (\<lambda>_. None) [''a'', ''b''] 0"
    by (simp add: generations_below_def)
  from saved_state_is_loaded [OF one_serde_inverts(1) save this, of all_io] save show ?thesis
    by (auto simp: all_io_def)
qed

theorem network_config_roundtrip_witness:
  "\<exists>fs. nc_save (one_serde \<lparr>nc_generation = 3, nc_blob = [1, 2]\<rparr>) all_io (\<lambda>_. None) [''a'']
       \<lparr>nc_generation = 3, nc_blob = [1, 2]\<rparr> = Done fs \<and>
     nc_load (one_serde \<lparr>nc_generation = 3, nc_blob = [1, 2]\<rparr>) all_io fs [''a''] =
       Some \<lparr>nc_generation = 3, nc_blob = [1, 2]\<rparr>"
proof -
  let ?c = "\<lparr>nc_generation = 3, nc_blob = [1, 2]\<rparr> :: network_config"
  obtain fs where save: "nc_save (one_serde ?c) all_io (\<lambda>_. None) [''a''] ?c = Done fs"
    by (simp add: nc_save_def ledger_commit_eq Let_def ledger_new_with_def nc_ledgerable_def nc_generation_bump_def
        one_serde_def all_io_def)
  have "generations_below (nc_ledgerable (one_serde ?c)) nc_generation (\<lambda>_. None) [''a''] (nc_generation ?c - 1)"
    by (simp add: generations_below_def)
  from network_config_roundtrip [OF one_serde_inverts(2) this, of all_io all_io fs] save show ?thesis
    by (auto simp: all_io_def)
qed

end
