(* ===== verification/TQ_Task.thy ===== *)
theory TQ_Task
  imports TQ_Node_Total TQ_Proxy TQ_Storage
begin

text \<open>
  The task that drives a node (\<^verbatim>\<open>trust-quorum/src/task.rs\<close>): it takes requests of the
  sled agent and messages of the connections, saves the persistent state when the node
  reports a change, answers, and only then hands the outgoing messages to the connection
  manager. Connections, timers and measurements are the environment: what they report is
  part of the events, what is handed to them is part of the output.
\<close>

section \<open>Definitions\<close>

record task_config =
  tc_baseboard_id :: baseboard_id
  tc_tq_ledger_paths :: "path list"
  tc_network_config_ledger_paths :: "path list"

text \<open>The primitives and the serialisation formats, which are parameters.\<close>

record task_env =
  te_crypto :: crypto_env
  te_state_serde :: "persistent_state_ledger serde"
  te_network_serde :: "network_config serde"

datatype node_api_error =
  ApiSend
| ApiRecv
| ApiReconfigureError reconfiguration_error
| ApiLoadRackSecretError load_rack_secret_error
| ApiLrtqUpgradeError lrtq_upgrade_error
| ApiPrepareAndCommitError prepare_and_commit_error
| ApiCommitError commit_error
| StaleNetworkConfig u64 u64

datatype api_reply =
  CommitReply epoch "(commit_status, commit_error) rust_result"
| CoordinatorStatusReply "coordinator_status option"
| LoadRackSecretReply "(rack_secret option, load_rack_secret_error) rust_result"
| LoadLatestRackSecretReply "((epoch \<times> rack_secret) option, load_rack_secret_error) rust_result"
| LrtqUpgradeReply "(unit, lrtq_upgrade_error) rust_result"
| NodeStatusReply node_status
| PrepareAndCommitReply epoch "(commit_status, prepare_and_commit_error) rust_result"
| ReconfigureReply "(unit, reconfiguration_error) rust_result"
| UpdateNetworkConfigReply "(unit, node_api_error) rust_result"
| NetworkConfigReply "network_config option"

datatype task_output =
  SendEnvelope envelope
| SendNetworkConfig baseboard_id network_config
| BroadcastNetworkConfig network_config "baseboard_id option"
| SendProxyResponse baseboard_id wire_response
| SendProxyRequest baseboard_id wire_request
| ProxyAnswer channel "(wire_value, tracker_error) rust_result"
| ApiReply api_reply

record world =
  w_tq_files :: files
  w_network_files :: files
  w_output :: "task_output list"

record node_task =
  nt_shutdown :: bool
  nt_config :: task_config
  nt_tq_ledger_generation :: u64
  nt_node :: node
  nt_ctx :: node_ctx
  nt_network_config :: "network_config option"
  nt_proxy_tracker :: tracker
  nt_committed_epoch :: "epoch option"

text \<open>
  Requests of the sled agent. A request about connections carries what the connection manager
  reports: the connections it dropped, or the task of the connection a request goes to.
\<close>

datatype api_request =
  ApiBootstrapAddresses "(task_id \<times> baseboard_id) list"
| ApiClearSecrets
| ApiCommit rack_uuid epoch
| ApiConnMgrStatus
| ApiCoordinatorStatus
| ApiLoadRackSecret epoch
| ApiLoadLatestRackSecret
| ApiLrtqUpgrade lrtq_upgrade_msg
| ApiNodeStatus
| ApiPrepareAndCommit configuration
| ApiReconfigure reconfigure_msg
| ApiShutdown
| ApiUpdateNetworkConfig network_config
| ApiNetworkConfig
| ApiProxy baseboard_id wire_request channel "task_id option"

datatype conn_msg =
  Accepted baseboard_id
| Connected baseboard_id
| Received baseboard_id peer_msg
| ReceivedNetworkConfig baseboard_id network_config
| ProxyRequestReceived baseboard_id wire_request
| ProxyResponseReceived baseboard_id wire_response

definition emit :: "world \<Rightarrow> task_output list \<Rightarrow> world" where
  "emit w outs = w\<lparr>w_output := w_output w @ outs\<rparr>"

text \<open>
  \<open>NodeTask::new\<close>. The share that the bootstore's ledger holds for an upgrade is the
  argument \<open>lrtq\<close>.
\<close>

definition task_new ::
  "task_env \<Rightarrow> io_env \<Rightarrow> task_config \<Rightarrow> lrtq_share_data option \<Rightarrow> world \<Rightarrow> node_task" where
  "task_new T io config lrtq w =
     (let (ctx, tq_ledger_generation) =
            (case psl_load (te_state_serde T) io (w_tq_files w) (tc_tq_ledger_paths config) of
               Some ps_ledger \<Rightarrow>
                 (ctx_new_with_persistent_state (tc_baseboard_id config) (psl_state ps_ledger), psl_generation ps_ledger)
             | None \<Rightarrow>
                 (case lrtq of
                    Some lrtq_share_data \<Rightarrow>
                      (ctx_new_with_persistent_state (tc_baseboard_id config) (ps_new_lrtq_only lrtq_share_data), 0)
                  | None \<Rightarrow> (ctx_new (tc_baseboard_id config), 0)));
          network_config = nc_load (te_network_serde T) io (w_network_files w) (tc_network_config_ledger_paths config)
      in \<lparr>nt_shutdown = False, nt_config = config, nt_tq_ledger_generation = tq_ledger_generation,
          nt_node = node_new, nt_ctx = ctx, nt_network_config = network_config,
          nt_proxy_tracker = tracker_new,
          nt_committed_epoch = ps_latest_committed_epoch (ctx_persistent_state ctx)\<rparr>)"

definition task_save_persistent_state ::
  "task_env \<Rightarrow> io_env \<Rightarrow> node_task \<Rightarrow> world \<Rightarrow> (node_task \<times> world) outcome" where
  "task_save_persistent_state T io self w =
     (let (changed, ctx) = ctx_persistent_state_change_check_and_reset (nt_ctx self);
          self = self\<lparr>nt_ctx := ctx\<rparr> in
      if changed then
        obind (psl_save (te_state_serde T) io (w_tq_files w) (tc_tq_ledger_paths (nt_config self))
                 (nt_tq_ledger_generation self) (ctx_persistent_state (nt_ctx self))) (\<lambda>(files, generation).
          let new_epoch = ps_latest_committed_epoch (ctx_persistent_state (nt_ctx self)) in
          Done (self\<lparr>nt_tq_ledger_generation := generation,
                     nt_committed_epoch := (if nt_committed_epoch self \<noteq> new_epoch then new_epoch
                                            else nt_committed_epoch self)\<rparr>,
                w\<lparr>w_tq_files := files\<rparr>))
      else Done (self, w))"

text \<open>The status that a successful commit is answered with.\<close>

definition commit_status_of :: "node_ctx \<Rightarrow> epoch \<Rightarrow> (unit, 'e) rust_result \<Rightarrow> (commit_status, 'e) rust_result" where
  "commit_status_of ctx epoch res =
     (case res of
        Inl e \<Rightarrow> Err e
      | Inr _ \<Rightarrow> Ok (if bs_contains (ps_commits (ctx_persistent_state ctx)) epoch then Committed else Pending))"

definition task_commit ::
  "task_env \<Rightarrow> io_env \<Rightarrow> node_task \<Rightarrow> world \<Rightarrow> rack_uuid \<Rightarrow> epoch \<Rightarrow>
   (node_task \<times> world \<times> (commit_status, commit_error) rust_result) outcome" where
  "task_commit T io self w rack_id epoch =
     obind (commit_configuration (nt_node self) (nt_ctx self) rack_id epoch) (\<lambda>(node, ctx, r).
       let res = commit_status_of ctx epoch r in
       obind (task_save_persistent_state T io (self\<lparr>nt_node := node, nt_ctx := ctx\<rparr>) w) (\<lambda>(self, w).
         Done (self, w, res)))"

definition task_prepare_and_commit ::
  "task_env \<Rightarrow> io_env \<Rightarrow> node_task \<Rightarrow> world \<Rightarrow> configuration \<Rightarrow>
   (node_task \<times> world \<times> (commit_status, prepare_and_commit_error) rust_result) outcome" where
  "task_prepare_and_commit T io self w config =
     (let epoch = cfg_epoch config in
      obind (prepare_and_commit (nt_node self) (nt_ctx self) config) (\<lambda>(node, ctx, r).
        let res = commit_status_of ctx epoch r in
        obind (task_save_persistent_state T io (self\<lparr>nt_node := node, nt_ctx := ctx\<rparr>) w) (\<lambda>(self, w).
          Done (self, w, res))))"

definition task_status :: "node_task \<Rightarrow> node_status" where
  "task_status self =
     \<lparr>ns_connected_peers = ctx_connected (nt_ctx self), ns_alarms = ctx_alarms (nt_ctx self),
      ns_persistent_state = ps_node_summary (ctx_persistent_state (nt_ctx self)),
      ns_proxied_requests = word_of_nat (tracker_len (nt_proxy_tracker self))\<rparr>"

definition task_broadcast_network_config :: "node_task \<Rightarrow> world \<Rightarrow> baseboard_id option \<Rightarrow> world outcome" where
  "task_broadcast_network_config self w excluded_peer =
     obind (expect ''called `Option::unwrap()` on a `None` value'' (nt_network_config self)) (\<lambda>network_config.
       Done (emit w [BroadcastNetworkConfig network_config excluded_peer]))"

definition task_send_network_config :: "node_task \<Rightarrow> world \<Rightarrow> baseboard_id \<Rightarrow> world" where
  "task_send_network_config self w peer_id =
     (case nt_network_config self of
        Some network_config \<Rightarrow> emit w [SendNetworkConfig peer_id network_config]
      | None \<Rightarrow> w)"

definition current_generation :: "node_task \<Rightarrow> u64" where
  "current_generation self = (case nt_network_config self of Some c \<Rightarrow> nc_generation c | None \<Rightarrow> 0)"

text \<open>Taking over a network configuration, as \<open>update_network_config\<close> and the gossip do.\<close>

definition task_store_network_config ::
  "task_env \<Rightarrow> io_env \<Rightarrow> node_task \<Rightarrow> world \<Rightarrow> network_config \<Rightarrow> baseboard_id option \<Rightarrow> (node_task \<times> world) outcome" where
  "task_store_network_config T io self w config excluded_peer =
     (let self = self\<lparr>nt_network_config := Some config\<rparr> in
      obind (nc_save (te_network_serde T) io (w_network_files w)
               (tc_network_config_ledger_paths (nt_config self)) config) (\<lambda>files.
      obind (task_broadcast_network_config self (w\<lparr>w_network_files := files\<rparr>) excluded_peer) (\<lambda>w.
        Done (self, w))))"

definition task_update_network_config ::
  "task_env \<Rightarrow> io_env \<Rightarrow> node_task \<Rightarrow> world \<Rightarrow> network_config \<Rightarrow>
   (node_task \<times> world \<times> (unit, node_api_error) rust_result) outcome" where
  "task_update_network_config T io self w config =
     (let current_gen = current_generation self in
      if current_gen > nc_generation config
      then Done (self, w, Err (StaleNetworkConfig (nc_generation config) current_gen))
      else if current_gen = nc_generation config
      then Done (self, w, Err (StaleNetworkConfig (nc_generation config) current_gen))
      else obind (task_store_network_config T io self w config None) (\<lambda>(self, w). Done (self, w, Ok ())))"

definition task_handle_proxy_request ::
  "task_env \<Rightarrow> io_env \<Rightarrow> node_task \<Rightarrow> world \<Rightarrow> baseboard_id \<Rightarrow> wire_request \<Rightarrow> (node_task \<times> world) outcome" where
  "task_handle_proxy_request T io self w from req =
     (let respond = (\<lambda>w result. emit w [SendProxyResponse from
            \<lparr>wrs_request_id = wrq_request_id req, wrs_result = result\<rparr>]) in
      case wrq_op req of
        WireCommit rack_id epoch \<Rightarrow>
          obind (task_commit T io self w rack_id epoch) (\<lambda>(self, w, res).
            Done (self, respond w (wire_commit_result res)))
      | WirePrepareAndCommit config \<Rightarrow>
          obind (task_prepare_and_commit T io self w config) (\<lambda>(self, w, res).
            Done (self, respond w (wire_prepare_and_commit_result res)))
      | WireStatus \<Rightarrow> Done (self, respond w (Ok (WireStatusValue (task_status self)))))"

text \<open>A connection has ended: its proxied requests fail, and the node forgets the peer.\<close>

definition task_on_disconnect ::
  "node_task \<Rightarrow> world \<Rightarrow> task_id \<Rightarrow> baseboard_id option \<Rightarrow> (node_task \<times> world) outcome" where
  "task_on_disconnect self w task_id peer_id =
     obind (tracker_on_disconnect (nt_proxy_tracker self) task_id) (\<lambda>(tracker, answers).
       let self = self\<lparr>nt_proxy_tracker := tracker\<rparr>;
           w = emit w (map (\<lambda>(tx, res). ProxyAnswer tx res) answers)
       in Done (case peer_id of
                  Some peer_id \<Rightarrow> self\<lparr>nt_ctx := node_on_disconnect (nt_ctx self) peer_id\<rparr>
                | None \<Rightarrow> self, w))"

definition task_on_conn_msg ::
  "task_env \<Rightarrow> io_env \<Rightarrow> rng \<Rightarrow> node_task \<Rightarrow> world \<Rightarrow> conn_msg \<Rightarrow> (node_task \<times> world) outcome" where
  "task_on_conn_msg T io rng self w msg =
     (let connect = (\<lambda>peer_id.
            let w = task_send_network_config self w peer_id in
            obind (node_on_connect (nt_node self) (nt_ctx self) peer_id) (\<lambda>ctx. Done (self\<lparr>nt_ctx := ctx\<rparr>, w))) in
      obind (case msg of
               Accepted peer_id \<Rightarrow> connect peer_id
             | Connected peer_id \<Rightarrow> connect peer_id
             | Received from m \<Rightarrow>
                 obind (node_handle (te_crypto T) (nt_node self) (nt_ctx self) from m rng) (\<lambda>(node, ctx).
                   Done (self\<lparr>nt_node := node, nt_ctx := ctx\<rparr>, w))
             | ReceivedNetworkConfig from config \<Rightarrow>
                 (if nc_generation config > current_generation self
                  then task_store_network_config T io self w config (Some from)
                  else Done (self, w))
             | ProxyRequestReceived from req \<Rightarrow> task_handle_proxy_request T io self w from req
             | ProxyResponseReceived from rsp \<Rightarrow>
                 obind (tracker_on_response (nt_proxy_tracker self) (wrs_request_id rsp) (wrs_result rsp))
                   (\<lambda>(tracker, answers).
                     Done (self\<lparr>nt_proxy_tracker := tracker\<rparr>, emit w (map (\<lambda>(tx, res). ProxyAnswer tx res) answers))))
        (\<lambda>(self, w). task_save_persistent_state T io self w))"

definition task_on_api_request ::
  "task_env \<Rightarrow> io_env \<Rightarrow> rng \<Rightarrow> node_task \<Rightarrow> world \<Rightarrow> api_request \<Rightarrow> (node_task \<times> world) outcome" where
  "task_on_api_request T io rng self w request =
     (case request of
        ApiBootstrapAddresses disconnected \<Rightarrow>
          ofold (\<lambda>(self, w) (task_id, peer). task_on_disconnect self w task_id (Some peer)) (self, w) disconnected
      | ApiClearSecrets \<Rightarrow> Done (self\<lparr>nt_node := node_clear_secrets (nt_node self)\<rparr>, w)
      | ApiCommit rack_id epoch \<Rightarrow>
          obind (task_commit T io self w rack_id epoch) (\<lambda>(self, w, res).
            Done (self, emit w [ApiReply (CommitReply epoch res)]))
      | ApiConnMgrStatus \<Rightarrow> Done (self, w)
      | ApiCoordinatorStatus \<Rightarrow>
          Done (self, emit w [ApiReply (CoordinatorStatusReply
            (map_option (\<lambda>cs. \<lparr>cst_config = cs_configuration cs, cst_acked_prepares = acked_prepares (cs_op cs)\<rparr>)
               (node_coordinator_state (nt_node self))))])
      | ApiLoadRackSecret epoch \<Rightarrow>
          obind (node_load_rack_secret (nt_node self) (nt_ctx self) epoch) (\<lambda>(node, ctx, res).
            Done (self\<lparr>nt_node := node, nt_ctx := ctx\<rparr>, emit w [ApiReply (LoadRackSecretReply res)]))
      | ApiLoadLatestRackSecret \<Rightarrow>
          (case ps_latest_committed_epoch (ctx_persistent_state (nt_ctx self)) of
             Some epoch \<Rightarrow>
               obind (node_load_rack_secret (nt_node self) (nt_ctx self) epoch) (\<lambda>(node, ctx, res).
                 Done (self\<lparr>nt_node := node, nt_ctx := ctx\<rparr>,
                   emit w [ApiReply (LoadLatestRackSecretReply
                     (case res of
                        Inr (Some secret) \<Rightarrow> Ok (Some (epoch, secret))
                      | Inr None \<Rightarrow> Ok None
                      | Inl e \<Rightarrow> Err e))]))
           | None \<Rightarrow> Done (self, emit w [ApiReply (LoadLatestRackSecretReply (Err NoCommittedConfigurations))]))
      | ApiLrtqUpgrade msg \<Rightarrow>
          obind (coordinate_upgrade_from_lrtq (te_crypto T) (nt_node self) (nt_ctx self) msg rng) (\<lambda>(node, ctx, res).
          obind (task_save_persistent_state T io (self\<lparr>nt_node := node, nt_ctx := ctx\<rparr>) w) (\<lambda>(self, w).
            Done (self, emit w [ApiReply (LrtqUpgradeReply res)])))
      | ApiNodeStatus \<Rightarrow> Done (self, emit w [ApiReply (NodeStatusReply (task_status self))])
      | ApiPrepareAndCommit config \<Rightarrow>
          obind (task_prepare_and_commit T io self w config) (\<lambda>(self, w, res).
            Done (self, emit w [ApiReply (PrepareAndCommitReply (cfg_epoch config) res)]))
      | ApiReconfigure msg \<Rightarrow>
          obind (coordinate_reconfiguration (te_crypto T) (nt_node self) (nt_ctx self) msg rng) (\<lambda>(node, ctx, res).
          obind (task_save_persistent_state T io (self\<lparr>nt_node := node, nt_ctx := ctx\<rparr>) w) (\<lambda>(self, w).
            Done (self, emit w [ApiReply (ReconfigureReply res)])))
      | ApiShutdown \<Rightarrow> Done (self\<lparr>nt_shutdown := True\<rparr>, w)
      | ApiUpdateNetworkConfig config \<Rightarrow>
          obind (task_update_network_config T io self w config) (\<lambda>(self, w, res).
            Done (self, emit w [ApiReply (UpdateNetworkConfigReply res)]))
      | ApiNetworkConfig \<Rightarrow> Done (self, emit w [ApiReply (NetworkConfigReply (nt_network_config self))])
      | ApiProxy destination wire_request tx conn_state \<Rightarrow>
          (case conn_state of
             Some task_id \<Rightarrow>
               obind (tracker_insert (nt_proxy_tracker self)
                        (trackable_request_new task_id (wrq_request_id wire_request) tx)) (\<lambda>tracker.
                 Done (self\<lparr>nt_proxy_tracker := tracker\<rparr>, emit w [SendProxyRequest destination wire_request]))
           | None \<Rightarrow> Done (self, emit w [ProxyAnswer tx (Err TrackerDisconnected)])))"

text \<open>One round of the loop of \<open>run\<close>: an event, then the outgoing messages are handed over.\<close>

datatype task_event =
  ApiEvent api_request
| ConnStep "(task_id \<times> baseboard_id option) option"
| AcceptFailed
| ConnEvent conn_msg

definition task_drain :: "node_task \<Rightarrow> world \<Rightarrow> node_task \<times> world" where
  "task_drain self w =
     (let (envelopes, ctx) = ctx_drain_envelopes (nt_ctx self)
      in (self\<lparr>nt_ctx := ctx\<rparr>, emit w (map SendEnvelope envelopes)))"

definition task_round ::
  "task_env \<Rightarrow> io_env \<Rightarrow> rng \<Rightarrow> node_task \<Rightarrow> world \<Rightarrow> task_event \<Rightarrow> (node_task \<times> world) outcome" where
  "task_round T io rng self w event =
     (let then_drain = (\<lambda>m. obind m (\<lambda>(self, w). Done (task_drain self w))) in
      if nt_shutdown self then Done (self, w)
      else (case event of
              ApiEvent request \<Rightarrow> then_drain (task_on_api_request T io rng self w request)
            | ConnStep disconnected \<Rightarrow>
                then_drain (case disconnected of
                              Some (task_id, peer_id) \<Rightarrow> task_on_disconnect self w task_id peer_id
                            | None \<Rightarrow> Done (self, w))
            | AcceptFailed \<Rightarrow> Done (self, w)
            | ConnEvent msg \<Rightarrow> then_drain (task_on_conn_msg T io rng self w msg)))"

section \<open>Proxied requests\<close>

lemma emit_files [simp]:
  "w_tq_files (emit w outs) = w_tq_files w" "w_network_files (emit w outs) = w_network_files w"
  "w_output (emit w outs) = w_output w @ outs"
  by (simp_all add: emit_def)

lemma save_resets:
  assumes "task_save_persistent_state T io t w = Done (t', w')"
  shows "\<not> ctx_persistent_state_changed (nt_ctx t')"
  using assms
  by (auto simp: task_save_persistent_state_def ctx_persistent_state_change_check_and_reset_def Let_def outcome_simps
      split: if_splits)

lemma save_unchanged:
  "\<not> ctx_persistent_state_changed (nt_ctx t) \<Longrightarrow> task_save_persistent_state T io t w = Done (t, w)"
  by (simp add: task_save_persistent_state_def ctx_persistent_state_change_check_and_reset_def)

lemma save_output: "task_save_persistent_state T io t w = Done (t', w') \<Longrightarrow> w_output w' = w_output w"
  by (auto simp: task_save_persistent_state_def ctx_persistent_state_change_check_and_reset_def Let_def outcome_simps
      split: if_splits)

lemma task_commit_effects:
  assumes "task_commit T io t w rack_id epoch = Done (t', w', res)"
  shows "\<not> ctx_persistent_state_changed (nt_ctx t')" and "w_output w' = w_output w"
  using assms save_resets save_output by (fastforce simp: task_commit_def Let_def outcome_simps)+

text \<open>
  C32: a commit that is proxied through another node does to this node exactly what a local one
  does: the same state, the same files, the same messages to peers, and the answer that a
  local caller gets is what is put on the wire.
\<close>

theorem proxied_commit_is_commit:
  assumes "\<not> nt_shutdown t" and "task_round T io rng t w (ApiEvent (ApiCommit rack_id epoch)) = Done (t', w')"
  shows "\<exists>res msgs. w_output w' = w_output w @ [ApiReply (CommitReply epoch res)] @ map SendEnvelope msgs \<and>
    task_round T io rng t w (ConnEvent (ProxyRequestReceived from
        \<lparr>wrq_request_id = request_id, wrq_op = WireCommit rack_id epoch\<rparr>)) =
      Done (t', w'\<lparr>w_output := w_output w @ [SendProxyResponse from
        \<lparr>wrs_request_id = request_id, wrs_result = wire_commit_result res\<rparr>] @ map SendEnvelope msgs\<rparr>)"
proof -
  from assms obtain t1 w1 res where c: "task_commit T io t w rack_id epoch = Done (t1, w1, res)"
    and d: "task_drain t1 (emit w1 [ApiReply (CommitReply epoch res)]) = (t', w')"
    by (auto simp: task_round_def task_on_api_request_def outcome_simps)
  note eff = task_commit_effects [OF c]
  let ?msgs = "ctx_outgoing (nt_ctx t1)"
  have w': "w_output w' = w_output w @ [ApiReply (CommitReply epoch res)] @ map SendEnvelope ?msgs"
    using d eff(2) by (auto simp: task_drain_def ctx_drain_envelopes_def emit_def)
  have "task_drain t1 (emit w1 [SendProxyResponse from
      \<lparr>wrs_request_id = request_id, wrs_result = wire_commit_result res\<rparr>]) =
    (t', w'\<lparr>w_output := w_output w @ [SendProxyResponse from
        \<lparr>wrs_request_id = request_id, wrs_result = wire_commit_result res\<rparr>] @ map SendEnvelope ?msgs\<rparr>)"
    using d eff(2) by (auto simp: task_drain_def ctx_drain_envelopes_def emit_def)
  then show ?thesis
    using assms(1) w' by (intro exI [of _ res] exI [of _ ?msgs])
      (simp add: task_round_def task_on_conn_msg_def Let_def task_handle_proxy_request_def c save_unchanged [OF eff(1)])
qed

section \<open>The network configuration\<close>

definition net_view :: "node_task \<Rightarrow> world \<Rightarrow> network_config option \<times> files \<times> task_config" where
  "net_view t w = (nt_network_config t, w_network_files w, nt_config t)"

lemma net_view_simps [simp]:
  "net_view (t\<lparr>nt_shutdown := x\<rparr>) w = net_view t w" "net_view (t\<lparr>nt_proxy_tracker := p\<rparr>) w = net_view t w"
  "net_view (t\<lparr>nt_ctx := c\<rparr>) w = net_view t w" "net_view (t\<lparr>nt_node := n\<rparr>) w = net_view t w"
  "net_view t (emit w outs) = net_view t w"
  by (simp_all add: net_view_def emit_def)

named_theorems net_views

lemma save_net [net_views]: "task_save_persistent_state T io t w = Done (t', w') \<Longrightarrow> net_view t' w' = net_view t w"
  by (auto simp: task_save_persistent_state_def ctx_persistent_state_change_check_and_reset_def Let_def outcome_simps
      net_view_def split: if_splits)

lemma commit_net [net_views]: "task_commit T io t w rack_id epoch = Done (t', w', res) \<Longrightarrow> net_view t' w' = net_view t w"
  using save_net by (fastforce simp: task_commit_def Let_def outcome_simps)

lemma prepare_and_commit_net [net_views]:
  "task_prepare_and_commit T io t w config = Done (t', w', res) \<Longrightarrow> net_view t' w' = net_view t w"
  using save_net by (fastforce simp: task_prepare_and_commit_def Let_def outcome_simps)

lemma proxy_request_net [net_views]:
  "task_handle_proxy_request T io t w from req = Done (t', w') \<Longrightarrow> net_view t' w' = net_view t w"
  by (cases "wrq_op req") (auto simp: task_handle_proxy_request_def Let_def outcome_simps dest: net_views)

lemma on_disconnect_net [net_views]: "task_on_disconnect t w task_id peer = Done (t', w') \<Longrightarrow> net_view t' w' = net_view t w"
  by (cases peer) (auto simp: task_on_disconnect_def Let_def outcome_simps)

lemma drain_net [net_views]: "task_drain t w = (t', w') \<Longrightarrow> net_view t' w' = net_view t w"
  by (auto simp: task_drain_def ctx_drain_envelopes_def)

text \<open>A new configuration was taken over, saved and broadcast.\<close>

definition net_stored :: "task_env \<Rightarrow> io_env \<Rightarrow> node_task \<Rightarrow> world \<Rightarrow> node_task \<Rightarrow> world \<Rightarrow> bool" where
  "net_stored T io t w t' w' \<longleftrightarrow>
     (\<exists>c excluded. nt_network_config t' = Some c \<and> current_generation t < nc_generation c \<and>
        nt_config t' = nt_config t \<and>
        nc_save (te_network_serde T) io (w_network_files w) (tc_network_config_ledger_paths (nt_config t)) c =
          Done (w_network_files w') \<and>
        BroadcastNetworkConfig c excluded \<in> set (w_output w'))"

lemma store_net:
  assumes "task_store_network_config T io t w config excluded = Done (t', w')"
    and "current_generation t < nc_generation config"
  shows "net_stored T io t w t' w'" and "nt_network_config t' = Some config"
  using assms
  by (auto simp: task_store_network_config_def task_broadcast_network_config_def Let_def outcome_simps net_stored_def
      emit_def)

lemma net_stored_then:
  "net_stored T io t w t1 w1 \<Longrightarrow> net_view t' w' = net_view t1 w1 \<Longrightarrow> set (w_output w1) \<subseteq> set (w_output w') \<Longrightarrow>
     net_stored T io t w t' w'"
  by (fastforce simp: net_stored_def net_view_def)

lemma disconnects_net:
  "ofold (\<lambda>(self, w) (task_id, peer). task_on_disconnect self w task_id (Some peer)) (t, w) ds = Done (t', w') \<Longrightarrow>
     net_view t' w' = net_view t w"
proof (induction ds arbitrary: t w)
  case (Cons d ds)
  obtain task_id peer where d: "d = (task_id, peer)" by fastforce
  with Cons.prems obtain t1 w1 where "task_on_disconnect t w task_id (Some peer) = Done (t1, w1)"
    "ofold (\<lambda>(self, w) (task_id, peer). task_on_disconnect self w task_id (Some peer)) (t1, w1) ds = Done (t', w')"
    by (auto simp: obind_eq_Done)
  with Cons.IH on_disconnect_net show ?case by metis
qed simp

lemma api_net:
  assumes "task_on_api_request T io rng t w request = Done (t', w')"
  shows "net_view t' w' = net_view t w \<or> net_stored T io t w t' w'"
proof (cases request)
  case (ApiBootstrapAddresses disconnected)
  then have "ofold (\<lambda>(self, w) (task_id, peer). task_on_disconnect self w task_id (Some peer)) (t, w) disconnected =
      Done (t', w')" using assms by (simp add: task_on_api_request_def)
  then show ?thesis by (simp add: disconnects_net)
next
  case (ApiUpdateNetworkConfig config)
  with assms obtain w1 res where u: "task_update_network_config T io t w config = Done (t', w1, res)"
    "w' = emit w1 [ApiReply (UpdateNetworkConfigReply res)]"
    by (auto simp: task_on_api_request_def outcome_simps)
  show ?thesis
  proof (cases "current_generation t < nc_generation config")
    case True
    then have "\<not> nc_generation config < current_generation t" "current_generation t \<noteq> nc_generation config" by auto
    with u(1) have "task_store_network_config T io t w config None = Done (t', w1)"
      by (auto simp: task_update_network_config_def obind_eq_Done)
    from net_stored_then [OF store_net(1) [OF this True], of t' w'] u(2) show ?thesis by auto
  next
    case False
    then have "current_generation t > nc_generation config \<or> current_generation t = nc_generation config" by auto
    with u show ?thesis by (auto simp: task_update_network_config_def Let_def)
  qed
next
  case ApiLoadLatestRackSecret
  then show ?thesis using assms
    by (auto simp: task_on_api_request_def outcome_simps split: option.splits)
next
  case (ApiProxy destination req tx conn_state)
  then show ?thesis using assms
    by (cases conn_state) (auto simp: task_on_api_request_def outcome_simps)
next
  case (ApiCommit rack_id epoch)
  then show ?thesis using assms by (auto simp: task_on_api_request_def obind_eq_Done dest!: commit_net)
next
  case (ApiPrepareAndCommit config)
  then show ?thesis using assms by (auto simp: task_on_api_request_def obind_eq_Done dest!: prepare_and_commit_net)
next
  case (ApiLrtqUpgrade msg)
  then show ?thesis using assms by (auto simp: task_on_api_request_def obind_eq_Done dest!: save_net)
next
  case (ApiReconfigure msg)
  then show ?thesis using assms by (auto simp: task_on_api_request_def obind_eq_Done dest!: save_net)
qed (use assms in \<open>auto simp: task_on_api_request_def obind_eq_Done\<close>)

lemma conn_net:
  assumes "task_on_conn_msg T io rng t w msg = Done (t', w')"
  shows "net_view t' w' = net_view t w \<or> net_stored T io t w t' w'"
    and "msg = ReceivedNetworkConfig sender config \<Longrightarrow> nc_generation config \<le> current_generation t'"
proof -
  have received: "(net_view t' w' = net_view t w \<or> net_stored T io t w t' w') \<and> nc_generation c \<le> current_generation t'"
    if "msg = ReceivedNetworkConfig s c" for s c
  proof (cases "current_generation t < nc_generation c")
    case True
    with assms that obtain t1 w1 where st: "task_store_network_config T io t w c (Some s) = Done (t1, w1)"
      "task_save_persistent_state T io t1 w1 = Done (t', w')"
      by (auto simp: task_on_conn_msg_def Let_def outcome_simps)
    note stored = store_net [OF st(1) True]
    have "nt_network_config t' = Some c" using save_net [OF st(2)] stored(2) by (simp add: net_view_def)
    with net_stored_then [OF stored(1) save_net [OF st(2)]] save_output [OF st(2)] show ?thesis
      by (simp add: current_generation_def)
  next
    case False
    with assms that have "task_save_persistent_state T io t w = Done (t', w')"
      by (auto simp: task_on_conn_msg_def Let_def outcome_simps)
    from save_net [OF this] False show ?thesis by (auto simp: net_view_def current_generation_def)
  qed
  have send: "net_view t1 (task_send_network_config t2 w2 peer) = net_view t1 w2" for t1 t2 w2 peer
    by (simp add: task_send_network_config_def split: option.split)
  show "net_view t' w' = net_view t w \<or> net_stored T io t w t' w'"
  proof (cases msg)
    case (ReceivedNetworkConfig s c)
    then show ?thesis using received by blast
  qed (use assms in \<open>auto simp: task_on_conn_msg_def Let_def outcome_simps send dest!: net_views\<close>)
  show "nc_generation config \<le> current_generation t'" if "msg = ReceivedNetworkConfig sender config"
    using received [OF that] by blast
qed

lemma drain_output: "task_drain t w = (t', w') \<Longrightarrow> set (w_output w) \<subseteq> set (w_output w')"
  by (auto simp: task_drain_def ctx_drain_envelopes_def)

lemma drain_step:
  assumes "net_view t1 w1 = net_view t w \<or> net_stored T io t w t1 w1" and "task_drain t1 w1 = (t', w')"
  shows "net_view t' w' = net_view t w \<or> net_stored T io t w t' w'"
  using assms(1) drain_net [OF assms(2)] net_stored_then [OF _ drain_net [OF assms(2)] drain_output [OF assms(2)]] by metis

lemma round_net:
  assumes "task_round T io rng t w event = Done (t', w')"
  shows "(net_view t' w' = net_view t w \<or> net_stored T io t w t' w') \<and>
    (\<forall>sender c. event = ConnEvent (ReceivedNetworkConfig sender c) \<and> \<not> nt_shutdown t \<longrightarrow>
       nc_generation c \<le> current_generation t')"
proof (cases "nt_shutdown t")
  case False
  show ?thesis
  proof (cases event)
    case (ApiEvent request)
    with False assms obtain t1 w1 where "task_on_api_request T io rng t w request = Done (t1, w1)" "task_drain t1 w1 = (t', w')"
      by (auto simp: task_round_def obind_eq_Done)
    with drain_step [OF api_net] ApiEvent show ?thesis by blast
  next
    case (ConnEvent msg)
    with False assms obtain t1 w1 where c: "task_on_conn_msg T io rng t w msg = Done (t1, w1)" "task_drain t1 w1 = (t', w')"
      by (auto simp: task_round_def obind_eq_Done)
    have "current_generation t' = current_generation t1"
      using drain_net [OF c(2)] by (simp add: net_view_def current_generation_def)
    with drain_step [OF conn_net(1) [OF c(1)] c(2)] conn_net(2) [OF c(1)] ConnEvent show ?thesis by auto
  next
    case (ConnStep d)
    with False assms obtain t1 w1 where "task_drain t1 w1 = (t', w')" "net_view t1 w1 = net_view t w"
      by (auto simp: task_round_def obind_eq_Done dest: on_disconnect_net split: option.splits)
    with drain_net ConnStep show ?thesis by simp
  qed (use False assms in \<open>auto simp: task_round_def\<close>)
qed (use assms in \<open>simp add: task_round_def\<close>)

text \<open>Between rounds the node's network configuration is the newest one on disk.\<close>

definition net_inv :: "task_env \<Rightarrow> node_task \<Rightarrow> world \<Rightarrow> bool" where
  "net_inv T t w \<longleftrightarrow>
     nt_network_config t =
       nc_load (te_network_serde T) all_io (w_network_files w) (tc_network_config_ledger_paths (nt_config t))"

lemma nc_load_newest:
  "generations_below (nc_ledgerable J) nc_generation fs paths
     (case nc_load J all_io fs paths of Some c \<Rightarrow> nc_generation c | None \<Rightarrow> 0)"
  unfolding nc_load_def ledger_new_read by (rule nc_gen.read_newest) (simp add: nc_ledgerable_def)

lemma word_less_le_pred: "(a :: u64) < b \<Longrightarrow> a \<le> b - 1"
  using unat_minus_one [of b] by (cases "b = 0") (simp_all add: word_less_nat_alt word_le_nat_alt)

lemma net_stored_inv:
  assumes "json_inverts (nc_ledgerable (te_network_serde T))" and "net_inv T t w" and "net_stored T io t w t' w'"
  shows "net_inv T t' w'"
proof -
  let ?J = "te_network_serde T" and ?paths = "tc_network_config_ledger_paths (nt_config t)"
  from assms(3) obtain c where c: "nt_network_config t' = Some c" "current_generation t < nc_generation c"
    "nt_config t' = nt_config t" "nc_save ?J io (w_network_files w) ?paths c = Done (w_network_files w')"
    by (auto simp: net_stored_def)
  have "generations_below (nc_ledgerable ?J) nc_generation (w_network_files w) ?paths (current_generation t)"
    using nc_load_newest [of ?J "w_network_files w" ?paths] assms(2) by (simp add: net_inv_def current_generation_def)
  then have "generations_below (nc_ledgerable ?J) nc_generation (w_network_files w) ?paths (nc_generation c - 1)"
    using generations_below_mono word_less_le_pred [OF c(2)] by blast
  from nc_save_load [OF assms(1) this c(4)] have "nc_load ?J all_io (w_network_files w') ?paths = Some c"
    by (simp add: all_io_def)
  with c show ?thesis by (simp add: net_inv_def)
qed


section \<open>Examples\<close>

definition prepared_ps :: persistent_state where
  "prepared_ps = ps_empty\<lparr>ps_shares := [(1, example_secret_shares ! 0)], ps_configs := [(1, example_config)]\<rparr>"

definition example_task_env :: task_env where
  "example_task_env = \<lparr>te_crypto = toy_env, te_state_serde = one_serde \<lparr>psl_generation = 1, psl_state = prepared_ps\<rparr>,
     te_network_serde = one_serde \<lparr>nc_generation = 3, nc_blob = [1, 2]\<rparr>\<rparr>"

definition example_task_config :: task_config where
  "example_task_config = \<lparr>tc_baseboard_id = sled_a, tc_tq_ledger_paths = [''a'', ''b''],
     tc_network_config_ledger_paths = [''n'']\<rparr>"

definition empty_world :: world where
  "empty_world = \<lparr>w_tq_files = \<lambda>_. None, w_network_files = \<lambda>_. None, w_output = []\<rparr>"

lemma example_boot:
  "task_new example_task_env all_io example_task_config None empty_world =
     \<lparr>nt_shutdown = False, nt_config = example_task_config, nt_tq_ledger_generation = 0, nt_node = node_new,
      nt_ctx = ctx_new sled_a, nt_network_config = None, nt_proxy_tracker = [], nt_committed_epoch = None\<rparr>"
  by (simp add: task_new_def empty_world_def psl_load_def nc_load_def ledger_new_def ledger_read_def readable_def
      example_task_config_def read_from_def newest_def tracker_new_def ctx_new_def ps_empty_def
      ps_latest_committed_epoch_def last_opt_def)

lemma fresh_ctx:
  "ps_expunged (ctx_persistent_state (ctx_new me)) = None" "ps_rack_id (ctx_persistent_state (ctx_new me)) = None"
  "ps_latest_committed_epoch (ctx_persistent_state (ctx_new me)) = None" "ctx_platform_id (ctx_new me) = me"
  "ctx_outgoing (ctx_new me) = []" "\<not> ctx_persistent_state_changed (ctx_new me)"
  by (simp_all add: ctx_new_def ps_empty_def ps_rack_id_def ps_latest_config_def ps_latest_committed_epoch_def
      bt_values_def last_opt_def)

lemma fresh_commit:
  "commit_configuration node_new (ctx_new me) rack_id epoch =
     Done (node_new, ctx_new me, Err (CommitNotPrepared epoch))"
  by (simp add: commit_configuration_def Let_def fresh_ctx ps_latest_committed_configuration_def)
    (simp add: ctx_new_def ps_empty_def ps_has_prepared_def bt_contains_key_def)

lemma example_commit:
  "\<exists>t w e. task_round example_task_env all_io (\<lambda>_. 0)
      (task_new example_task_env all_io example_task_config None empty_world) empty_world
      (ApiEvent (ApiCommit (replicate 16 1) 1)) = Done (t, w) \<and>
    w_output w = [ApiReply (CommitReply 1 (Err e))]"
  unfolding example_boot
  by (simp add: task_round_def task_on_api_request_def task_commit_def fresh_commit Let_def save_unchanged fresh_ctx
      commit_status_of_def task_drain_def ctx_drain_envelopes_def empty_world_def)


theorem proxied_commit_is_commit_witness:
  "\<exists>t w e. task_round example_task_env all_io (\<lambda>_. 0)
      (task_new example_task_env all_io example_task_config None empty_world) empty_world
      (ConnEvent (ProxyRequestReceived sled_b
        \<lparr>wrq_request_id = [1], wrq_op = WireCommit (replicate 16 1) 1\<rparr>)) = Done (t, w) \<and>
    w_output w = [SendProxyResponse sled_b \<lparr>wrs_request_id = [1], wrs_result = Err (WireCommitError e)\<rparr>]"
proof -
  let ?t = "task_new example_task_env all_io example_task_config None empty_world"
  obtain t w e where c: "task_round example_task_env all_io (\<lambda>_. 0) ?t empty_world
      (ApiEvent (ApiCommit (replicate 16 1) 1)) = Done (t, w)" "w_output w = [ApiReply (CommitReply 1 (Err e))]"
    using example_commit by blast
  have "\<not> nt_shutdown ?t" by (simp add: example_boot)
  from proxied_commit_is_commit [OF this c(1), of sled_b "[1]"] c(2) show ?thesis
    by (auto simp: empty_world_def wire_commit_result_def)
qed

end
