(* ===== verification/TQ_Durability.thy ===== *)
theory TQ_Durability
  imports TQ_Task
begin

text \<open>
  The promise behind the order of operations in \<^verbatim>\<open>trust-quorum/src/task.rs\<close>: state is
  persisted before a client is answered and before a message leaves the node. Hence, over any
  number of requests, messages, failing writes and crashes, whatever the node has said to
  anyone is backed by what a restart would load from disk.
\<close>

section \<open>Durable statements\<close>

text \<open>What a restart that can read every path finds.\<close>

definition durable_state :: "task_env \<Rightarrow> task_config \<Rightarrow> lrtq_share_data option \<Rightarrow> files \<Rightarrow> persistent_state" where
  "durable_state T cfg lrtq fs =
     (case psl_load (te_state_serde T) all_io fs (tc_tq_ledger_paths cfg) of
        Some l \<Rightarrow> psl_state l
      | None \<Rightarrow> (case lrtq of Some d \<Rightarrow> ps_new_lrtq_only d | None \<Rightarrow> ps_empty))"

text \<open>
  What a message claims about its sender: a prepare and the requests concern a stored
  configuration, an acknowledgement a prepared one, a commit advance a committed one.
\<close>

fun recorded :: "persistent_state \<Rightarrow> peer_msg_kind \<Rightarrow> bool" where
  "recorded d (Prepare c s) = (bt_get (ps_configs d) (cfg_epoch c) = Some c)"
| "recorded d (PrepareAck e) = ps_has_prepared d e"
| "recorded d (GetShare e) = bt_contains_key (ps_configs d) e"
| "recorded d (ShareMsg e s) = ps_has_prepared d e"
| "recorded d GetLrtqShare = (ps_lrtq d \<noteq> None)"
| "recorded d (LrtqShareMsg s) = (map_option lsd_share (ps_lrtq d) = Some s)"
| "recorded d (Expunged e) = bt_contains_key (ps_configs d) e"
| "recorded d (CommitAdvance c) =
     (cfg_epoch c \<in> set (ps_commits d) \<and> bt_get (ps_configs d) (cfg_epoch c) = Some c)"

fun reply_durable :: "persistent_state \<Rightarrow> api_reply \<Rightarrow> bool" where
  "reply_durable d (CommitReply e res) = (res = Ok Committed \<longrightarrow> e \<in> set (ps_commits d))"
| "reply_durable d (PrepareAndCommitReply e res) = (res = Ok Committed \<longrightarrow> e \<in> set (ps_commits d))"
| "reply_durable d (LoadLatestRackSecretReply res) =
     (\<forall>e s. res = Ok (Some (e, s)) \<longrightarrow> e \<in> set (ps_commits d))"
| "reply_durable d _ = True"

fun output_durable :: "persistent_state \<Rightarrow> task_output \<Rightarrow> bool" where
  "output_durable d (SendEnvelope m) = recorded d (pm_kind (env_msg m))"
| "output_durable d (ApiReply r) = reply_durable d r"
| "output_durable d _ = True"

lemma ps_extends_configs: "bt_contains_key (ps_configs d) e \<Longrightarrow> ps_extends d d' \<Longrightarrow> bt_contains_key (ps_configs d') e"
  by (auto simp: ps_extends_def bt_contains_get)

lemma ps_extends_prepared: "ps_has_prepared d e \<Longrightarrow> ps_extends d d' \<Longrightarrow> ps_has_prepared d' e"
  unfolding ps_has_prepared_def using ps_extends_configs [of d e d'] by (auto simp: ps_extends_def bt_contains_keys)

lemma recorded_mono: "recorded d k \<Longrightarrow> ps_extends d d' \<Longrightarrow> recorded d' k"
  by (cases k) (auto simp: ps_extends_configs ps_extends_prepared, auto simp: ps_extends_def)

lemma reply_durable_mono: "reply_durable d r \<Longrightarrow> ps_extends d d' \<Longrightarrow> reply_durable d' r"
  by (cases r) (auto simp: ps_extends_def)

lemma output_durable_mono: "output_durable d out \<Longrightarrow> ps_extends d d' \<Longrightarrow> output_durable d' out"
  by (cases out) (auto intro: recorded_mono reply_durable_mono)

lemma justified_recorded: "justified ps to k \<Longrightarrow> recorded ps k"
  by (cases k) (auto simp: bt_contains_get bt_contains_keys ps_has_prepared_def)

lemma unreported_extends:
  assumes "ledger_steps me ps b ps'" and "\<not> b"
  shows "ps_extends ps' ps"
  using ledger_steps_unreported [OF assms] ledger_steps_extends [OF assms(1)] by (simp add: ps_extends_def)

section \<open>The invariant\<close>

text \<open>In the middle of a round: the disk is behind the node only if the change flag is set.\<close>

definition disk_behind :: "persistent_state \<Rightarrow> node_ctx \<Rightarrow> bool" where
  "disk_behind d ctx \<longleftrightarrow>
     ps_extends d (ctx_persistent_state ctx) \<and>
     (ctx_persistent_state_changed ctx \<or> ps_extends (ctx_persistent_state ctx) d)"

definition task_mid :: "task_env \<Rightarrow> task_config \<Rightarrow> lrtq_share_data option \<Rightarrow> node_task \<Rightarrow> world \<Rightarrow> bool" where
  "task_mid T cfg lrtq t w \<longleftrightarrow>
     (let d = durable_state T cfg lrtq (w_tq_files w) in
      nt_config t = cfg \<and> ctx_platform_id (nt_ctx t) = tc_baseboard_id cfg \<and>
      node_inv (te_crypto T) (nt_ctx t) (nt_node t) \<and> disk_behind d (nt_ctx t) \<and>
      wf_ps d \<and> member_of_all (tc_baseboard_id cfg) d \<and>
      generations_below (psl_ledgerable (te_state_serde T)) psl_generation (w_tq_files w)
        (tc_tq_ledger_paths cfg) (nt_tq_ledger_generation t) \<and>
      (\<forall>m\<in>set (ctx_outgoing (nt_ctx t)). recorded (ctx_persistent_state (nt_ctx t)) (pm_kind (env_msg m))) \<and>
      (\<forall>out\<in>set (w_output w). output_durable d out) \<and>
      nt_committed_epoch t = ps_latest_committed_epoch d)"

text \<open>Between rounds: everything is saved and sent.\<close>

definition task_inv :: "task_env \<Rightarrow> task_config \<Rightarrow> lrtq_share_data option \<Rightarrow> node_task \<Rightarrow> world \<Rightarrow> bool" where
  "task_inv T cfg lrtq t w \<longleftrightarrow>
     task_mid T cfg lrtq t w \<and> \<not> ctx_persistent_state_changed (nt_ctx t) \<and> ctx_outgoing (nt_ctx t) = []"

lemma task_mid_irrelevant [simp]:
  "task_mid T cfg lrtq (t\<lparr>nt_shutdown := x\<rparr>) w = task_mid T cfg lrtq t w"
  "task_mid T cfg lrtq (t\<lparr>nt_network_config := n\<rparr>) w = task_mid T cfg lrtq t w"
  "task_mid T cfg lrtq (t\<lparr>nt_proxy_tracker := p\<rparr>) w = task_mid T cfg lrtq t w"
  "task_mid T cfg lrtq t (w\<lparr>w_network_files := f\<rparr>) = task_mid T cfg lrtq t w"
  by (simp_all add: task_mid_def)

lemma task_mid_node:
  assumes "task_mid T cfg lrtq t w" and "node_refines (te_crypto T) (nt_ctx t) ctx n"
    and "sends_justified (nt_ctx t) ctx"
  shows "task_mid T cfg lrtq (t\<lparr>nt_node := n, nt_ctx := ctx\<rparr>) w"
proof -
  let ?d = "durable_state T cfg lrtq (w_tq_files w)"
  from assms(2) have led: "ctx_ledger (nt_ctx t) ctx" and inv: "node_inv (te_crypto T) ctx n"
    by (simp_all add: node_refines_def)
  note ext = ctx_ledger_extends [OF led]
  from led obtain b where b: "ledger_steps (ctx_platform_id (nt_ctx t)) (ctx_persistent_state (nt_ctx t)) b (ctx_persistent_state ctx)"
    "ctx_persistent_state_changed ctx = (ctx_persistent_state_changed (nt_ctx t) \<or> b)"
    and id: "ctx_platform_id ctx = ctx_platform_id (nt_ctx t)" by (auto simp: ctx_ledger_def)
  have "disk_behind ?d (nt_ctx t)" using assms(1) by (simp add: task_mid_def Let_def)
  then have disk: "disk_behind ?d ctx"
    using ext b(2) unreported_extends [OF b(1)] unfolding disk_behind_def by (meson ps_extends_trans)
  have "\<forall>m\<in>set (ctx_outgoing ctx). recorded (ctx_persistent_state ctx) (pm_kind (env_msg m))"
    using assms(1,3) recorded_mono [OF _ ext]
    by (auto simp: task_mid_def Let_def sends_justified_def justified_envelope_def intro: justified_recorded)
  with assms(1) inv disk id show ?thesis by (simp add: task_mid_def Let_def)
qed

lemma psl_save_written:
  "psl_save J io fs paths g st = Done (fs', g') \<Longrightarrow> \<exists>p\<in>set paths. io_write_ok io p"
  by (elim psl_save_Done) (auto simp: ledger_commit_eq Let_def ledger_new_with_def split: if_splits)

lemma task_mid_save:
  assumes "task_mid T cfg lrtq t w" and "task_save_persistent_state T io t w = Done (t', w')"
    and "json_inverts (psl_ledgerable (te_state_serde T))"
    and "ctx_persistent_state_changed (nt_ctx t) \<longrightarrow> nt_tq_ledger_generation t + 1 \<noteq> 0"
  shows "task_mid T cfg lrtq t' w'" and "\<not> ctx_persistent_state_changed (nt_ctx t')"
    and "ctx_persistent_state (nt_ctx t') = ctx_persistent_state (nt_ctx t)"
    and "\<not> ctx_persistent_state_changed (nt_ctx t) \<Longrightarrow> t' = t \<and> w' = w"
proof -
  let ?ctx = "(nt_ctx t)\<lparr>ctx_persistent_state_changed := False\<rparr>" and ?ps = "ctx_persistent_state (nt_ctx t)"
  let ?paths = "tc_tq_ledger_paths (nt_config t)" and ?J = "te_state_serde T"
  have same: "t\<lparr>nt_ctx := ?ctx\<rparr> = t" if "\<not> ctx_persistent_state_changed (nt_ctx t)" using that by simp
  have "task_mid T cfg lrtq t' w' \<and> \<not> ctx_persistent_state_changed (nt_ctx t') \<and>
    ctx_persistent_state (nt_ctx t') = ?ps \<and> (\<not> ctx_persistent_state_changed (nt_ctx t) \<longrightarrow> t' = t \<and> w' = w)"
  proof (cases "ctx_persistent_state_changed (nt_ctx t)")
    case False
    then show ?thesis using assms(1,2) same
      by (simp add: task_save_persistent_state_def ctx_persistent_state_change_check_and_reset_def)
  next
    case True
    then obtain fs g where save: "psl_save ?J io (w_tq_files w) ?paths (nt_tq_ledger_generation t) ?ps = Done (fs, g)"
      and t': "t' = t\<lparr>nt_ctx := ?ctx, nt_tq_ledger_generation := g, nt_committed_epoch := ps_latest_committed_epoch ?ps\<rparr>"
      and w': "w' = w\<lparr>w_tq_files := fs\<rparr>"
      using assms(2)
      by (auto simp: task_save_persistent_state_def ctx_persistent_state_change_check_and_reset_def Let_def outcome_simps)
    from assms(1) have mid: "nt_config t = cfg" "node_inv (te_crypto T) (nt_ctx t) (nt_node t)"
      "generations_below (psl_ledgerable ?J) psl_generation (w_tq_files w) ?paths (nt_tq_ledger_generation t)"
      "ps_extends (durable_state T cfg lrtq (w_tq_files w)) ?ps"
      by (auto simp: task_mid_def Let_def disk_behind_def)
    have "\<exists>p\<in>set ?paths. io_write_ok io p \<and> io_read_ok all_io p"
      using psl_save_written [OF save] by (simp add: all_io_def)
    note load = psl_save_load [OF assms(3) save mid(3) assms(4) [rule_format, OF True] this]
    have d: "durable_state T cfg lrtq fs = ?ps" using load(1) mid(1) by (simp add: durable_state_def)
    have out: "output_durable ?ps o'" if "o' \<in> set (w_output w)" for o'
      using that assms(1) output_durable_mono [OF _ mid(4)] by (simp add: task_mid_def Let_def)
    show ?thesis
      using assms(1) d load(2) out mid(2)
      by (simp add: t' w' task_mid_def Let_def True node_inv_def disk_behind_def)
  qed
  then show "task_mid T cfg lrtq t' w'" and "\<not> ctx_persistent_state_changed (nt_ctx t')"
    and "ctx_persistent_state (nt_ctx t') = ?ps"
    and "\<not> ctx_persistent_state_changed (nt_ctx t) \<Longrightarrow> t' = t \<and> w' = w" by blast+
qed

lemma task_mid_emit:
  assumes "task_mid T cfg lrtq t w" and "\<And>out. out \<in> set outs \<Longrightarrow> output_durable (durable_state T cfg lrtq (w_tq_files w)) out"
  shows "task_mid T cfg lrtq t (emit w outs)"
  using assms by (auto simp: task_mid_def Let_def emit_def)

lemma task_mid_commits:
  assumes "task_mid T cfg lrtq t w" and "\<not> ctx_persistent_state_changed (nt_ctx t)"
  shows "ps_extends (ctx_persistent_state (nt_ctx t)) (durable_state T cfg lrtq (w_tq_files w))"
  using assms by (simp add: task_mid_def Let_def disk_behind_def)

lemma task_drain_inv:
  assumes "task_mid T cfg lrtq t w" and "\<not> ctx_persistent_state_changed (nt_ctx t)" and "task_drain t w = (t', w')"
  shows "task_inv T cfg lrtq t' w'"
proof -
  let ?d = "durable_state T cfg lrtq (w_tq_files w)"
  have "recorded ?d (pm_kind (env_msg m))" if "m \<in> set (ctx_outgoing (nt_ctx t))" for m
    using that assms(1) recorded_mono [OF _ task_mid_commits [OF assms(1,2)]] by (simp add: task_mid_def Let_def)
  then have "task_mid T cfg lrtq t (emit w (map SendEnvelope (ctx_outgoing (nt_ctx t))))"
    by (intro task_mid_emit [OF assms(1)]) auto
  moreover have "w' = emit w (map SendEnvelope (ctx_outgoing (nt_ctx t)))" "t' = t\<lparr>nt_ctx := (nt_ctx t)\<lparr>ctx_outgoing := []\<rparr>\<rparr>"
    using assms(3) by (simp_all add: task_drain_def ctx_drain_envelopes_def)
  ultimately show ?thesis
    using assms(2) by (auto simp: task_inv_def task_mid_def Let_def node_inv_def disk_behind_def)
qed

section \<open>Handlers\<close>

text \<open>After an event, before the messages are sent.\<close>

definition task_settled :: "task_env \<Rightarrow> task_config \<Rightarrow> lrtq_share_data option \<Rightarrow> node_task \<Rightarrow> world \<Rightarrow> bool" where
  "task_settled T cfg lrtq t w \<longleftrightarrow> task_mid T cfg lrtq t w \<and> \<not> ctx_persistent_state_changed (nt_ctx t)"

lemma task_settled_irrelevant [simp]:
  "task_settled T cfg lrtq (t\<lparr>nt_shutdown := x\<rparr>) w = task_settled T cfg lrtq t w"
  "task_settled T cfg lrtq (t\<lparr>nt_network_config := n\<rparr>) w = task_settled T cfg lrtq t w"
  "task_settled T cfg lrtq (t\<lparr>nt_proxy_tracker := p\<rparr>) w = task_settled T cfg lrtq t w"
  "task_settled T cfg lrtq t (w\<lparr>w_network_files := f\<rparr>) = task_settled T cfg lrtq t w"
  by (simp_all add: task_settled_def)

lemma task_settled_emit:
  "task_settled T cfg lrtq t w \<Longrightarrow>
   (\<And>out. out \<in> set outs \<Longrightarrow> output_durable (durable_state T cfg lrtq (w_tq_files w)) out) \<Longrightarrow>
   task_settled T cfg lrtq t (emit w outs)"
  by (simp add: task_settled_def task_mid_emit)

lemma task_mid_call:
  assumes "task_mid T cfg lrtq t w" and "input_ok i"
    and "node_call (te_crypto T) rng (nt_node t) (nt_ctx t) i = Done (n, ctx)"
  shows "task_mid T cfg lrtq (t\<lparr>nt_node := n, nt_ctx := ctx\<rparr>) w"
proof -
  have "node_inv (te_crypto T) (nt_ctx t) (nt_node t)" using assms(1) by (simp add: task_mid_def Let_def)
  from task_mid_node [OF assms(1) node_call_refines [OF this assms(3,2)] node_call_justified [OF this assms(3,2)]]
  show ?thesis .
qed

text \<open>The interface between the task and the ledger: the format is invertible, the generation does not overflow.\<close>

definition can_save :: "task_env \<Rightarrow> node_task \<Rightarrow> bool" where
  "can_save T t \<longleftrightarrow> json_inverts (psl_ledgerable (te_state_serde T)) \<and> nt_tq_ledger_generation t + 1 \<noteq> 0"

lemma save_settles:
  assumes "task_mid T cfg lrtq t w" and "task_save_persistent_state T io t w = Done (t', w')"
    and "can_save T t"
  shows "task_settled T cfg lrtq t' w'"
    and "ps_extends (ctx_persistent_state (nt_ctx t)) (durable_state T cfg lrtq (w_tq_files w'))"
proof -
  note s = task_mid_save [OF assms(1,2)]
  show settled: "task_settled T cfg lrtq t' w'"
    using s(1,2) assms(3) by (simp add: can_save_def task_settled_def)
  show "ps_extends (ctx_persistent_state (nt_ctx t)) (durable_state T cfg lrtq (w_tq_files w'))"
    using s(3) assms(3) task_mid_commits [of T cfg lrtq t' w'] settled by (simp add: can_save_def task_settled_def)
qed

lemma save_settled_again:
  assumes "task_settled T cfg lrtq t w" and "task_save_persistent_state T io t w = Done (t', w')"
    and "json_inverts (psl_ledgerable (te_state_serde T))"
  shows "t' = t" and "w' = w"
  using task_mid_save(4) [of T cfg lrtq t w io t' w'] assms by (simp_all add: task_settled_def)

lemma commit_status_of_Committed:
  "commit_status_of ctx epoch r = Ok Committed \<Longrightarrow> epoch \<in> set (ps_commits (ctx_persistent_state ctx))"
  by (auto simp: commit_status_of_def bs_contains_def split: sum.splits if_splits)

lemma ps_extends_commits: "ps_extends d d' \<Longrightarrow> e \<in> set (ps_commits d) \<Longrightarrow> e \<in> set (ps_commits d')"
  by (auto simp: ps_extends_def)

lemma task_commit_settles:
  assumes "task_mid T cfg lrtq t w" and "task_commit T io t w rack_id epoch = Done (t', w', res)" and "can_save T t"
  shows "task_settled T cfg lrtq t' w'"
    and "res = Ok Committed \<Longrightarrow> epoch \<in> set (ps_commits (durable_state T cfg lrtq (w_tq_files w')))"
proof -
  from assms(2) obtain n ctx r where c: "commit_configuration (nt_node t) (nt_ctx t) rack_id epoch = Done (n, ctx, r)"
    "task_save_persistent_state T io (t\<lparr>nt_node := n, nt_ctx := ctx\<rparr>) w = Done (t', w')" "res = commit_status_of ctx epoch r"
    by (auto simp: task_commit_def Let_def outcome_simps)
  have "task_mid T cfg lrtq (t\<lparr>nt_node := n, nt_ctx := ctx\<rparr>) w"
    by (rule task_mid_call [OF assms(1), of "CommitConfiguration rack_id epoch" "\<lambda>_. 0"])
      (simp_all add: c(1) drop_answer_def)
  note s = save_settles [OF this c(2)]
  show "task_settled T cfg lrtq t' w'" using s(1) assms(3) by (simp add: can_save_def)
  show "epoch \<in> set (ps_commits (durable_state T cfg lrtq (w_tq_files w')))" if "res = Ok Committed"
    using s(2) assms(3) that commit_status_of_Committed ps_extends_commits by (fastforce simp: can_save_def c(3))
qed

lemma task_prepare_and_commit_settles:
  assumes "task_mid T cfg lrtq t w" and "task_prepare_and_commit T io t w config = Done (t', w', res)" and "can_save T t"
  shows "task_settled T cfg lrtq t' w'"
    and "res = Ok Committed \<Longrightarrow> cfg_epoch config \<in> set (ps_commits (durable_state T cfg lrtq (w_tq_files w')))"
proof -
  from assms(2) obtain n ctx r where c: "prepare_and_commit (nt_node t) (nt_ctx t) config = Done (n, ctx, r)"
    "task_save_persistent_state T io (t\<lparr>nt_node := n, nt_ctx := ctx\<rparr>) w = Done (t', w')"
    "res = commit_status_of ctx (cfg_epoch config) r"
    by (auto simp: task_prepare_and_commit_def Let_def outcome_simps)
  have "task_mid T cfg lrtq (t\<lparr>nt_node := n, nt_ctx := ctx\<rparr>) w"
    by (rule task_mid_call [OF assms(1), of "PrepareAndCommit config" "\<lambda>_. 0"])
      (simp_all add: c(1) drop_answer_def)
  note s = save_settles [OF this c(2)]
  show "task_settled T cfg lrtq t' w'" using s(1) assms(3) by (simp add: can_save_def)
  show "cfg_epoch config \<in> set (ps_commits (durable_state T cfg lrtq (w_tq_files w')))" if "res = Ok Committed"
    using s(2) assms(3) that commit_status_of_Committed ps_extends_commits by (fastforce simp: can_save_def c(3))
qed

lemma store_network_settles:
  assumes "task_settled T cfg lrtq t w" and "task_store_network_config T io t w config from = Done (t', w')"
  shows "task_settled T cfg lrtq t' w'"
  using assms
  by (auto simp: task_store_network_config_def task_broadcast_network_config_def Let_def outcome_simps
      intro!: task_settled_emit)

lemma send_network_settles:
  "task_settled T cfg lrtq t w \<Longrightarrow> task_settled T cfg lrtq t (task_send_network_config t' w peer)"
  by (auto simp: task_send_network_config_def intro: task_settled_emit split: option.split)

lemma update_network_settles:
  assumes "task_settled T cfg lrtq t w" and "task_update_network_config T io t w config = Done (t', w', res)"
  shows "task_settled T cfg lrtq t' w'"
  using assms by (auto simp: task_update_network_config_def Let_def outcome_simps store_network_settles split: if_splits)

lemma proxy_request_settles:
  assumes "task_settled T cfg lrtq t w" and "task_handle_proxy_request T io t w from req = Done (t', w')" and "can_save T t"
  shows "task_settled T cfg lrtq t' w'"
proof -
  have mid: "task_mid T cfg lrtq t w" using assms(1) by (simp add: task_settled_def)
  show ?thesis
    using assms(1,2)
    by (cases "wrq_op req")
      (auto simp: task_handle_proxy_request_def Let_def outcome_simps
        intro!: task_settled_emit dest: task_commit_settles(1) [OF mid _ assms(3)]
          task_prepare_and_commit_settles(1) [OF mid _ assms(3)])
qed

lemma settled_call:
  assumes "task_settled T cfg lrtq t w" and "input_ok i"
    and "node_call (te_crypto T) rng (nt_node t) (nt_ctx t) i = Done (n, ctx)"
    and "ctx_persistent_state_changed ctx = ctx_persistent_state_changed (nt_ctx t)"
  shows "task_settled T cfg lrtq (t\<lparr>nt_node := n, nt_ctx := ctx\<rparr>) w"
  using assms task_mid_call by (auto simp: task_settled_def)

lemma settled_disconnect:
  "task_settled T cfg lrtq t w \<Longrightarrow> task_settled T cfg lrtq (t\<lparr>nt_ctx := node_on_disconnect (nt_ctx t) peer\<rparr>) w"
  using settled_call [of T cfg lrtq t w "OnDisconnect peer" "\<lambda>_. 0" "nt_node t"]
  by (simp add: node_on_disconnect_def ctx_remove_connection_def)

lemma on_disconnect_settles:
  assumes "task_settled T cfg lrtq t w" and "task_on_disconnect t w task_id peer = Done (t', w')"
  shows "task_settled T cfg lrtq t' w'"
proof -
  from assms(2) obtain tr ans where d: "t' = (case peer of
        Some p \<Rightarrow> t\<lparr>nt_proxy_tracker := tr, nt_ctx := node_on_disconnect (nt_ctx t) p\<rparr>
      | None \<Rightarrow> t\<lparr>nt_proxy_tracker := tr\<rparr>)"
    "w' = emit w (map (\<lambda>(tx, res). ProxyAnswer tx res) ans)"
    by (cases peer) (auto simp: task_on_disconnect_def Let_def outcome_simps)
  have "task_settled T cfg lrtq (t\<lparr>nt_proxy_tracker := tr\<rparr>) w" using assms(1) by simp
  then have "task_settled T cfg lrtq t' w"
    using settled_disconnect [of T cfg lrtq "t\<lparr>nt_proxy_tracker := tr\<rparr>" w] by (auto simp: d(1) split: option.split)
  then show ?thesis unfolding d(2) by (rule task_settled_emit) auto
qed

lemma settled_load:
  assumes "task_settled T cfg lrtq t w" and "node_load_rack_secret (nt_node t) (nt_ctx t) epoch = Done (n, ctx, r)"
  shows "task_settled T cfg lrtq (t\<lparr>nt_node := n, nt_ctx := ctx\<rparr>) w"
proof (rule settled_call [OF assms(1), of "LoadRackSecret epoch" "\<lambda>_. 0"])
  have inv: "node_inv (te_crypto T) (nt_ctx t) (nt_node t)"
    using assms(1) by (simp add: task_settled_def task_mid_def Let_def)
  then have "wf_ps (ctx_persistent_state (nt_ctx t))"
    "rsl_ok (ctx_persistent_state (nt_ctx t)) (node_rack_secret_loader (nt_node t))"
    by (simp_all add: node_inv_def node_ok_def)
  from rsl_load_wf [OF this, of epoch] assms(2) have "ctx_frame (nt_ctx t) ctx"
    by (auto simp: node_load_rack_secret_def)
  then show "ctx_persistent_state_changed ctx = ctx_persistent_state_changed (nt_ctx t)"
    by (simp only: ctx_frame_def)
qed (simp_all add: assms(2) drop_answer_def)

lemma conn_msg_settles:
  assumes "task_settled T cfg lrtq t w" and "task_on_conn_msg T io rng t w msg = Done (t', w')" and "can_save T t"
  shows "task_settled T cfg lrtq t' w'"
proof -
  have J: "json_inverts (psl_ledgerable (te_state_serde T))" using assms(3) by (simp add: can_save_def)
  have mid: "task_mid T cfg lrtq t w" using assms(1) by (simp add: task_settled_def)
  have connect: ?thesis
    if "node_on_connect (nt_node t) (nt_ctx t) peer = Done ctx"
      "task_save_persistent_state T io (t\<lparr>nt_ctx := ctx\<rparr>) (task_send_network_config t w peer) = Done (t', w')" for peer ctx
  proof -
    have m: "task_mid T cfg lrtq t (task_send_network_config t w peer)"
      using send_network_settles [OF assms(1)] by (simp add: task_settled_def)
    have "task_mid T cfg lrtq (t\<lparr>nt_node := nt_node t, nt_ctx := ctx\<rparr>) (task_send_network_config t w peer)"
      by (rule task_mid_call [OF m, of "OnConnect peer" "\<lambda>_. 0"]) (simp_all add: that(1))
    then show ?thesis using save_settles(1) [OF _ that(2)] assms(3) by (simp add: can_save_def)
  qed
  have again: ?thesis
    if "task_settled T cfg lrtq t1 w1" "task_save_persistent_state T io t1 w1 = Done (t', w')" for t1 w1
    using save_settled_again [OF that J] that(1) by simp
  show ?thesis
  proof (cases msg)
    case (Received sender m)
    with assms(2) obtain n ctx where "node_handle (te_crypto T) (nt_node t) (nt_ctx t) sender m rng = Done (n, ctx)"
      and s: "task_save_persistent_state T io (t\<lparr>nt_node := n, nt_ctx := ctx\<rparr>) w = Done (t', w')"
      by (auto simp: task_on_conn_msg_def Let_def outcome_simps)
    then have "task_mid T cfg lrtq (t\<lparr>nt_node := n, nt_ctx := ctx\<rparr>) w"
      using task_mid_call [OF mid, of "HandleMsg sender m" rng] by simp
    then show ?thesis using save_settles(1) [OF _ s] assms(3) by (simp add: can_save_def)
  next
    case (ProxyRequestReceived sender req)
    with assms(2) obtain t1 w1 where "task_handle_proxy_request T io t w sender req = Done (t1, w1)"
      and s: "task_save_persistent_state T io t1 w1 = Done (t', w')"
      by (auto simp: task_on_conn_msg_def Let_def outcome_simps)
    with proxy_request_settles [OF assms(1) _ assms(3)] again show ?thesis by blast
  next
    case (ReceivedNetworkConfig sender config)
    with assms(2) obtain t1 w1 where s: "task_save_persistent_state T io t1 w1 = Done (t', w')"
      and "task_store_network_config T io t w config (Some sender) = Done (t1, w1) \<or> t1 = t \<and> w1 = w"
      by (auto simp: task_on_conn_msg_def Let_def outcome_simps split: if_splits)
    with store_network_settles [OF assms(1)] assms(1) again show ?thesis by blast
  next
    case (ProxyResponseReceived sender rsp)
    with assms(2) obtain tr ans where s: "task_save_persistent_state T io (t\<lparr>nt_proxy_tracker := tr\<rparr>)
        (emit w (map (\<lambda>(tx, res). ProxyAnswer tx res) ans)) = Done (t', w')"
      by (auto simp: task_on_conn_msg_def Let_def outcome_simps)
    then show ?thesis using assms(1) by (intro again [OF _ s] task_settled_emit) auto
  next
    case (Accepted peer)
    with assms(2) obtain ctx where "node_on_connect (nt_node t) (nt_ctx t) peer = Done ctx"
      "task_save_persistent_state T io (t\<lparr>nt_ctx := ctx\<rparr>) (task_send_network_config t w peer) = Done (t', w')"
      by (auto simp: task_on_conn_msg_def Let_def outcome_simps)
    then show ?thesis by (rule connect)
  next
    case (Connected peer)
    with assms(2) obtain ctx where "node_on_connect (nt_node t) (nt_ctx t) peer = Done ctx"
      "task_save_persistent_state T io (t\<lparr>nt_ctx := ctx\<rparr>) (task_send_network_config t w peer) = Done (t', w')"
      by (auto simp: task_on_conn_msg_def Let_def outcome_simps)
    then show ?thesis by (rule connect)
  qed
qed

text \<open>A request carries a set of members.\<close>

fun request_ok :: "api_request \<Rightarrow> bool" where
  "request_ok (ApiReconfigure msg) = bs_ok (rm_members msg)"
| "request_ok (ApiLrtqUpgrade msg) = bs_ok (lum_members msg)"
| "request_ok _ = True"

lemma load_latest_settles:
  assumes "task_settled T cfg lrtq t w" and "task_on_api_request T io rng t w ApiLoadLatestRackSecret = Done (t', w')"
  shows "task_settled T cfg lrtq t' w'"
proof (cases "ps_latest_committed_epoch (ctx_persistent_state (nt_ctx t))")
  case None
  then show ?thesis using assms by (auto simp: task_on_api_request_def intro!: task_settled_emit)
next
  case (Some epoch)
  then obtain n ctx res where load: "node_load_rack_secret (nt_node t) (nt_ctx t) epoch = Done (n, ctx, res)"
    and t': "t' = t\<lparr>nt_node := n, nt_ctx := ctx\<rparr>"
    and w': "w' = emit w [ApiReply (LoadLatestRackSecretReply
      (case res of Inr (Some secret) \<Rightarrow> Ok (Some (epoch, secret)) | Inr None \<Rightarrow> Ok None | Inl e \<Rightarrow> Err e))]"
    using assms(2) by (auto simp: task_on_api_request_def outcome_simps)
  have "epoch \<in> set (ps_commits (durable_state T cfg lrtq (w_tq_files w)))"
    using latest_committed_in_commits [OF Some] assms(1) task_mid_commits ps_extends_commits
    by (force simp: task_settled_def)
  then show ?thesis
    unfolding t' w' by (intro task_settled_emit settled_load [OF assms(1) load]) (auto split: sum.splits option.splits)
qed

lemma coordinate_settles:
  assumes "task_settled T cfg lrtq t w" and "can_save T t" and "input_ok i"
    and "node_call (te_crypto T) rng (nt_node t) (nt_ctx t) i = Done (n, ctx)"
    and "task_save_persistent_state T io (t\<lparr>nt_node := n, nt_ctx := ctx\<rparr>) w = Done (t', w1)"
    and "\<And>d. reply_durable d r"
  shows "task_settled T cfg lrtq t' (emit w1 [ApiReply r])"
proof -
  have "task_mid T cfg lrtq (t\<lparr>nt_node := n, nt_ctx := ctx\<rparr>) w"
    using task_mid_call [OF _ assms(3,4)] assms(1) by (simp add: task_settled_def)
  from save_settles(1) [OF this assms(5)] assms(2,6) show ?thesis
    by (intro task_settled_emit) (auto simp: can_save_def)
qed

lemma api_request_settles:
  assumes "task_settled T cfg lrtq t w" and "task_on_api_request T io rng t w request = Done (t', w')"
    and "can_save T t" and "request_ok request"
  shows "task_settled T cfg lrtq t' w'"
proof -
  have mid: "task_mid T cfg lrtq t w" using assms(1) by (simp add: task_settled_def)
  show ?thesis
  proof (cases request)
    case (ApiBootstrapAddresses disconnected)
    then have "ofold (\<lambda>(self, w) (task_id, peer). task_on_disconnect self w task_id (Some peer)) (t, w) disconnected =
        Done (t', w')" using assms(2) by (simp add: task_on_api_request_def)
    then have "case_prod (task_settled T cfg lrtq) (t', w')"
      by (rule ofold_invariant [where P = "case_prod (task_settled T cfg lrtq)"])
        (use assms(1) in \<open>auto intro: on_disconnect_settles\<close>)
    then show ?thesis by simp
  next
    case ApiClearSecrets
    have "task_settled T cfg lrtq (t\<lparr>nt_node := node_clear_secrets (nt_node t), nt_ctx := nt_ctx t\<rparr>) w"
      by (rule settled_call [OF assms(1), of ClearSecrets "\<lambda>_. 0"]) simp_all
    with ApiClearSecrets assms(2) show ?thesis by (auto simp: task_on_api_request_def)
  next
    case (ApiCommit rack_id epoch)
    with assms(2) obtain w1 res where c: "task_commit T io t w rack_id epoch = Done (t', w1, res)"
      "w' = emit w1 [ApiReply (CommitReply epoch res)]"
      by (auto simp: task_on_api_request_def outcome_simps)
    from task_commit_settles [OF mid c(1) assms(3)] show ?thesis
      unfolding c(2) by (intro task_settled_emit) auto
  next
    case (ApiPrepareAndCommit config)
    with assms(2) obtain w1 res where c: "task_prepare_and_commit T io t w config = Done (t', w1, res)"
      "w' = emit w1 [ApiReply (PrepareAndCommitReply (cfg_epoch config) res)]"
      by (auto simp: task_on_api_request_def outcome_simps)
    from task_prepare_and_commit_settles [OF mid c(1) assms(3)] show ?thesis
      unfolding c(2) by (intro task_settled_emit) auto
  next
    case ApiLoadLatestRackSecret
    then show ?thesis using load_latest_settles [OF assms(1)] assms(2) by blast
  next
    case (ApiLoadRackSecret epoch)
    with assms(2) obtain n ctx res where c: "node_load_rack_secret (nt_node t) (nt_ctx t) epoch = Done (n, ctx, res)"
      "t' = t\<lparr>nt_node := n, nt_ctx := ctx\<rparr>" "w' = emit w [ApiReply (LoadRackSecretReply res)]"
      by (auto simp: task_on_api_request_def outcome_simps)
    show ?thesis unfolding c(2,3) by (intro task_settled_emit settled_load [OF assms(1) c(1)]) simp
  next
    case (ApiLrtqUpgrade msg)
    with assms(2) obtain n ctx res w1 where c:
      "coordinate_upgrade_from_lrtq (te_crypto T) (nt_node t) (nt_ctx t) msg rng = Done (n, ctx, res)"
      "task_save_persistent_state T io (t\<lparr>nt_node := n, nt_ctx := ctx\<rparr>) w = Done (t', w1)"
      "w' = emit w1 [ApiReply (LrtqUpgradeReply res)]"
      by (auto simp: task_on_api_request_def outcome_simps)
    show ?thesis unfolding c(3)
      by (rule coordinate_settles [OF assms(1,3) _ _ c(2), of "CoordinateUpgradeFromLrtq msg" rng])
        (use ApiLrtqUpgrade assms(4) in \<open>simp_all add: c(1) drop_answer_def\<close>)
  next
    case (ApiReconfigure msg)
    with assms(2) obtain n ctx res w1 where c:
      "coordinate_reconfiguration (te_crypto T) (nt_node t) (nt_ctx t) msg rng = Done (n, ctx, res)"
      "task_save_persistent_state T io (t\<lparr>nt_node := n, nt_ctx := ctx\<rparr>) w = Done (t', w1)"
      "w' = emit w1 [ApiReply (ReconfigureReply res)]"
      by (auto simp: task_on_api_request_def outcome_simps)
    show ?thesis unfolding c(3)
      by (rule coordinate_settles [OF assms(1,3) _ _ c(2), of "CoordinateReconfiguration msg" rng])
        (use ApiReconfigure assms(4) in \<open>simp_all add: c(1) drop_answer_def\<close>)
  next
    case (ApiUpdateNetworkConfig config)
    with assms(2) obtain w1 res where c: "task_update_network_config T io t w config = Done (t', w1, res)"
      "w' = emit w1 [ApiReply (UpdateNetworkConfigReply res)]"
      by (auto simp: task_on_api_request_def outcome_simps)
    show ?thesis unfolding c(2) by (intro task_settled_emit update_network_settles [OF assms(1) c(1)]) simp
  next
    case (ApiProxy destination req tx conn_state)
    with assms(1,2) show ?thesis
      by (cases conn_state) (auto simp: task_on_api_request_def outcome_simps intro!: task_settled_emit)
  qed (use assms(1,2) in \<open>auto simp: task_on_api_request_def intro!: task_settled_emit\<close>)
qed

section \<open>Rounds and crashes\<close>

lemma psl_load_newest:
  "generations_below (psl_ledgerable J) psl_generation fs paths
     (case psl_load J all_io fs paths of Some l \<Rightarrow> psl_generation l | None \<Rightarrow> 0)"
  unfolding psl_load_def ledger_new_read by (rule psl_gen.read_newest) (simp add: psl_ledgerable_def)

fun event_ok :: "task_event \<Rightarrow> bool" where
  "event_ok (ApiEvent request) = request_ok request"
| "event_ok _ = True"

lemma task_round_inv:
  assumes "task_inv T cfg lrtq t w" and "task_round T io rng t w event = Done (t', w')"
    and "can_save T t" and "event_ok event"
  shows "task_inv T cfg lrtq t' w'"
proof -
  have settled: "task_settled T cfg lrtq t w" using assms(1) by (simp add: task_inv_def task_settled_def)
  have drain: "task_inv T cfg lrtq t' w'"
    if "obind m (\<lambda>(self, w). Done (task_drain self w)) = Done (t', w')"
      "\<And>t1 w1. m = Done (t1, w1) \<Longrightarrow> task_settled T cfg lrtq t1 w1" for m
    using that task_drain_inv by (fastforce simp: obind_eq_Done task_settled_def)
  show ?thesis
  proof (cases "nt_shutdown t")
    case False
    show ?thesis
    proof (cases event)
      case (ConnStep d)
      then show ?thesis using assms(2) False settled
        by (intro drain [of "case d of Some (task_id, peer_id) \<Rightarrow> task_on_disconnect t w task_id peer_id | None \<Rightarrow> Done (t, w)"])
          (auto simp: task_round_def dest: on_disconnect_settles [OF settled] split: option.splits)
    qed (use assms False settled in \<open>auto simp: task_round_def
        intro: api_request_settles conn_msg_settles elim!: drain\<close>)
  qed (use assms in \<open>simp add: task_round_def\<close>)
qed

text \<open>
  The life of a task: it boots on empty disks, takes rounds, and may die at any time, also within
  a round, after some of what the round says has left the node. A restart finds what is on
  disk; one of the newest copies is readable.
\<close>

definition newest_readable :: "task_env \<Rightarrow> task_config \<Rightarrow> io_env \<Rightarrow> files \<Rightarrow> bool" where
  "newest_readable T cfg io fs \<longleftrightarrow>
     psl_load (te_state_serde T) io fs (tc_tq_ledger_paths cfg) =
     psl_load (te_state_serde T) all_io fs (tc_tq_ledger_paths cfg)"

inductive task_run :: "task_env \<Rightarrow> task_config \<Rightarrow> lrtq_share_data option \<Rightarrow> node_task \<Rightarrow> world \<Rightarrow> bool"
  for T :: task_env and cfg :: task_config and lrtq :: "lrtq_share_data option" where
  Boot: "(\<forall>p\<in>set (tc_tq_ledger_paths cfg). w_tq_files w p = None) \<Longrightarrow> w_output w = [] \<Longrightarrow>
    task_run T cfg lrtq (task_new T io cfg lrtq w) w"
| Round: "task_run T cfg lrtq t w \<Longrightarrow> event_ok event \<Longrightarrow> nt_tq_ledger_generation t + 1 \<noteq> 0 \<Longrightarrow>
    task_round T io rng t w event = Done (t', w') \<Longrightarrow> task_run T cfg lrtq t' w'"
| Crash: "task_run T cfg lrtq t w \<Longrightarrow> newest_readable T cfg io (w_tq_files w) \<Longrightarrow>
    task_run T cfg lrtq (task_new T io cfg lrtq w) w"
| CrashWithin: "task_run T cfg lrtq t w \<Longrightarrow> event_ok event \<Longrightarrow> nt_tq_ledger_generation t + 1 \<noteq> 0 \<Longrightarrow>
    task_round T io rng t w event = Done (t', w') \<Longrightarrow>
    length (w_output w) \<le> k \<Longrightarrow> w'' = w'\<lparr>w_output := take k (w_output w')\<rparr> \<Longrightarrow>
    newest_readable T cfg io' (w_tq_files w'') \<Longrightarrow>
    task_run T cfg lrtq (task_new T io' cfg lrtq w'') w''"

lemma member_of_all_fresh [simp]: "member_of_all me ps_empty" "member_of_all me (ps_new_lrtq_only lrtq)"
  by (simp_all add: member_of_all_def ps_empty_def ps_new_lrtq_only_def)

lemma task_new_inv:
  assumes "newest_readable T cfg io (w_tq_files w)" and "wf_ps (durable_state T cfg lrtq (w_tq_files w))"
    and "member_of_all (tc_baseboard_id cfg) (durable_state T cfg lrtq (w_tq_files w))"
    and "\<forall>out\<in>set (w_output w). output_durable (durable_state T cfg lrtq (w_tq_files w)) out"
  shows "task_inv T cfg lrtq (task_new T io cfg lrtq w) w"
proof -
  let ?J = "te_state_serde T" and ?fs = "w_tq_files w" and ?paths = "tc_tq_ledger_paths cfg"
  let ?d = "durable_state T cfg lrtq ?fs" and ?t = "task_new T io cfg lrtq w"
  have load: "psl_load ?J io ?fs ?paths = psl_load ?J all_io ?fs ?paths"
    using assms(1) by (simp add: newest_readable_def)
  have ctx: "nt_ctx ?t = ctx_new_with_persistent_state (tc_baseboard_id cfg) ?d"
    by (simp add: task_new_def load durable_state_def ctx_new_def ctx_new_with_persistent_state_def split: option.split)
  have "nt_config ?t = cfg" "nt_node ?t = node_new"
    "nt_committed_epoch ?t = ps_latest_committed_epoch (ctx_persistent_state (nt_ctx ?t))"
    by (simp_all add: task_new_def Let_def split: prod.split)
  then have t: "nt_config ?t = cfg" "nt_node ?t = node_new" "nt_committed_epoch ?t = ps_latest_committed_epoch ?d"
    using ctx by (simp_all add: ctx_new_with_persistent_state_def)
  have gen: "nt_tq_ledger_generation ?t = (case psl_load ?J all_io ?fs ?paths of Some l \<Rightarrow> psl_generation l | None \<Rightarrow> 0)"
    by (simp add: task_new_def load split: option.split)
  have "generations_below (psl_ledgerable ?J) psl_generation ?fs ?paths (nt_tq_ledger_generation ?t)"
    unfolding gen by (rule psl_load_newest)
  with assms ctx t show ?thesis
    by (simp add: task_inv_def task_mid_def Let_def disk_behind_def ctx_new_with_persistent_state_def node_inv_new)
qed

lemma task_run_inv:
  assumes "task_run T cfg lrtq t w" and "json_inverts (psl_ledgerable (te_state_serde T))"
  shows "task_inv T cfg lrtq t w"
  using assms(1)
proof (induction rule: task_run.induct)
  case (Boot w io)
  then have "set (readable (psl_ledgerable (te_state_serde T)) io' (w_tq_files w) (tc_tq_ledger_paths cfg)) = {}" for io'
    by (auto simp: set_readable read_from_def)
  then have none: "psl_load (te_state_serde T) io' (w_tq_files w) (tc_tq_ledger_paths cfg) = None" for io'
    by (simp add: psl_load_def ledger_new_read ledger_read_def newest_None)
  show ?case
    by (rule task_new_inv)
      (use Boot none in \<open>simp_all add: newest_readable_def durable_state_def split: option.split\<close>)
next
  case (Round t w event io rng t' w')
  then show ?case using assms(2) task_round_inv by (auto simp: can_save_def)
next
  case (Crash t w io)
  then show ?case by (intro task_new_inv) (simp_all add: task_inv_def task_mid_def Let_def)
next
  case (CrashWithin t w event io rng t' w' k w'' io')
  have "task_inv T cfg lrtq t' w'"
    using CrashWithin assms(2) task_round_inv by (auto simp: can_save_def)
  moreover have "set (w_output w'') \<subseteq> set (w_output w')" "w_tq_files w'' = w_tq_files w'"
    using CrashWithin by (simp_all add: set_take_subset)
  ultimately show ?case
    using CrashWithin by (intro task_new_inv) (auto simp: task_inv_def task_mid_def Let_def)
qed


definition example_prepare_event :: task_event where
  "example_prepare_event = ConnEvent (Received sled_b
     \<lparr>pm_rack_id = replicate 16 1, pm_kind = Prepare example_config (example_secret_shares ! 0)\<rparr>)"

definition example_ack :: envelope where
  "example_ack = \<lparr>env_to = sled_b, env_from = sled_a,
     env_msg = \<lparr>pm_rack_id = replicate 16 1, pm_kind = PrepareAck 1\<rparr>\<rparr>"

lemma example_handles_prepare:
  "node_handle E node_new ((ctx_new sled_a)\<lparr>ctx_connected := c\<rparr>) sled_b
     \<lparr>pm_rack_id = replicate 16 1, pm_kind = Prepare example_config (example_secret_shares ! 0)\<rparr> rng =
   Done (node_new, (ctx_new sled_a)\<lparr>ctx_connected := c, ctx_persistent_state := prepared_ps, ctx_persistent_state_changed := True,
     ctx_outgoing := [example_ack]\<rparr>)"
proof -
  have member: "bt_contains_key (cfg_members example_config) sled_a"
    by (simp add: example_config_def bt_contains_keys bt_keys_def example_secret_shares_props)
  have cfg: "cfg_epoch example_config = 1" "cfg_rack_id example_config = replicate 16 1"
    by (simp_all add: example_config_def)
  let ?ctx = "(ctx_new sled_a)\<lparr>ctx_connected := c, ctx_persistent_state := prepared_ps, ctx_persistent_state_changed := True\<rparr>"
  have update: "ctx_update_persistent_state ((ctx_new sled_a)\<lparr>ctx_connected := c\<rparr>)
      (\<lambda>ps. Done (save_prepare example_config (example_secret_shares ! 0) ps)) = Done (?ctx, True)"
    by (simp add: ctx_update_persistent_state_def save_prepare_def Let_def cfg ctx_new_def prepared_ps_def ps_empty_def
        bt_contains_key_def)
  have send: "ctx_send ?ctx sled_b (PrepareAck 1) = Done (?ctx\<lparr>ctx_outgoing := [example_ack]\<rparr>)"
    by (simp add: ctx_send_def prepared_ps_def ps_rack_id_def ps_latest_config_def bt_values_def last_opt_def cfg
        ctx_new_def example_ack_def)
  show ?thesis
    using member update send
    by (simp add: node_handle_def node_dispatch_def handle_prepare_def Let_def fresh_ctx ps_is_expunged_def cfg)
      (simp add: node_new_def)
qed

definition saved_files :: files where
  "saved_files = written (psl_ledgerable (te_state_serde example_task_env)) all_io (\<lambda>_. None)
     \<lparr>psl_generation = 1, psl_state = prepared_ps\<rparr> [''a'', ''b'']"

lemma example_save:
  "psl_save (te_state_serde example_task_env) all_io (\<lambda>_. None) [''a'', ''b''] 0 prepared_ps = Done (saved_files, 1)"
  by (simp add: psl_save_def ledger_commit_eq Let_def ledger_new_with_def psl_ledgerable_def psl_generation_bump_def
      one_serde_def all_io_def ex_disj_distrib example_task_env_def saved_files_def)

lemma example_unconnected: "(ctx_new me)\<lparr>ctx_connected := []\<rparr> = ctx_new me"
  by (simp add: ctx_new_def)

lemma example_round:
  "\<exists>t. task_round example_task_env all_io (\<lambda>_. 0)
      (task_new example_task_env all_io example_task_config None empty_world) empty_world example_prepare_event =
    Done (t, \<lparr>w_tq_files = saved_files, w_network_files = \<lambda>_. None, w_output = [SendEnvelope example_ack]\<rparr>)"
  unfolding example_boot using example_save
  by (simp add: task_round_def Let_def example_prepare_event_def task_on_conn_msg_def
      example_handles_prepare [of _ "[]", unfolded example_unconnected] task_save_persistent_state_def ctx_persistent_state_change_check_and_reset_def
      task_drain_def ctx_drain_envelopes_def emit_def empty_world_def example_task_config_def)


end
