(* ===== verification/Framing.thy ===== *)
theory Framing
  imports Rust_Prelude "HOL-Library.Sublist" "HOL-Library.Product_Lexorder"
begin

text \<open>
  The wire format that the connections of both protocols share: a message is serialised and
  prefixed with its size as four bytes in big-endian order. The serialisation (crate
  \<open>ciborium\<close>) is a parameter. The specification of a reader is \<open>unframe\<close>, which cuts
  a sequence of bytes into messages; the locale \<open>framed_conn\<close> is the contract of a connection
  task, with the consequence that messages arrive in order however the bytes are cut.
\<close>

section \<open>Definitions\<close>

text \<open>\<open>SocketAddrV6\<close> with its order: address, port, flow information and scope.\<close>

type_synonym socket_addr = "128 word \<times> 16 word \<times> 32 word \<times> 32 word"

text \<open>Big-endian byte strings, as \<open>to_be_bytes\<close> and \<open>from_be_bytes\<close> have them.\<close>

fun be_bytes :: "nat \<Rightarrow> nat \<Rightarrow> u8 list" where
  "be_bytes 0 n = []"
| "be_bytes (Suc k) n = be_bytes k (n div 256) @ [word_of_nat n]"

definition be_nat :: "u8 list \<Rightarrow> nat" where
  "be_nat bs = foldl (\<lambda>n b. n * 256 + unat b) 0 bs"

definition u32_to_be_bytes :: "u32 \<Rightarrow> u8 list" where
  "u32_to_be_bytes n = be_bytes 4 (unat n)"

definition u32_from_be_bytes :: "u8 list \<Rightarrow> u32" where
  "u32_from_be_bytes bs = word_of_nat (be_nat bs)"

definition u64_to_be_bytes :: "u64 \<Rightarrow> u8 list" where
  "u64_to_be_bytes n = be_bytes 8 (unat n)"

definition u64_from_be_bytes :: "u8 list \<Rightarrow> u64" where
  "u64_from_be_bytes bs = word_of_nat (be_nat bs)"

definition u32_try_from :: "nat \<Rightarrow> u32 option" where
  "u32_try_from n = (if n < 2 ^ 32 then Some (word_of_nat n) else None)"

text \<open>A \<open>Cursor\<close> over a vector, as far as reading from it goes.\<close>

record cursor =
  cur_bytes :: "u8 list"
  cur_position :: nat

definition cursor_new :: "u8 list \<Rightarrow> cursor" where
  "cursor_new bs = \<lparr>cur_bytes = bs, cur_position = 0\<rparr>"

definition cursor_remaining :: "cursor \<Rightarrow> u8 list" where
  "cursor_remaining c = drop (cur_position c) (cur_bytes c)"

definition has_remaining :: "cursor \<Rightarrow> bool" where
  "has_remaining c = (cur_position c < length (cur_bytes c))"

definition cursor_advance :: "cursor \<Rightarrow> nat \<Rightarrow> cursor" where
  "cursor_advance c n = c\<lparr>cur_position := cur_position c + n\<rparr>"

text \<open>Ranges of a slice, and \<open>copy_within\<close>; a range that is not in the slice panics.\<close>

definition slice_of :: "nat \<Rightarrow> nat \<Rightarrow> 'a list \<Rightarrow> 'a list outcome" where
  "slice_of a b xs = (if a \<le> b \<and> b \<le> length xs then Done (take (b - a) (drop a xs))
     else Panic ''slice index out of range'')"

definition copy_within :: "nat \<Rightarrow> nat \<Rightarrow> 'a list \<Rightarrow> 'a list outcome" where
  "copy_within a b xs = obind (slice_of a b xs) (\<lambda>src. Done (src @ drop (length src) xs))"

text \<open>Reading from a socket into a part of a buffer.\<close>

definition fill_from :: "nat \<Rightarrow> 'a list \<Rightarrow> 'a list \<Rightarrow> 'a list" where
  "fill_from a data xs = take a xs @ data @ drop (a + length data) xs"

text \<open>The serialisation, with its failures.\<close>

record 'm cbor =
  into_writer :: "'m \<Rightarrow> u8 list option"
  from_reader :: "u8 list \<Rightarrow> 'm option"

definition cbor_inverts :: "'m cbor \<Rightarrow> bool" where
  "cbor_inverts C = (\<forall>m b. into_writer C m = Some b \<longrightarrow> from_reader C b = Some m)"

definition FRAME_HEADER_SIZE :: nat where
  "FRAME_HEADER_SIZE = 4"

datatype ser_error = SerError

definition write_framed :: "'m cbor \<Rightarrow> 'm \<Rightarrow> (u8 list, ser_error) rust_result outcome" where
  "write_framed C msg =
     (case into_writer C msg of
        None \<Rightarrow> Done (Err SerError)
      | Some body \<Rightarrow>
          (let buf = replicate FRAME_HEADER_SIZE 0 @ body in
           obind (expect ''called `Result::unwrap()` on an `Err` value''
                    (u32_try_from (length buf - FRAME_HEADER_SIZE))) (\<lambda>size.
             Done (Ok (u32_to_be_bytes size @ drop FRAME_HEADER_SIZE buf)))))"

definition read_frame_size :: "u8 list \<Rightarrow> nat" where
  "read_frame_size buf = unat (u32_from_be_bytes buf)"

section \<open>Specification of a reader\<close>

datatype stop = More "u8 list" | TooLong nat | Malformed

text \<open>
  The messages of a sequence of bytes, and what is left: an incomplete message, or why the
  connection has to be closed. A message may be at most \<open>limit\<close> bytes long.
\<close>

function unframe :: "'m cbor \<Rightarrow> nat \<Rightarrow> u8 list \<Rightarrow> 'm list \<times> stop" where
  "unframe C limit bs =
     (if length bs < FRAME_HEADER_SIZE then ([], More bs)
      else let size = read_frame_size (take FRAME_HEADER_SIZE bs);
               frame_end = size + FRAME_HEADER_SIZE in
        if size > limit then ([], TooLong size)
        else if frame_end > length bs then ([], More bs)
        else (case from_reader C (take size (drop FRAME_HEADER_SIZE bs)) of
                None \<Rightarrow> ([], Malformed)
              | Some m \<Rightarrow> (let (ms, rest) = unframe C limit (drop frame_end bs) in (m # ms, rest))))"
  by pat_completeness auto
termination by (relation "measure (\<lambda>(_, _, bs). length bs)") (auto simp: FRAME_HEADER_SIZE_def)

declare unframe.simps [simp del]

text \<open>The frame of a message that can be written, and the messages that can be sent.\<close>

definition frame :: "'m cbor \<Rightarrow> 'm \<Rightarrow> u8 list" where
  "frame C m = (case write_framed C m of Done (Inr buf) \<Rightarrow> buf | _ \<Rightarrow> [])"

definition frames :: "'m cbor \<Rightarrow> 'm list \<Rightarrow> u8 list" where
  "frames C ms = concat (map (frame C) ms)"

definition body_fits :: "'m cbor \<Rightarrow> nat \<Rightarrow> 'm \<Rightarrow> bool" where
  "body_fits C limit m = (case into_writer C m of Some b \<Rightarrow> length b \<le> limit \<and> length b < 2 ^ 32 | None \<Rightarrow> False)"

text \<open>Runs of a task, one event after the other, with the outputs in order.\<close>

inductive runs :: "('s \<Rightarrow> 'e \<Rightarrow> 's \<times> 'o list \<Rightarrow> bool) \<Rightarrow> 's \<Rightarrow> 'e list \<Rightarrow> 'o list \<Rightarrow> 's \<Rightarrow> bool"
  for step :: "'s \<Rightarrow> 'e \<Rightarrow> 's \<times> 'o list \<Rightarrow> bool" and s0 :: 's where
  runs_start: "runs step s0 [] [] s0"
| runs_step: "runs step s0 es out s \<Longrightarrow> step s e (s', out') \<Longrightarrow> runs step s0 (es @ [e]) (out @ out') s'"

text \<open>A run computed by a function.\<close>

fun run_list :: "('s \<Rightarrow> 'e \<Rightarrow> ('s \<times> 'o list) option) \<Rightarrow> 's \<Rightarrow> 'e list \<Rightarrow> ('s \<times> 'o list) option" where
  "run_list f s [] = Some (s, [])"
| "run_list f s (e # es) =
     (case f s e of
        None \<Rightarrow> None
      | Some (s1, out) \<Rightarrow> (case run_list f s1 es of None \<Rightarrow> None | Some (s2, out') \<Rightarrow> Some (s2, out @ out')))"

lemma runs_Cons:
  assumes "runs step s1 es out s2" and "step s e (s1, out1)"
  shows "runs step s (e # es) (out1 @ out) s2"
  using assms
proof (induction rule: runs.induct)
  case runs_start
  then show ?case using runs.runs_step [OF runs.runs_start, of step s e s1 out1] by simp
next
  case (runs_step es out s' e' s'' out')
  then show ?case using runs.runs_step [of step s "e # es" "out1 @ out" s' e' s'' out'] by simp
qed

lemma runs_run_list:
  assumes "run_list f s es = Some (s', out)" and "\<And>s e r. f s e = Some r \<Longrightarrow> step s e r"
  shows "runs step s es out s'"
  using assms(1)
proof (induction es arbitrary: s out)
  case Nil
  then show ?case by (auto intro: runs_start)
next
  case (Cons e es)
  from Cons.prems obtain s1 out1 out2 where step: "f s e = Some (s1, out1)" "run_list f s1 es = Some (s', out2)"
    and out: "out = out1 @ out2"
    by (auto split: option.splits)
  show ?case unfolding out by (rule runs_Cons [OF Cons.IH [OF step(2)] assms(2) [OF step(1)]])
qed

section \<open>Byte strings\<close>

lemma length_be_bytes [simp]: "length (be_bytes k n) = k"
  by (induction k arbitrary: n) simp_all

lemma be_bytes_numeral:
  "be_bytes (numeral k) n = be_bytes (pred_numeral k) (n div 256) @ [word_of_nat n]"
  by (simp add: numeral_eq_Suc [of k])

lemma be_nat_snoc [simp]: "be_nat (bs @ [b]) = be_nat bs * 256 + unat b"
  by (simp add: be_nat_def)

lemma be_nat_be_bytes: "be_nat (be_bytes k n) = n mod 256 ^ k"
proof (induction k arbitrary: n)
  case (Suc k)
  have "unat (word_of_nat n :: u8) = n mod 256" by (simp add: unat_of_nat)
  with Suc show ?case by (simp add: mod_mult2_eq mult.commute)
qed (simp add: be_nat_def)

lemma u32_be_roundtrip [simp]: "u32_from_be_bytes (u32_to_be_bytes n) = n"
  using unsigned_less [of n, where 'a = nat] by (simp add: u32_from_be_bytes_def u32_to_be_bytes_def be_nat_be_bytes)

lemma u64_be_roundtrip [simp]: "u64_from_be_bytes (u64_to_be_bytes n) = n"
  using unsigned_less [of n, where 'a = nat] by (simp add: u64_from_be_bytes_def u64_to_be_bytes_def be_nat_be_bytes)

lemma length_u32_to_be_bytes [simp]: "length (u32_to_be_bytes n) = 4"
  by (simp add: u32_to_be_bytes_def)

lemma length_u64_to_be_bytes [simp]: "length (u64_to_be_bytes n) = 8"
  by (simp add: u64_to_be_bytes_def)

lemma cursor_simps [simp]:
  "cursor_remaining (cursor_new bs) = bs" "has_remaining c \<longleftrightarrow> cursor_remaining c \<noteq> []"
  "cursor_remaining (cursor_advance c n) = drop n (cursor_remaining c)"
  by (auto simp: cursor_remaining_def cursor_new_def has_remaining_def cursor_advance_def add.commute)

lemma slice_of_eq: "a \<le> b \<Longrightarrow> b \<le> length xs \<Longrightarrow> slice_of a b xs = Done (take (b - a) (drop a xs))"
  by (simp add: slice_of_def)

lemma copy_within_eq:
  "a \<le> b \<Longrightarrow> b \<le> length xs \<Longrightarrow> copy_within a b xs = Done (take (b - a) (drop a xs) @ drop (b - a) xs)"
  by (simp add: copy_within_def slice_of_eq)

text \<open>The same for the part of a buffer that is in use.\<close>

lemma slice_of_take:
  "a \<le> b \<Longrightarrow> b \<le> n \<Longrightarrow> n \<le> length xs \<Longrightarrow> slice_of a b xs = Done (take (b - a) (drop a (take n xs)))"
  by (simp add: slice_of_eq drop_take min_absorb1)

lemma copy_within_take:
  "a \<le> n \<Longrightarrow> n \<le> length xs \<Longrightarrow>
   copy_within a n xs = Done (drop a (take n xs) @ drop (length (drop a (take n xs))) xs)"
  by (simp add: copy_within_eq drop_take min_absorb1)

lemma take_drop_append [simp]: "take n xs @ drop n xs @ ys = xs @ ys"
  by (simp flip: append_assoc)

lemma fill_from_simps [simp]:
  "a + length data \<le> length xs \<Longrightarrow> length (fill_from a data xs) = length xs"
  "a + length data \<le> length xs \<Longrightarrow> take (a + length data) (fill_from a data xs) = take a xs @ data"
  by (simp_all add: fill_from_def)

section \<open>Frames\<close>

lemma frame_eq:
  assumes "body_fits C limit m" and "into_writer C m = Some b"
  shows "write_framed C m = Done (Ok (frame C m))" and "frame C m = u32_to_be_bytes (word_of_nat (length b)) @ b"
    and "read_frame_size (u32_to_be_bytes (word_of_nat (length b))) = length b"
  using assms by (simp_all add: body_fits_def frame_def write_framed_def u32_try_from_def read_frame_size_def
      FRAME_HEADER_SIZE_def unat_of_nat)

lemma write_framed_eq: "write_framed C m = Done (Ok buf) \<Longrightarrow> frame C m = buf"
  by (simp add: frame_def)

lemma frames_simps [simp]:
  "frames C [] = []" "frames C (m # ms) = frame C m @ frames C ms"
  "frames C (ms @ ns) = frames C ms @ frames C ns"
  by (simp_all add: frames_def)

lemma unframe_frame:
  assumes "cbor_inverts C" and "body_fits C limit m"
  shows "unframe C limit (frame C m @ bs) = (let (ms, rest) = unframe C limit bs in (m # ms, rest))"
proof -
  from assms(2) obtain b where b: "into_writer C m = Some b" "length b \<le> limit"
    by (auto simp: body_fits_def split: option.splits)
  moreover have "from_reader C b = Some m" using assms(1) b by (simp add: cbor_inverts_def)
  ultimately show ?thesis
    unfolding frame_eq(2) [OF assms(2) b(1)] append_assoc
    by (simp add: unframe.simps [of C limit "u32_to_be_bytes _ @ b @ bs"] frame_eq(3) [OF assms(2) b(1)] FRAME_HEADER_SIZE_def)
qed

lemma unframe_short: "length bs < FRAME_HEADER_SIZE \<Longrightarrow> unframe C limit bs = ([], More bs)"
  by (simp add: unframe.simps)

text \<open>An incomplete frame waits for the rest.\<close>

lemma unframe_part:
  assumes "body_fits C limit m" and "strict_prefix p (frame C m)"
  shows "unframe C limit p = ([], More p)"
proof (cases "length p < FRAME_HEADER_SIZE")
  case False
  from assms(1) obtain b where b: "into_writer C m = Some b" "length b \<le> limit"
    by (auto simp: body_fits_def split: option.splits)
  note fr = frame_eq [OF assms(1) b(1)]
  from assms(2) have "take 4 p = take 4 (frame C m)" "length p < length (frame C m)"
    using False by (auto simp: strict_prefix_def prefix_def FRAME_HEADER_SIZE_def)
  then show ?thesis using b(2) False by (simp add: unframe.simps [of C limit p] fr FRAME_HEADER_SIZE_def)
qed (simp add: unframe_short)

text \<open>The messages of a part of a sequence of frames: those whose frames are complete.\<close>

lemma unframe_prefix:
  assumes "cbor_inverts C" and "list_all (body_fits C limit) ms" and "prefix p (frames C ms)"
  shows "\<exists>k r. k \<le> length ms \<and> p = frames C (take k ms) @ r \<and> unframe C limit p = (take k ms, More r) \<and>
    (k < length ms \<longrightarrow> strict_prefix r (frame C (ms ! k))) \<and> (k = length ms \<longrightarrow> r = [])"
  using assms
proof (induction ms arbitrary: p)
  case Nil
  then show ?case by (simp add: unframe_short FRAME_HEADER_SIZE_def)
next
  case (Cons m ms)
  have fits: "body_fits C limit m" "list_all (body_fits C limit) ms" using Cons.prems(2) by simp_all
  show ?case
  proof (cases "prefix (frame C m) p")
    case True
    then obtain q where q: "p = frame C m @ q" by (auto simp: prefix_def)
    with Cons.prems(3) have "prefix q (frames C ms)" by simp
    from Cons.IH [OF Cons.prems(1) fits(2) this] obtain k r where "k \<le> length ms" "q = frames C (take k ms) @ r"
      "unframe C limit q = (take k ms, More r)" "k < length ms \<longrightarrow> strict_prefix r (frame C (ms ! k))"
      "k = length ms \<longrightarrow> r = []"
      by auto
    then show ?thesis
      by (intro exI [of _ "Suc k"] exI [of _ r]) (simp add: q unframe_frame [OF Cons.prems(1) fits(1)])
  next
    case False
    with Cons.prems(3) have "strict_prefix p (frame C m)"
      by (auto simp: prefix_append strict_prefix_def)
    with unframe_part [OF fits(1) this] show ?thesis
      by (intro exI [of _ 0] exI [of _ p]) simp
  qed
qed

text \<open>Either the bytes are the beginning of a frame, or they start with one.\<close>

lemma unframe_cases:
  assumes "unframe C limit bs = (ms, More rest)"
  obtains "ms = []" "rest = bs"
  | m ms' where "\<not> length bs < FRAME_HEADER_SIZE" "\<not> read_frame_size (take FRAME_HEADER_SIZE bs) > limit"
    "\<not> read_frame_size (take FRAME_HEADER_SIZE bs) + FRAME_HEADER_SIZE > length bs"
    "from_reader C (take (read_frame_size (take FRAME_HEADER_SIZE bs)) (drop FRAME_HEADER_SIZE bs)) = Some m"
    "unframe C limit (drop (read_frame_size (take FRAME_HEADER_SIZE bs) + FRAME_HEADER_SIZE) bs) = (ms', More rest)"
    "ms = m # ms'"
  using assms
  by (auto simp: unframe.simps [of C limit bs] Let_def split: if_splits option.splits prod.splits)

text \<open>Reading in two portions gives what reading at once gives.\<close>

lemma unframe_append:
  "unframe C limit bs = (ms, More rest) \<Longrightarrow>
   unframe C limit (bs @ added) = (let (ns, s) = unframe C limit (rest @ added) in (ms @ ns, s))"
proof (induction C limit bs arbitrary: ms rest rule: unframe.induct)
  case (1 C limit bs)
  let ?size = "read_frame_size (take FRAME_HEADER_SIZE bs)"
  from 1(2) show ?case
  proof (cases rule: unframe_cases)
    case 1
    then show ?thesis by (simp split: prod.split)
  next
    case (2 m ms')
    have ih: "unframe C limit (drop (?size + FRAME_HEADER_SIZE) bs @ added) =
      (let (ns, s) = unframe C limit (rest @ added) in (ms' @ ns, s))"
      by (rule 1(1) [OF 2(1) refl refl 2(2-5)])
    have "take FRAME_HEADER_SIZE (bs @ added) = take FRAME_HEADER_SIZE bs" using 2(1) by simp
    moreover have "take ?size (drop FRAME_HEADER_SIZE (bs @ added)) = take ?size (drop FRAME_HEADER_SIZE bs)"
      "drop (?size + FRAME_HEADER_SIZE) (bs @ added) = drop (?size + FRAME_HEADER_SIZE) bs @ added"
      using 2(1,3) by simp_all
    ultimately show ?thesis
      using 2(1-4) by (simp add: unframe.simps [of C limit "bs @ added"] ih 2(6) Let_def del: drop_append split: prod.split)
  qed
qed

lemma unframe_rest: "unframe C limit bs = (ms, More rest) \<Longrightarrow> unframe C limit rest = ([], More rest)"
proof (induction C limit bs arbitrary: ms rest rule: unframe.induct)
  case (1 C limit bs)
  from 1(2) show ?case
  proof (cases rule: unframe_cases)
    case (2 m ms')
    show ?thesis by (rule 1(1) [OF 2(1) refl refl 2(2-5)])
  qed (use 1(2) in simp)
qed

lemma unframe_idle:
  "unframe C limit bs = ([], More bs) \<Longrightarrow>
   length bs < FRAME_HEADER_SIZE \<or> length bs < read_frame_size (take FRAME_HEADER_SIZE bs) + FRAME_HEADER_SIZE"
  by (auto simp: unframe.simps [of C limit bs] Let_def split: if_splits option.splits prod.splits)

text \<open>What waits for the rest of its message is shorter than the longest frame.\<close>

lemma unframe_bound: "unframe C limit bs = ([], More bs) \<Longrightarrow> length bs < limit + FRAME_HEADER_SIZE"
  by (auto simp: unframe.simps [of C limit bs] Let_def split: if_splits option.splits prod.splits)

section \<open>The contract of a connection\<close>

text \<open>
  A connection task has bytes it has read and not yet delivered (\<open>pending\<close>) and bytes it has
  sent or will send (\<open>outgoing\<close>); an event reads a \<open>chunk\<close> or \<open>accepts\<close> messages
  for sending. A round without an error delivers what the specification finds, and
  appends the frames of what it accepts.
\<close>

locale framed_conn =
  fixes C :: "'m cbor" and limit :: nat
    and step :: "'s \<Rightarrow> 'e \<Rightarrow> 's \<times> 'o list \<Rightarrow> bool"
    and conn_ok :: "'s \<Rightarrow> bool"
    and pending :: "'s \<Rightarrow> u8 list"
    and outgoing :: "'s \<Rightarrow> u8 list"
    and chunk :: "'e \<Rightarrow> u8 list"
    and accepts :: "'e \<Rightarrow> 'm list"
    and fwd :: "'m \<Rightarrow> 'o list"
  assumes step_ok: "conn_ok s \<Longrightarrow> step s e (s', out) \<Longrightarrow> conn_ok s'"
    and step_reads: "conn_ok s \<Longrightarrow> step s e (s', out) \<Longrightarrow>
      \<exists>ms. unframe C limit (pending s @ chunk e) = (ms, More (pending s')) \<and> out = concat (map fwd ms)"
    and step_writes: "conn_ok s \<Longrightarrow> step s e (s', out) \<Longrightarrow> outgoing s' = outgoing s @ frames C (accepts e)"
begin

lemma run_ok: "runs step s0 es out s \<Longrightarrow> conn_ok s0 \<Longrightarrow> conn_ok s"
  by (induction rule: runs.induct) (auto intro: step_ok)

lemma run_reads:
  assumes "runs step s0 es out s" and "conn_ok s0" and "pending s0 = []"
  shows "\<exists>ms. unframe C limit (concat (map chunk es)) = (ms, More (pending s)) \<and> out = concat (map fwd ms)"
  using assms
proof (induction rule: runs.induct)
  case runs_start
  then show ?case by (simp add: unframe_short FRAME_HEADER_SIZE_def)
next
  case (runs_step es out s e s' out')
  then obtain ms where ms: "unframe C limit (concat (map chunk es)) = (ms, More (pending s))" "out = concat (map fwd ms)"
    by blast
  from step_reads [OF run_ok [OF runs_step(1,4)] runs_step(2)] obtain ns where
    "unframe C limit (pending s @ chunk e) = (ns, More (pending s'))" "out' = concat (map fwd ns)" by blast
  with ms show ?case by (auto simp: unframe_append [OF ms(1)] intro!: exI [of _ "ms @ ns"])
qed

lemma run_writes:
  assumes "runs step s0 es out s" and "conn_ok s0"
  shows "outgoing s = outgoing s0 @ frames C (concat (map accepts es))"
  using assms
proof (induction rule: runs.induct)
  case (runs_step es out s e s' out')
  with step_writes [OF run_ok [OF runs_step(1,4)] runs_step(2)] show ?case by simp
qed simp

text \<open>
  A task that has read a part of the frames of some messages has delivered the messages
  whose frames it has read completely, in order.
\<close>

lemma run_delivers:
  fixes esB defines "got \<equiv> concat (map chunk esB)"
  assumes "cbor_inverts C" and "list_all (body_fits C limit) sent" and "prefix got (frames C sent)"
    and "runs step b0 esB outB b" "conn_ok b0" "pending b0 = []"
  shows "\<exists>k \<le> length sent. outB = concat (map fwd (take k sent)) \<and> (k = length sent \<longleftrightarrow> got = frames C sent)"
proof -
  from unframe_prefix [OF assms(2-4)] obtain k r where k: "k \<le> length sent"
    "got = frames C (take k sent) @ r" "unframe C limit got = (take k sent, More r)"
    "k < length sent \<longrightarrow> strict_prefix r (frame C (sent ! k))" "k = length sent \<longrightarrow> r = []"
    by (elim exE conjE) (rule that)
  obtain ms where "unframe C limit got = (ms, More (pending b))" "outB = concat (map fwd ms)"
    using run_reads [OF assms(5-7)] unfolding got_def by blast
  with k(3) have out: "outB = concat (map fwd (take k sent))" by simp
  have "k = length sent" if "got = frames C sent"
  proof (rule ccontr)
    assume "k \<noteq> length sent"
    with k(1) have less: "k < length sent" by simp
    have "frames C sent = frames C (take k sent) @ frame C (sent ! k) @ frames C (drop (Suc k) sent)"
      using arg_cong [OF id_take_nth_drop [OF less], of "frames C"] by (simp only: frames_simps)
    moreover have "length r < length (frame C (sent ! k))" using k(4) less by (auto simp: strict_prefix_def prefix_def)
    moreover have "length got = length (frames C (take k sent)) + length r" by (simp add: k(2))
    ultimately show False by (simp add: that)
  qed
  moreover have "got = frames C sent" if "k = length sent" using k(2,5) by (simp add: that)
  ultimately have "k = length sent \<longleftrightarrow> got = frames C sent" by blast
  with k(1) out show ?thesis by blast
qed

end

end
