(* ===== verification/TQ_Established_Conn.thy ===== *)
theory TQ_Established_Conn
  imports TQ_Task Framing
begin

text \<open>
  A connection to a peer, running in its own task (\<^verbatim>\<open>trust-quorum/src/established_conn.rs\<close>).
  The socket is a sequence of bytes taken over by the writer, and how many of these have been
  flushed. A round of the task takes one event: a tick of the ping timer, a message of the
  main task, the end of a read, or the end of a write or flush. Times are in nanoseconds.
\<close>

section \<open>Definitions\<close>

definition CONN_BUF_SIZE :: nat where
  "CONN_BUF_SIZE = 1024 * 1024"

definition MAX_FRAME_SIZE :: nat where
  "MAX_FRAME_SIZE = CONN_BUF_SIZE - FRAME_HEADER_SIZE"

definition MSG_WRITE_QUEUE_CAPACITY :: nat where
  "MSG_WRITE_QUEUE_CAPACITY = 10"

definition INACTIVITY_TIMEOUT :: nat where
  "INACTIVITY_TIMEOUT = 10 * 1000000000"

datatype wire_msg =
  WirePing
| WireTq peer_msg
| WireNetworkConfig network_config
| WireProxyRequest wire_request
| WireProxyResponse wire_response

datatype conn_err =
  FailedWrite
| FailedRead
| DeserializeWireMsg
| SerializeWireMsg
| WriteQueueFull
| InactivityTimeout
| ZeroByteRead
| MaxFrameSizeExceeded nat

record established_conn =
  ec_peer_id :: baseboard_id
  ec_task_id :: task_id
  ec_read_buf :: "u8 list"
  ec_total_read :: nat
  ec_last_received_msg :: nat
  ec_write_queue :: "u8 list list"
  ec_current_write :: cursor
  ec_needs_flush :: bool

record conn_socket =
  so_written :: "u8 list"
  so_flushed :: nat

definition socket_new :: conn_socket where
  "socket_new = \<lparr>so_written = [], so_flushed = 0\<rparr>"

definition ec_new :: "baseboard_id \<Rightarrow> task_id \<Rightarrow> nat \<Rightarrow> established_conn" where
  "ec_new peer_id task_id now =
     \<lparr>ec_peer_id = peer_id, ec_task_id = task_id, ec_read_buf = replicate CONN_BUF_SIZE 0, ec_total_read = 0,
      ec_last_received_msg = now, ec_write_queue = [], ec_current_write = cursor_new [], ec_needs_flush = False\<rparr>"

text \<open>
  Progress on the write side, with the result of the write or flush; \<open>None\<close> when there is
  nothing to do, and the future never completes.
\<close>

definition write_or_flush ::
  "conn_socket \<Rightarrow> cursor \<Rightarrow> bool \<Rightarrow> (nat, unit) rust_result \<Rightarrow>
   (conn_socket \<times> cursor \<times> bool \<times> (unit, unit) rust_result) option" where
  "write_or_flush writer current_write needs_flush res =
     (if has_remaining current_write then
        (case res of
           Inl e \<Rightarrow> Some (writer, current_write, needs_flush, Err e)
         | Inr n \<Rightarrow>
             (let writer = writer\<lparr>so_written := so_written writer @ take n (cursor_remaining current_write)\<rparr>;
                  current_write = cursor_advance current_write n in
              if \<not> has_remaining current_write then Some (writer, cursor_new [], True, Ok ())
              else Some (writer, current_write, needs_flush, Ok ())))
      else if needs_flush then
        (case res of
           Inl e \<Rightarrow> Some (writer, current_write, needs_flush, Err e)
         | Inr _ \<Rightarrow> Some (writer\<lparr>so_flushed := length (so_written writer)\<rparr>, current_write, False, Ok ()))
      else None)"

text \<open>What a message is passed to the main task as.\<close>

fun to_main :: "baseboard_id \<Rightarrow> task_id \<Rightarrow> wire_msg \<Rightarrow> (task_id \<times> conn_msg) list" where
  "to_main peer_id task_id (WireTq msg) = [(task_id, Received peer_id msg)]"
| "to_main peer_id task_id WirePing = []"
| "to_main peer_id task_id (WireNetworkConfig config) = [(task_id, ReceivedNetworkConfig peer_id config)]"
| "to_main peer_id task_id (WireProxyRequest req) = [(task_id, ProxyRequestReceived peer_id req)]"
| "to_main peer_id task_id (WireProxyResponse rsp) = [(task_id, ProxyResponseReceived peer_id rsp)]"

text \<open>
  The loop of \<open>on_read\<close>. The channel to the main task takes \<open>room\<close> more messages; when it
  is full or closed, \<open>try_send\<close> fails and the task panics.
\<close>

function ec_read_loop ::
  "wire_msg cbor \<Rightarrow> nat \<Rightarrow> nat \<Rightarrow> established_conn \<Rightarrow>
   (established_conn \<times> (task_id \<times> conn_msg) list \<times> (unit, conn_err) rust_result) outcome" where
  "ec_read_loop C now room self =
     (if ec_total_read self < FRAME_HEADER_SIZE then Done (self, [], Ok ())
      else obind (slice_of 0 FRAME_HEADER_SIZE (ec_read_buf self)) (\<lambda>header.
        let size = read_frame_size header in
        if size > MAX_FRAME_SIZE then Done (self, [], Err (MaxFrameSizeExceeded size))
        else
          let frame_end = size + FRAME_HEADER_SIZE in
          if frame_end > ec_total_read self then Done (self, [], Ok ())
          else obind (slice_of FRAME_HEADER_SIZE frame_end (ec_read_buf self)) (\<lambda>body.
            case from_reader C body of
              None \<Rightarrow> Done (self, [], Err DeserializeWireMsg)
            | Some msg \<Rightarrow>
                obind (copy_within frame_end (ec_total_read self) (ec_read_buf self)) (\<lambda>read_buf.
                  let self = self\<lparr>ec_read_buf := read_buf, ec_total_read := ec_total_read self - frame_end,
                                  ec_last_received_msg := now\<rparr>;
                      out = to_main (ec_peer_id self) (ec_task_id self) msg in
                  if length out > room then Panic ''Connection to main task channel error''
                  else obind (ec_read_loop C now (room - length out) self) (\<lambda>(self, out', res).
                    Done (self, out @ out', res))))))"
  by pat_completeness auto
termination by (relation "measure (\<lambda>(_, _, _, self). ec_total_read self)") (auto simp: FRAME_HEADER_SIZE_def)

declare ec_read_loop.simps [simp del]

definition ec_on_read ::
  "wire_msg cbor \<Rightarrow> nat \<Rightarrow> nat \<Rightarrow> established_conn \<Rightarrow> (nat, unit) rust_result \<Rightarrow>
   (established_conn \<times> (task_id \<times> conn_msg) list \<times> (unit, conn_err) rust_result) outcome" where
  "ec_on_read C now room self res =
     (case res of
        Inl _ \<Rightarrow> Done (self, [], Err FailedRead)
      | Inr n \<Rightarrow>
          (if n = 0 then Done (self, [], Err ZeroByteRead)
           else ec_read_loop C now room (self\<lparr>ec_total_read := ec_total_read self + n\<rparr>)))"

definition ec_write_framed_to_queue ::
  "wire_msg cbor \<Rightarrow> established_conn \<Rightarrow> wire_msg \<Rightarrow> (established_conn \<times> (unit, conn_err) rust_result) outcome" where
  "ec_write_framed_to_queue C self msg =
     (if length (ec_write_queue self) = MSG_WRITE_QUEUE_CAPACITY then Done (self, Err WriteQueueFull)
      else obind (write_framed C msg) (\<lambda>r.
        case r of
          Inl _ \<Rightarrow> Done (self, Err SerializeWireMsg)
        | Inr msg \<Rightarrow> Done (self\<lparr>ec_write_queue := ec_write_queue self @ [msg]\<rparr>, Ok ())))"

definition ec_on_msg_from_main ::
  "wire_msg cbor \<Rightarrow> established_conn \<Rightarrow> wire_msg \<Rightarrow> (established_conn \<times> (unit, conn_err) rust_result) outcome" where
  "ec_on_msg_from_main C self msg = ec_write_framed_to_queue C self msg"

definition ec_ping ::
  "wire_msg cbor \<Rightarrow> nat \<Rightarrow> established_conn \<Rightarrow> (established_conn \<times> (unit, conn_err) rust_result) outcome" where
  "ec_ping C now self =
     (if now - ec_last_received_msg self > INACTIVITY_TIMEOUT then Done (self, Err InactivityTimeout)
      else ec_write_framed_to_queue C self WirePing)"

text \<open>The next message is only started when nothing is being written and no flush is owed.\<close>

definition ec_next_write :: "established_conn \<Rightarrow> established_conn" where
  "ec_next_write self =
     (if \<not> has_remaining (ec_current_write self) \<and> \<not> ec_needs_flush self then
        (case ec_write_queue self of
           buf # write_queue \<Rightarrow> self\<lparr>ec_write_queue := write_queue, ec_current_write := cursor_new buf\<rparr>
         | [] \<Rightarrow> self)
      else self)"

datatype conn_event =
  Tick nat
| FromMain wire_msg
| ReadReady nat nat "(u8 list, unit) rust_result"
| WriterReady "(nat, unit) rust_result"

text \<open>
  A round of the loop of \<open>run\<close>; with an error the connection is closed. A socket does not read
  more than there is space for, nor write more than it is given, and the writer only reports
  when it was asked to write or flush.
\<close>

definition ec_event_ok :: "established_conn \<Rightarrow> conn_event \<Rightarrow> bool" where
  "ec_event_ok self event =
     (case event of
        ReadReady _ _ (Inr data) \<Rightarrow> length data \<le> length (drop (ec_total_read self) (ec_read_buf self))
      | WriterReady res \<Rightarrow>
          if has_remaining (ec_current_write self)
          then (case res of Inr n \<Rightarrow> n \<le> length (cursor_remaining (ec_current_write self)) | _ \<Rightarrow> True)
          else ec_needs_flush self
      | _ \<Rightarrow> True)"

definition ec_round ::
  "wire_msg cbor \<Rightarrow> established_conn \<times> conn_socket \<Rightarrow> conn_event \<Rightarrow>
   ((established_conn \<times> conn_socket) \<times> (task_id \<times> conn_msg) list \<times> (unit, conn_err) rust_result) outcome" where
  "ec_round C st event =
     (let (self, sock) = st; self = ec_next_write self in
      case event of
        Tick now \<Rightarrow> obind (ec_ping C now self) (\<lambda>(self, res). Done ((self, sock), [], res))
      | FromMain msg \<Rightarrow> obind (ec_on_msg_from_main C self msg) (\<lambda>(self, res). Done ((self, sock), [], res))
      | ReadReady now room res \<Rightarrow>
          (case res of
             Inl e \<Rightarrow> obind (ec_on_read C now room self (Err e)) (\<lambda>(self, out, res). Done ((self, sock), out, res))
           | Inr data \<Rightarrow>
               obind (ec_on_read C now room
                        (self\<lparr>ec_read_buf := fill_from (ec_total_read self) data (ec_read_buf self)\<rparr>) (Ok (length data)))
                 (\<lambda>(self, out, res). Done ((self, sock), out, res)))
      | WriterReady res \<Rightarrow>
          (case write_or_flush sock (ec_current_write self) (ec_needs_flush self) res of
             None \<Rightarrow> Diverge
           | Some (sock, current_write, needs_flush, res) \<Rightarrow>
               Done ((self\<lparr>ec_current_write := current_write, ec_needs_flush := needs_flush\<rparr>, sock), [],
                     (case res of Inl _ \<Rightarrow> Err FailedWrite | Inr u \<Rightarrow> Ok u))))"

definition ec_step ::
  "wire_msg cbor \<Rightarrow> established_conn \<times> conn_socket \<Rightarrow> conn_event \<Rightarrow>
   (established_conn \<times> conn_socket) \<times> (task_id \<times> conn_msg) list \<Rightarrow> bool" where
  "ec_step C st event r =
     (ec_event_ok (ec_next_write (fst st)) event \<and> ec_round C st event = Done (fst r, snd r, Ok ()))"

text \<open>The bytes an event reads, and the messages it accepts for sending.\<close>

fun ec_chunk :: "conn_event \<Rightarrow> u8 list" where
  "ec_chunk (ReadReady _ _ (Inr data)) = data"
| "ec_chunk _ = []"

fun ec_accepts :: "conn_event \<Rightarrow> wire_msg list" where
  "ec_accepts (Tick _) = [WirePing]"
| "ec_accepts (FromMain msg) = [msg]"
| "ec_accepts _ = []"

definition ec_pending :: "established_conn \<times> conn_socket \<Rightarrow> u8 list" where
  "ec_pending st = take (ec_total_read (fst st)) (ec_read_buf (fst st))"

definition ec_outgoing :: "established_conn \<times> conn_socket \<Rightarrow> u8 list" where
  "ec_outgoing st = so_written (snd st) @ cursor_remaining (ec_current_write (fst st)) @ concat (ec_write_queue (fst st))"

definition ec_ok :: "wire_msg cbor \<Rightarrow> baseboard_id \<Rightarrow> task_id \<Rightarrow> established_conn \<times> conn_socket \<Rightarrow> bool" where
  "ec_ok C peer_id task_id st =
     (let self = fst st in
      ec_peer_id self = peer_id \<and> ec_task_id self = task_id \<and>
      length (ec_read_buf self) = CONN_BUF_SIZE \<and> ec_total_read self < CONN_BUF_SIZE \<and>
      unframe C MAX_FRAME_SIZE (ec_pending st) = ([], More (ec_pending st)) \<and>
      length (ec_write_queue self) \<le> MSG_WRITE_QUEUE_CAPACITY)"

section \<open>Reading\<close>

fun stop_result :: "stop \<Rightarrow> (unit, conn_err) rust_result" where
  "stop_result (More _) = Ok ()"
| "stop_result (TooLong n) = Err (MaxFrameSizeExceeded n)"
| "stop_result Malformed = Err DeserializeWireMsg"

text \<open>The cases of the loop, with the buffer as the sequence of bytes it holds.\<close>

lemma ec_read_loop_unfold:
  fixes self defines "bs \<equiv> take (ec_total_read self) (ec_read_buf self)"
  assumes "ec_total_read self \<le> length (ec_read_buf self)"
  shows "ec_read_loop C now room self =
    (if length bs < FRAME_HEADER_SIZE then Done (self, [], Ok ())
     else let size = read_frame_size (take FRAME_HEADER_SIZE bs); frame_end = size + FRAME_HEADER_SIZE in
       if size > MAX_FRAME_SIZE then Done (self, [], Err (MaxFrameSizeExceeded size))
       else if frame_end > length bs then Done (self, [], Ok ())
       else (case from_reader C (take size (drop FRAME_HEADER_SIZE bs)) of
               None \<Rightarrow> Done (self, [], Err DeserializeWireMsg)
             | Some msg \<Rightarrow>
                 (let rest = drop frame_end bs; out = to_main (ec_peer_id self) (ec_task_id self) msg in
                  if length out > room then Panic ''Connection to main task channel error''
                  else obind (ec_read_loop C now (room - length out)
                    (self\<lparr>ec_read_buf := rest @ drop (length rest) (ec_read_buf self), ec_total_read := length rest,
                          ec_last_received_msg := now\<rparr>))
                    (\<lambda>(self, out', res). Done (self, out @ out', res)))))"
proof -
  have len: "length bs = ec_total_read self" using assms by simp
  have hd: "FRAME_HEADER_SIZE \<le> ec_total_read self \<Longrightarrow> take FRAME_HEADER_SIZE (ec_read_buf self) = take FRAME_HEADER_SIZE bs"
    by (simp add: bs_def min_def)
  let ?size = "read_frame_size (take FRAME_HEADER_SIZE bs)"
  show ?thesis
  proof (cases "ec_total_read self < FRAME_HEADER_SIZE \<or> ?size > MAX_FRAME_SIZE \<or>
      ?size + FRAME_HEADER_SIZE > ec_total_read self")
    case True
    with hd assms(2) show ?thesis by (auto simp: ec_read_loop.simps [of C now room self] slice_of_eq len Let_def)
  next
    case False
    then have "slice_of FRAME_HEADER_SIZE (?size + FRAME_HEADER_SIZE) (ec_read_buf self) = Done (take ?size (drop FRAME_HEADER_SIZE bs))"
      using slice_of_take [of FRAME_HEADER_SIZE "?size + FRAME_HEADER_SIZE", OF _ _ assms(2), folded bs_def] by simp
    moreover have "copy_within (?size + FRAME_HEADER_SIZE) (ec_total_read self) (ec_read_buf self) =
      Done (drop (?size + FRAME_HEADER_SIZE) bs @ drop (length (drop (?size + FRAME_HEADER_SIZE) bs)) (ec_read_buf self))"
      using copy_within_take [of "?size + FRAME_HEADER_SIZE", OF _ assms(2), folded bs_def] False by simp
    moreover have "slice_of 0 FRAME_HEADER_SIZE (ec_read_buf self) = Done (take FRAME_HEADER_SIZE bs)"
      using slice_of_take [of 0 FRAME_HEADER_SIZE, OF _ _ assms(2), folded bs_def] False by simp
    ultimately show ?thesis
      using False by (cases "from_reader C (take ?size (drop FRAME_HEADER_SIZE bs))")
        (simp_all add: ec_read_loop.simps [of C now room self] len Let_def)
  qed
qed

text \<open>
  The loop implements the specification: it passes on the messages that are complete, keeps the
  rest, and reports why the connection has to be closed. It panics when the channel
  cannot take the messages.
\<close>

definition read_spec ::
  "wire_msg cbor \<Rightarrow> nat \<Rightarrow> nat \<Rightarrow> established_conn \<Rightarrow> (task_id \<times> conn_msg) list \<Rightarrow> stop \<Rightarrow> bool" where
  "read_spec C now room self out s =
     (if length out > room then ec_read_loop C now room self = Panic ''Connection to main task channel error''
      else \<exists>b n l. ec_read_loop C now room self =
          Done (self\<lparr>ec_read_buf := b, ec_total_read := n, ec_last_received_msg := l\<rparr>, out, stop_result s) \<and>
        length b = length (ec_read_buf self) \<and> n \<le> ec_total_read self \<and> (\<forall>rest. s = More rest \<longrightarrow> take n b = rest))"

lemma read_specI:
  assumes "length out \<le> room"
    and "ec_read_loop C now room self =
      Done (self\<lparr>ec_read_buf := b, ec_total_read := n, ec_last_received_msg := l\<rparr>, out, stop_result s)"
    and "length b = length (ec_read_buf self)" and "n \<le> ec_total_read self" and "\<forall>rest. s = More rest \<longrightarrow> take n b = rest"
  shows "read_spec C now room self out s"
  unfolding read_spec_def using assms(1)
  by (subst if_not_P, simp) (rule exI [of _ b], rule exI [of _ n], rule exI [of _ l], intro conjI assms(2-5))

lemma read_spec_stop:
  assumes "ec_read_loop C now room self = Done (self, [], stop_result s)"
    and "\<forall>rest. s = More rest \<longrightarrow> rest = take (ec_total_read self) (ec_read_buf self)"
  shows "read_spec C now room self [] s"
  using assms
  by (intro read_specI [where b = "ec_read_buf self" and n = "ec_total_read self" and l = "ec_last_received_msg self"]) simp_all

lemma read_spec_message:
  assumes loop: "ec_read_loop C now room self =
      (if length msg_out > room then Panic ''Connection to main task channel error''
       else obind (ec_read_loop C now (room - length msg_out)
             (self\<lparr>ec_read_buf := b, ec_total_read := n, ec_last_received_msg := l\<rparr>))
           (\<lambda>(self, out', res). Done (self, msg_out @ out', res)))"
    and rec: "read_spec C now (room - length msg_out)
      (self\<lparr>ec_read_buf := b, ec_total_read := n, ec_last_received_msg := l\<rparr>) out s"
    and len: "length b = length (ec_read_buf self)" "n \<le> ec_total_read self"
  shows "read_spec C now room self (msg_out @ out) s"
proof (cases "length (msg_out @ out) > room")
  case True
  with rec have "length msg_out > room \<or> ec_read_loop C now (room - length msg_out)
      (self\<lparr>ec_read_buf := b, ec_total_read := n, ec_last_received_msg := l\<rparr>) = Panic ''Connection to main task channel error''"
    by (auto simp: read_spec_def split: if_splits)
  with True loop show ?thesis by (auto simp: read_spec_def)
next
  case False
  with rec len obtain b' n' l' where "ec_read_loop C now (room - length msg_out)
        (self\<lparr>ec_read_buf := b, ec_total_read := n, ec_last_received_msg := l\<rparr>) =
      Done (self\<lparr>ec_read_buf := b', ec_total_read := n', ec_last_received_msg := l'\<rparr>, out, stop_result s)"
    "length b' = length (ec_read_buf self)" "n' \<le> ec_total_read self" "\<forall>rest. s = More rest \<longrightarrow> take n' b' = rest"
    by (auto simp: read_spec_def split: if_splits)
  with False loop show ?thesis
    by (intro read_specI [where b = b' and n = n' and l = l']) simp_all
qed

lemma ec_read_loop_spec:
  assumes "ec_total_read self \<le> length (ec_read_buf self)"
    and "unframe C MAX_FRAME_SIZE (take (ec_total_read self) (ec_read_buf self)) = (ms, s)"
  shows "read_spec C now room self (concat (map (to_main (ec_peer_id self) (ec_task_id self)) ms)) s"
  using assms
proof (induction "ec_total_read self" arbitrary: self ms room rule: less_induct)
  case less
  define bs where "bs = take (ec_total_read self) (ec_read_buf self)"
  let ?size = "read_frame_size (take FRAME_HEADER_SIZE bs)"
  let ?body = "from_reader C (take ?size (drop FRAME_HEADER_SIZE bs))"
  note unf = ec_read_loop_unfold [OF less.prems(1), of C now room, folded bs_def]
  note spec = less.prems(2) [folded bs_def, unfolded unframe.simps [of C MAX_FRAME_SIZE bs]]
  consider (stop) "length bs < FRAME_HEADER_SIZE \<or> ?size > MAX_FRAME_SIZE \<or> ?size + FRAME_HEADER_SIZE > length bs \<or> ?body = None"
    | (good) msg where "\<not> length bs < FRAME_HEADER_SIZE" "\<not> ?size > MAX_FRAME_SIZE" "\<not> ?size + FRAME_HEADER_SIZE > length bs"
      "?body = Some msg"
    by (cases ?body) auto
  then show ?case
  proof cases
    case stop
    then have "ms = [] \<and> ec_read_loop C now room self = Done (self, [], stop_result s) \<and> (\<forall>rest. s = More rest \<longrightarrow> rest = bs)"
      using spec unf by (auto simp: Let_def split: if_splits option.splits)
    then show ?thesis using read_spec_stop by (simp add: bs_def)
  next
    case good
    define rest where "rest = drop (?size + FRAME_HEADER_SIZE) bs"
    obtain ms' where ms': "unframe C MAX_FRAME_SIZE rest = (ms', s)" "ms = msg # ms'"
      using good spec by (auto simp: Let_def rest_def split: prod.splits)
    have len: "length rest < ec_total_read self" "length rest \<le> length (ec_read_buf self)"
      using good less.prems(1) by (auto simp: FRAME_HEADER_SIZE_def rest_def bs_def)
    let ?fwd = "to_main (ec_peer_id self) (ec_task_id self)"
    have "read_spec C now room self (?fwd msg @ concat (map ?fwd ms')) s"
    proof (rule read_spec_message)
      show "ec_read_loop C now room self =
        (if length (?fwd msg) > room then Panic ''Connection to main task channel error''
         else obind (ec_read_loop C now (room - length (?fwd msg))
           (self\<lparr>ec_read_buf := rest @ drop (length rest) (ec_read_buf self), ec_total_read := length rest,
                 ec_last_received_msg := now\<rparr>)) (\<lambda>(self, out', res). Done (self, ?fwd msg @ out', res)))"
        unfolding unf rest_def using good by (simp only: Let_def if_False option.case)
    qed (use less.hyps [of "self\<lparr>ec_read_buf := rest @ drop (length rest) (ec_read_buf self), ec_total_read := length rest,
                 ec_last_received_msg := now\<rparr>" ms'] ms'(1) len in simp_all)
    then show ?thesis by (simp add: ms'(2))
  qed
qed

section \<open>Rounds\<close>

lemma max_frame_fits [simp]: "MAX_FRAME_SIZE + FRAME_HEADER_SIZE = CONN_BUF_SIZE"
  by (simp add: MAX_FRAME_SIZE_def CONN_BUF_SIZE_def FRAME_HEADER_SIZE_def)

lemma next_write_reader [simp]:
  "ec_peer_id (ec_next_write self) = ec_peer_id self" "ec_task_id (ec_next_write self) = ec_task_id self"
  "ec_read_buf (ec_next_write self) = ec_read_buf self" "ec_total_read (ec_next_write self) = ec_total_read self"
  "ec_last_received_msg (ec_next_write self) = ec_last_received_msg self"
  "ec_needs_flush (ec_next_write self) = ec_needs_flush self"
  by (auto simp: ec_next_write_def split: list.split)

lemma next_write_writer:
  "cursor_remaining (ec_current_write (ec_next_write self)) @ concat (ec_write_queue (ec_next_write self)) =
     cursor_remaining (ec_current_write self) @ concat (ec_write_queue self)"
  "length (ec_write_queue (ec_next_write self)) \<le> length (ec_write_queue self)"
  by (auto simp: ec_next_write_def split: list.split)

lemma next_write_views [simp]:
  "ec_pending (ec_next_write self, sock) = ec_pending (self, sock)"
  "ec_outgoing (ec_next_write self, sock) = ec_outgoing (self, sock)"
  by (simp_all add: ec_pending_def ec_outgoing_def next_write_writer)

lemma next_write_ok: "ec_ok C p t (self, sock) \<Longrightarrow> ec_ok C p t (ec_next_write self, sock')"
  using next_write_writer(2) [of self] by (simp add: ec_ok_def ec_pending_def)

lemma queue_effects:
  assumes "ec_write_framed_to_queue C self msg = Done (self', Ok ())"
  shows "self' = self\<lparr>ec_write_queue := ec_write_queue self @ [frame C msg]\<rparr>"
    and "length (ec_write_queue self) \<noteq> MSG_WRITE_QUEUE_CAPACITY"
  using assms by (auto simp: ec_write_framed_to_queue_def outcome_simps dest: write_framed_eq split: if_splits)

lemma ping_effects:
  "ec_ping C now self = Done (self', Ok ()) \<Longrightarrow> ec_write_framed_to_queue C self WirePing = Done (self', Ok ())"
  by (simp add: ec_ping_def split: if_splits)

text \<open>The effects of a round without an error, by its event.\<close>

lemma ec_step_cases:
  assumes "ec_step C (self, sock) e ((self', sock'), out)"
  obtains (queue) msg where "ec_accepts e = [msg]" "ec_chunk e = []" "out = []" "sock' = sock"
      "self' = (ec_next_write self)\<lparr>ec_write_queue := ec_write_queue (ec_next_write self) @ [frame C msg]\<rparr>"
      "length (ec_write_queue (ec_next_write self)) \<noteq> MSG_WRITE_QUEUE_CAPACITY"
  | (read) now room data where "ec_accepts e = []" "ec_chunk e = data" "sock' = sock" "data \<noteq> []"
      "length data \<le> length (drop (ec_total_read self) (ec_read_buf self))"
      "ec_read_loop C now room ((ec_next_write self)\<lparr>ec_read_buf := fill_from (ec_total_read self) data (ec_read_buf self),
          ec_total_read := ec_total_read self + length data\<rparr>) = Done (self', out, Ok ())"
  | (written) n where "ec_accepts e = []" "ec_chunk e = []" "out = []"
      "n \<le> length (cursor_remaining (ec_current_write (ec_next_write self)))" "cursor_remaining (ec_current_write (ec_next_write self)) \<noteq> []"
      "sock' = sock\<lparr>so_written := so_written sock @ take n (cursor_remaining (ec_current_write (ec_next_write self)))\<rparr>"
      "self' = (let cur = cursor_advance (ec_current_write (ec_next_write self)) n in
         if cursor_remaining cur = [] then (ec_next_write self)\<lparr>ec_current_write := cursor_new [], ec_needs_flush := True\<rparr>
         else (ec_next_write self)\<lparr>ec_current_write := cur\<rparr>)"
  | (flushed) "ec_accepts e = []" "ec_chunk e = []" "out = []" "cursor_remaining (ec_current_write (ec_next_write self)) = []"
      "ec_needs_flush self" "sock' = sock\<lparr>so_flushed := length (so_written sock)\<rparr>"
      "self' = (ec_next_write self)\<lparr>ec_needs_flush := False\<rparr>"
proof -
  from assms have ok: "ec_event_ok (ec_next_write self) e" and round: "ec_round C (self, sock) e = Done ((self', sock'), out, Ok ())"
    by (simp_all add: ec_step_def)
  show thesis
  proof (cases e)
    case (Tick now)
    with round have "ec_write_framed_to_queue C (ec_next_write self) WirePing = Done (self', Ok ())" "out = []" "sock' = sock"
      by (auto simp: ec_round_def Let_def obind_eq_Done dest: ping_effects)
    with Tick queue [of WirePing] queue_effects show thesis by simp
  next
    case (FromMain msg)
    with round have "ec_write_framed_to_queue C (ec_next_write self) msg = Done (self', Ok ())" "out = []" "sock' = sock"
      by (auto simp: ec_round_def Let_def obind_eq_Done ec_on_msg_from_main_def)
    with FromMain queue [of msg] queue_effects show thesis by simp
  next
    case (ReadReady now room res)
    with round obtain data where data: "res = Inr data"
      by (cases res) (auto simp: ec_round_def Let_def ec_on_read_def)
    have "self\<lparr>ec_read_buf := b, ec_total_read := n\<rparr> = (self\<lparr>ec_read_buf := b\<rparr>)\<lparr>ec_total_read := n\<rparr>" for self b n by simp
    with ReadReady data round ok show thesis
      by (intro read [of data now room]) (auto simp: ec_round_def Let_def ec_on_read_def obind_eq_Done ec_event_ok_def split: if_splits)
  next
    case (WriterReady res)
    then obtain n where n: "res = Inr n"
      using round by (cases res) (auto simp: ec_round_def Let_def write_or_flush_def outcome_simps split: if_splits)
    show thesis
    proof (cases "cursor_remaining (ec_current_write (ec_next_write self)) = []")
      case True
      with WriterReady n round ok flushed show thesis
        by (auto simp: ec_round_def Let_def write_or_flush_def ec_event_ok_def)
    next
      case False
      show thesis
        using WriterReady n round ok False
        by (intro written [of n]) (auto simp: ec_round_def Let_def write_or_flush_def ec_event_ok_def split: if_splits)
    qed
  qed
qed

text \<open>The effect of a read on a buffer that waits for the rest of a message.\<close>

lemma read_effects:
  assumes ok: "ec_ok C p t (self, sock)"
    and data: "length data \<le> length (drop (ec_total_read self) (ec_read_buf self))"
    and loop: "ec_read_loop C now room ((ec_next_write self)\<lparr>ec_read_buf := fill_from (ec_total_read self) data (ec_read_buf self),
          ec_total_read := ec_total_read self + length data\<rparr>) = Done (self', out, Ok ())"
  shows "ec_ok C p t (self', sock')"
    and "\<exists>ms. unframe C MAX_FRAME_SIZE (ec_pending (self, sock) @ data) = (ms, More (ec_pending (self', sock'))) \<and>
      out = concat (map (to_main p t) ms)"
    and "ec_outgoing (self', sock') = so_written sock' @ cursor_remaining (ec_current_write self) @ concat (ec_write_queue self)"
    and "ec_write_queue self' = ec_write_queue (ec_next_write self)"
      "ec_current_write self' = ec_current_write (ec_next_write self)" "ec_needs_flush self' = ec_needs_flush self"
proof -
  let ?self = "(ec_next_write self)\<lparr>ec_read_buf := fill_from (ec_total_read self) data (ec_read_buf self),
    ec_total_read := ec_total_read self + length data\<rparr>"
  have ids: "ec_peer_id self = p" "ec_task_id self = t" "length (ec_read_buf self) = CONN_BUF_SIZE"
    "length (ec_write_queue self) \<le> MSG_WRITE_QUEUE_CAPACITY"
    and fits: "ec_total_read self + length data \<le> length (ec_read_buf self)"
    using ok data by (auto simp: ec_ok_def)
  obtain ms s where ms: "unframe C MAX_FRAME_SIZE (ec_pending (self, sock) @ data) = (ms, s)" by fastforce
  then have "read_spec C now room ?self (concat (map (to_main p t) ms)) s"
    using ec_read_loop_spec [of ?self C ms s] fits by (simp add: ec_pending_def ids)
  with loop obtain b n l where s: "stop_result s = Ok ()" "out = concat (map (to_main p t) ms)"
    "self' = ?self\<lparr>ec_read_buf := b, ec_total_read := n, ec_last_received_msg := l\<rparr>"
    "length b = length (ec_read_buf self)" "\<forall>rest. s = More rest \<longrightarrow> take n b = rest" "n \<le> length b"
    using fits by (auto simp: read_spec_def split: if_splits)
  then obtain rest where rest: "s = More rest" by (cases s) auto
  with s have pend: "ec_pending (self', sock') = rest" by (simp add: ec_pending_def)
  from unframe_rest [OF ms [unfolded rest]] have un: "unframe C MAX_FRAME_SIZE rest = ([], More rest)" .
  from unframe_bound [OF un] have "length rest < CONN_BUF_SIZE" by simp
  moreover have "length rest = n" using s(5,6) rest by auto
  ultimately show "ec_ok C p t (self', sock')"
    using ids s(3,4) pend un next_write_writer(2) [of self] by (simp add: ec_ok_def)
  show "\<exists>ms. unframe C MAX_FRAME_SIZE (ec_pending (self, sock) @ data) = (ms, More (ec_pending (self', sock'))) \<and>
      out = concat (map (to_main p t) ms)"
    using ms rest pend s(2) by auto
  show "ec_outgoing (self', sock') = so_written sock' @ cursor_remaining (ec_current_write self) @ concat (ec_write_queue self)"
    using s(3) by (simp add: ec_outgoing_def next_write_writer)
  show "ec_write_queue self' = ec_write_queue (ec_next_write self)"
      "ec_current_write self' = ec_current_write (ec_next_write self)" "ec_needs_flush self' = ec_needs_flush self"
    using s(3) by simp_all
qed

lemma ec_step_contract:
  assumes ok: "ec_ok C p t st" and step: "ec_step C st e (st', out)"
  shows "ec_ok C p t st'"
    and "\<exists>ms. unframe C MAX_FRAME_SIZE (ec_pending st @ ec_chunk e) = (ms, More (ec_pending st')) \<and> out = concat (map (to_main p t) ms)"
    and "ec_outgoing st' = ec_outgoing st @ frames C (ec_accepts e)"
proof -
  obtain self sock self' sock' where st [simp]: "st = (self, sock)" "st' = (self', sock')" by fastforce
  have idle: "unframe C MAX_FRAME_SIZE (ec_pending (self, sock)) = ([], More (ec_pending (self, sock)))"
    using ok by (simp add: ec_ok_def)
  note ok' = next_write_ok [OF ok [unfolded st]]
  note out = next_write_views(2) [of self, unfolded ec_outgoing_def, simplified]
  have "ec_ok C p t st' \<and> ec_outgoing st' = ec_outgoing st @ frames C (ec_accepts e) \<and>
    (\<exists>ms. unframe C MAX_FRAME_SIZE (ec_pending st @ ec_chunk e) = (ms, More (ec_pending st')) \<and> out = concat (map (to_main p t) ms))"
    using step [unfolded st]
  proof (cases rule: ec_step_cases)
    case queue
    then show ?thesis using ok' [of sock] idle
      by (auto simp: ec_ok_def ec_pending_def ec_outgoing_def next_write_writer)
  next
    case (read now room data)
    note eff = read_effects [OF ok [unfolded st] read(5,6)]
    show ?thesis unfolding st read(1,2) using eff(1) [of sock'] eff(2) [of sock'] eff(3) [of sock'] read(3) by (simp add: ec_outgoing_def)
  next
    case written
    then show ?thesis using ok' [of sock] idle
      by (auto simp: ec_ok_def ec_pending_def ec_outgoing_def next_write_writer Let_def)
  next
    case flushed
    then show ?thesis using ok' [of sock] idle next_write_writer(1) [of self]
      by (auto simp: ec_ok_def ec_pending_def ec_outgoing_def)
  qed
  then show "ec_ok C p t st'" "ec_outgoing st' = ec_outgoing st @ frames C (ec_accepts e)"
    "\<exists>ms. unframe C MAX_FRAME_SIZE (ec_pending st @ ec_chunk e) = (ms, More (ec_pending st')) \<and> out = concat (map (to_main p t) ms)"
    by blast+
qed

interpretation tq_conn: framed_conn C MAX_FRAME_SIZE "ec_step C" "ec_ok C p t" ec_pending ec_outgoing ec_chunk ec_accepts "to_main p t"
  for C p t
  by unfold_locales (rule ec_step_contract; assumption)+

lemma ec_new_ok [simp]:
  "ec_ok C p t (ec_new p t now, socket_new)" "ec_pending (ec_new p t now, socket_new) = []"
  "ec_outgoing (ec_new p t now, socket_new) = []"
  by (simp_all add: ec_ok_def ec_new_def ec_pending_def ec_outgoing_def unframe_short FRAME_HEADER_SIZE_def
      CONN_BUF_SIZE_def socket_new_def)

section \<open>Properties of connections\<close>

lemma to_main_length: "length (to_main p t m) \<le> 1"
  by (cases m) simp_all

lemma pending_length: "ec_ok C p t st \<Longrightarrow> length (ec_pending st) = ec_total_read (fst st)"
  by (auto simp: ec_ok_def ec_pending_def Let_def)

text \<open>What a read does: it can only fail because of what was read, or because the channel is full.\<close>

lemma read_round:
  assumes ok: "ec_ok C p t (self, sock)" and data: "data \<noteq> []" "length (ec_pending (self, sock) @ data) \<le> CONN_BUF_SIZE"
    and un: "unframe C MAX_FRAME_SIZE (ec_pending (self, sock) @ data) = (ms, s)"
    and room: "length (concat (map (to_main p t) ms)) \<le> room"
  shows "\<exists>self'. ec_round C (self, sock) (ReadReady now room (Inr data)) =
      Done ((self', sock), concat (map (to_main p t) ms), stop_result s)"
proof -
  let ?self = "(ec_next_write self)\<lparr>ec_read_buf := fill_from (ec_total_read self) data (ec_read_buf self),
    ec_total_read := ec_total_read self + length data\<rparr>"
  have ids: "ec_peer_id self = p" "ec_task_id self = t" "ec_total_read self + length data \<le> length (ec_read_buf self)"
    using ok data(2) pending_length [OF ok] by (auto simp: ec_ok_def)
  then have "read_spec C now room ?self (concat (map (to_main p t) ms)) s"
    using ec_read_loop_spec [of ?self C ms s] un by (simp add: ec_pending_def)
  then obtain self' where "ec_read_loop C now room ?self = Done (self', concat (map (to_main p t) ms), stop_result s)"
    using room by (auto simp: read_spec_def)
  then show ?thesis using data(1) by (auto simp: ec_round_def Let_def ec_on_read_def)
qed

lemma read_step:
  assumes "ec_ok C p t st" and "data \<noteq> []" "length (ec_pending st @ data) \<le> CONN_BUF_SIZE"
    and "unframe C MAX_FRAME_SIZE (ec_pending st @ data) = (ms, More rest)"
    and "length (concat (map (to_main p t) ms)) \<le> room"
  obtains st' where "ec_step C st (ReadReady now room (Inr data)) (st', concat (map (to_main p t) ms))" "ec_pending st' = rest"
proof -
  obtain self sock where st: "st = (self, sock)" by fastforce
  from read_round [OF assms(1) [unfolded st] assms(2) _ assms(4) [unfolded st] assms(5)] assms(3) st obtain self' where
    "ec_round C st (ReadReady now room (Inr data)) = Done ((self', sock), concat (map (to_main p t) ms), Ok ())"
    by auto
  moreover have "ec_event_ok (ec_next_write self) (ReadReady now room (Inr data))"
    using assms(1,3) pending_length [OF assms(1)] by (simp add: ec_event_ok_def ec_ok_def st)
  ultimately have step: "ec_step C st (ReadReady now room (Inr data)) ((self', sock), concat (map (to_main p t) ms))"
    by (simp add: ec_step_def st)
  from ec_step_contract(2) [OF assms(1) step] assms(4) have "ec_pending (self', sock) = rest" by auto
  with step that show thesis by blast
qed

definition ec_unflushed :: "established_conn \<times> conn_socket \<Rightarrow> u8 list" where
  "ec_unflushed st = drop (so_flushed (snd st)) (so_written (snd st))"

text \<open>What has been written since the last flush belongs to one message.\<close>

definition one_message :: "wire_msg cbor \<Rightarrow> wire_msg list \<Rightarrow> established_conn \<times> conn_socket \<Rightarrow> bool" where
  "one_message C sent st =
     (let remaining = cursor_remaining (ec_current_write (fst st)) in
      so_flushed (snd st) \<le> length (so_written (snd st)) \<and>
      ec_unflushed st @ remaining \<in> insert [] (frame C ` set sent) \<and>
      set (ec_write_queue (fst st)) \<subseteq> frame C ` set sent \<and>
      (ec_needs_flush (fst st) \<longrightarrow> remaining = []) \<and>
      (remaining = [] \<longrightarrow> \<not> ec_needs_flush (fst st) \<longrightarrow> ec_unflushed st = []))"

lemma one_message_next:
  assumes "one_message C sent (self, sock)"
  shows "one_message C sent (ec_next_write self, sock)"
proof (cases "cursor_remaining (ec_current_write self) = [] \<and> \<not> ec_needs_flush self")
  case idle: True
  show ?thesis
  proof (cases "ec_write_queue self")
    case Nil
    then have "ec_next_write self = self" by (simp add: ec_next_write_def)
    with assms show ?thesis by simp
  next
    case (Cons buf write_queue)
    then show ?thesis using idle assms by (simp add: ec_next_write_def one_message_def ec_unflushed_def)
  qed
next
  case False
  then have "ec_next_write self = self" by (auto simp: ec_next_write_def)
  with assms show ?thesis by simp
qed

lemma one_message_more: "one_message C sent st \<Longrightarrow> one_message C (sent @ msgs) st"
  by (auto simp: one_message_def Let_def)

lemma one_message_step:
  assumes "one_message C sent st" and "ec_step C st e (st', out)" and "ec_ok C p t st"
  shows "one_message C (sent @ ec_accepts e) st'"
proof -
  obtain self sock self' sock' where st [simp]: "st = (self, sock)" "st' = (self', sock')" by fastforce
  note inv = one_message_more [OF one_message_next [OF assms(1) [unfolded st]]]
  show ?thesis
    using assms(2) [unfolded st]
  proof (cases rule: ec_step_cases)
    case (queue msg)
    then show ?thesis using inv [of "[msg]"] by (simp add: one_message_def Let_def ec_unflushed_def)
  next
    case (read now room data)
    note eff = read_effects(4-6) [OF assms(3) [unfolded st] read(5,6)]
    show ?thesis using inv [of "[]"] read(1,3) eff by (simp add: one_message_def Let_def ec_unflushed_def)
  next
    case (written n)
    then show ?thesis using inv [of "[]"] by (auto simp: one_message_def Let_def ec_unflushed_def)
  next
    case flushed
    then show ?thesis using inv [of "[]"] by (simp add: one_message_def Let_def ec_unflushed_def)
  qed
qed

lemma one_message_run:
  assumes "runs (ec_step C) (ec_new p t now, socket_new) es out st"
  shows "one_message C (concat (map ec_accepts es)) st"
  using assms
proof (induction rule: runs.induct)
  case runs_start
  show ?case by (simp add: one_message_def ec_new_def socket_new_def ec_unflushed_def)
next
  case (runs_step es out st e st' out')
  then show ?case using one_message_step [OF _ runs_step(2) tq_conn.run_ok [OF runs_step(1) ec_new_ok(1)]] by simp
qed

text \<open>Two messages in a toy serialisation, one end that sends them, and another end that reads them in two portions.\<close>

definition example_msg :: wire_msg where
  "example_msg = WireTq \<lparr>pm_rack_id = [], pm_kind = PrepareAck 3\<rparr>"

definition example_cbor :: "wire_msg cbor" where
  "example_cbor =
     \<lparr>into_writer = (\<lambda>m. if m = WirePing then Some [0] else if m = example_msg then Some [1, 7] else None),
      from_reader = (\<lambda>bs. if bs = [0] then Some WirePing else if bs = [1, 7] then Some example_msg else None)\<rparr>"

definition example_events :: "conn_event list" where
  "example_events = [FromMain example_msg, WriterReady (Inr 4), WriterReady (Inr 2), WriterReady (Inr 0), Tick 1, WriterReady (Inr 5)]"

definition ec_try ::
  "wire_msg cbor \<Rightarrow> established_conn \<times> conn_socket \<Rightarrow> conn_event \<Rightarrow>
   ((established_conn \<times> conn_socket) \<times> (task_id \<times> conn_msg) list) option" where
  "ec_try C st event =
     (if ec_event_ok (ec_next_write (fst st)) event
      then (case ec_round C st event of Done (st', out, Inr _) \<Rightarrow> Some (st', out) | _ \<Rightarrow> None) else None)"

lemma ec_try_step: "ec_try C st e = Some r \<Longrightarrow> ec_step C st e r"
  by (auto simp: ec_try_def ec_step_def split: if_splits outcome.splits sum.splits)

lemma example_fits:
  "into_writer example_cbor example_msg = Some [1, 7]" "into_writer example_cbor WirePing = Some [0]"
  "body_fits example_cbor MAX_FRAME_SIZE example_msg" "body_fits example_cbor MAX_FRAME_SIZE WirePing"
  by (simp_all add: body_fits_def example_cbor_def example_msg_def MAX_FRAME_SIZE_def CONN_BUF_SIZE_def FRAME_HEADER_SIZE_def)

lemma example_frames:
  "frame example_cbor example_msg = [0, 0, 0, 2, 1, 7]" "frame example_cbor WirePing = [0, 0, 0, 1, 0]"
  by (simp_all add: frame_eq(2) [OF example_fits(3,1)] frame_eq(2) [OF example_fits(4,2)] u32_to_be_bytes_def be_bytes_numeral)

lemma example_writes:
  "write_framed example_cbor example_msg = Done (Ok [0, 0, 0, 2, 1, 7])" "write_framed example_cbor WirePing = Done (Ok [0, 0, 0, 1, 0])"
  using frame_eq(1) [OF example_fits(3,1)] frame_eq(1) [OF example_fits(4,2)] by (simp_all add: example_frames)

lemma example_inverts: "cbor_inverts example_cbor"
  by (simp add: cbor_inverts_def example_cbor_def example_msg_def)

lemma example_sender:
  obtains a where "runs (ec_step example_cbor) (ec_new p t 0, socket_new) example_events [] a"
    "so_written (snd a) = [0, 0, 0, 2, 1, 7, 0, 0, 0, 1, 0]"
proof -
  have "\<exists>a. run_list (ec_try example_cbor) (ec_new p t 0, socket_new) example_events = Some (a, []) \<and>
    so_written (snd a) = [0, 0, 0, 2, 1, 7, 0, 0, 0, 1, 0]"
    by (simp add: example_events_def ec_try_def ec_event_ok_def ec_next_write_def ec_round_def ec_new_def socket_new_def
        ec_on_msg_from_main_def ec_ping_def ec_write_framed_to_queue_def example_writes write_or_flush_def Let_def
        MSG_WRITE_QUEUE_CAPACITY_def INACTIVITY_TIMEOUT_def)
  with that show thesis by (blast intro: runs_run_list ec_try_step)
qed

lemma example_unframe:
  "unframe example_cbor MAX_FRAME_SIZE [0, 0] = ([], More [0, 0])"
  "unframe example_cbor MAX_FRAME_SIZE [0, 0, 0, 2, 1, 7] = ([example_msg], More [])"
  "unframe example_cbor MAX_FRAME_SIZE [0, 0, 0, 2, 1, 7, 0, 0, 0, 1, 0] = ([example_msg, WirePing], More [])"
  using unframe_frame [OF example_inverts example_fits(3), of "[]"] unframe_frame [OF example_inverts example_fits(4), of "[]"]
    unframe_frame [OF example_inverts example_fits(3), of "[0, 0, 0, 1, 0]"]
  by (simp_all add: example_frames unframe_short FRAME_HEADER_SIZE_def)

lemma example_first_read:
  obtains st where "runs (ec_step example_cbor) (ec_new p t 0, socket_new) [ReadReady 1 8 (Inr [0, 0])] [] st" "ec_pending st = [0, 0]"
proof -
  obtain st where st: "ec_step example_cbor (ec_new p t 0, socket_new) (ReadReady 1 8 (Inr [0, 0])) (st, concat (map (to_main p t) []))"
    "ec_pending st = [0, 0]"
    by (rule read_step [where C = example_cbor and p = p and t = t and data = "[0, 0]" and ms = "[]" and rest = "[0, 0]" and room = 8 and now = 1,
        OF ec_new_ok(1)])
      (simp_all add: example_unframe CONN_BUF_SIZE_def)
  show thesis by (rule that [OF _ st(2)]) (use runs_step [where step = "ec_step example_cbor", OF runs_start st(1)] in simp)
qed

lemma example_receiver:
  obtains b out where "runs (ec_step example_cbor) (ec_new p t 0, socket_new)
    [ReadReady 1 8 (Inr [0, 0]), ReadReady 2 8 (Inr [0, 2, 1, 7, 0, 0, 0, 1, 0])] out b"
proof -
  obtain st where st: "runs (ec_step example_cbor) (ec_new p t 0, socket_new) [ReadReady 1 8 (Inr [0, 0])] [] st" "ec_pending st = [0, 0]"
    by (rule example_first_read)
  have "ec_ok example_cbor p t st" by (rule tq_conn.run_ok [OF st(1) ec_new_ok(1)])
  then obtain b where "ec_step example_cbor st (ReadReady 2 8 (Inr [0, 2, 1, 7, 0, 0, 0, 1, 0]))
      (b, concat (map (to_main p t) [example_msg, WirePing]))"
    by (rule read_step [where data = "[0, 2, 1, 7, 0, 0, 0, 1, 0]" and ms = "[example_msg, WirePing]" and rest = "[]" and room = 8 and now = 2])
      (simp_all add: example_unframe st(2) CONN_BUF_SIZE_def example_msg_def)
  from that runs_step [where step = "ec_step example_cbor", OF st(1) this] show thesis by simp
qed

text \<open>
  C9: a connection delivers what was sent on it, once and in order, however the bytes are cut
  into reads and writes. Let one end of a connection have accepted messages for sending, the
  pings among them, that are not too long for the other end. When the other end has read a part
  of what the first end has written, then it has passed on to its main task a prefix of these messages;
  and all of them as soon as it has read the frames of all of them.
\<close>

theorem connection_delivers_in_order:
  assumes "cbor_inverts C"
    and "runs (ec_step C) (ec_new peer_b task_a now_a, socket_new) events_a out_a a"
    and "runs (ec_step C) (ec_new peer_a task_b now_b, socket_new) events_b out_b b"
    and "prefix (concat (map ec_chunk events_b)) (so_written (snd a))"
    and "list_all (body_fits C MAX_FRAME_SIZE) (concat (map ec_accepts events_a))"
  shows "\<exists>k \<le> length (concat (map ec_accepts events_a)).
    out_b = concat (map (to_main peer_a task_b) (take k (concat (map ec_accepts events_a)))) \<and>
    (k = length (concat (map ec_accepts events_a)) \<longleftrightarrow>
       concat (map ec_chunk events_b) = frames C (concat (map ec_accepts events_a)))"
proof -
  have "ec_outgoing a = frames C (concat (map ec_accepts events_a))"
    using tq_conn.run_writes [OF assms(2) ec_new_ok(1)] by simp
  with assms(4) have "prefix (concat (map ec_chunk events_b)) (frames C (concat (map ec_accepts events_a)))"
    by (simp add: ec_outgoing_def) (metis prefix_order.trans prefixI)
  then show ?thesis by (rule tq_conn.run_delivers [OF assms(1,5) _ assms(3) ec_new_ok(1,2)])
qed

theorem connection_delivers_in_order_witness:
  "\<exists>a b out. runs (ec_step example_cbor) (ec_new (BaseboardId ''p'' ''b'') 1 0, socket_new) example_events [] a \<and>
     runs (ec_step example_cbor) (ec_new (BaseboardId ''p'' ''a'') 2 0, socket_new)
       [ReadReady 1 8 (Inr [0, 0]), ReadReady 2 8 (Inr [0, 2, 1, 7, 0, 0, 0, 1, 0])] out b \<and>
     out = [(2, Received (BaseboardId ''p'' ''a'') \<lparr>pm_rack_id = [], pm_kind = PrepareAck 3\<rparr>)]"
proof -
  obtain a where a: "runs (ec_step example_cbor) (ec_new (BaseboardId ''p'' ''b'') 1 0, socket_new) example_events [] a"
    "so_written (snd a) = [0, 0, 0, 2, 1, 7, 0, 0, 0, 1, 0]"
    by (rule example_sender)
  obtain b out where b: "runs (ec_step example_cbor) (ec_new (BaseboardId ''p'' ''a'') 2 0, socket_new)
       [ReadReady 1 8 (Inr [0, 0]), ReadReady 2 8 (Inr [0, 2, 1, 7, 0, 0, 0, 1, 0])] out b"
    by (rule example_receiver)
  have sent: "concat (map ec_accepts example_events) = [example_msg, WirePing]" by (simp add: example_events_def)
  from connection_delivers_in_order [OF example_inverts a(1) b] a(2)
  have "out = [(2, Received (BaseboardId ''p'' ''a'') \<lparr>pm_rack_id = [], pm_kind = PrepareAck 3\<rparr>)]"
    by (simp add: sent example_fits example_frames) (simp add: example_msg_def)
  with a(1) b show ?thesis by blast
qed

text \<open>
  C23: reading implements the framing, on every connection and for everything that can be read.
  The buffer has space for the next read at any time. A read of some bytes
  passes on the messages that these complete. It closes the connection exactly when the bytes cannot be the
  beginning of a sequence of frames, with the error that says why: a frame that is too
  long, or a message that cannot be deserialised. No more than ten messages wait for the socket.
\<close>

theorem reading_implements_framing:
  assumes "runs (ec_step C) (ec_new peer_id task_id start, socket_new) events out (self, sock)"
    and "data \<noteq> []" "length (ec_pending (self, sock) @ data) \<le> CONN_BUF_SIZE"
    and "unframe C MAX_FRAME_SIZE (concat (map ec_chunk events) @ data) = (ms, s)"
    and "length (concat (map (to_main peer_id task_id) ms)) \<le> length out + room"
  shows "length (ec_pending (self, sock)) < CONN_BUF_SIZE \<and> length (ec_write_queue self) \<le> MSG_WRITE_QUEUE_CAPACITY \<and>
    (\<exists>self' out'. ec_round C (self, sock) (ReadReady now room (Inr data)) = Done ((self', sock), out', stop_result s) \<and>
       out @ out' = concat (map (to_main peer_id task_id) ms))"
proof (intro conjI)
  note ok = tq_conn.run_ok [OF assms(1) ec_new_ok(1)]
  show "length (ec_pending (self, sock)) < CONN_BUF_SIZE" "length (ec_write_queue self) \<le> MSG_WRITE_QUEUE_CAPACITY"
    using ok pending_length [OF ok] by (simp_all add: ec_ok_def)
  obtain ns where ns: "unframe C MAX_FRAME_SIZE (concat (map ec_chunk events)) = (ns, More (ec_pending (self, sock)))"
    "out = concat (map (to_main peer_id task_id) ns)"
    using tq_conn.run_reads [OF assms(1) ec_new_ok(1,2)] by blast
  obtain ms' where "unframe C MAX_FRAME_SIZE (ec_pending (self, sock) @ data) = (ms', s)" "ms = ns @ ms'"
    using unframe_append [OF ns(1), of data] assms(4) by (auto split: prod.splits)
  with read_round [OF ok assms(2,3) this(1)] assms(5) ns(2)
  show "\<exists>self' out'. ec_round C (self, sock) (ReadReady now room (Inr data)) = Done ((self', sock), out', stop_result s) \<and>
      out @ out' = concat (map (to_main peer_id task_id) ms)" by fastforce
qed

theorem reading_implements_framing_witness:
  "\<exists>st st'. runs (ec_step example_cbor) (ec_new (BaseboardId ''p'' ''a'') 2 0, socket_new) [ReadReady 1 8 (Inr [0, 0])] [] st \<and>
     ec_round example_cbor st (ReadReady 2 8 (Inr [0, 2, 1, 7])) =
       Done (st', [(2, Received (BaseboardId ''p'' ''a'') \<lparr>pm_rack_id = [], pm_kind = PrepareAck 3\<rparr>)], Ok ())"
proof -
  obtain st where st: "runs (ec_step example_cbor) (ec_new (BaseboardId ''p'' ''a'') 2 0, socket_new) [ReadReady 1 8 (Inr [0, 0])] [] st"
    "ec_pending st = [0, 0]"
    by (rule example_first_read)
  obtain self sock where pair: "st = (self, sock)" by fastforce
  have out: "concat (map (to_main (BaseboardId ''p'' ''a'') 2) [example_msg]) =
      [(2, Received (BaseboardId ''p'' ''a'') \<lparr>pm_rack_id = [], pm_kind = PrepareAck 3\<rparr>)]"
    by (simp add: example_msg_def)
  have "length (ec_pending (self, sock) @ [0, 2, 1, 7]) \<le> CONN_BUF_SIZE"
    using st(2) by (simp add: pair CONN_BUF_SIZE_def)
  moreover have "unframe example_cbor MAX_FRAME_SIZE (concat (map ec_chunk [ReadReady 1 8 (Inr [0, 0])]) @ [0, 2, 1, 7]) =
      ([example_msg], More [])"
    by (simp add: example_unframe)
  ultimately have "\<exists>self'. ec_round example_cbor (self, sock) (ReadReady 2 8 (Inr [0, 2, 1, 7])) =
    Done ((self', sock), [(2, Received (BaseboardId ''p'' ''a'') \<lparr>pm_rack_id = [], pm_kind = PrepareAck 3\<rparr>)], Ok ())"
    using reading_implements_framing [OF st(1) [unfolded pair], of "[0, 2, 1, 7]" "[example_msg]" "More []" 8 2, unfolded out]
    by simp
  with st(1) pair show ?thesis by blast
qed

text \<open>
  A message does not stay behind in the buffers of the socket while the next one is written.
  At any time of any run of a connection, what was written and is not yet flushed is the beginning of
  the frame of a single message that was accepted for sending, or nothing.
\<close>

theorem unflushed_is_one_message:
  assumes "runs (ec_step C) (ec_new peer_id task_id start, socket_new) events out st"
  shows "ec_unflushed st = [] \<or> (\<exists>m \<in> set (concat (map ec_accepts events)). prefix (ec_unflushed st) (frame C m))"
proof -
  have "ec_unflushed st @ cursor_remaining (ec_current_write (fst st)) \<in> insert [] (frame C ` set (concat (map ec_accepts events)))"
    using one_message_run [OF assms] by (simp add: one_message_def Let_def)
  then show ?thesis by (auto simp del: set_concat) (metis prefixI)+
qed

theorem unflushed_is_one_message_witness:
  "\<exists>st. runs (ec_step example_cbor) (ec_new (BaseboardId ''p'' ''b'') 1 0, socket_new) example_events [] st \<and>
     length (ec_unflushed st) \<le> 6"
proof -
  obtain a where a: "runs (ec_step example_cbor) (ec_new (BaseboardId ''p'' ''b'') 1 0, socket_new) example_events [] a"
    by (rule example_sender)
  have sent: "concat (map ec_accepts example_events) = [example_msg, WirePing]" by (simp add: example_events_def)
  from unflushed_is_one_message [OF a, unfolded sent]
  have "ec_unflushed a = [] \<or> prefix (ec_unflushed a) [0, 0, 0, 2, 1, 7] \<or> prefix (ec_unflushed a) [0, 0, 0, 1, 0]"
    by (simp add: example_frames)
  then have "length (ec_unflushed a) \<le> 6" by (elim disjE) (auto dest!: prefix_length_le)
  with a show ?thesis by blast
qed

end
