(* ===== verification/Sled_Hardware.thy ===== *)
theory Sled_Hardware
  imports TQ_Types
begin

text \<open>
  The identification of sleds (\<^verbatim>\<open>sled-hardware/types/src/lib.rs\<close>): the baseboards that the
  bootstore uses, the baseboard ids of the trust quorum, and their text forms. Printing
  and parsing of a baseboard id are inverse exactly when neither part holds a colon.
\<close>

section \<open>Definitions\<close>

datatype oxide_sled = SledGimlet | SledCosmo

definition try_from_root_node_name :: "string \<Rightarrow> oxide_sled option" where
  "try_from_root_node_name root_node_name =
     (if root_node_name = ''Oxide,Gimlet'' then Some SledGimlet
      else if root_node_name = ''Oxide,Cosmo'' then Some SledCosmo
      else None)"

definition gimlet_sled_model :: string where
  "gimlet_sled_model = ''913-0000019''"

definition cosmo_sled_model :: string where
  "cosmo_sled_model = ''913-0000023''"

definition try_from_model :: "string \<Rightarrow> oxide_sled option" where
  "try_from_model model =
     (if model = cosmo_sled_model then Some SledCosmo
      else if model = gimlet_sled_model then Some SledGimlet
      else None)"

fun oxide_sled_name :: "oxide_sled \<Rightarrow> string" where
  "oxide_sled_name SledGimlet = ''gimlet''"
| "oxide_sled_name SledCosmo = ''cosmo''"

text \<open>Inclusive ranges of disk slots as their first and last slot.\<close>

fun m2_disk_slots :: "oxide_sled \<Rightarrow> int \<times> int" where
  "m2_disk_slots _ = (0x11, 0x12)"

fun u2_disk_slots :: "oxide_sled \<Rightarrow> int \<times> int" where
  "u2_disk_slots SledGimlet = (0x00, 0x09)"
| "u2_disk_slots SledCosmo = (0x20, 0x29)"

fun bootdisk_slots :: "oxide_sled \<Rightarrow> int list" where
  "bootdisk_slots _ = [0x11, 0x12]"

datatype baseboard = Gimlet string string "32 word" | Pc string string

fun bb_identifier :: "baseboard \<Rightarrow> string" where
  "bb_identifier (Gimlet identifier _ _) = identifier"
| "bb_identifier (Pc identifier _) = identifier"

fun bb_model :: "baseboard \<Rightarrow> string" where
  "bb_model (Gimlet _ model _) = model"
| "bb_model (Pc _ model) = model"

fun bb_revision :: "baseboard \<Rightarrow> 32 word" where
  "bb_revision (Gimlet _ _ revision) = revision"
| "bb_revision (Pc _ _) = 0"

definition new_oxide_sled :: "oxide_sled \<Rightarrow> string \<Rightarrow> string \<Rightarrow> 32 word \<Rightarrow> baseboard" where
  "new_oxide_sled kind identifier model revision =
     (case kind of
        SledGimlet \<Rightarrow> Gimlet identifier model revision
      | SledCosmo \<Rightarrow> Gimlet identifier model revision)"

definition bb_type_string :: "baseboard \<Rightarrow> string" where
  "bb_type_string self =
     (case self of
        Gimlet _ _ _ \<Rightarrow> (case map_option oxide_sled_name (try_from_model (bb_model self)) of
                           Some name \<Rightarrow> name
                         | None \<Rightarrow> ''oxide'')
      | Pc _ _ \<Rightarrow> ''pc'')"

definition bb_display :: "baseboard \<Rightarrow> string" where
  "bb_display self =
     (case self of
        Gimlet identifier model revision \<Rightarrow>
          bb_type_string self @ ''-'' @ identifier @ ''-'' @ model @ ''-'' @ dec (unat revision)
      | Pc identifier model \<Rightarrow> ''pc-'' @ identifier @ ''-'' @ model)"

text \<open>
  The derived order: variants in the order of their declaration, then the fields from left to
  right. It is that of a tuple of keys.
\<close>

definition bb_key :: "baseboard \<Rightarrow> nat \<times> string \<times> string \<times> 32 word" where
  "bb_key b = (case b of Gimlet i m r \<Rightarrow> (0, i, m, r) | Pc i m \<Rightarrow> (1, i, m, 0))"

lemma bb_key_inj: "bb_key a = bb_key b \<longleftrightarrow> a = b"
  by (cases a; cases b) (simp_all add: bb_key_def)

instantiation baseboard :: linorder
begin

definition less_eq_baseboard :: "baseboard \<Rightarrow> baseboard \<Rightarrow> bool" where
  "less_eq_baseboard a b \<longleftrightarrow>
     (let (va, ia, ma, ra) = bb_key a; (vb, ib, mb, rb) = bb_key b in
      va < vb \<or> va = vb \<and> (ia < ib \<or> ia = ib \<and> (ma < mb \<or> ma = mb \<and> ra \<le> rb)))"

definition less_baseboard :: "baseboard \<Rightarrow> baseboard \<Rightarrow> bool" where
  "less_baseboard a b \<longleftrightarrow> a \<le> b \<and> \<not> b \<le> a" for a b :: baseboard

instance
proof
  fix a b c :: baseboard
  show "a < b \<longleftrightarrow> a \<le> b \<and> \<not> b \<le> a" by (simp add: less_baseboard_def)
  show "a \<le> a" by (simp add: less_eq_baseboard_def Let_def split: prod.split)
  show "a \<le> b \<or> b \<le> a" by (auto simp: less_eq_baseboard_def Let_def split: prod.splits)
  show "a \<le> c" if "a \<le> b" "b \<le> c"
    using that by (auto simp: less_eq_baseboard_def Let_def split: prod.splits)
  show "a = b" if "a \<le> b" "b \<le> a"
    using that bb_key_inj [of a b] by (auto simp: less_eq_baseboard_def Let_def split: prod.splits)
qed

end

definition baseboard_id_of :: "baseboard \<Rightarrow> baseboard_id" where
  "baseboard_id_of value =
     (case value of
        Gimlet identifier model _ \<Rightarrow> BaseboardId model identifier
      | Pc identifier model \<Rightarrow> BaseboardId model identifier)"

datatype baseboard_id_parse_error = MissingPartNumber | MissingSerialNumber | TooManyFields

fun parse_error_display :: "baseboard_id_parse_error \<Rightarrow> string" where
  "parse_error_display MissingPartNumber = ''missing part number''"
| "parse_error_display MissingSerialNumber = ''missing serial number''"
| "parse_error_display TooManyFields = ''too many fields''"

text \<open>\<open>str::split\<close> at a character: there is always at least one piece.\<close>

fun split_at_char :: "char \<Rightarrow> string \<Rightarrow> string list" where
  "split_at_char c [] = [[]]"
| "split_at_char c (x # xs) =
     (if x = c then [] # split_at_char c xs
      else (x # hd (split_at_char c xs)) # tl (split_at_char c xs))"

definition baseboard_id_from_str :: "string \<Rightarrow> (baseboard_id, baseboard_id_parse_error) rust_result" where
  "baseboard_id_from_str value =
     (case split_at_char CHR '':'' value of
        [] \<Rightarrow> Err MissingPartNumber
      | [_] \<Rightarrow> Err MissingSerialNumber
      | [part, serial] \<Rightarrow> Ok (BaseboardId part serial)
      | _ \<Rightarrow> Err TooManyFields)"

section \<open>Properties\<close>

lemma split_at_char_not_Nil [simp]: "split_at_char c s \<noteq> []"
  by (cases s) simp_all

lemma split_at_char_no: "c \<notin> set s \<Longrightarrow> split_at_char c s = [s]"
  by (induction s) auto

lemma split_at_char_append:
  "c \<notin> set s \<Longrightarrow> split_at_char c (s @ c # t) = s # split_at_char c t"
  by (induction s) auto

lemma split_at_char_single: "split_at_char c s = [p] \<longleftrightarrow> p = s \<and> c \<notin> set s"
proof (induction s arbitrary: p)
  case (Cons x s)
  obtain q qs where "split_at_char c s = q # qs" by (cases "split_at_char c s") simp_all
  with Cons.IH [of q] Cons.IH [of "tl p"] show ?case by (cases p) auto
qed auto

lemma split_at_char_pair:
  "split_at_char c s = [p, q] \<longleftrightarrow> s = p @ c # q \<and> c \<notin> set p \<and> c \<notin> set q"
proof
  show "s = p @ c # q \<and> c \<notin> set p \<and> c \<notin> set q" if "split_at_char c s = [p, q]"
    using that
  proof (induction s arbitrary: p)
    case (Cons x s)
    then show ?case
    proof (cases "x = c")
      case False
      then obtain p' where "p = x # p'" "split_at_char c s = [p', q]"
        using Cons.prems by (cases "split_at_char c s") auto
      with Cons.IH False show ?thesis by auto
    qed (auto simp: split_at_char_single)
  qed simp
  show "split_at_char c s = [p, q]" if "s = p @ c # q \<and> c \<notin> set p \<and> c \<notin> set q"
    using that by (simp add: split_at_char_append split_at_char_no)
qed

text \<open>
  A string parses to a baseboard id exactly when it is the printed form of that id and
  neither the part number nor the serial number holds a colon. So parsing what was printed
  gives the id back, and printing what was parsed gives the string back.
\<close>

theorem baseboard_id_roundtrip:
  "baseboard_id_from_str value = Ok b \<longleftrightarrow>
     value = baseboard_display b \<and> CHR '':'' \<notin> set (part_number b) \<union> set (serial_number b)"
proof -
  have "baseboard_id_from_str value = Ok b \<longleftrightarrow>
      split_at_char CHR '':'' value = [part_number b, serial_number b]"
    by (cases b) (auto simp: baseboard_id_from_str_def split: list.splits)
  then show ?thesis by (auto simp: split_at_char_pair baseboard_display_def)
qed

end
