(* ===== verification/TQ_Conn_Mgr.thy ===== *)
theory TQ_Conn_Mgr
  imports TQ_Established_Conn Sled_Hardware
begin

text \<open>
  The connection manager (\<^verbatim>\<open>trust-quorum/src/connection_manager.rs\<close>), which keeps a full mesh of
  connections to the other nodes: which tasks connect, accept or run a connection, when to
  start and to abort them, and to which task a message goes. A collection with several unique
  keys is a list. The runtime numbers the tasks: the supply \<open>cm_ids\<close> has their ids. The set of
  running tasks has a mark for those that were aborted and have not ended yet.
\<close>

section \<open>Definitions\<close>

datatype any_socket_addr = AddrV4 "32 word" "16 word" | AddrV6 socket_addr

datatype accept_error = Ipv4Accept "32 word" "16 word" | Sprockets

datatype connection_type = ConnectedTo socket_addr | AcceptedFrom socket_addr

fun connection_type_addr :: "connection_type \<Rightarrow> socket_addr" where
  "connection_type_addr (ConnectedTo addr) = addr"
| "connection_type_addr (AcceptedFrom addr) = addr"

record task_handle =
  th_task_id :: task_id
  th_conn_type :: connection_type

definition th_addr :: "task_handle \<Rightarrow> socket_addr" where
  "th_addr self = connection_type_addr (th_conn_type self)"

record established_handle =
  eh_baseboard_id :: baseboard_id
  eh_task_handle :: task_handle

definition eh_task_id :: "established_handle \<Rightarrow> task_id" where
  "eh_task_id self = th_task_id (eh_task_handle self)"

definition eh_addr :: "established_handle \<Rightarrow> socket_addr" where
  "eh_addr self = th_addr (eh_task_handle self)"

datatype conn_state = StateConnecting | StateAccepting | StateEstablished baseboard_id

record conn_info =
  ci_state :: conn_state
  ci_addr :: socket_addr
  ci_task_id :: task_id

record conn_mgr_status =
  cms_bootstrap_addrs :: "socket_addr btree_set"
  cms_connections :: "conn_info list"
  cms_num_conn_tasks :: u64
  cms_total_tasks_spawned :: u64

text \<open>Collections: access and removal by a key, and insertion with keys that must be free or are freed.\<close>

definition item_by :: "('a \<Rightarrow> 'k) \<Rightarrow> 'k \<Rightarrow> 'a list \<Rightarrow> 'a option" where
  "item_by key k items = find (\<lambda>item. key item = k) items"

definition remove_by :: "('a \<Rightarrow> 'k) \<Rightarrow> 'k \<Rightarrow> 'a list \<Rightarrow> 'a list" where
  "remove_by key k items = filter (\<lambda>item. key item \<noteq> k) items"

definition handle_clash :: "task_handle \<Rightarrow> task_handle \<Rightarrow> bool" where
  "handle_clash a b = (th_task_id a = th_task_id b \<or> th_addr a = th_addr b)"

definition established_clash :: "established_handle \<Rightarrow> established_handle \<Rightarrow> bool" where
  "established_clash a b =
     (eh_baseboard_id a = eh_baseboard_id b \<or> eh_task_id a = eh_task_id b \<or> eh_addr a = eh_addr b)"

definition insert_unique :: "('a \<Rightarrow> 'a \<Rightarrow> bool) \<Rightarrow> 'a \<Rightarrow> 'a list \<Rightarrow> 'a list option" where
  "insert_unique clash item items = (if list_ex (clash item) items then None else Some (items @ [item]))"

definition insert_overwrite :: "('a \<Rightarrow> 'a \<Rightarrow> bool) \<Rightarrow> 'a \<Rightarrow> 'a list \<Rightarrow> 'a list \<times> 'a list" where
  "insert_overwrite clash item items = (filter (\<lambda>x. \<not> clash item x) items @ [item], filter (clash item) items)"

record conn_mgr =
  cm_listen_addr :: socket_addr
  cm_ids :: "nat \<Rightarrow> task_id"
  cm_spawned :: nat
  cm_join_set :: "(task_id \<times> bool) list"
  cm_bootstrap_addrs :: "socket_addr btree_set"
  cm_connecting :: "task_handle list"
  cm_accepting :: "task_handle list"
  cm_established :: "established_handle list"
  cm_total_tasks_spawned :: u64

text \<open>The port is the one that the server got when the address to listen on has port zero.\<close>

definition cm_new :: "socket_addr \<Rightarrow> 16 word \<Rightarrow> (nat \<Rightarrow> task_id) \<Rightarrow> conn_mgr" where
  "cm_new listen_addr listen_port ids =
     (let (ip, port, rest) = listen_addr in
      \<lparr>cm_listen_addr = (if listen_port \<noteq> port then (ip, listen_port, rest) else listen_addr), cm_ids = ids, cm_spawned = 0,
       cm_join_set = [], cm_bootstrap_addrs = [], cm_connecting = [], cm_accepting = [], cm_established = [],
       cm_total_tasks_spawned = 0\<rparr>)"

definition cm_status :: "conn_mgr \<Rightarrow> conn_mgr_status" where
  "cm_status self =
     \<lparr>cms_bootstrap_addrs = cm_bootstrap_addrs self,
      cms_connections =
        map (\<lambda>h. \<lparr>ci_state = StateConnecting, ci_addr = th_addr h, ci_task_id = th_task_id h\<rparr>) (cm_connecting self) @
        map (\<lambda>h. \<lparr>ci_state = StateAccepting, ci_addr = th_addr h, ci_task_id = th_task_id h\<rparr>) (cm_accepting self) @
        map (\<lambda>h. \<lparr>ci_state = StateEstablished (eh_baseboard_id h), ci_addr = eh_addr h, ci_task_id = eh_task_id h\<rparr>)
          (cm_established self),
      cms_num_conn_tasks = word_of_nat (length (cm_join_set self)),
      cms_total_tasks_spawned = cm_total_tasks_spawned self\<rparr>"

definition connected_peers :: "conn_mgr_status \<Rightarrow> (baseboard_id \<times> 128 word) list" where
  "connected_peers self =
     List.map_filter (\<lambda>c. case ci_state c of StateEstablished peer \<Rightarrow> Some (peer, fst (ci_addr c)) | _ \<Rightarrow> None)
       (cms_connections self)"

text \<open>Sending: the tasks that get a message, and the message.\<close>

definition cm_send_to :: "conn_mgr \<Rightarrow> baseboard_id \<Rightarrow> wire_msg \<Rightarrow> (task_id \<times> wire_msg) list" where
  "cm_send_to self peer msg =
     (case item_by eh_baseboard_id peer (cm_established self) of Some h \<Rightarrow> [(eh_task_id h, msg)] | None \<Rightarrow> [])"

definition cm_send :: "conn_mgr \<Rightarrow> envelope \<Rightarrow> (task_id \<times> wire_msg) list" where
  "cm_send self envelope = cm_send_to self (env_to envelope) (WireTq (env_msg envelope))"

definition cm_broadcast_network_config ::
  "conn_mgr \<Rightarrow> network_config \<Rightarrow> baseboard_id option \<Rightarrow> (task_id \<times> wire_msg) list" where
  "cm_broadcast_network_config self network_config excluded_peer =
     map (\<lambda>h. (eh_task_id h, WireNetworkConfig network_config))
       (filter (\<lambda>h. Some (eh_baseboard_id h) \<noteq> excluded_peer) (cm_established self))"

definition cm_send_network_config :: "conn_mgr \<Rightarrow> baseboard_id \<Rightarrow> network_config \<Rightarrow> (task_id \<times> wire_msg) list" where
  "cm_send_network_config self peer_id network_config = cm_send_to self peer_id (WireNetworkConfig network_config)"

datatype proxy_conn_state = ProxyConnected task_id | ProxyDisconnected

definition cm_proxy_request :: "conn_mgr \<Rightarrow> baseboard_id \<Rightarrow> wire_request \<Rightarrow> (task_id \<times> wire_msg) list \<times> proxy_conn_state" where
  "cm_proxy_request self destination req =
     (case item_by eh_baseboard_id destination (cm_established self) of
        Some h \<Rightarrow> ([(eh_task_id h, WireProxyRequest req)], ProxyConnected (eh_task_id h))
      | None \<Rightarrow> ([], ProxyDisconnected))"

definition cm_proxy_response :: "conn_mgr \<Rightarrow> baseboard_id \<Rightarrow> wire_response \<Rightarrow> (task_id \<times> wire_msg) list" where
  "cm_proxy_response self destination rsp = cm_send_to self destination (WireProxyResponse rsp)"

text \<open>The runtime: a task is started, told to stop, and leaves the set when it has ended.\<close>

definition cm_spawn :: "conn_mgr \<Rightarrow> connection_type \<Rightarrow> conn_mgr \<times> task_handle" where
  "cm_spawn self conn_type =
     (let task_id = cm_ids self (cm_spawned self) in
      (self\<lparr>cm_spawned := cm_spawned self + 1, cm_join_set := cm_join_set self @ [(task_id, False)],
            cm_total_tasks_spawned := cm_total_tasks_spawned self + 1\<rparr>,
       \<lparr>th_task_id = task_id, th_conn_type = conn_type\<rparr>))"

definition cm_abort :: "task_id list \<Rightarrow> conn_mgr \<Rightarrow> conn_mgr" where
  "cm_abort task_ids self =
     self\<lparr>cm_join_set := map (\<lambda>(t, aborted). (t, aborted \<or> t \<in> set task_ids)) (cm_join_set self)\<rparr>"

definition cm_accept :: "conn_mgr \<Rightarrow> any_socket_addr \<Rightarrow> conn_mgr \<times> (unit, accept_error) rust_result" where
  "cm_accept self acceptor =
     (case acceptor of
        AddrV4 ip port \<Rightarrow> (self, Err (Ipv4Accept ip port))
      | AddrV6 addr \<Rightarrow>
          (let (self, task_handle) = cm_spawn self (AcceptedFrom addr);
               (accepting, replaced) = insert_overwrite handle_clash task_handle (cm_accepting self);
               self = self\<lparr>cm_accepting := accepting\<rparr>
           in (cm_abort (map th_task_id replaced) self, Ok ())))"

text \<open>Both kinds of completed handshake: the task of the address becomes the connection to the peer.\<close>

definition cm_establish :: "conn_mgr \<Rightarrow> task_handle \<Rightarrow> baseboard_id \<Rightarrow> conn_mgr" where
  "cm_establish self task_handle peer_id =
     (let (established, replaced) = insert_overwrite established_clash
            \<lparr>eh_baseboard_id = peer_id, eh_task_handle = task_handle\<rparr> (cm_established self)
      in cm_abort (map eh_task_id replaced) (self\<lparr>cm_established := established\<rparr>))"

definition cm_server_handshake_completed :: "conn_mgr \<Rightarrow> task_id \<Rightarrow> socket_addr \<Rightarrow> baseboard_id \<Rightarrow> conn_mgr" where
  "cm_server_handshake_completed self task_id addr peer_id =
     (case item_by th_addr addr (cm_accepting self) of
        Some task_handle \<Rightarrow>
          cm_establish (self\<lparr>cm_accepting := remove_by th_addr addr (cm_accepting self)\<rparr>) task_handle peer_id
      | None \<Rightarrow> self)"

definition cm_client_handshake_completed :: "conn_mgr \<Rightarrow> task_id \<Rightarrow> socket_addr \<Rightarrow> baseboard_id \<Rightarrow> conn_mgr" where
  "cm_client_handshake_completed self task_id addr peer_id =
     (case item_by th_addr addr (cm_connecting self) of
        Some task_handle \<Rightarrow>
          cm_establish (self\<lparr>cm_connecting := remove_by th_addr addr (cm_connecting self)\<rparr>) task_handle peer_id
      | None \<Rightarrow> self)"

definition cm_connect_client :: "conn_mgr \<Rightarrow> socket_addr \<Rightarrow> conn_mgr outcome" where
  "cm_connect_client self addr =
     (let (self, task_handle) = cm_spawn self (ConnectedTo addr) in
      obind (expect ''assertion failed: self.connecting.insert_unique(task_handle).is_ok()''
               (insert_unique handle_clash task_handle (cm_connecting self))) (\<lambda>connecting.
        Done (self\<lparr>cm_connecting := connecting\<rparr>)))"

definition cm_reconnect :: "conn_mgr \<Rightarrow> conn_mgr outcome" where
  "cm_reconnect self =
     (let to_connect = filter (\<lambda>addr. item_by th_addr addr (cm_connecting self) = None \<and>
                                      item_by eh_addr addr (cm_established self) = None)
            (filter (\<lambda>addr. cm_listen_addr self > addr) (cm_bootstrap_addrs self))
      in ofold cm_connect_client self to_connect)"

definition cm_disconnect_client :: "conn_mgr \<Rightarrow> socket_addr \<Rightarrow> conn_mgr \<times> established_handle option" where
  "cm_disconnect_client self addr =
     (case item_by th_addr addr (cm_connecting self) of
        Some handle \<Rightarrow>
          (cm_abort [th_task_id handle] (self\<lparr>cm_connecting := remove_by th_addr addr (cm_connecting self)\<rparr>), None)
      | None \<Rightarrow>
          (case item_by eh_addr addr (cm_established self) of
             Some handle \<Rightarrow>
               (cm_abort [eh_task_id handle] (self\<lparr>cm_established := remove_by eh_addr addr (cm_established self)\<rparr>), Some handle)
           | None \<Rightarrow> (self, None)))"

fun cm_disconnect_clients :: "conn_mgr \<Rightarrow> socket_addr list \<Rightarrow> conn_mgr \<times> established_handle list" where
  "cm_disconnect_clients self [] = (self, [])"
| "cm_disconnect_clients self (addr # to_disconnect) =
     (let (self, handle) = cm_disconnect_client self addr;
          (self, disconnected_peers) = cm_disconnect_clients self to_disconnect
      in (self, (case handle of Some h \<Rightarrow> [h] | None \<Rightarrow> []) @ disconnected_peers))"

definition cm_update_bootstrap_connections ::
  "conn_mgr \<Rightarrow> socket_addr btree_set \<Rightarrow> (conn_mgr \<times> established_handle list) outcome" where
  "cm_update_bootstrap_connections self addrs =
     (if cm_bootstrap_addrs self = addrs then Done (self, [])
      else
        let to_connect = filter (\<lambda>addr. cm_listen_addr self > addr)
              (filter (\<lambda>addr. \<not> bs_contains (cm_bootstrap_addrs self) addr) addrs);
            to_disconnect = filter (\<lambda>addr. cm_listen_addr self > addr)
              (filter (\<lambda>addr. \<not> bs_contains addrs addr) (cm_bootstrap_addrs self));
            self = self\<lparr>cm_bootstrap_addrs := addrs\<rparr> in
        obind (ofold cm_connect_client self to_connect) (\<lambda>self. Done (cm_disconnect_clients self to_disconnect)))"

text \<open>\<open>DisconnectedPeer\<close>: the task, and its peer when the task was its connection.\<close>

definition cm_on_task_exit :: "conn_mgr \<Rightarrow> task_id \<Rightarrow> conn_mgr \<times> task_id \<times> baseboard_id option" where
  "cm_on_task_exit self task_id =
     (case item_by eh_task_id task_id (cm_established self) of
        Some handle \<Rightarrow>
          (self\<lparr>cm_established := remove_by eh_task_id task_id (cm_established self)\<rparr>, task_id, Some (eh_baseboard_id handle))
      | None \<Rightarrow>
          (case item_by th_task_id task_id (cm_accepting self) of
             Some handle \<Rightarrow> (self\<lparr>cm_accepting := remove_by th_task_id task_id (cm_accepting self)\<rparr>, task_id, None)
           | None \<Rightarrow>
               (case item_by th_task_id task_id (cm_connecting self) of
                  Some handle \<Rightarrow> (self\<lparr>cm_connecting := remove_by th_task_id task_id (cm_connecting self)\<rparr>, task_id, None)
                | None \<Rightarrow> (self, task_id, None))))"

text \<open>What \<open>step\<close> waits for: a connection to accept, the end of a task, or the timer.\<close>

datatype cm_event = AcceptReady any_socket_addr | AcceptFailure | TaskJoined task_id | ReconnectTick

definition cm_step ::
  "conn_mgr \<Rightarrow> cm_event \<Rightarrow> (conn_mgr \<times> ((task_id \<times> baseboard_id option) option, accept_error) rust_result) outcome" where
  "cm_step self event =
     (case event of
        AcceptReady acceptor \<Rightarrow>
          (let (self, res) = cm_accept self acceptor in
           Done (self, (case res of Inl e \<Rightarrow> Err e | Inr _ \<Rightarrow> Ok None)))
      | AcceptFailure \<Rightarrow> Done (self, Err Sprockets)
      | TaskJoined task_id \<Rightarrow>
          (let self = self\<lparr>cm_join_set := filter (\<lambda>(t, _). t \<noteq> task_id) (cm_join_set self)\<rparr>;
               (self, disconnected) = cm_on_task_exit self task_id
           in Done (self, Ok (Some disconnected)))
      | ReconnectTick \<Rightarrow> obind (cm_reconnect self) (\<lambda>self. Done (self, Ok None)))"

text \<open>The identity that a platform id of the form \<open>x:part:y:serial\<close> stands for.\<close>

definition platform_id_to_baseboard_id :: "string \<Rightarrow> baseboard_id outcome" where
  "platform_id_to_baseboard_id platform_id =
     (let pieces = split_at_char CHR '':'' platform_id;
          piece = (\<lambda>i. if i < length pieces then Some (pieces ! i) else None) in
      obind (expect ''called `Option::unwrap()` on a `None` value'' (piece 1)) (\<lambda>part.
      obind (expect ''called `Option::unwrap()` on a `None` value'' (piece 3)) (\<lambda>serial.
        Done (BaseboardId part serial))))"

section \<open>Collections\<close>

lemma item_by_Some:
  "item_by key k items = Some h \<Longrightarrow> h \<in> set items \<and> key h = k"
  by (auto simp: item_by_def find_Some_iff)

lemma item_by_None: "item_by key k items = None \<longleftrightarrow> k \<notin> key ` set items"
  by (auto simp: item_by_def find_None_iff)

lemma set_remove_by: "set (remove_by key k items) = {x \<in> set items. key x \<noteq> k}"
  by (auto simp: remove_by_def)

lemma distinct_remove_by [simp]: "distinct (map f items) \<Longrightarrow> distinct (map f (remove_by key k items))"
  by (simp add: remove_by_def distinct_map_filter)

text \<open>Removing by one key removes one item, and thus one value of any other key.\<close>

lemma remove_by_image:
  assumes "item_by key k items = Some h" and "distinct (map key items)" and "distinct (map f items)"
  shows "f ` set (remove_by key k items) = f ` set items - {f h}"
proof -
  have h: "h \<in> set items" "key h = k" using item_by_Some [OF assms(1)] by auto
  have "x = h" if "x \<in> set items" "key x = k \<or> f x = f h" for x
    using that h assms(2,3) by (auto simp: distinct_map dest: inj_onD)
  with h show ?thesis by (auto simp: set_remove_by)
qed

lemma overwrite_distinct:
  assumes "distinct (map f items)" and "\<And>x. f x = f item \<Longrightarrow> clash item x"
  shows "distinct (map f (filter (\<lambda>x. \<not> clash item x) items @ [item]))"
  using assms by (auto simp: distinct_map_filter)

lemma overwrite_image:
  assumes "distinct (map f items)"
  shows "f ` {x \<in> set items. \<not> clash item x} = f ` set items - f ` {x \<in> set items. clash item x}"
  using assms by (auto simp: distinct_map dest: inj_onD)

section \<open>Invariant\<close>

text \<open>The tasks in the collections, and the tasks that run and were not told to stop.\<close>

definition cm_tracked :: "conn_mgr \<Rightarrow> task_id list" where
  "cm_tracked self =
     map th_task_id (cm_connecting self) @ map th_task_id (cm_accepting self) @ map eh_task_id (cm_established self)"

definition cm_live :: "conn_mgr \<Rightarrow> task_id set" where
  "cm_live self = {t. (t, False) \<in> set (cm_join_set self)}"

definition cm_runtime_ok :: "conn_mgr \<Rightarrow> bool" where
  "cm_runtime_ok self =
     (inj (cm_ids self) \<and> distinct (map fst (cm_join_set self)) \<and>
      fst ` set (cm_join_set self) \<subseteq> cm_ids self ` {..<cm_spawned self})"

definition cm_tables_ok :: "conn_mgr \<Rightarrow> bool" where
  "cm_tables_ok self =
     (distinct (map th_addr (cm_connecting self)) \<and> distinct (map th_addr (cm_accepting self)) \<and>
      distinct (map eh_addr (cm_established self)) \<and> distinct (map eh_baseboard_id (cm_established self)))"

text \<open>
  Every task that runs and was not told to stop is in exactly one of the collections, but for the
  tasks \<open>T\<close>, which are on their way from one collection to another. Connections are only opened to known addresses
  that are smaller than the own one, and to the addresses \<open>X\<close>, which were known before.
\<close>

definition cm_inv_but :: "task_id set \<Rightarrow> socket_addr set \<Rightarrow> conn_mgr \<Rightarrow> bool" where
  "cm_inv_but T X self =
     (cm_runtime_ok self \<and> cm_tables_ok self \<and>
      distinct (cm_tracked self) \<and> set (cm_tracked self) = cm_live self - T \<and> T \<subseteq> cm_live self \<and>
      (\<forall>h \<in> set (cm_connecting self). th_conn_type h = ConnectedTo (th_addr h) \<and>
         th_addr h \<in> set (cm_bootstrap_addrs self) \<union> X \<and> th_addr h < cm_listen_addr self) \<and>
      bs_ok (cm_bootstrap_addrs self))"

abbreviation cm_inv :: "conn_mgr \<Rightarrow> bool" where
  "cm_inv \<equiv> cm_inv_but {} {}"

lemma cm_live_spawn [simp]: "cm_live (fst (cm_spawn self ct)) = insert (cm_ids self (cm_spawned self)) (cm_live self)"
  by (auto simp: cm_live_def cm_spawn_def Let_def)

lemma cm_live_abort [simp]: "cm_live (cm_abort ts self) = cm_live self - set ts"
proof -
  have "(t, False) \<in> (\<lambda>(t, aborted). (t, aborted \<or> t \<in> set ts)) ` A \<longleftrightarrow> (t, False) \<in> A \<and> t \<notin> set ts" for t A
    by force
  then show ?thesis by (auto simp: cm_live_def cm_abort_def)
qed

lemma cm_live_update [simp]:
  "cm_live (self\<lparr>cm_connecting := x\<rparr>) = cm_live self" "cm_live (self\<lparr>cm_accepting := x\<rparr>) = cm_live self"
  "cm_live (self\<lparr>cm_established := y\<rparr>) = cm_live self" "cm_live (self\<lparr>cm_bootstrap_addrs := b\<rparr>) = cm_live self"
  by (simp_all add: cm_live_def)

lemma cm_runtime_update [simp]:
  "cm_runtime_ok (self\<lparr>cm_connecting := x\<rparr>) = cm_runtime_ok self" "cm_runtime_ok (self\<lparr>cm_accepting := x\<rparr>) = cm_runtime_ok self"
  "cm_runtime_ok (self\<lparr>cm_established := y\<rparr>) = cm_runtime_ok self" "cm_runtime_ok (self\<lparr>cm_bootstrap_addrs := b\<rparr>) = cm_runtime_ok self"
  by (simp_all add: cm_runtime_ok_def)

lemma cm_runtime_abort [simp]: "cm_runtime_ok (cm_abort ts self) = cm_runtime_ok self"
proof -
  have "map fst (cm_join_set (cm_abort ts self)) = map fst (cm_join_set self)"
    by (simp add: cm_abort_def case_prod_beta comp_def)
  moreover have "fst ` set (cm_join_set (cm_abort ts self)) = fst ` set (cm_join_set self)"
    using arg_cong [OF calculation, of set] by simp
  ultimately show ?thesis by (simp add: cm_runtime_ok_def) (simp add: cm_abort_def)
qed

lemma cm_runtime_spawn:
  assumes "cm_runtime_ok self"
  shows "cm_runtime_ok (fst (cm_spawn self ct))" and "cm_ids self (cm_spawned self) \<notin> fst ` set (cm_join_set self)"
    and "cm_ids self (cm_spawned self) \<notin> cm_live self"
proof -
  show new: "cm_ids self (cm_spawned self) \<notin> fst ` set (cm_join_set self)"
    using assms by (auto simp: cm_runtime_ok_def dest: injD)
  then show "cm_ids self (cm_spawned self) \<notin> cm_live self" by (force simp: cm_live_def)
  show "cm_runtime_ok (fst (cm_spawn self ct))"
    using assms new by (auto simp: cm_runtime_ok_def cm_spawn_def lessThan_Suc Let_def)
qed

lemma cm_abort_tables [simp]:
  "cm_connecting (cm_abort ts self) = cm_connecting self" "cm_accepting (cm_abort ts self) = cm_accepting self"
  "cm_established (cm_abort ts self) = cm_established self" "cm_bootstrap_addrs (cm_abort ts self) = cm_bootstrap_addrs self"
  "cm_listen_addr (cm_abort ts self) = cm_listen_addr self"
  by (simp_all add: cm_abort_def)

lemma cm_spawn_tables [simp]:
  "cm_connecting (fst (cm_spawn self ct)) = cm_connecting self" "cm_accepting (fst (cm_spawn self ct)) = cm_accepting self"
  "cm_established (fst (cm_spawn self ct)) = cm_established self" "cm_bootstrap_addrs (fst (cm_spawn self ct)) = cm_bootstrap_addrs self"
  "cm_listen_addr (fst (cm_spawn self ct)) = cm_listen_addr self"
  "snd (cm_spawn self ct) = \<lparr>th_task_id = cm_ids self (cm_spawned self), th_conn_type = ct\<rparr>"
  by (simp_all add: cm_spawn_def Let_def)

lemma cm_new_inv: "inj ids \<Longrightarrow> cm_inv (cm_new listen_addr listen_port ids)"
  by (simp add: cm_inv_but_def cm_new_def cm_runtime_ok_def cm_tables_ok_def cm_tracked_def cm_live_def split: prod.split)


section \<open>Operations keep the invariant\<close>

lemma spawn_inv: "cm_inv_but {} X self \<Longrightarrow> cm_inv_but {cm_ids self (cm_spawned self)} X (fst (cm_spawn self ct))"
  using cm_runtime_spawn [of self] by (simp add: cm_inv_but_def cm_tables_ok_def cm_tracked_def)

lemma cm_inv_butI:
  assumes "cm_runtime_ok self" "cm_tables_ok self" "distinct (cm_tracked self)" "set (cm_tracked self) = cm_live self - T"
    "T \<subseteq> cm_live self" "bs_ok (cm_bootstrap_addrs self)"
    "\<And>h. h \<in> set (cm_connecting self) \<Longrightarrow> th_conn_type h = ConnectedTo (th_addr h) \<and>
         th_addr h \<in> set (cm_bootstrap_addrs self) \<union> X \<and> th_addr h < cm_listen_addr self"
  shows "cm_inv_but T X self"
  using assms by (simp add: cm_inv_but_def)

lemma cm_inv_butD:
  assumes "cm_inv_but T X self"
  shows "cm_runtime_ok self" "cm_tables_ok self" "distinct (cm_tracked self)" "set (cm_tracked self) = cm_live self - T"
    "T \<subseteq> cm_live self" "bs_ok (cm_bootstrap_addrs self)"
    "h \<in> set (cm_connecting self) \<Longrightarrow> th_conn_type h = ConnectedTo (th_addr h) \<and>
         th_addr h \<in> set (cm_bootstrap_addrs self) \<union> X \<and> th_addr h < cm_listen_addr self"
  using assms by (simp_all add: cm_inv_but_def)

text \<open>The tracked tasks when one collection changes.\<close>

lemma tracked_connecting:
  "distinct (cm_tracked self) \<Longrightarrow> distinct (map th_task_id hs) \<Longrightarrow>
   th_task_id ` set hs \<inter> (th_task_id ` set (cm_accepting self) \<union> eh_task_id ` set (cm_established self)) = {} \<Longrightarrow>
   distinct (cm_tracked (self\<lparr>cm_connecting := hs\<rparr>))"
  by (auto simp: cm_tracked_def)

lemma tracked_accepting:
  "distinct (cm_tracked self) \<Longrightarrow> distinct (map th_task_id hs) \<Longrightarrow>
   th_task_id ` set hs \<inter> (th_task_id ` set (cm_connecting self) \<union> eh_task_id ` set (cm_established self)) = {} \<Longrightarrow>
   distinct (cm_tracked (self\<lparr>cm_accepting := hs\<rparr>))"
  by (auto simp: cm_tracked_def)

lemma tracked_established:
  "distinct (cm_tracked self) \<Longrightarrow> distinct (map eh_task_id hs) \<Longrightarrow>
   eh_task_id ` set hs \<inter> (th_task_id ` set (cm_connecting self) \<union> th_task_id ` set (cm_accepting self)) = {} \<Longrightarrow>
   distinct (cm_tracked (self\<lparr>cm_established := hs\<rparr>))"
  by (auto simp: cm_tracked_def)

lemma tracked_parts:
  "distinct (cm_tracked self) \<Longrightarrow> distinct (map th_task_id (cm_connecting self)) \<and> distinct (map th_task_id (cm_accepting self)) \<and>
     distinct (map eh_task_id (cm_established self)) \<and>
     th_task_id ` set (cm_connecting self) \<inter> th_task_id ` set (cm_accepting self) = {} \<and>
     th_task_id ` set (cm_connecting self) \<inter> eh_task_id ` set (cm_established self) = {} \<and>
     th_task_id ` set (cm_accepting self) \<inter> eh_task_id ` set (cm_established self) = {}"
  by (auto simp: cm_tracked_def)

lemma set_tracked: "set (cm_tracked self) = th_task_id ` set (cm_connecting self) \<union> th_task_id ` set (cm_accepting self) \<union>
    eh_task_id ` set (cm_established self)"
  by (auto simp: cm_tracked_def)

lemma minus_part:
  "A \<union> B = L - T \<Longrightarrow> A \<inter> B = {} \<Longrightarrow> t \<in> A \<Longrightarrow> A - {t} \<union> B = L - insert t T"
  by blast

lemma remove_connecting_inv:
  assumes inv: "cm_inv_but {} X self" and h: "item_by key k (cm_connecting self) = Some h" and key: "distinct (map key (cm_connecting self))"
  shows "cm_inv_but {th_task_id h} X (self\<lparr>cm_connecting := remove_by key k (cm_connecting self)\<rparr>)"
proof -
  let ?hs = "remove_by key k (cm_connecting self)"
  let ?rest = "th_task_id ` set (cm_accepting self) \<union> eh_task_id ` set (cm_established self)"
  note D = cm_inv_butD [OF inv] and parts = tracked_parts [OF cm_inv_butD(3) [OF inv]]
  have img: "th_task_id ` set ?hs = th_task_id ` set (cm_connecting self) - {th_task_id h}"
    by (rule remove_by_image [OF h key]) (use parts in simp)
  have mem: "th_task_id h \<in> th_task_id ` set (cm_connecting self)" using item_by_Some [OF h] by simp
  have disj: "th_task_id ` set (cm_connecting self) \<inter> ?rest = {}" using parts by (simp add: Int_Un_distrib)
  have all: "th_task_id ` set (cm_connecting self) \<union> ?rest = cm_live self - {}" using D(4) by (simp add: set_tracked Un_assoc)
  show ?thesis
  proof (rule cm_inv_butI)
    show "distinct (cm_tracked (self\<lparr>cm_connecting := ?hs\<rparr>))"
    proof (rule tracked_connecting [OF D(3)])
      show "th_task_id ` set ?hs \<inter> ?rest = {}" unfolding img using disj by blast
    qed (use parts in simp)
    show "set (cm_tracked (self\<lparr>cm_connecting := ?hs\<rparr>)) = cm_live (self\<lparr>cm_connecting := ?hs\<rparr>) - {th_task_id h}"
      using minus_part [OF all disj mem] by (simp add: set_tracked img Un_assoc)
    show "{th_task_id h} \<subseteq> cm_live (self\<lparr>cm_connecting := ?hs\<rparr>)" using all mem by simp blast
  qed (use D(1,2,6,7) in \<open>simp_all add: cm_tables_ok_def set_remove_by\<close>)
qed

lemma remove_accepting_inv:
  assumes inv: "cm_inv_but {} X self" and h: "item_by key k (cm_accepting self) = Some h" and key: "distinct (map key (cm_accepting self))"
  shows "cm_inv_but {th_task_id h} X (self\<lparr>cm_accepting := remove_by key k (cm_accepting self)\<rparr>)"
proof -
  let ?hs = "remove_by key k (cm_accepting self)"
  let ?rest = "th_task_id ` set (cm_connecting self) \<union> eh_task_id ` set (cm_established self)"
  note D = cm_inv_butD [OF inv] and parts = tracked_parts [OF cm_inv_butD(3) [OF inv]]
  have img: "th_task_id ` set ?hs = th_task_id ` set (cm_accepting self) - {th_task_id h}"
    by (rule remove_by_image [OF h key]) (use parts in simp)
  have mem: "th_task_id h \<in> th_task_id ` set (cm_accepting self)" using item_by_Some [OF h] by simp
  have disj: "th_task_id ` set (cm_accepting self) \<inter> ?rest = {}" using parts by (simp add: Int_Un_distrib Int_commute)
  have all: "th_task_id ` set (cm_accepting self) \<union> ?rest = cm_live self - {}" using D(4) by (simp add: set_tracked Un_ac)
  show ?thesis
  proof (rule cm_inv_butI)
    show "distinct (cm_tracked (self\<lparr>cm_accepting := ?hs\<rparr>))"
    proof (rule tracked_accepting [OF D(3)])
      show "th_task_id ` set ?hs \<inter> ?rest = {}" unfolding img using disj by blast
    qed (use parts in simp)
    show "set (cm_tracked (self\<lparr>cm_accepting := ?hs\<rparr>)) = cm_live (self\<lparr>cm_accepting := ?hs\<rparr>) - {th_task_id h}"
      using minus_part [OF all disj mem] by (simp add: set_tracked img Un_ac)
    show "{th_task_id h} \<subseteq> cm_live (self\<lparr>cm_accepting := ?hs\<rparr>)" using all mem by simp blast
  qed (use D(1,2,6,7) in \<open>simp_all add: cm_tables_ok_def\<close>)
qed

lemma remove_established_inv:
  assumes inv: "cm_inv_but {} X self" and h: "item_by key k (cm_established self) = Some h" and key: "distinct (map key (cm_established self))"
  shows "cm_inv_but {eh_task_id h} X (self\<lparr>cm_established := remove_by key k (cm_established self)\<rparr>)"
proof -
  let ?hs = "remove_by key k (cm_established self)"
  let ?rest = "th_task_id ` set (cm_connecting self) \<union> th_task_id ` set (cm_accepting self)"
  note D = cm_inv_butD [OF inv] and parts = tracked_parts [OF cm_inv_butD(3) [OF inv]]
  have img: "eh_task_id ` set ?hs = eh_task_id ` set (cm_established self) - {eh_task_id h}"
    by (rule remove_by_image [OF h key]) (use parts in simp)
  have mem: "eh_task_id h \<in> eh_task_id ` set (cm_established self)" using item_by_Some [OF h] by simp
  have disj: "eh_task_id ` set (cm_established self) \<inter> ?rest = {}" using parts by (simp add: Int_Un_distrib Int_commute)
  have all: "eh_task_id ` set (cm_established self) \<union> ?rest = cm_live self - {}" using D(4) by (simp add: set_tracked Un_ac)
  show ?thesis
  proof (rule cm_inv_butI)
    show "distinct (cm_tracked (self\<lparr>cm_established := ?hs\<rparr>))"
    proof (rule tracked_established [OF D(3)])
      show "eh_task_id ` set ?hs \<inter> ?rest = {}" unfolding img using disj by blast
    qed (use parts in simp)
    show "set (cm_tracked (self\<lparr>cm_established := ?hs\<rparr>)) = cm_live (self\<lparr>cm_established := ?hs\<rparr>) - {eh_task_id h}"
      using minus_part [OF all disj mem] by (simp add: set_tracked img Un_ac)
    show "{eh_task_id h} \<subseteq> cm_live (self\<lparr>cm_established := ?hs\<rparr>)" using all mem by simp blast
  qed (use D(1,2,6,7) in \<open>simp_all add: cm_tables_ok_def\<close>)
qed

lemma tracked_abort [simp]: "cm_tracked (cm_abort ts self) = cm_tracked self" "cm_tables_ok (cm_abort ts self) = cm_tables_ok self"
  by (simp_all add: cm_tracked_def cm_tables_ok_def)

lemma abort_inv: "cm_inv_but (set ts) X self \<Longrightarrow> cm_inv_but {} X (cm_abort ts self)"
  by (simp add: cm_inv_but_def)

text \<open>Adding the task that is on its way, with the removal of the entries that it replaces.\<close>

lemma plus_part:
  assumes "A \<union> B = L - {t}" "A \<inter> B = {}" "t \<in> L" "R \<subseteq> A"
  shows "insert t (A - R) \<union> B = L - R" and "insert t (A - R) \<inter> B = {}"
  using assms by blast+

lemma add_connecting_inv:
  assumes inv: "cm_inv_but {th_task_id h} X self" and new: "th_conn_type h = ConnectedTo (th_addr h)" "th_addr h \<in> set (cm_bootstrap_addrs self) \<union> X"
    "th_addr h < cm_listen_addr self" "th_addr h \<notin> th_addr ` set (cm_connecting self)"
  shows "cm_inv_but {} X (self\<lparr>cm_connecting := cm_connecting self @ [h]\<rparr>)"
proof -
  let ?A = "th_task_id ` set (cm_connecting self)"
  let ?rest = "th_task_id ` set (cm_accepting self) \<union> eh_task_id ` set (cm_established self)"
  note D = cm_inv_butD [OF inv] and parts = tracked_parts [OF cm_inv_butD(3) [OF inv]]
  have disj: "?A \<inter> ?rest = {}" using parts by (simp add: Int_Un_distrib)
  have all: "?A \<union> ?rest = cm_live self - {th_task_id h}" using D(4) by (simp add: set_tracked Un_assoc)
  note plus = plus_part [OF all disj _ empty_subsetI]
  show ?thesis
  proof (rule cm_inv_butI)
    show "distinct (cm_tracked (self\<lparr>cm_connecting := cm_connecting self @ [h]\<rparr>))"
    proof (rule tracked_connecting [OF D(3)])
      show "th_task_id ` set (cm_connecting self @ [h]) \<inter> ?rest = {}" using plus(2) D(5) by simp
      show "distinct (map th_task_id (cm_connecting self @ [h]))" using parts all by auto
    qed
    show "set (cm_tracked (self\<lparr>cm_connecting := cm_connecting self @ [h]\<rparr>)) = cm_live (self\<lparr>cm_connecting := cm_connecting self @ [h]\<rparr>) - {}"
      using plus(1) D(5) by (simp add: set_tracked Un_ac)
  qed (use D(1,2,6,7) new in \<open>auto simp: cm_tables_ok_def\<close>)
qed


lemma overwrite_accepting_inv:
  fixes h self defines "R \<equiv> filter (handle_clash h) (cm_accepting self)"
  assumes inv: "cm_inv_but {th_task_id h} X self"
  shows "cm_inv_but {} X (cm_abort (map th_task_id R) (self\<lparr>cm_accepting := filter (\<lambda>x. \<not> handle_clash h x) (cm_accepting self) @ [h]\<rparr>))"
proof (rule abort_inv, unfold set_map)
  let ?A = "th_task_id ` set (cm_accepting self)" and ?hs = "filter (\<lambda>x. \<not> handle_clash h x) (cm_accepting self) @ [h]"
  let ?rest = "th_task_id ` set (cm_connecting self) \<union> eh_task_id ` set (cm_established self)"
  note D = cm_inv_butD [OF inv] and parts = tracked_parts [OF cm_inv_butD(3) [OF inv]]
  have disj: "?A \<inter> ?rest = {}" using parts by (simp add: Int_Un_distrib Int_commute)
  have all: "?A \<union> ?rest = cm_live self - {th_task_id h}" using D(4) by (simp add: set_tracked Un_ac)
  have sub: "th_task_id ` set R \<subseteq> ?A" by (auto simp: R_def)
  have live: "th_task_id h \<in> cm_live self" using D(5) by simp
  note plus = plus_part [OF all disj live sub]
  have img: "th_task_id ` set ?hs = insert (th_task_id h) (?A - th_task_id ` set R)"
    using overwrite_image [of th_task_id "cm_accepting self" handle_clash h] parts by (simp add: R_def)
  show "cm_inv_but (th_task_id ` set R) X (self\<lparr>cm_accepting := ?hs\<rparr>)"
  proof (rule cm_inv_butI)
    show "distinct (cm_tracked (self\<lparr>cm_accepting := ?hs\<rparr>))"
    proof (rule tracked_accepting [OF D(3)])
      show "th_task_id ` set ?hs \<inter> ?rest = {}" unfolding img by (rule plus(2))
      show "distinct (map th_task_id ?hs)" by (rule overwrite_distinct) (use parts in \<open>simp_all add: handle_clash_def\<close>)
    qed
    show "set (cm_tracked (self\<lparr>cm_accepting := ?hs\<rparr>)) = cm_live (self\<lparr>cm_accepting := ?hs\<rparr>) - th_task_id ` set R"
      using plus(1) by (simp add: set_tracked img Un_ac del: set_append)
    show "th_task_id ` set R \<subseteq> cm_live (self\<lparr>cm_accepting := ?hs\<rparr>)" using sub all by simp blast
    show "cm_tables_ok (self\<lparr>cm_accepting := ?hs\<rparr>)"
      using D(2) overwrite_distinct [of th_addr "cm_accepting self" h handle_clash]
      by (simp add: cm_tables_ok_def handle_clash_def)
  qed (use D(1,6,7) in simp_all)
qed

lemma establish_inv:
  assumes inv: "cm_inv_but {th_task_id h} X self"
  shows "cm_inv_but {} X (cm_establish self h peer_id)"
proof -
  let ?e = "\<lparr>eh_baseboard_id = peer_id, eh_task_handle = h\<rparr>"
  define R where "R = filter (established_clash ?e) (cm_established self)"
  let ?A = "eh_task_id ` set (cm_established self)" and ?hs = "filter (\<lambda>x. \<not> established_clash ?e x) (cm_established self) @ [?e]"
  let ?rest = "th_task_id ` set (cm_connecting self) \<union> th_task_id ` set (cm_accepting self)"
  note D = cm_inv_butD [OF inv] and parts = tracked_parts [OF cm_inv_butD(3) [OF inv]]
  have disj: "?A \<inter> ?rest = {}" using parts by (simp add: Int_Un_distrib Int_commute)
  have all: "?A \<union> ?rest = cm_live self - {th_task_id h}" using D(4) by (simp add: set_tracked Un_ac)
  have sub: "eh_task_id ` set R \<subseteq> ?A" by (auto simp: R_def)
  have live: "th_task_id h \<in> cm_live self" using D(5) by simp
  note plus = plus_part [OF all disj live sub]
  have e: "eh_task_id ?e = th_task_id h" by (simp add: eh_task_id_def)
  have img: "eh_task_id ` set ?hs = insert (th_task_id h) (?A - eh_task_id ` set R)"
    using overwrite_image [of eh_task_id "cm_established self" established_clash ?e] parts by (simp add: R_def e)
  have "cm_inv_but (eh_task_id ` set R) X (self\<lparr>cm_established := ?hs\<rparr>)"
  proof (rule cm_inv_butI)
    show "distinct (cm_tracked (self\<lparr>cm_established := ?hs\<rparr>))"
    proof (rule tracked_established [OF D(3)])
      show "eh_task_id ` set ?hs \<inter> ?rest = {}" unfolding img by (rule plus(2))
      show "distinct (map eh_task_id ?hs)" by (rule overwrite_distinct) (use parts in \<open>simp_all add: established_clash_def\<close>)
    qed
    show "set (cm_tracked (self\<lparr>cm_established := ?hs\<rparr>)) = cm_live (self\<lparr>cm_established := ?hs\<rparr>) - eh_task_id ` set R"
      using plus(1) by (simp add: set_tracked img Un_ac del: set_append)
    show "eh_task_id ` set R \<subseteq> cm_live (self\<lparr>cm_established := ?hs\<rparr>)" using sub all by simp blast
    show "cm_tables_ok (self\<lparr>cm_established := ?hs\<rparr>)"
      using D(2) overwrite_distinct [of eh_addr "cm_established self" ?e established_clash]
        overwrite_distinct [of eh_baseboard_id "cm_established self" ?e established_clash]
      by (simp add: cm_tables_ok_def established_clash_def)
  qed (use D(1,6,7) in simp_all)
  then have "cm_inv_but (set (map eh_task_id R)) X (self\<lparr>cm_established := ?hs\<rparr>)" by simp
  from abort_inv [OF this] show ?thesis by (simp add: cm_establish_def insert_overwrite_def R_def)
qed

lemma tables_okD:
  assumes "cm_inv_but T X self"
  shows "distinct (map th_addr (cm_connecting self))" "distinct (map th_addr (cm_accepting self))"
    "distinct (map eh_addr (cm_established self))" "distinct (map eh_baseboard_id (cm_established self))"
    "distinct (map th_task_id (cm_connecting self))" "distinct (map th_task_id (cm_accepting self))"
    "distinct (map eh_task_id (cm_established self))"
  using cm_inv_butD(2) [OF assms] tracked_parts [OF cm_inv_butD(3) [OF assms]] by (simp_all add: cm_tables_ok_def)

lemma accept_inv: "cm_inv self \<Longrightarrow> cm_inv (fst (cm_accept self acceptor))"
  using overwrite_accepting_inv [of "snd (cm_spawn self ct)" "{}" "fst (cm_spawn self ct)" for ct] spawn_inv [of "{}" self]
  by (cases acceptor) (simp_all add: cm_accept_def insert_overwrite_def case_prod_beta Let_def)

lemma server_handshake_inv: "cm_inv self \<Longrightarrow> cm_inv (cm_server_handshake_completed self task_id addr peer_id)"
  using establish_inv [OF remove_accepting_inv [OF _ _ tables_okD(2)]]
  by (simp add: cm_server_handshake_completed_def split: option.split)

lemma client_handshake_inv: "cm_inv self \<Longrightarrow> cm_inv (cm_client_handshake_completed self task_id addr peer_id)"
  using establish_inv [OF remove_connecting_inv [OF _ _ tables_okD(1)]]
  by (simp add: cm_client_handshake_completed_def split: option.split)

text \<open>A new address can be connected to without a clash.\<close>

lemma connect_client_inv:
  assumes inv: "cm_inv_but {} X self" and addr: "addr \<in> set (cm_bootstrap_addrs self) \<union> X" "addr < cm_listen_addr self"
    "addr \<notin> th_addr ` set (cm_connecting self)"
  obtains self' where "cm_connect_client self addr = Done self'" "cm_inv_but {} X self'"
    "cm_bootstrap_addrs self' = cm_bootstrap_addrs self" "cm_listen_addr self' = cm_listen_addr self"
    "th_addr ` set (cm_connecting self') = insert addr (th_addr ` set (cm_connecting self))"
    "cm_established self' = cm_established self" "cm_accepting self' = cm_accepting self"
proof -
  let ?self = "fst (cm_spawn self (ConnectedTo addr))"
  let ?h = "\<lparr>th_task_id = cm_ids self (cm_spawned self), th_conn_type = ConnectedTo addr\<rparr>"
  let ?self' = "?self\<lparr>cm_connecting := cm_connecting self @ [?h]\<rparr>"
  have h: "th_addr ?h = addr" by (simp add: th_addr_def)
  have "th_task_id ` set (cm_connecting self) \<subseteq> cm_live self" using cm_inv_butD(4) [OF inv] by (auto simp: set_tracked)
  then have "\<not> list_ex (handle_clash ?h) (cm_connecting self)"
    using addr(3) cm_runtime_spawn(3) [OF cm_inv_butD(1) [OF inv]] by (auto simp: list_ex_iff handle_clash_def h)
  then have "cm_connect_client self addr = Done ?self'"
    by (simp add: cm_connect_client_def insert_unique_def case_prod_beta Let_def)
  moreover have "cm_inv_but {} X ?self'"
    using add_connecting_inv [of ?h X ?self] spawn_inv [OF inv] addr by (simp add: h)
  ultimately show thesis using that by (simp add: h)
qed

lemma connect_clients_inv:
  assumes "cm_inv_but {} X self" and "set addrs \<subseteq> set (cm_bootstrap_addrs self) \<union> X" "\<forall>addr \<in> set addrs. addr < cm_listen_addr self"
    "set addrs \<inter> th_addr ` set (cm_connecting self) = {}" "distinct addrs"
  obtains self' where "ofold cm_connect_client self addrs = Done self'" "cm_inv_but {} X self'"
    "cm_bootstrap_addrs self' = cm_bootstrap_addrs self" "cm_listen_addr self' = cm_listen_addr self"
    "th_addr ` set (cm_connecting self') = set addrs \<union> th_addr ` set (cm_connecting self)"
    "cm_established self' = cm_established self" "cm_accepting self' = cm_accepting self"
  using assms
proof (induction addrs arbitrary: self thesis)
  case Nil
  then show ?case by simp
next
  case (Cons addr addrs)
  obtain self1 where s1: "cm_connect_client self addr = Done self1" "cm_inv_but {} X self1"
    "cm_bootstrap_addrs self1 = cm_bootstrap_addrs self" "cm_listen_addr self1 = cm_listen_addr self"
    "th_addr ` set (cm_connecting self1) = insert addr (th_addr ` set (cm_connecting self))"
    "cm_established self1 = cm_established self" "cm_accepting self1 = cm_accepting self"
    by (rule connect_client_inv [OF Cons.prems(2), of addr]) (use Cons.prems(3-5) in auto)
  obtain self2 where s2: "ofold cm_connect_client self1 addrs = Done self2" "cm_inv_but {} X self2"
    "cm_bootstrap_addrs self2 = cm_bootstrap_addrs self1" "cm_listen_addr self2 = cm_listen_addr self1"
    "th_addr ` set (cm_connecting self2) = set addrs \<union> th_addr ` set (cm_connecting self1)"
    "cm_established self2 = cm_established self1" "cm_accepting self2 = cm_accepting self1"
    by (rule Cons.IH [OF _ s1(2)]) (use Cons.prems(3-6) s1(3-5) in auto)
  show ?case by (rule Cons.prems(1) [of self2]) (use s1 s2 in auto)
qed

lemma reconnect_inv:
  assumes inv: "cm_inv self"
  obtains self' where "cm_reconnect self = Done self'" "cm_inv self'" "cm_bootstrap_addrs self' = cm_bootstrap_addrs self"
    "cm_listen_addr self' = cm_listen_addr self" "cm_established self' = cm_established self"
    "th_addr ` set (cm_connecting self') = th_addr ` set (cm_connecting self) \<union>
      {addr \<in> set (cm_bootstrap_addrs self). addr < cm_listen_addr self \<and> addr \<notin> eh_addr ` set (cm_established self)}"
proof -
  let ?addrs = "filter (\<lambda>addr. item_by th_addr addr (cm_connecting self) = None \<and> item_by eh_addr addr (cm_established self) = None)
            (filter (\<lambda>addr. cm_listen_addr self > addr) (cm_bootstrap_addrs self))"
  have set: "set ?addrs = {addr \<in> set (cm_bootstrap_addrs self). addr < cm_listen_addr self \<and>
      addr \<notin> eh_addr ` set (cm_established self)} - th_addr ` set (cm_connecting self)"
    by (auto simp only: item_by_None set_filter)
  obtain self' where r: "ofold cm_connect_client self ?addrs = Done self'" "cm_inv self'"
    "cm_bootstrap_addrs self' = cm_bootstrap_addrs self" "cm_listen_addr self' = cm_listen_addr self"
    "th_addr ` set (cm_connecting self') = set ?addrs \<union> th_addr ` set (cm_connecting self)"
    "cm_established self' = cm_established self"
  proof (rule connect_clients_inv [OF inv, of ?addrs])
    show "distinct ?addrs" using cm_inv_butD(6) [OF inv] by (simp add: bs_ok_distinct)
    show "set ?addrs \<inter> th_addr ` set (cm_connecting self) = {}" unfolding set by blast
  qed auto
  show thesis
  proof (rule that [OF _ r(2-4,6)])
    show "cm_reconnect self = Done self'" using r(1) by (simp add: cm_reconnect_def)
    show "th_addr ` set (cm_connecting self') = th_addr ` set (cm_connecting self) \<union>
      {addr \<in> set (cm_bootstrap_addrs self). addr < cm_listen_addr self \<and> addr \<notin> eh_addr ` set (cm_established self)}"
      unfolding r(5) set by blast
  qed
qed

lemma inv_forget:
  assumes "cm_inv_but T X self" and "addr \<notin> th_addr ` set (cm_connecting self)"
  shows "cm_inv_but T (X - {addr}) self"
proof (rule cm_inv_butI)
  show "th_conn_type h = ConnectedTo (th_addr h) \<and> th_addr h \<in> set (cm_bootstrap_addrs self) \<union> (X - {addr}) \<and> th_addr h < cm_listen_addr self"
    if "h \<in> set (cm_connecting self)" for h
    using cm_inv_butD(7) [OF assms(1) that] assms(2) that by auto
qed (use cm_inv_butD(1-6) [OF assms(1)] in simp_all)

lemma disconnect_client_inv:
  assumes inv: "cm_inv_but {} X self" and dc: "cm_disconnect_client self addr = (self', handle)"
  shows "cm_inv_but {} (X - {addr}) self' \<and> set (cm_established self') = set (cm_established self) - set_option handle \<and>
    set_option handle \<subseteq> set (cm_established self)"
proof -
  note ok = tables_okD [OF inv]
  show ?thesis
  proof (cases "item_by th_addr addr (cm_connecting self)")
    case (Some h)
    let ?self = "self\<lparr>cm_connecting := remove_by th_addr addr (cm_connecting self)\<rparr>"
    have eq: "self' = cm_abort [th_task_id h] ?self" "handle = None"
      using dc Some by (simp_all add: cm_disconnect_client_def)
    have "cm_inv_but (set [th_task_id h]) X ?self" using remove_connecting_inv [OF inv Some ok(1)] by simp
    then have "cm_inv_but {} X self'" unfolding eq by (rule abort_inv)
    moreover have "addr \<notin> th_addr ` set (cm_connecting self')" by (auto simp: eq set_remove_by)
    ultimately show ?thesis using inv_forget by (simp add: eq)
  next
    case conn: None
    then have free: "addr \<notin> th_addr ` set (cm_connecting self)" by (simp add: item_by_None)
    show ?thesis
    proof (cases "item_by eh_addr addr (cm_established self)")
      case None
      then show ?thesis using dc conn inv_forget [OF inv free] by (simp add: cm_disconnect_client_def)
    next
      case (Some h)
      let ?self = "self\<lparr>cm_established := remove_by eh_addr addr (cm_established self)\<rparr>"
      have eq: "self' = cm_abort [eh_task_id h] ?self" "handle = Some h"
        using dc conn Some by (simp_all add: cm_disconnect_client_def)
      have "cm_inv_but (set [eh_task_id h]) X ?self" using remove_established_inv [OF inv Some ok(3)] by simp
      then have "cm_inv_but {} X self'" unfolding eq by (rule abort_inv)
      then have "cm_inv_but {} (X - {addr}) self'" by (rule inv_forget) (simp add: eq free)
      moreover have "id ` set (remove_by eh_addr addr (cm_established self)) = id ` set (cm_established self) - {id h}"
        by (rule remove_by_image [OF Some ok(3)]) (use ok(3) in \<open>simp add: distinct_map\<close>)
      ultimately show ?thesis using item_by_Some [OF Some] by (simp add: eq)
    qed
  qed
qed

lemma disconnect_clients_inv:
  assumes "cm_inv_but {} X self" and "cm_disconnect_clients self addrs = (self', handles)"
  shows "cm_inv_but {} (X - set addrs) self' \<and> set (cm_established self') = set (cm_established self) - set handles \<and>
    set handles \<subseteq> set (cm_established self)"
  using assms
proof (induction addrs arbitrary: X self handles)
  case (Cons addr addrs)
  obtain self1 h where one: "cm_disconnect_client self addr = (self1, h)" by fastforce
  obtain hs where rest: "cm_disconnect_clients self1 addrs = (self', hs)" "handles = (case h of Some h \<Rightarrow> [h] | None \<Rightarrow> []) @ hs"
    using Cons.prems(2) one by (auto split: prod.splits)
  have "set handles = set_option h \<union> set hs" using rest(2) by (auto split: option.splits)
  moreover have fst: "cm_inv_but {} (X - {addr}) self1 \<and> set (cm_established self1) = set (cm_established self) - set_option h \<and>
    set_option h \<subseteq> set (cm_established self)"
    by (rule disconnect_client_inv [OF Cons.prems(1) one])
  moreover have "cm_inv_but {} (X - {addr} - set addrs) self' \<and> set (cm_established self') = set (cm_established self1) - set hs \<and>
    set hs \<subseteq> set (cm_established self1)"
    by (rule Cons.IH [OF _ rest(1)]) (use fst in simp)
  moreover have "X - {addr} - set addrs = X - set (addr # addrs)" by auto
  ultimately show ?case by (simp add: set_diff_eq) blast
qed simp

lemma update_addrs_inv:
  assumes inv: "cm_inv self" and addrs: "bs_ok addrs"
  obtains self' handles where "cm_update_bootstrap_connections self addrs = Done (self', handles)" "cm_inv self'"
    "cm_bootstrap_addrs self' = addrs \<or> cm_bootstrap_addrs self = addrs"
    "set (cm_established self') = set (cm_established self) - set handles" "set handles \<subseteq> set (cm_established self)"
proof (cases "cm_bootstrap_addrs self = addrs")
  case True
  then show thesis using that [of self "[]"] inv by (simp add: cm_update_bootstrap_connections_def)
next
  case False
  let ?old = "cm_bootstrap_addrs self" and ?self = "self\<lparr>cm_bootstrap_addrs := addrs\<rparr>"
  let ?to_connect = "filter (\<lambda>addr. cm_listen_addr self > addr) (filter (\<lambda>addr. \<not> bs_contains ?old addr) addrs)"
  let ?to_disconnect = "filter (\<lambda>addr. cm_listen_addr self > addr) (filter (\<lambda>addr. \<not> bs_contains addrs addr) ?old)"
  have mid: "cm_inv_but {} (set ?to_disconnect) ?self"
  proof (rule cm_inv_butI)
    show "th_conn_type h = ConnectedTo (th_addr h) \<and> th_addr h \<in> set (cm_bootstrap_addrs ?self) \<union> set ?to_disconnect \<and>
        th_addr h < cm_listen_addr ?self" if "h \<in> set (cm_connecting ?self)" for h
      using cm_inv_butD(7) [OF inv, of h] that by (auto simp: bs_contains_def)
  qed (use cm_inv_butD(1-5) [OF inv] addrs in \<open>simp_all add: cm_tables_ok_def cm_tracked_def\<close>)
  obtain self1 where s1: "ofold cm_connect_client ?self ?to_connect = Done self1" "cm_inv_but {} (set ?to_disconnect) self1"
    "cm_bootstrap_addrs self1 = addrs" "cm_established self1 = cm_established self"
  proof (rule connect_clients_inv [OF mid, of ?to_connect])
    show "distinct ?to_connect" using addrs by (simp add: bs_ok_distinct)
    show "set ?to_connect \<inter> th_addr ` set (cm_connecting ?self) = {}"
      using cm_inv_butD(7) [OF inv] by (auto simp: bs_contains_def)
  qed auto
  obtain self2 hs where s2: "cm_disconnect_clients self1 ?to_disconnect = (self2, hs)" by fastforce
  have "cm_bootstrap_addrs (fst (cm_disconnect_clients c as)) = cm_bootstrap_addrs c" for c as
    by (induction c as rule: cm_disconnect_clients.induct)
      (auto simp: cm_disconnect_client_def case_prod_beta Let_def split: option.split)
  from this [of self1 ?to_disconnect] disconnect_clients_inv [OF s1(2) s2] s1 s2 False show thesis
    by (intro that [of self2 hs]) (simp_all add: cm_update_bootstrap_connections_def Let_def)
qed

lemma leave_inv:
  fixes self t defines "J \<equiv> filter (\<lambda>(x, _). x \<noteq> t) (cm_join_set self)"
  assumes "cm_inv_but T {} self" and "T = {t} \<or> T = {} \<and> t \<notin> cm_live self"
  shows "cm_inv (self\<lparr>cm_join_set := J\<rparr>)"
proof (rule cm_inv_butI)
  have live: "cm_live (self\<lparr>cm_join_set := J\<rparr>) = cm_live self - {t}" by (auto simp: cm_live_def J_def)
  have "cm_live self - T = cm_live self - {t}" using assms(3) by auto
  then show "set (cm_tracked (self\<lparr>cm_join_set := J\<rparr>)) = cm_live (self\<lparr>cm_join_set := J\<rparr>) - {}"
    using cm_inv_butD(4) [OF assms(2)] by (simp add: live) (simp add: cm_tracked_def)
  have "distinct (map fst J)" "fst ` set J \<subseteq> fst ` set (cm_join_set self)"
    using cm_inv_butD(1) [OF assms(2)] by (auto simp: cm_runtime_ok_def J_def distinct_map_filter)
  then show "cm_runtime_ok (self\<lparr>cm_join_set := J\<rparr>)"
    using cm_inv_butD(1) [OF assms(2)] by (auto simp: cm_runtime_ok_def)
qed (use cm_inv_butD [OF assms(2)] in \<open>simp_all add: cm_tables_ok_def cm_tracked_def\<close>)

lemma leave_first:
  "self\<lparr>cm_join_set := J, cm_connecting := x\<rparr> = self\<lparr>cm_connecting := x, cm_join_set := J\<rparr>"
  "self\<lparr>cm_join_set := J, cm_accepting := x\<rparr> = self\<lparr>cm_accepting := x, cm_join_set := J\<rparr>"
  "self\<lparr>cm_join_set := J, cm_established := y\<rparr> = self\<lparr>cm_established := y, cm_join_set := J\<rparr>"
  by simp_all

lemma task_exit_inv:
  fixes self t defines "J \<equiv> filter (\<lambda>(x, _). x \<noteq> t) (cm_join_set self)"
  assumes inv: "cm_inv self" and exit: "cm_on_task_exit (self\<lparr>cm_join_set := J\<rparr>) t = (self', t', peer)"
  shows "cm_inv self'" and "eh_baseboard_id ` set (cm_established self') = eh_baseboard_id ` set (cm_established self) - set_option peer"
proof -
  note ok = tables_okD [OF inv]
  have "cm_inv self' \<and> eh_baseboard_id ` set (cm_established self') = eh_baseboard_id ` set (cm_established self) - set_option peer"
  proof (cases "item_by eh_task_id t (cm_established self)")
    case (Some h)
    then have "eh_task_id h = t" by (auto dest: item_by_Some)
    then show ?thesis
      using exit Some leave_inv [OF remove_established_inv [OF inv Some ok(7)], of t] remove_by_image [OF Some ok(7,4)]
      by (clarsimp simp: cm_on_task_exit_def J_def leave_first)
  next
    case est: None
    show ?thesis
    proof (cases "item_by th_task_id t (cm_accepting self)")
      case (Some h)
      then have "th_task_id h = t" by (auto dest: item_by_Some)
      then show ?thesis
        using exit est Some leave_inv [OF remove_accepting_inv [OF inv Some ok(6)], of t]
        by (clarsimp simp: cm_on_task_exit_def J_def leave_first)
    next
      case acc: None
      show ?thesis
      proof (cases "item_by th_task_id t (cm_connecting self)")
        case (Some h)
        then have "th_task_id h = t" by (auto dest: item_by_Some)
        then show ?thesis
          using exit est acc Some leave_inv [OF remove_connecting_inv [OF inv Some ok(5)], of t]
          by (clarsimp simp: cm_on_task_exit_def J_def leave_first)
      next
        case None
        have "t \<notin> set (cm_tracked self)" using est acc None by (simp add: item_by_None set_tracked)
        then have "t \<notin> cm_live self" using cm_inv_butD(4) [OF inv] by simp
        then show ?thesis using exit est acc None leave_inv [OF inv, of t] by (clarsimp simp: cm_on_task_exit_def J_def)
      qed
    qed
  qed
  then show "cm_inv self'" "eh_baseboard_id ` set (cm_established self') = eh_baseboard_id ` set (cm_established self) - set_option peer"
    by blast+
qed

text \<open>All that the node task calls of the connection manager that changes it.\<close>

datatype cm_call =
  CallStep cm_event
| CallServerHandshake task_id socket_addr baseboard_id
| CallClientHandshake task_id socket_addr baseboard_id
| CallUpdateAddrs "socket_addr btree_set"

fun cm_do :: "conn_mgr \<Rightarrow> cm_call \<Rightarrow> conn_mgr outcome" where
  "cm_do self (CallStep event) = obind (cm_step self event) (\<lambda>(self, _). Done self)"
| "cm_do self (CallServerHandshake task_id addr peer_id) = Done (cm_server_handshake_completed self task_id addr peer_id)"
| "cm_do self (CallClientHandshake task_id addr peer_id) = Done (cm_client_handshake_completed self task_id addr peer_id)"
| "cm_do self (CallUpdateAddrs addrs) = obind (cm_update_bootstrap_connections self addrs) (\<lambda>(self, _). Done self)"

fun cm_call_ok :: "cm_call \<Rightarrow> bool" where
  "cm_call_ok (CallUpdateAddrs addrs) = bs_ok addrs"
| "cm_call_ok _ = True"

lemma step_inv:
  assumes inv: "cm_inv self"
  obtains self' r where "cm_step self event = Done (self', r)" "cm_inv self'"
proof (cases event)
  case (AcceptReady acceptor)
  then show thesis using that accept_inv [OF inv, of acceptor] by (auto simp: cm_step_def case_prod_beta Let_def)
next
  case AcceptFailure
  then show thesis using that inv by (simp add: cm_step_def)
next
  case (TaskJoined t)
  obtain self' t' peer where "cm_on_task_exit (self\<lparr>cm_join_set := filter (\<lambda>(x, _). x \<noteq> t) (cm_join_set self)\<rparr>) t = (self', t', peer)"
    by (metis surj_pair)
  then show thesis using that task_exit_inv(1) [OF inv] TaskJoined by (simp add: cm_step_def)
next
  case ReconnectTick
  obtain self' where "cm_reconnect self = Done self'" "cm_inv self'" by (rule reconnect_inv [OF inv])
  then show thesis using that ReconnectTick by (simp add: cm_step_def)
qed

lemma call_inv:
  assumes inv: "cm_inv self" and ok: "cm_call_ok call"
  obtains self' where "cm_do self call = Done self'" "cm_inv self'"
proof (cases call)
  case (CallStep event)
  obtain self' r where "cm_step self event = Done (self', r)" "cm_inv self'" by (rule step_inv [OF inv])
  then show thesis using that CallStep by simp
next
  case (CallUpdateAddrs addrs)
  then have addrs: "bs_ok addrs" using ok by simp
  obtain self' hs where "cm_update_bootstrap_connections self addrs = Done (self', hs)" "cm_inv self'"
    by (rule update_addrs_inv [OF inv addrs])
  then show thesis using that CallUpdateAddrs by simp
qed (use that inv server_handshake_inv client_handshake_inv in auto)

lemma calls_inv:
  assumes "cm_inv self" and "list_all cm_call_ok calls"
  obtains self' where "ofold cm_do self calls = Done self'" "cm_inv self'"
  using assms
proof (induction calls arbitrary: self thesis)
  case (Cons call calls)
  obtain self1 where s1: "cm_do self call = Done self1" "cm_inv self1"
    by (rule call_inv [OF Cons.prems(2)]) (use Cons.prems(3) in auto)
  obtain self2 where "ofold cm_do self1 calls = Done self2" "cm_inv self2"
    by (rule Cons.IH [OF _ s1(2)]) (use Cons.prems(3) in auto)
  with s1 Cons.prems(1) show ?case by simp
qed simp

section \<open>The mesh of connections\<close>

text \<open>
  C8: Whatever connections are accepted, handshakes complete, tasks end and addresses come and go, the
  connection manager never fails (the assertion that a new connection is to an address without one
  always holds). A task that was not told to stop is tracked in exactly one collection, so none
  leaks; there is at most one connection per peer and per address; and connections are only opened
  to known addresses that are smaller than the own one.
\<close>

theorem connections_stay_consistent:
  assumes "inj ids" and "list_all cm_call_ok calls"
  shows "\<exists>self. ofold cm_do (cm_new listen_addr listen_port ids) calls = Done self \<and>
    distinct (cm_tracked self) \<and> set (cm_tracked self) = cm_live self \<and>
    distinct (map eh_baseboard_id (cm_established self)) \<and> distinct (map eh_addr (cm_established self)) \<and>
    distinct (map th_addr (cm_connecting self)) \<and> distinct (map th_addr (cm_accepting self)) \<and>
    (\<forall>h \<in> set (cm_connecting self). th_addr h \<in> set (cm_bootstrap_addrs self) \<and> th_addr h < cm_listen_addr self)"
proof -
  obtain self where self: "ofold cm_do (cm_new listen_addr listen_port ids) calls = Done self" "cm_inv self"
    by (rule calls_inv [OF cm_new_inv [OF assms(1)] assms(2)])
  have "set (cm_tracked self) = cm_live self" using cm_inv_butD(4) [OF self(2)] by simp
  moreover have "\<forall>h \<in> set (cm_connecting self). th_addr h \<in> set (cm_bootstrap_addrs self) \<and> th_addr h < cm_listen_addr self"
    using cm_inv_butD(7) [OF self(2)] by auto
  ultimately show ?thesis
    using self(1) cm_inv_butD(3) [OF self(2)] tables_okD(1-4) [OF self(2)] by blast
qed

definition example_addr :: "128 word \<Rightarrow> socket_addr" where
  "example_addr ip = (ip, 12346, 0, 0)"

definition example_calls :: "cm_call list" where
  "example_calls =
     [CallUpdateAddrs [example_addr 1, example_addr 2, example_addr 4],
      CallClientHandshake 0 (example_addr 1) (BaseboardId ''p'' ''a''),
      CallStep (AcceptReady (AddrV6 (example_addr 4))),
      CallStep (TaskJoined 1)]"

lemma example_calls_ok: "list_all cm_call_ok example_calls"
  by (simp add: example_calls_def bs_ok_def example_addr_def)

theorem connections_stay_consistent_witness:
  "\<exists>self. ofold cm_do (cm_new (example_addr 3) 12346 id) example_calls = Done self \<and>
     distinct (cm_tracked self) \<and> set (cm_tracked self) = cm_live self"
  using connections_stay_consistent [OF inj_on_id example_calls_ok, of "example_addr 3" 12346] by blast

text \<open>
  C26: After the reconnection timer has fired, every known address that is smaller than the own one
  has a connection or a task that connects to it, so that of two nodes that know each other the one with the larger
  address connects, and the established connections are left alone.
\<close>

theorem reconnect_covers_peers:
  assumes "inj ids" and "list_all cm_call_ok calls"
    and "ofold cm_do (cm_new listen_addr listen_port ids) calls = Done self"
  shows "\<exists>self'. cm_step self ReconnectTick = Done (self', Ok None) \<and> cm_established self' = cm_established self \<and>
    {addr \<in> set (cm_bootstrap_addrs self). addr < cm_listen_addr self} \<subseteq>
      th_addr ` set (cm_connecting self') \<union> eh_addr ` set (cm_established self') \<and>
    th_addr ` set (cm_connecting self') \<subseteq> {addr \<in> set (cm_bootstrap_addrs self). addr < cm_listen_addr self}"
proof -
  have inv: "cm_inv self"
    by (rule calls_inv [OF cm_new_inv [OF assms(1)] assms(2), of listen_addr listen_port]) (use assms(3) in simp)
  obtain self' where r: "cm_reconnect self = Done self'" "cm_inv self'" "cm_bootstrap_addrs self' = cm_bootstrap_addrs self"
    "cm_listen_addr self' = cm_listen_addr self" "cm_established self' = cm_established self"
    "th_addr ` set (cm_connecting self') = th_addr ` set (cm_connecting self) \<union>
      {addr \<in> set (cm_bootstrap_addrs self). addr < cm_listen_addr self \<and> addr \<notin> eh_addr ` set (cm_established self)}"
    by (rule reconnect_inv [OF inv])
  have "th_addr ` set (cm_connecting self') \<subseteq> {addr \<in> set (cm_bootstrap_addrs self). addr < cm_listen_addr self}"
    using cm_inv_butD(7) [OF r(2)] r(3,4) by auto
  moreover have "{addr \<in> set (cm_bootstrap_addrs self). addr < cm_listen_addr self} \<subseteq>
      th_addr ` set (cm_connecting self') \<union> eh_addr ` set (cm_established self')"
    unfolding r(5,6) by blast
  ultimately show ?thesis using r(1,5) by (simp add: cm_step_def)
qed

definition example_mgr :: "nat \<Rightarrow> (task_id \<times> bool) list \<Rightarrow> socket_addr list \<Rightarrow> task_handle list \<Rightarrow> conn_mgr" where
  "example_mgr n join_set addrs connecting =
     \<lparr>cm_listen_addr = example_addr 3, cm_ids = id, cm_spawned = n, cm_join_set = join_set, cm_bootstrap_addrs = addrs,
      cm_connecting = connecting, cm_accepting = [], cm_established = [], cm_total_tasks_spawned = word_of_nat n\<rparr>"

definition example_task :: task_handle where
  "example_task = \<lparr>th_task_id = 0, th_conn_type = ConnectedTo (example_addr 1)\<rparr>"

lemma example_new: "cm_new (example_addr 3) 12346 id = example_mgr 0 [] [] []"
  by (simp add: cm_new_def example_mgr_def example_addr_def)

lemma example_smaller: "example_addr 1 < example_addr 3"
  by (simp add: example_addr_def)

lemma example_connect: "cm_connect_client (example_mgr 0 [] [example_addr 1] []) (example_addr 1) =
    Done (example_mgr (Suc 0) [(0, False)] [example_addr 1] [example_task])"
  by (simp add: example_mgr_def cm_connect_client_def cm_spawn_def insert_unique_def example_task_def)

lemma example_update: "cm_update_bootstrap_connections (example_mgr 0 [] [] []) [example_addr 1] =
    Done (example_mgr (Suc 0) [(0, False)] [example_addr 1] [example_task], [])"
proof -
  have "(example_mgr 0 [] [] [])\<lparr>cm_bootstrap_addrs := [example_addr 1]\<rparr> = example_mgr 0 [] [example_addr 1] []"
    "cm_bootstrap_addrs (example_mgr 0 [] [] []) = []" "cm_listen_addr (example_mgr 0 [] [] []) = example_addr 3"
    by (simp_all add: example_mgr_def)
  then show ?thesis by (simp add: cm_update_bootstrap_connections_def example_connect example_smaller bs_contains_def)
qed

lemma example_exit: "cm_step (example_mgr (Suc 0) [(0, False)] [example_addr 1] [example_task]) (TaskJoined 0) =
    Done (example_mgr (Suc 0) [] [example_addr 1] [], Ok (Some (0, None)))"
  by (simp add: cm_step_def cm_on_task_exit_def example_mgr_def item_by_def remove_by_def example_task_def)

theorem reconnect_covers_peers_witness:
  "\<exists>self self'. ofold cm_do (cm_new (example_addr 3) 12346 id) [CallUpdateAddrs [example_addr 1], CallStep (TaskJoined 0)] = Done self \<and>
     cm_connecting self = [] \<and> cm_step self ReconnectTick = Done (self', Ok None) \<and>
     example_addr 1 \<in> th_addr ` set (cm_connecting self')"
proof -
  let ?self = "example_mgr (Suc 0) [] [example_addr 1] []" and ?calls = "[CallUpdateAddrs [example_addr 1], CallStep (TaskJoined 0)]"
  have run: "ofold cm_do (cm_new (example_addr 3) 12346 id) ?calls = Done ?self"
    by (simp add: example_new example_update example_exit)
  have ok: "list_all cm_call_ok ?calls" by (simp add: bs_ok_def)
  have self: "cm_connecting ?self = []" "cm_established ?self = []" "cm_bootstrap_addrs ?self = [example_addr 1]"
    "cm_listen_addr ?self = example_addr 3" by (simp_all add: example_mgr_def)
  from reconnect_covers_peers [OF inj_on_id ok run]
  have "\<exists>self'. cm_step ?self ReconnectTick = Done (self', Ok None) \<and> example_addr 1 \<in> th_addr ` set (cm_connecting self')"
    by (auto simp: self example_smaller)
  with run self(1) show ?thesis by blast
qed

text \<open>
  A handshake that completed in a task that was told to stop can name the peer of another task.
  A connection is accepted from an address and its handshake completes with one peer; before this
  is reported a second connection is accepted from the same address, and the first task is told to
  stop. The report of the first task then makes the second task the connection to the first
  task's peer, whoever its own peer is, because the id of the reporting task is not looked at.
\<close>

theorem late_handshake_names_other_task:
  fixes ids addr peer
  defines "calls \<equiv> [CallStep (AcceptReady (AddrV6 addr)), CallStep (AcceptReady (AddrV6 addr)),
      CallServerHandshake (ids 0) addr peer]"
  assumes "inj ids"
  shows "\<exists>self. ofold cm_do (cm_new listen_addr listen_port ids) calls = Done self \<and>
    (ids 0, True) \<in> set (cm_join_set self) \<and> cm_accepting self = [] \<and>
    (\<forall>msg. cm_send_to self peer msg = [(ids 1, msg)])"
proof -
  have "ids 0 \<noteq> ids (Suc 0)" using assms(2) by (auto dest: injD)
  moreover obtain ip port rest where "listen_addr = (ip, port, rest)" by (metis surj_pair)
  ultimately show ?thesis
    by (simp add: calls_def cm_step_def cm_accept_def cm_new_def cm_spawn_def cm_abort_def insert_overwrite_def handle_clash_def
        th_addr_def cm_server_handshake_completed_def item_by_def remove_by_def cm_establish_def cm_send_to_def eh_task_id_def
        Let_def image_def)
qed

theorem late_handshake_names_other_task_witness:
  "\<exists>self. ofold cm_do (cm_new (example_addr 3) 12346 id)
       [CallStep (AcceptReady (AddrV6 (example_addr 4))), CallStep (AcceptReady (AddrV6 (example_addr 4))),
        CallServerHandshake 0 (example_addr 4) (BaseboardId ''p'' ''a'')] = Done self \<and>
     cm_send_to self (BaseboardId ''p'' ''a'') WirePing = [(1, WirePing)]"
  using late_handshake_names_other_task [OF inj_on_id, of "example_addr 3" 12346 "example_addr 4" "BaseboardId ''p'' ''a''"]
  by (auto simp: id_def)

end
