(* ===== verification/TQ_Mesh.thy ===== *)
theory TQ_Mesh
  imports TQ_Durability TQ_Conn_Mgr
begin

text \<open>
  The node task with its connection manager (\<^verbatim>\<open>trust-quorum/src/task.rs\<close>, the loop of
  \<open>run\<close>): what the connection manager reports is no longer chosen by the environment but
  comes from its own state, and what the node task hands over goes to the tasks of the
  established connections. The task and the connection manager share one view of the peers.
\<close>

section \<open>Definitions\<close>

text \<open>What a connection task tells the main task. The node task does not look at the address.\<close>

datatype conn_to_main_inner =
  MainAccepted socket_addr baseboard_id
| MainConnected socket_addr baseboard_id
| MainReceived baseboard_id peer_msg
| MainReceivedNetworkConfig baseboard_id network_config
| MainProxyRequestReceived baseboard_id wire_request
| MainProxyResponseReceived baseboard_id wire_response

fun conn_msg_of :: "conn_to_main_inner \<Rightarrow> conn_msg" where
  "conn_msg_of (MainAccepted addr peer_id) = Accepted peer_id"
| "conn_msg_of (MainConnected addr peer_id) = Connected peer_id"
| "conn_msg_of (MainReceived from msg) = Received from msg"
| "conn_msg_of (MainReceivedNetworkConfig from config) = ReceivedNetworkConfig from config"
| "conn_msg_of (MainProxyRequestReceived from req) = ProxyRequestReceived from req"
| "conn_msg_of (MainProxyResponseReceived from rsp) = ProxyResponseReceived from rsp"

fun cm_on_conn_msg :: "conn_mgr \<Rightarrow> task_id \<Rightarrow> conn_to_main_inner \<Rightarrow> conn_mgr" where
  "cm_on_conn_msg cm task_id (MainAccepted addr peer_id) = cm_server_handshake_completed cm task_id addr peer_id"
| "cm_on_conn_msg cm task_id (MainConnected addr peer_id) = cm_client_handshake_completed cm task_id addr peer_id"
| "cm_on_conn_msg cm task_id _ = cm"

text \<open>
  The tasks that the connection manager starts. The handshake gives the platform id of the peer
  or fails; the channel to the main task takes \<open>room\<close> more messages. A task tells the main task of
  its peer and then runs the connection, or ends.
\<close>

definition conn_task ::
  "(baseboard_id \<Rightarrow> conn_to_main_inner) \<Rightarrow> task_id \<Rightarrow> nat \<Rightarrow> nat \<Rightarrow> (string, unit) rust_result \<Rightarrow>
   ((task_id \<times> conn_to_main_inner) list \<times> established_conn option) outcome" where
  "conn_task announce task_id now room res =
     (case res of
        Inl _ \<Rightarrow> Done ([], None)
      | Inr platform_id \<Rightarrow>
          obind (platform_id_to_baseboard_id platform_id) (\<lambda>baseboard_id.
            let conn = ec_new baseboard_id task_id now in
            if room = 0 then Done ([], None)
            else Done ([(task_id, announce baseboard_id)], Some conn)))"

definition cm_accept_task ::
  "task_id \<Rightarrow> socket_addr \<Rightarrow> nat \<Rightarrow> nat \<Rightarrow> (string, unit) rust_result \<Rightarrow>
   ((task_id \<times> conn_to_main_inner) list \<times> established_conn option) outcome" where
  "cm_accept_task task_id addr now room handshake = conn_task (MainAccepted addr) task_id now room handshake"

definition cm_connect_task ::
  "task_id \<Rightarrow> socket_addr \<Rightarrow> nat \<Rightarrow> nat \<Rightarrow> (string, unit) rust_result \<Rightarrow>
   ((task_id \<times> conn_to_main_inner) list \<times> established_conn option) outcome" where
  "cm_connect_task task_id addr now room connect = conn_task (MainConnected addr) task_id now room connect"

text \<open>A connection passes on messages as coming from the peer that its task announced.\<close>

lemma conn_task_announces:
  assumes "conn_task announce task_id now room res = Done (out, Some conn)"
  shows "out = [(task_id, announce (ec_peer_id conn))] \<and> ec_task_id conn = task_id \<and>
    (\<exists>platform_id. res = Inr platform_id \<and> platform_id_to_baseboard_id platform_id = Done (ec_peer_id conn))"
  using assms by (auto simp: conn_task_def Let_def outcome_simps ec_new_def)

text \<open>
  What the loop waits for. The requests that concern connections have events of their own;
  the others are those of \<open>api_request\<close>.
\<close>

datatype main_event =
  MainApi api_request
| MainBootstrapAddresses "socket_addr btree_set"
| MainProxy baseboard_id wire_request channel
| MainStep cm_event
| MainConnMsg task_id conn_to_main_inner

text \<open>The part of the connection manager in a round, and what the node task learns from it.\<close>

definition cm_part :: "conn_mgr \<Rightarrow> main_event \<Rightarrow> (conn_mgr \<times> task_event) outcome" where
  "cm_part cm event =
     (case event of
        MainApi request \<Rightarrow> Done (cm, ApiEvent request)
      | MainBootstrapAddresses addrs \<Rightarrow>
          obind (cm_update_bootstrap_connections cm addrs) (\<lambda>(cm, disconnected).
            Done (cm, ApiEvent (ApiBootstrapAddresses (map (\<lambda>h. (eh_task_id h, eh_baseboard_id h)) disconnected))))
      | MainProxy destination wire_request tx \<Rightarrow>
          Done (cm, ApiEvent (ApiProxy destination wire_request tx
            (case snd (cm_proxy_request cm destination wire_request) of
               ProxyConnected task_id \<Rightarrow> Some task_id
             | ProxyDisconnected \<Rightarrow> None)))
      | MainStep step \<Rightarrow>
          obind (cm_step cm step) (\<lambda>(cm, res).
            Done (cm, case res of Inl _ \<Rightarrow> AcceptFailed | Inr disconnected \<Rightarrow> ConnStep disconnected))
      | MainConnMsg task_id msg \<Rightarrow> Done (cm_on_conn_msg cm task_id msg, ConnEvent (conn_msg_of msg)))"

text \<open>The messages that go to connection tasks.\<close>

fun cm_deliver :: "conn_mgr \<Rightarrow> task_output \<Rightarrow> (task_id \<times> wire_msg) list" where
  "cm_deliver cm (SendEnvelope envelope) = cm_send cm envelope"
| "cm_deliver cm (SendNetworkConfig peer_id config) = cm_send_network_config cm peer_id config"
| "cm_deliver cm (BroadcastNetworkConfig config excluded_peer) = cm_broadcast_network_config cm config excluded_peer"
| "cm_deliver cm (SendProxyResponse to rsp) = cm_proxy_response cm to rsp"
| "cm_deliver cm (SendProxyRequest to req) = fst (cm_proxy_request cm to req)"
| "cm_deliver cm _ = []"

definition main_round ::
  "task_env \<Rightarrow> io_env \<Rightarrow> rng \<Rightarrow> node_task \<Rightarrow> conn_mgr \<Rightarrow> world \<Rightarrow> main_event \<Rightarrow>
   (node_task \<times> conn_mgr \<times> world \<times> (task_id \<times> wire_msg) list) outcome" where
  "main_round T io rng self cm w event =
     (if nt_shutdown self then Done (self, cm, w, [])
      else
        obind (cm_part cm event) (\<lambda>(cm, task_event).
        obind (task_round T io rng self w task_event) (\<lambda>(self, w').
          Done (self, cm, w', concat (map (cm_deliver cm) (drop (length (w_output w)) (w_output w')))))))"

fun main_event_ok :: "main_event \<Rightarrow> bool" where
  "main_event_ok (MainApi request) =
     (request_ok request \<and> (case request of ApiBootstrapAddresses _ \<Rightarrow> False | ApiProxy _ _ _ _ \<Rightarrow> False | _ \<Rightarrow> True))"
| "main_event_ok (MainBootstrapAddresses addrs) = bs_ok addrs"
| "main_event_ok _ = True"

text \<open>
  The life of a node: it boots on empty disks, takes rounds, and may crash between or within
  rounds and restart, then with a connection manager without connections. The last argument
  has what the last round gave to the connections.
\<close>

inductive main_run ::
  "task_env \<Rightarrow> task_config \<Rightarrow> lrtq_share_data option \<Rightarrow> node_task \<Rightarrow> conn_mgr \<Rightarrow> world \<Rightarrow> (task_id \<times> wire_msg) list \<Rightarrow> bool"
  for T :: task_env and cfg :: task_config and lrtq :: "lrtq_share_data option" where
  Boot: "(\<forall>p\<in>set (tc_tq_ledger_paths cfg). w_tq_files w p = None) \<Longrightarrow> w_output w = [] \<Longrightarrow> inj ids \<Longrightarrow>
    main_run T cfg lrtq (task_new T io cfg lrtq w) (cm_new addr port ids) w []"
| Round: "main_run T cfg lrtq t cm w sent \<Longrightarrow> main_event_ok event \<Longrightarrow> nt_tq_ledger_generation t + 1 \<noteq> 0 \<Longrightarrow>
    main_round T io rng t cm w event = Done (t', cm', w', sent') \<Longrightarrow> main_run T cfg lrtq t' cm' w' sent'"
| Crash: "main_run T cfg lrtq t cm w sent \<Longrightarrow> newest_readable T cfg io (w_tq_files w) \<Longrightarrow> inj ids \<Longrightarrow>
    main_run T cfg lrtq (task_new T io cfg lrtq w) (cm_new addr port ids) w []"
| CrashWithin: "main_run T cfg lrtq t cm w sent \<Longrightarrow> main_event_ok event \<Longrightarrow> nt_tq_ledger_generation t + 1 \<noteq> 0 \<Longrightarrow>
    main_round T io rng t cm w event = Done (t', cm', w', sent') \<Longrightarrow>
    length (w_output w) \<le> k \<Longrightarrow> w'' = w'\<lparr>w_output := take k (w_output w')\<rparr> \<Longrightarrow>
    newest_readable T cfg io' (w_tq_files w'') \<Longrightarrow> inj ids \<Longrightarrow>
    main_run T cfg lrtq (task_new T io' cfg lrtq w'') (cm_new addr port ids) w'' []"

section \<open>The peers that the node takes for connected\<close>

text \<open>No call of the node but the two for connections changes the set.\<close>

named_theorems keeps_connected

lemma update_connected [keeps_connected]:
  "ctx_update_persistent_state ctx f = Done (ctx', b) \<Longrightarrow> ctx_connected ctx' = ctx_connected ctx"
  by (auto simp: ctx_update_Done)

lemma send_connected [keeps_connected]: "ctx_send ctx to k = Done ctx' \<Longrightarrow> ctx_connected ctx' = ctx_connected ctx"
  using ctx_frame_send by simp

lemma raise_connected [simp]: "ctx_connected (ctx_raise_alarm ctx a) = ctx_connected ctx"
  by (simp add: ctx_raise_alarm_def)

lemma send_connected_connected [keeps_connected]:
  "ctx_send_connected ctx msgs = Done ctx' \<Longrightarrow> ctx_connected ctx' = ctx_connected ctx"
  using ctx_frame_send_connected by simp

lemma cs_send_connected [keeps_connected]: "cs_send_msgs cs ctx = Done ctx' \<Longrightarrow> ctx_connected ctx' = ctx_connected ctx"
  using cs_send_msgs_frame by simp

lemma transition_connected [keeps_connected]:
  "cs_transition_to_preparing E cs ctx sh pl rng = Done (cs', ctx') \<Longrightarrow> ctx_connected ctx' = ctx_connected ctx"
  by (auto simp: cs_transition_to_preparing_def Let_def outcome_simps dest!: keeps_connected)

lemma cs_share_connected [keeps_connected]:
  "cs_handle_share E cs ctx from e sh rng = Done (cs', ctx') \<Longrightarrow> ctx_connected ctx' = ctx_connected ctx"
  by (cases "cs_op cs") (auto simp: cs_handle_share_def Let_def outcome_simps dest!: keeps_connected)

lemma cs_lrtq_share_connected [keeps_connected]:
  "cs_handle_lrtq_share E cs ctx from sh rng = Done (cs', ctx') \<Longrightarrow> ctx_connected ctx' = ctx_connected ctx"
  by (cases "cs_op cs") (auto simp: cs_handle_lrtq_share_def Let_def outcome_simps dest!: keeps_connected)

lemma ksc_share_connected [keeps_connected]:
  "ksc_handle_share E k ctx from e sh = Done (k', ctx', b) \<Longrightarrow> ctx_connected ctx' = ctx_connected ctx"
  by (auto simp: ksc_handle_share_def Let_def outcome_simps dest!: keeps_connected)

lemma sc_share_connected [keeps_connected]:
  "sc_handle_share E c ctx from e sh = Done (c', ctx', r) \<Longrightarrow> ctx_connected ctx' = ctx_connected ctx"
  by (auto simp: sc_handle_share_def Let_def outcome_simps)

lemma rsl_share_connected [keeps_connected]:
  "rsl_handle_share E l ctx from e sh = Done (l', ctx') \<Longrightarrow> ctx_connected ctx' = ctx_connected ctx"
  by (auto simp: rsl_handle_share_def outcome_simps dest!: keeps_connected)

lemma rsl_start_connected [keeps_connected]:
  "rsl_start_collecting l ctx = Done (l', ctx', r) \<Longrightarrow> ctx_connected ctx' = ctx_connected ctx"
  by (auto simp: rsl_start_collecting_def sc_new_def sc_send_get_share_requests_def Let_def outcome_simps dest!: keeps_connected)

lemma rsl_load_connected [keeps_connected]:
  "rsl_load l ctx e = Done (l', ctx', r) \<Longrightarrow> ctx_connected ctx' = ctx_connected ctx"
  by (auto simp: rsl_load_def outcome_simps dest!: keeps_connected)

lemma load_connected [keeps_connected]:
  "node_load_rack_secret n ctx e = Done (n', ctx', r) \<Longrightarrow> ctx_connected ctx' = ctx_connected ctx"
  by (auto simp: node_load_rack_secret_def outcome_simps dest!: keeps_connected)

lemma send_coordinator_connected [keeps_connected]:
  "send_coordinator_msgs n ctx = Done ctx' \<Longrightarrow> ctx_connected ctx' = ctx_connected ctx"
  using send_coordinator_msgs_frame by simp

lemma advance_connected [keeps_connected]:
  "handle_commit_advance n ctx from c = Done (n', ctx') \<Longrightarrow> ctx_connected ctx' = ctx_connected ctx"
  by (auto simp: handle_commit_advance_def commit_advance_record_def commit_advance_compute_def ksc_new_def Let_def outcome_simps
      dest!: keeps_connected split: if_splits)

lemma commit_connected [keeps_connected]:
  "commit_configuration n ctx rack_id e = Done (n', ctx', r) \<Longrightarrow> ctx_connected ctx' = ctx_connected ctx"
  by (auto simp: commit_configuration_def Let_def outcome_simps dest!: keeps_connected)

lemma prepare_and_commit_connected [keeps_connected]:
  "prepare_and_commit n ctx c = Done (n', ctx', r) \<Longrightarrow> ctx_connected ctx' = ctx_connected ctx"
  by (auto simp: prepare_and_commit_def Let_def outcome_simps dest!: keeps_connected)

lemma set_coordinator_connected [keeps_connected]:
  "set_coordinator_state E n ctx msg rng = Done (n', ctx', r) \<Longrightarrow> ctx_connected ctx' = ctx_connected ctx"
  by (auto simp: set_coordinator_state_def Let_def outcome_simps dest!: keeps_connected)

lemma reconfiguration_connected [keeps_connected]:
  assumes "coordinate_reconfiguration E n ctx msg rng = Done (n', ctx', r)"
  shows "ctx_connected ctx' = ctx_connected ctx"
  using assms by (auto simp: coordinate_reconfiguration_def Let_def outcome_simps dest!: keeps_connected)

lemma upgrade_connected [keeps_connected]:
  "coordinate_upgrade_from_lrtq E n ctx msg rng = Done (n', ctx', r) \<Longrightarrow> ctx_connected ctx' = ctx_connected ctx"
  by (auto simp: coordinate_upgrade_from_lrtq_def Let_def outcome_simps dest!: keeps_connected)

lemma dispatch_connected:
  "node_dispatch E n ctx from k rng = Done (n', ctx') \<Longrightarrow> ctx_connected ctx' = ctx_connected ctx"
  by (cases k) (auto simp: node_dispatch_def handle_prepare_def handle_get_share_def handle_share_def handle_expunged_def
      handle_get_lrtq_share_def handle_lrtq_share_def Let_def outcome_simps dest!: keeps_connected)

lemma handle_connected [keeps_connected]:
  "node_handle E n ctx from msg rng = Done (n', ctx') \<Longrightarrow> ctx_connected ctx' = ctx_connected ctx"
  by (auto simp: node_handle_def outcome_simps dest: dispatch_connected)

lemma on_connect_connected:
  assumes "node_on_connect n ctx peer = Done ctx'"
  shows "ctx_connected ctx' = bs_insert peer (ctx_connected ctx)"
  using assms send_coordinator_msgs_to_frame
  by (fastforce simp: node_on_connect_def ksc_on_connect_def rsl_on_connect_def sc_on_connect_def ctx_add_connection_def
      Let_def outcome_simps dest!: keeps_connected)

lemma save_connected [keeps_connected]:
  "task_save_persistent_state T io t w = Done (t', w') \<Longrightarrow> ctx_connected (nt_ctx t') = ctx_connected (nt_ctx t)"
  by (auto simp: task_save_persistent_state_def ctx_persistent_state_change_check_and_reset_def Let_def outcome_simps)

text \<open>What an event of the task does to the set.\<close>

fun event_connected :: "task_event \<Rightarrow> baseboard_id set \<Rightarrow> baseboard_id set" where
  "event_connected (ApiEvent (ApiBootstrapAddresses disconnected)) peers = peers - snd ` set disconnected"
| "event_connected (ConnStep (Some (task_id, peer))) peers = peers - set_option peer"
| "event_connected (ConnEvent (Accepted peer)) peers = insert peer peers"
| "event_connected (ConnEvent (Connected peer)) peers = insert peer peers"
| "event_connected _ peers = peers"

lemma disconnect_connected:
  "task_on_disconnect t w task_id peer = Done (t', w') \<Longrightarrow>
     set (ctx_connected (nt_ctx t')) = set (ctx_connected (nt_ctx t)) - set_option peer"
  by (cases peer) (auto simp: task_on_disconnect_def node_on_disconnect_def ctx_remove_connection_def Let_def outcome_simps)

lemma disconnects_connected:
  "ofold (\<lambda>(self, w) (task_id, peer). task_on_disconnect self w task_id (Some peer)) (t, w) ds = Done (t', w') \<Longrightarrow>
     set (ctx_connected (nt_ctx t')) = set (ctx_connected (nt_ctx t)) - snd ` set ds"
proof (induction ds arbitrary: t w)
  case (Cons d ds)
  then show ?case by (cases d) (fastforce simp: obind_eq_Done dest!: disconnect_connected)
qed simp

lemma conn_msg_connected:
  assumes "task_on_conn_msg T io rng t w msg = Done (t', w')"
  shows "set (ctx_connected (nt_ctx t')) = event_connected (ConnEvent msg) (set (ctx_connected (nt_ctx t)))"
proof (cases msg)
  case (ProxyRequestReceived peer req)
  then show ?thesis using assms
    by (cases "wrq_op req") (auto simp: task_on_conn_msg_def task_handle_proxy_request_def task_commit_def task_prepare_and_commit_def
        Let_def outcome_simps dest!: keeps_connected)
qed (use assms in \<open>auto simp: task_on_conn_msg_def task_store_network_config_def Let_def outcome_simps
    dest!: keeps_connected on_connect_connected\<close>)

lemma api_connected:
  assumes "task_on_api_request T io rng t w request = Done (t', w')"
  shows "set (ctx_connected (nt_ctx t')) = event_connected (ApiEvent request) (set (ctx_connected (nt_ctx t)))"
proof (cases request)
  case (ApiBootstrapAddresses ds)
  then show ?thesis using assms disconnects_connected by (simp add: task_on_api_request_def)
qed (use assms in \<open>auto simp: task_on_api_request_def task_commit_def task_prepare_and_commit_def task_update_network_config_def
    task_store_network_config_def Let_def outcome_simps dest!: keeps_connected\<close>)

lemma round_connected:
  assumes "task_round T io rng t w event = Done (t', w')" and "\<not> nt_shutdown t"
  shows "set (ctx_connected (nt_ctx t')) = event_connected event (set (ctx_connected (nt_ctx t)))"
proof -
  have drain: "ctx_connected (nt_ctx (fst (task_drain t w))) = ctx_connected (nt_ctx t)" for t w
    by (simp add: task_drain_def ctx_drain_envelopes_def)
  have drained: "\<exists>t1 w1. m = Done (t1, w1) \<and> ctx_connected (nt_ctx t') = ctx_connected (nt_ctx t1)"
    if "obind m (\<lambda>(self, w). Done (task_drain self w)) = Done (t', w')" for m
    using that drain by (auto simp: outcome_simps) (metis fst_conv)
  show ?thesis
  proof (cases event)
    case (ApiEvent request)
    then obtain t1 w1 where "task_on_api_request T io rng t w request = Done (t1, w1)" "ctx_connected (nt_ctx t') = ctx_connected (nt_ctx t1)"
      using assms drained [of "task_on_api_request T io rng t w request"] by (auto simp: task_round_def)
    then show ?thesis using api_connected ApiEvent by simp
  next
    case (ConnEvent msg)
    then obtain t1 w1 where "task_on_conn_msg T io rng t w msg = Done (t1, w1)" "ctx_connected (nt_ctx t') = ctx_connected (nt_ctx t1)"
      using assms drained [of "task_on_conn_msg T io rng t w msg"] by (auto simp: task_round_def)
    then show ?thesis using conn_msg_connected ConnEvent by simp
  next
    case (ConnStep d)
    show ?thesis
    proof (cases d)
      case None
      then show ?thesis using assms ConnStep drained [of "Done (t, w)"] by (auto simp: task_round_def)
    next
      case (Some x)
      obtain i p where x: "x = (i, p)" by fastforce
      then obtain t1 w1 where "task_on_disconnect t w i p = Done (t1, w1)" "ctx_connected (nt_ctx t') = ctx_connected (nt_ctx t1)"
        using assms drained [of "task_on_disconnect t w i p"] ConnStep Some by (auto simp: task_round_def)
      then show ?thesis using disconnect_connected ConnStep Some x by simp
    qed
  qed (use assms in \<open>simp add: task_round_def\<close>)
qed

section \<open>The peers that have a connection\<close>

abbreviation peers_of :: "conn_mgr \<Rightarrow> baseboard_id set" where
  "peers_of cm \<equiv> eh_baseboard_id ` set (cm_established cm)"

lemma establish_peers:
  "peers_of (cm_establish cm h peer) \<subseteq> insert peer (peers_of cm)"
  "th_task_id h \<notin> eh_task_id ` set (cm_established cm) \<Longrightarrow>
     \<forall>e \<in> set (cm_established cm). eh_addr e = th_addr h \<longrightarrow> eh_baseboard_id e = peer \<Longrightarrow>
     peers_of (cm_establish cm h peer) = insert peer (peers_of cm)"
proof -
  let ?e = "\<lparr>eh_baseboard_id = peer, eh_task_handle = h\<rparr>"
  have est: "set (cm_established (cm_establish cm h peer)) = insert ?e {x \<in> set (cm_established cm). \<not> established_clash ?e x}"
    by (auto simp: cm_establish_def insert_overwrite_def)
  then show "peers_of (cm_establish cm h peer) \<subseteq> insert peer (peers_of cm)" by auto
  assume fresh: "th_task_id h \<notin> eh_task_id ` set (cm_established cm)"
    "\<forall>e \<in> set (cm_established cm). eh_addr e = th_addr h \<longrightarrow> eh_baseboard_id e = peer"
  have e: "eh_task_id ?e = th_task_id h" "eh_addr ?e = th_addr h" by (simp_all add: eh_task_id_def eh_addr_def)
  have "eh_baseboard_id x = peer" if "x \<in> set (cm_established cm)" "established_clash ?e x" for x
    using that fresh unfolding established_clash_def e by auto
  then show "peers_of (cm_establish cm h peer) = insert peer (peers_of cm)" unfolding est by auto
qed

text \<open>A completed handshake that the connection manager expects, of a peer that is not replaced at its address.\<close>

fun handshake_expected :: "conn_mgr \<Rightarrow> main_event \<Rightarrow> bool" where
  "handshake_expected cm (MainConnMsg task_id (MainAccepted addr peer)) =
     (item_by th_addr addr (cm_accepting cm) \<noteq> None \<and>
      list_all (\<lambda>e. eh_addr e = addr \<longrightarrow> eh_baseboard_id e = peer) (cm_established cm))"
| "handshake_expected cm (MainConnMsg task_id (MainConnected addr peer)) =
     (item_by th_addr addr (cm_connecting cm) \<noteq> None \<and>
      list_all (\<lambda>e. eh_addr e = addr \<longrightarrow> eh_baseboard_id e = peer) (cm_established cm))"
| "handshake_expected cm _ = True"

lemma accepted_peers:
  assumes inv: "cm_inv cm"
  shows "peers_of (cm_server_handshake_completed cm task_id addr peer) \<subseteq> insert peer (peers_of cm)"
    and "handshake_expected cm (MainConnMsg task_id (MainAccepted addr peer)) \<Longrightarrow>
      peers_of (cm_server_handshake_completed cm task_id addr peer) = insert peer (peers_of cm)"
proof -
  show "peers_of (cm_server_handshake_completed cm task_id addr peer) \<subseteq> insert peer (peers_of cm)"
    using establish_peers(1) [of "cm\<lparr>cm_accepting := hs\<rparr>" for hs]
    by (auto simp: cm_server_handshake_completed_def split: option.split)
  assume exp: "handshake_expected cm (MainConnMsg task_id (MainAccepted addr peer))"
  then obtain h where h: "item_by th_addr addr (cm_accepting cm) = Some h" by auto
  have "th_task_id h \<notin> eh_task_id ` set (cm_established cm)"
    using item_by_Some [OF h] tracked_parts [OF cm_inv_butD(3) [OF inv]] by blast
  with exp h item_by_Some [OF h] show "peers_of (cm_server_handshake_completed cm task_id addr peer) = insert peer (peers_of cm)"
    using establish_peers(2) [of h "cm\<lparr>cm_accepting := hs\<rparr>" peer for hs]
    by (simp add: cm_server_handshake_completed_def list_all_iff)
qed

lemma connected_peers_of:
  assumes inv: "cm_inv cm"
  shows "peers_of (cm_client_handshake_completed cm task_id addr peer) \<subseteq> insert peer (peers_of cm)"
    and "handshake_expected cm (MainConnMsg task_id (MainConnected addr peer)) \<Longrightarrow>
      peers_of (cm_client_handshake_completed cm task_id addr peer) = insert peer (peers_of cm)"
proof -
  show "peers_of (cm_client_handshake_completed cm task_id addr peer) \<subseteq> insert peer (peers_of cm)"
    using establish_peers(1) [of "cm\<lparr>cm_connecting := hs\<rparr>" for hs]
    by (auto simp: cm_client_handshake_completed_def split: option.split)
  assume exp: "handshake_expected cm (MainConnMsg task_id (MainConnected addr peer))"
  then obtain h where h: "item_by th_addr addr (cm_connecting cm) = Some h" by auto
  have "th_task_id h \<notin> eh_task_id ` set (cm_established cm)"
    using item_by_Some [OF h] tracked_parts [OF cm_inv_butD(3) [OF inv]] by blast
  with exp h item_by_Some [OF h] show "peers_of (cm_client_handshake_completed cm task_id addr peer) = insert peer (peers_of cm)"
    using establish_peers(2) [of h "cm\<lparr>cm_connecting := hs\<rparr>" peer for hs]
    by (simp add: cm_client_handshake_completed_def list_all_iff)
qed

lemma accept_established [simp]: "cm_established (fst (cm_accept cm acceptor)) = cm_established cm"
  by (cases acceptor) (simp_all add: cm_accept_def case_prod_beta Let_def)

text \<open>
  The connection manager and the node task follow each other: an event makes the same change to the
  peers with a connection as to the peers that the node takes for connected.
\<close>

lemma exit_peer: "cm_on_task_exit cm t = (cm', t', peer) \<Longrightarrow> set_option peer \<subseteq> peers_of cm"
  by (auto simp: cm_on_task_exit_def dest: item_by_Some split: option.splits)

lemma step_part:
  assumes inv: "cm_inv cm"
  obtains cm' ev D where "cm_part cm (MainStep event) = Done (cm', ev)" "cm_inv cm'" "event_ok ev"
    "\<forall>P. event_connected ev P = P - D" "D \<subseteq> peers_of cm" "peers_of cm' = peers_of cm - D"
proof (cases event)
  case (AcceptReady acceptor)
  obtain cm' res where acc: "cm_accept cm acceptor = (cm', res)" by fastforce
  then have "cm_inv cm'" "cm_established cm' = cm_established cm"
    using accept_inv [OF inv, of acceptor] accept_established [of cm acceptor] by simp_all
  then show thesis
    using that [of cm' _ "{}"] AcceptReady acc by (cases res) (simp_all add: cm_part_def cm_step_def)
next
  case AcceptFailure
  then show thesis using that [of cm AcceptFailed "{}"] inv by (simp add: cm_part_def cm_step_def)
next
  case (TaskJoined t)
  let ?J = "filter (\<lambda>(x, _). x \<noteq> t) (cm_join_set cm)"
  obtain cm' t' peer where exit: "cm_on_task_exit (cm\<lparr>cm_join_set := ?J\<rparr>) t = (cm', t', peer)" by (metis surj_pair)
  show thesis
    by (rule that [of cm' "ConnStep (Some (t', peer))" "set_option peer"])
      (use task_exit_inv [OF inv exit] exit exit_peer [OF exit] TaskJoined in \<open>simp_all add: cm_part_def cm_step_def\<close>)
next
  case ReconnectTick
  obtain cm' where "cm_reconnect cm = Done cm'" "cm_inv cm'" "cm_established cm' = cm_established cm" by (rule reconnect_inv [OF inv])
  then show thesis using that [of cm' _ "{}"] ReconnectTick by (simp add: cm_part_def cm_step_def)
qed

lemma update_part:
  assumes inv: "cm_inv cm" and addrs: "bs_ok addrs"
  obtains cm' ev where "cm_part cm (MainBootstrapAddresses addrs) = Done (cm', ev)" "cm_inv cm'" "event_ok ev"
    "peers_of cm' = event_connected ev (peers_of cm)"
proof -
  obtain cm' hs where upd: "cm_update_bootstrap_connections cm addrs = Done (cm', hs)" "cm_inv cm'"
    "set (cm_established cm') = set (cm_established cm) - set hs" "set hs \<subseteq> set (cm_established cm)"
    by (rule update_addrs_inv [OF inv addrs])
  have "inj_on eh_baseboard_id (set (cm_established cm))" using tables_okD(4) [OF inv] by (simp add: distinct_map)
  then have "peers_of cm' = peers_of cm - eh_baseboard_id ` set hs"
    unfolding upd(3) using upd(4) by (intro inj_on_image_set_diff) auto
  then show thesis using that upd(1,2) by (simp add: cm_part_def image_image)
qed

lemma part_inv:
  assumes inv: "cm_inv cm" and ok: "main_event_ok event"
  obtains cm' ev where "cm_part cm event = Done (cm', ev)" "cm_inv cm'" "event_ok ev"
    "peers_of cm' \<subseteq> event_connected ev (peers_of cm)"
    "handshake_expected cm event \<longrightarrow> peers_of cm' = event_connected ev (peers_of cm)"
proof (cases event)
  case (MainApi request)
  have "event_connected (ApiEvent request) P = P" for P using ok MainApi by (cases request) simp_all
  then show thesis using ok MainApi inv by (intro that [of cm "ApiEvent request"]) (simp_all add: cm_part_def)
next
  case (MainBootstrapAddresses addrs)
  then have addrs: "bs_ok addrs" using ok by simp
  obtain cm' ev where "cm_part cm event = Done (cm', ev)" "cm_inv cm'" "event_ok ev" "peers_of cm' = event_connected ev (peers_of cm)"
    unfolding MainBootstrapAddresses by (rule update_part [OF inv addrs])
  then show thesis by (intro that [of cm' ev]) simp_all
next
  case (MainProxy d r tx)
  let ?ev = "ApiEvent (ApiProxy d r tx (case snd (cm_proxy_request cm d r) of ProxyConnected task_id \<Rightarrow> Some task_id | ProxyDisconnected \<Rightarrow> None))"
  show thesis using inv MainProxy by (intro that [of cm ?ev]) (simp_all add: cm_part_def)
next
  case (MainStep step)
  obtain cm' ev D where "cm_part cm event = Done (cm', ev)" "cm_inv cm'" "event_ok ev"
    "\<forall>P. event_connected ev P = P - D" "peers_of cm' = peers_of cm - D"
    unfolding MainStep by (rule step_part [OF inv])
  then show thesis by (intro that [of cm' ev]) simp_all
next
  case (MainConnMsg t msg)
  show thesis
  proof (rule that [of "cm_on_conn_msg cm t msg" "ConnEvent (conn_msg_of msg)"])
    show "cm_inv (cm_on_conn_msg cm t msg)" using inv server_handshake_inv client_handshake_inv by (cases msg) simp_all
    show "peers_of (cm_on_conn_msg cm t msg) \<subseteq> event_connected (ConnEvent (conn_msg_of msg)) (peers_of cm)"
      using accepted_peers(1) [OF inv] connected_peers_of(1) [OF inv] by (cases msg) simp_all
    show "handshake_expected cm event \<longrightarrow> peers_of (cm_on_conn_msg cm t msg) = event_connected (ConnEvent (conn_msg_of msg)) (peers_of cm)"
      using accepted_peers(2) [OF inv] connected_peers_of(2) [OF inv] unfolding MainConnMsg
      by (cases msg) (simp_all del: handshake_expected.simps)
  qed (simp_all add: cm_part_def MainConnMsg)
qed

lemma event_connected_mono: "P \<subseteq> Q \<Longrightarrow> event_connected ev P \<subseteq> event_connected ev Q"
  by (induction ev P rule: event_connected.induct) auto

section \<open>Runs\<close>

text \<open>A round of the loop is a round of the task, on the event that the connection manager makes of it.\<close>

lemma main_round_parts:
  assumes inv: "cm_inv cm" and ok: "main_event_ok event"
    and round: "main_round T io rng t cm w event = Done (t', cm', w', sent')"
  obtains (Stopped) "nt_shutdown t" "t' = t" "cm' = cm" "w' = w" "sent' = []"
  | (Round) ev where "\<not> nt_shutdown t" "cm_inv cm'" "event_ok ev" "task_round T io rng t w ev = Done (t', w')"
      "sent' = concat (map (cm_deliver cm') (drop (length (w_output w)) (w_output w')))"
      "peers_of cm' \<subseteq> event_connected ev (peers_of cm)"
      "handshake_expected cm event \<longrightarrow> peers_of cm' = event_connected ev (peers_of cm)"
proof (cases "nt_shutdown t")
  case True
  then show thesis using Stopped round by (simp add: main_round_def)
next
  case False
  obtain cm1 ev where part: "cm_part cm event = Done (cm1, ev)" "cm_inv cm1" "event_ok ev"
    "peers_of cm1 \<subseteq> event_connected ev (peers_of cm)"
    "handshake_expected cm event \<longrightarrow> peers_of cm1 = event_connected ev (peers_of cm)"
    by (rule part_inv [OF inv ok])
  have "task_round T io rng t w ev = Done (t', w')" "cm1 = cm'"
    "sent' = concat (map (cm_deliver cm') (drop (length (w_output w)) (w_output w')))"
    using round False part(1) by (auto simp: main_round_def outcome_simps)
  then show thesis using part(2-5) by (intro Round [OF False, of ev]) simp_all
qed

lemma new_established [simp]: "cm_established (cm_new addr port ids) = []"
  by (simp add: cm_new_def split: prod.split)

lemma main_run_inv:
  assumes "main_run T cfg lrtq t cm w sent"
  shows "task_run T cfg lrtq t w \<and> cm_inv cm \<and> peers_of cm \<subseteq> set (ctx_connected (nt_ctx t))"
  using assms
proof (induction rule: main_run.induct)
  case (Boot w ids io addr port)
  then show ?case using task_run.Boot cm_new_inv [of ids addr port] by simp
next
  case (Round t cm w sent event io rng t' cm' w' sent')
  have inv: "cm_inv cm" using Round.IH by simp
  show ?case
  proof (rule main_round_parts [OF inv Round.hyps(2,4)])
    fix ev
    assume r: "\<not> nt_shutdown t" "cm_inv cm'" "event_ok ev" "task_round T io rng t w ev = Done (t', w')"
      "peers_of cm' \<subseteq> event_connected ev (peers_of cm)"
    have "peers_of cm' \<subseteq> set (ctx_connected (nt_ctx t'))"
      unfolding round_connected [OF r(4,1)] using r(5) event_connected_mono Round.IH by blast
    then show ?case using task_run.Round [OF _ r(3) Round.hyps(3) r(4)] Round.IH r(2) by simp
  qed (use Round.IH in simp)
next
  case (Crash t cm w sent io ids addr port)
  then show ?case using task_run.Crash [of T cfg lrtq t w io] cm_new_inv [of ids addr port] by simp
next
  case (CrashWithin t cm w sent event io rng t' cm' w' sent' k w'' io' ids addr port)
  have inv: "cm_inv cm" and run: "task_run T cfg lrtq t w" using CrashWithin.IH by simp_all
  have "task_run T cfg lrtq (task_new T io' cfg lrtq w'') w''"
  proof (rule main_round_parts [OF inv CrashWithin.hyps(2,4)])
    assume "nt_shutdown t" "w' = w"
    then have "w'' = w" using CrashWithin.hyps(5,6) by simp
    then show ?thesis using task_run.Crash [OF run] CrashWithin.hyps(7) by simp
  next
    fix ev assume "event_ok ev" "task_round T io rng t w ev = Done (t', w')"
    from task_run.CrashWithin [OF run this(1) CrashWithin.hyps(3) this(2) CrashWithin.hyps(5,6,7)]
    show ?thesis .
  qed
  then show ?case using cm_new_inv [OF CrashWithin.hyps(8), of addr port] by simp
qed

lemma item_by_distinct: "distinct (map key items) \<Longrightarrow> h \<in> set items \<Longrightarrow> item_by key (key h) items = Some h"
  using item_by_Some [of key "key h" items] item_by_None [of key "key h" items]
  by (cases "item_by key (key h) items") (auto simp: distinct_map dest: inj_onD)

lemma send_to_iff:
  assumes "cm_inv cm"
  shows "(task_id, msg) \<in> set (cm_send_to cm peer msg') \<longleftrightarrow>
    msg = msg' \<and> (\<exists>h \<in> set (cm_established cm). eh_baseboard_id h = peer \<and> eh_task_id h = task_id)"
proof (cases "item_by eh_baseboard_id peer (cm_established cm)")
  case None
  then show ?thesis by (simp add: cm_send_to_def) (auto simp: item_by_None)
next
  case (Some h)
  have "h' = h" if "h' \<in> set (cm_established cm)" "eh_baseboard_id h' = peer" for h'
    using that item_by_distinct [OF tables_okD(4) [OF assms] that(1)] Some by simp
  then show ?thesis using Some item_by_Some [OF Some] by (auto simp: cm_send_to_def)
qed

lemma deliver_tq:
  assumes "cm_inv cm"
  shows "(task_id, WireTq m) \<in> set (cm_deliver cm out) \<longleftrightarrow>
    (\<exists>e. out = SendEnvelope e \<and> env_msg e = m \<and>
      (\<exists>h \<in> set (cm_established cm). eh_baseboard_id h = env_to e \<and> eh_task_id h = task_id))"
  using send_to_iff [OF assms, of task_id "WireTq m"]
  by (cases out) (auto simp: cm_send_def cm_send_network_config_def cm_broadcast_network_config_def cm_proxy_response_def
      cm_proxy_request_def split: option.splits)

section \<open>Examples\<close>

text \<open>A node without state that takes the peers \<open>c\<close> for connected.\<close>

definition example_node :: "baseboard_id btree_set \<Rightarrow> node_task" where
  "example_node c =
     \<lparr>nt_shutdown = False, nt_config = example_task_config, nt_tq_ledger_generation = 0, nt_node = node_new,
      nt_ctx = (ctx_new sled_a)\<lparr>ctx_connected := c\<rparr>, nt_network_config = None, nt_proxy_tracker = [], nt_committed_epoch = None\<rparr>"

lemma example_node_boot: "task_new example_task_env all_io example_task_config None empty_world = example_node []"
  by (simp add: example_boot example_node_def example_unconnected)

lemma example_drain: "task_drain (example_node c) empty_world = (example_node c, empty_world)"
  by (simp add: task_drain_def ctx_drain_envelopes_def example_node_def ctx_new_def empty_world_def)

lemma example_idle:
  "task_round example_task_env all_io rng (example_node c) empty_world (ConnStep None) = Done (example_node c, empty_world)"
  "task_round example_task_env all_io rng (example_node c) empty_world (ApiEvent (ApiBootstrapAddresses [])) =
     Done (example_node c, empty_world)"
  using example_drain [of c]
  by (simp_all add: task_round_def task_on_api_request_def example_node_def)

lemma example_joins:
  "node_on_connect node_new ((ctx_new sled_a)\<lparr>ctx_connected := c\<rparr>) peer = Done ((ctx_new sled_a)\<lparr>ctx_connected := bs_insert peer c\<rparr>)"
  by (simp add: node_on_connect_def node_new_def send_coordinator_msgs_to_def rsl_on_connect_def rsl_new_def ctx_add_connection_def)

lemma example_connects:
  assumes "msg = Accepted peer \<or> msg = Connected peer"
  shows "task_round example_task_env all_io rng (example_node c) empty_world (ConnEvent msg) =
    Done (example_node (bs_insert peer c), empty_world)"
proof -
  have node: "\<not> nt_shutdown (example_node c)" "nt_network_config (example_node c) = None" "nt_node (example_node c) = node_new"
    "nt_ctx (example_node c) = (ctx_new sled_a)\<lparr>ctx_connected := c\<rparr>"
    "(example_node c)\<lparr>nt_ctx := (ctx_new sled_a)\<lparr>ctx_connected := bs_insert peer c\<rparr>\<rparr> = example_node (bs_insert peer c)"
    by (simp_all add: example_node_def)
  have "task_save_persistent_state example_task_env all_io (example_node c') empty_world = Done (example_node c', empty_world)" for c'
    by (rule save_unchanged) (simp add: example_node_def ctx_new_def)
  with assms show ?thesis
    by (auto simp: task_round_def task_on_conn_msg_def task_send_network_config_def node example_joins example_drain)
qed

lemma example_round_of:
  assumes "cm_part cm event = Done (cm', ev)"
    and "task_round example_task_env all_io rng (example_node c) empty_world ev = Done (example_node c', empty_world)"
  shows "main_round example_task_env all_io rng (example_node c) cm empty_world event = Done (example_node c', cm', empty_world, [])"
proof -
  have "\<not> nt_shutdown (example_node c)" by (simp add: example_node_def)
  then show ?thesis using assms by (simp add: main_round_def)
qed

lemma example_generation [simp]: "nt_tq_ledger_generation (example_node c) = 0" "ctx_connected (nt_ctx (example_node c)) = c" "\<not> nt_shutdown (example_node c)"
  by (simp_all add: example_node_def)

lemma example_run_step:
  assumes "main_run example_task_env example_task_config None (example_node c) cm empty_world sent" and "main_event_ok event"
    and "cm_part cm event = Done (cm', ev)"
    and "task_round example_task_env all_io (\<lambda>_. 0) (example_node c) empty_world ev = Done (example_node c', empty_world)"
  shows "main_run example_task_env example_task_config None (example_node c') cm' empty_world []"
  by (rule main_run.Round [OF assms(1,2) _ example_round_of [OF assms(3,4)]]) simp

lemma example_starts: "main_run example_task_env example_task_config None (example_node []) (example_mgr 0 [] [] []) empty_world []"
  unfolding example_node_boot [symmetric] example_new [symmetric]
  by (rule main_run.Boot) (simp_all add: empty_world_def)

text \<open>A connection is accepted, and its handshake completes with a peer.\<close>

definition example_accepting :: conn_mgr where
  "example_accepting = (example_mgr (Suc 0) [(0, False)] [] [])
     \<lparr>cm_accepting := [\<lparr>th_task_id = 0, th_conn_type = AcceptedFrom (example_addr 4)\<rparr>]\<rparr>"

definition example_established :: conn_mgr where
  "example_established = (example_mgr (Suc 0) [(0, False)] [] [])\<lparr>cm_established :=
     [\<lparr>eh_baseboard_id = sled_b, eh_task_handle = \<lparr>th_task_id = 0, th_conn_type = AcceptedFrom (example_addr 4)\<rparr>\<rparr>]\<rparr>"

lemma example_accepts:
  "cm_part (example_mgr 0 [] [] []) (MainStep (AcceptReady (AddrV6 (example_addr 4)))) = Done (example_accepting, ConnStep None)"
  by (simp add: cm_part_def cm_step_def cm_accept_def cm_spawn_def insert_overwrite_def cm_abort_def example_mgr_def example_accepting_def Let_def)

lemma example_shakes:
  "cm_part example_accepting (MainConnMsg 0 (MainAccepted (example_addr 4) sled_b)) = Done (example_established, ConnEvent (Accepted sled_b))"
  by (simp add: cm_part_def cm_server_handshake_completed_def item_by_def remove_by_def cm_establish_def insert_overwrite_def cm_abort_def
      example_accepting_def example_established_def example_mgr_def th_addr_def)

lemma example_accepting_run:
  "main_run example_task_env example_task_config None (example_node []) example_accepting empty_world []"
  by (rule example_run_step [OF example_starts _ example_accepts]) (simp_all add: example_idle)

lemma example_shake_round:
  "main_round example_task_env all_io (\<lambda>_. 0) (example_node []) example_accepting empty_world
     (MainConnMsg 0 (MainAccepted (example_addr 4) sled_b)) = Done (example_node [sled_b], example_established, empty_world, [])"
  by (rule example_round_of [OF example_shakes]) (simp add: example_connects)

lemma example_established_run:
  "main_run example_task_env example_task_config None (example_node [sled_b]) example_established empty_world []"
  by (rule main_run.Round [OF example_accepting_run _ _ example_shake_round]) simp_all

text \<open>The peer sends a prepare, which is acknowledged on its connection.\<close>

definition example_prepare :: main_event where
  "example_prepare = MainConnMsg 0 (MainReceived sled_b
     \<lparr>pm_rack_id = replicate 16 1, pm_kind = Prepare example_config (example_secret_shares ! 0)\<rparr>)"

lemma example_ack_round:
  "\<exists>t. main_round example_task_env all_io (\<lambda>_. 0) (example_node [sled_b]) example_established empty_world example_prepare =
     Done (t, example_established, \<lparr>w_tq_files = saved_files, w_network_files = \<lambda>_. None, w_output = [SendEnvelope example_ack]\<rparr>,
       [(0, WireTq (env_msg example_ack))])"
proof -
  let ?w = "\<lparr>w_tq_files = saved_files, w_network_files = \<lambda>_. None, w_output = [SendEnvelope example_ack]\<rparr>"
  have part: "cm_part example_established example_prepare = Done (example_established, example_prepare_event)"
    by (simp add: cm_part_def example_prepare_def example_prepare_event_def)
  obtain t where "task_round example_task_env all_io (\<lambda>_. 0) (example_node [sled_b]) empty_world example_prepare_event = Done (t, ?w)"
    using example_save
    by (simp add: task_round_def Let_def example_prepare_event_def task_on_conn_msg_def example_node_def
        example_handles_prepare task_save_persistent_state_def ctx_persistent_state_change_check_and_reset_def
        task_drain_def ctx_drain_envelopes_def emit_def empty_world_def example_task_config_def)
  moreover have "cm_send example_established example_ack = [(0, WireTq (env_msg example_ack))]"
    by (simp add: cm_send_def cm_send_to_def example_established_def item_by_def example_ack_def eh_task_id_def)
  moreover have "w_output empty_world = []" by (simp add: empty_world_def)
  ultimately show ?thesis using part by (simp add: main_round_def)
qed

text \<open>An address is known and then no longer, while a connection to it is being set up.\<close>

lemma example_forgets:
  "cm_part (example_mgr (Suc 0) [(0, False)] [example_addr 1] [example_task]) (MainBootstrapAddresses []) =
     Done (example_mgr (Suc 0) [(0, True)] [] [], ApiEvent (ApiBootstrapAddresses []))"
proof -
  have lt: "cm_listen_addr (example_mgr (Suc 0) [(0, False)] [example_addr 1] [example_task]) = example_addr 3"
    "cm_bootstrap_addrs (example_mgr (Suc 0) [(0, False)] [example_addr 1] [example_task]) = [example_addr 1]"
    by (simp_all add: example_mgr_def)
  have "cm_disconnect_client ((example_mgr (Suc 0) [(0, False)] [example_addr 1] [example_task])\<lparr>cm_bootstrap_addrs := []\<rparr>) (example_addr 1) =
      (example_mgr (Suc 0) [(0, True)] [] [], None)"
    by (simp add: cm_disconnect_client_def example_mgr_def item_by_def remove_by_def example_task_def th_addr_def cm_abort_def)
  then show ?thesis
    by (simp add: cm_part_def cm_update_bootstrap_connections_def lt example_smaller bs_contains_def)
qed

lemma example_forgotten_run:
  "main_run example_task_env example_task_config None (example_node []) (example_mgr (Suc 0) [(0, True)] [] []) empty_world []"
proof -
  have "cm_part (example_mgr 0 [] [] []) (MainBootstrapAddresses [example_addr 1]) =
      Done (example_mgr (Suc 0) [(0, False)] [example_addr 1] [example_task], ApiEvent (ApiBootstrapAddresses []))"
    by (simp add: cm_part_def example_update)
  from example_run_step [OF example_starts _ this]
  have "main_run example_task_env example_task_config None (example_node [])
      (example_mgr (Suc 0) [(0, False)] [example_addr 1] [example_task]) empty_world []"
    by (simp add: example_idle bs_ok_def)
  from example_run_step [OF this _ example_forgets] show ?thesis by (simp add: example_idle bs_ok_def)
qed

section \<open>The loop with its connections\<close>



text \<open>
  C10: The node and the connection manager agree on who is connected. At any time the node takes every peer
  with an established connection for connected, so that what it has for the peer is sent. In a
  round whose completed handshake, if it has one, is one that the connection manager still waits for, and does
  not put a new peer in the place of another at the same address, agreement is exact again when
  it was exact before: no other peer is taken for connected.
\<close>

theorem node_knows_its_connections:
  assumes "main_run T cfg lrtq t cm w sent" and "main_event_ok event" and "nt_tq_ledger_generation t + 1 \<noteq> 0"
    and "main_round T io rng t cm w event = Done (t', cm', w', sent')"
  shows "peers_of cm' \<subseteq> set (ctx_connected (nt_ctx t')) \<and>
    (handshake_expected cm event \<and> set (ctx_connected (nt_ctx t)) = peers_of cm \<longrightarrow>
       set (ctx_connected (nt_ctx t')) = peers_of cm')"
proof -
  have inv: "cm_inv cm" using main_run_inv [OF assms(1)] by simp
  have "handshake_expected cm event \<and> set (ctx_connected (nt_ctx t)) = peers_of cm \<longrightarrow>
      set (ctx_connected (nt_ctx t')) = peers_of cm'"
  proof (rule main_round_parts [OF inv assms(2,4)])
    fix ev
    assume r: "\<not> nt_shutdown t" "task_round T io rng t w ev = Done (t', w')"
      "handshake_expected cm event \<longrightarrow> peers_of cm' = event_connected ev (peers_of cm)"
    show ?thesis using round_connected [OF r(2,1)] r(3) by simp
  qed simp
  then show ?thesis using main_run_inv [OF main_run.Round [OF assms]] by blast
qed

theorem node_knows_its_connections_witness:
  "\<exists>t cm w. main_run example_task_env example_task_config None t cm w [] \<and> set (ctx_connected (nt_ctx t)) = peers_of cm \<and>
     peers_of cm = {sled_b}"
proof -
  have "handshake_expected example_accepting (MainConnMsg 0 (MainAccepted (example_addr 4) sled_b))" "peers_of example_accepting = {}"
    "peers_of example_established = {sled_b}"
    by (simp_all add: example_accepting_def example_established_def example_mgr_def item_by_def th_addr_def)
  then have "set (ctx_connected (nt_ctx (example_node [sled_b]))) = peers_of example_established"
    using node_knows_its_connections [OF example_accepting_run _ _ example_shake_round] by simp
  then show ?thesis using example_established_run \<open>peers_of example_established = {sled_b}\<close> by blast
qed

text \<open>
  C29: A handshake that is reported too late leaves a peer behind that has no connection. When the
  address that a task connects to is no longer known, the task is told to stop; if it had already
  reported its handshake, the node takes the peer for connected although nothing is sent to it
  from then on, and as long as nothing is heard of the peer neither new connections nor the end of tasks
  nor the timer changes that.
\<close>

theorem late_handshake_leaves_peer:
  assumes "main_run T cfg lrtq t cm w sent" and "\<not> nt_shutdown t" and "nt_tq_ledger_generation t + 1 \<noteq> 0"
    and "item_by th_addr addr (cm_connecting cm) = None" and "peer \<notin> peers_of cm"
    and "main_round T io rng t cm w (MainConnMsg task_id (MainConnected addr peer)) = Done (t', cm', w', sent')"
  shows "cm' = cm \<and> peer \<in> set (ctx_connected (nt_ctx t')) \<and> (\<forall>msg. cm_send_to cm' peer msg = []) \<and>
    (\<forall>io2 rng2 step t2 cm2 w2 sent2.
       main_round T io2 rng2 t' cm' w' (MainStep step) = Done (t2, cm2, w2, sent2) \<longrightarrow>
       peer \<in> set (ctx_connected (nt_ctx t2)) \<and> peer \<notin> peers_of cm2)"
proof -
  have inv: "cm_inv cm" using main_run_inv [OF assms(1)] by simp
  have part: "cm_part cm (MainConnMsg task_id (MainConnected addr peer)) = Done (cm, ConnEvent (Connected peer))"
    using assms(4) by (simp add: cm_part_def cm_client_handshake_completed_def)
  then have cm: "cm' = cm" and round: "task_round T io rng t w (ConnEvent (Connected peer)) = Done (t', w')"
    using assms(2,6) by (auto simp: main_round_def outcome_simps)
  have peer: "peer \<in> set (ctx_connected (nt_ctx t'))" using round_connected [OF round assms(2)] by simp
  moreover have "cm_send_to cm' peer msg = []" for msg
    using assms(5) item_by_None [of eh_baseboard_id peer "cm_established cm"] by (simp add: cm cm_send_to_def)
  moreover have "peer \<in> set (ctx_connected (nt_ctx t2)) \<and> peer \<notin> peers_of cm2"
    if step: "main_round T io2 rng2 t' cm' w' (MainStep step) = Done (t2, cm2, w2, sent2)" for io2 rng2 step t2 cm2 w2 sent2
  proof (cases "nt_shutdown t'")
    case True
    then show ?thesis using step peer assms(5) by (simp add: main_round_def cm)
  next
    case False
    obtain cm3 ev D where p: "cm_part cm (MainStep step) = Done (cm3, ev)" "\<forall>P. event_connected ev P = P - D"
      "D \<subseteq> peers_of cm" "peers_of cm3 = peers_of cm - D"
      by (rule step_part [OF inv])
    have r: "task_round T io2 rng2 t' w' ev = Done (t2, w2)" "cm3 = cm2"
      using step p(1) False by (auto simp: main_round_def outcome_simps cm)
    have "peer \<notin> D" using p(3) assms(5) by blast
    then show ?thesis using round_connected [OF r(1) False] p(2,4) r(2) peer assms(5) by simp
  qed
  ultimately show ?thesis using cm by blast
qed

theorem late_handshake_leaves_peer_witness:
  "\<exists>t cm w. main_run example_task_env example_task_config None t cm w [] \<and> sled_b \<in> set (ctx_connected (nt_ctx t)) \<and>
     cm_live cm = {} \<and> (\<forall>msg. cm_send_to cm sled_b msg = [])"
proof -
  let ?cm = "example_mgr (Suc 0) [(0, True)] [] []" and ?event = "MainConnMsg 0 (MainConnected (example_addr 1) sled_b)"
  have cm: "item_by th_addr (example_addr 1) (cm_connecting ?cm) = None" "sled_b \<notin> peers_of ?cm" "cm_live ?cm = {}"
    by (simp_all add: example_mgr_def item_by_def cm_live_def)
  have "cm_part ?cm ?event = Done (?cm, ConnEvent (Connected sled_b))"
    using cm(1) by (simp add: cm_part_def cm_client_handshake_completed_def)
  then have r: "main_round example_task_env all_io (\<lambda>_. 0) (example_node []) ?cm empty_world ?event =
      Done (example_node [sled_b], ?cm, empty_world, [])"
    by (rule example_round_of) (simp add: example_connects)
  have run: "main_run example_task_env example_task_config None (example_node [sled_b]) ?cm empty_world []"
    by (rule main_run.Round [OF example_forgotten_run _ _ r]) simp_all
  from late_handshake_leaves_peer [OF example_forgotten_run _ _ cm(1,2) r]
  have "sled_b \<in> set (ctx_connected (nt_ctx (example_node [sled_b]))) \<and> (\<forall>msg. cm_send_to ?cm sled_b msg = [])" by simp
  with run cm(3) show ?thesis by blast
qed

end
