(* ===== verification/Bootstore_Pkg.thy ===== *)
theory Bootstore_Pkg
  imports Sled_Hardware TQ_Crypto
begin

text \<open>
  The share packages of the previous protocol, LRTQ
  (\<^verbatim>\<open>bootstore/src/schemes/v0/share_pkg.rs\<close>): at rack initialization one secret is split
  into 255 shares, and each sled gets one of them in the clear and an equal part of the others
  encrypted, to hand out to sleds that join later. Splitting and combining are those of the
  crate \<open>vsss_rs\<close>, a parameter.
\<close>

section \<open>Definitions\<close>

type_synonym vsss_error = nat

record vsss_env =
  scalar_random :: "rng \<Rightarrow> u8 list \<times> rng"
  vsss_split :: "nat \<Rightarrow> nat \<Rightarrow> u8 list \<Rightarrow> rng \<Rightarrow> (u8 list list \<times> rng, vsss_error) rust_result"

datatype trust_quorum_error = Vsssrs vsss_error | FailedToEncrypt | FailedToDecrypt

record share_pkg =
  sp_common :: lrtq_share_data
  sp_initial_membership :: "baseboard btree_set"
  sp_salt :: "u8 list"
  sp_nonce :: "u8 list"
  sp_encrypted_shares :: "u8 list"

record learned_share_pkg =
  lp_common :: lrtq_share_data

definition share_size :: nat where
  "share_size = 33"

text \<open>\<open>slice::chunks\<close>: the last chunk may be shorter.\<close>

function chunks :: "nat \<Rightarrow> 'a list \<Rightarrow> 'a list list" where
  "chunks n xs = (if n = 0 \<or> xs = [] then [] else take n xs # chunks n (drop n xs))"
  by pat_completeness auto
termination by (relation "measure (length \<circ> snd)") auto

declare chunks.simps [simp del]

definition lr_derive_encryption_key :: "crypto_env \<Rightarrow> uuid \<Rightarrow> u8 list \<Rightarrow> u8 list \<Rightarrow> u8 list outcome" where
  "lr_derive_encryption_key E rack_uuid rack_secret salt =
     expect ''called `Result::unwrap()` on an `Err` value''
       (hkdf_expand E salt rack_secret [ascii ''trust-quorum-v0-key-shares-'', rack_uuid] 32)"

definition lr_decrypt_shares ::
  "crypto_env \<Rightarrow> u8 list \<Rightarrow> u8 list \<Rightarrow> u8 list \<Rightarrow> (u8 list list, trust_quorum_error) rust_result" where
  "lr_decrypt_shares E nonce cipher ciphertext =
     (case chacha_decrypt E cipher nonce ciphertext of
        None \<Rightarrow> Err FailedToDecrypt
      | Some plaintext \<Rightarrow> Ok (chunks share_size plaintext))"

definition pkg_decrypt_shares ::
  "crypto_env \<Rightarrow> share_pkg \<Rightarrow> u8 list \<Rightarrow> (u8 list list, trust_quorum_error) rust_result outcome" where
  "pkg_decrypt_shares E self rack_secret =
     obind (lr_derive_encryption_key E (lsd_rack_uuid (sp_common self)) rack_secret (sp_salt self)) (\<lambda>cipher.
       Done (lr_decrypt_shares E (sp_nonce self) cipher (sp_encrypted_shares self)))"

definition new_nonce :: "u8 \<Rightarrow> rng \<Rightarrow> u8 list \<times> rng" where
  "new_nonce i rng = (let (random, rng) = rng_take 11 rng in (random @ [i], rng))"

definition lr_share_digests :: "crypto_env \<Rightarrow> u8 list list \<Rightarrow> sha3_256_digest btree_set" where
  "lr_share_digests E shares = foldl (\<lambda>digests s. bs_insert (sha3_256 E s) digests) [] shares"

text \<open>The loop of \<open>create_pkgs\<close> over \<open>0..n\<close>.\<close>

fun create_pkgs_loop ::
  "crypto_env \<Rightarrow> (u8 list \<Rightarrow> lrtq_share_data) \<Rightarrow> baseboard btree_set \<Rightarrow> u8 list \<Rightarrow> u8 list \<Rightarrow> nat \<Rightarrow> u8 list list \<Rightarrow>
   nat list \<Rightarrow> rng \<Rightarrow> (share_pkg list \<times> rng, trust_quorum_error) rust_result outcome" where
  "create_pkgs_loop E common membership salt cipher shares_per_sled shares [] rng = Done (Ok ([], rng))"
| "create_pkgs_loop E common membership salt cipher shares_per_sled shares (i # is) rng =
     (case take shares_per_sled (drop (i * shares_per_sled) shares) of
        [] \<Rightarrow> Panic ''called `Option::unwrap()` on a `None` value''
      | share # rest \<Rightarrow>
          (let plaintext = concat rest;
               (nonce, rng) = new_nonce (word_of_nat i) rng in
           case chacha_encrypt E cipher nonce plaintext of
             None \<Rightarrow> Done (Err FailedToEncrypt)
           | Some encrypted_shares \<Rightarrow>
               obind (create_pkgs_loop E common membership salt cipher shares_per_sled shares is rng) (\<lambda>r.
                 case r of
                   Inl e \<Rightarrow> Done (Err e)
                 | Inr (pkgs, rng) \<Rightarrow>
                     Done (Ok (\<lparr>sp_common = common share, sp_initial_membership = membership, sp_salt = salt,
                                sp_nonce = nonce, sp_encrypted_shares = encrypted_shares\<rparr> # pkgs, rng)))))"

definition create_pkgs ::
  "crypto_env \<Rightarrow> vsss_env \<Rightarrow> uuid \<Rightarrow> baseboard btree_set \<Rightarrow> rng \<Rightarrow>
   (share_pkg list \<times> rng, trust_quorum_error) rust_result outcome" where
  "create_pkgs E V rack_uuid initial_membership rng =
     obind (expect ''called `Result::unwrap()` on an `Err` value'' (u8_try_from (length initial_membership))) (\<lambda>n.
     let (rack_secret, rng) = scalar_random V rng;
         threshold = n div 2 + 1;
         total_shares = 255 in
     obind (if n = 0 then Panic ''attempt to divide by zero'' else Done (unat (total_shares div n))) (\<lambda>shares_per_sled.
     case vsss_split V (unat threshold) (unat total_shares) rack_secret rng of
       Inl e \<Rightarrow> Done (Err (Vsssrs e))
     | Inr (shares, rng) \<Rightarrow>
         (let share_digests = lr_share_digests E shares;
              (salt, rng) = rng_take 32 rng in
          obind (lr_derive_encryption_key E rack_uuid rack_secret salt) (\<lambda>cipher.
            create_pkgs_loop E
              (\<lambda>share. \<lparr>lsd_rack_uuid = rack_uuid, lsd_epoch = 0, lsd_threshold = threshold, lsd_share = share,
                       lsd_share_digests = share_digests\<rparr>)
              initial_membership salt cipher shares_per_sled shares [0..<unat n] rng))))"

section \<open>The scheme\<close>

text \<open>
  What the code relies on of \<open>vsss_rs\<close>: a threshold of at least two is accepted, a split gives
  as many different shares as asked for, of 33 bytes each, and any threshold of them combine
  to the secret; a threshold below two is an error.
\<close>

definition vsss_scheme :: "crypto_env \<Rightarrow> vsss_env \<Rightarrow> bool" where
  "vsss_scheme E V \<longleftrightarrow>
     (\<forall>k n rng0 rng. 2 \<le> k \<longrightarrow> k \<le> n \<longrightarrow> n \<le> 255 \<longrightarrow>
        (\<exists>shares rng'. vsss_split V k n (fst (scalar_random V rng0)) rng = Ok (shares, rng') \<and>
           length shares = n \<and> distinct shares \<and> (\<forall>s\<in>set shares. length s = share_size) \<and>
           (\<forall>picked. set picked \<subseteq> set shares \<longrightarrow> distinct picked \<longrightarrow> k \<le> length picked \<longrightarrow>
              lrtq_combine E picked = Some (fst (scalar_random V rng0))))) \<and>
     (\<forall>k n secret rng. k < 2 \<longrightarrow> (\<exists>e. vsss_split V k n secret rng = Err e))"

lemma vsss_scheme_split:
  assumes "vsss_scheme E V" and "2 \<le> k" and "k \<le> n" and "n \<le> 255"
  obtains shares rng' where "vsss_split V k n (fst (scalar_random V rng0)) rng = Ok (shares, rng')"
    and "length shares = n" and "distinct shares" and "\<forall>s\<in>set shares. length s = share_size"
    and "\<forall>picked. set picked \<subseteq> set shares \<longrightarrow> distinct picked \<longrightarrow> k \<le> length picked \<longrightarrow>
      lrtq_combine E picked = Some (fst (scalar_random V rng0))"
  using assms unfolding vsss_scheme_def by meson

lemma chunks_concat:
  "0 < n \<Longrightarrow> \<forall>x\<in>set xs. length x = n \<Longrightarrow> chunks n (concat xs) = xs"
proof (induction xs)
  case (Cons x xs)
  then have "x @ concat xs \<noteq> []" by auto
  with Cons show ?case by (simp add: chunks.simps [of n "x @ concat xs"])
qed (simp add: chunks.simps)

text \<open>The part of the shares that the \<open>i\<close>-th sled gets.\<close>

definition block :: "nat \<Rightarrow> 'a list \<Rightarrow> nat \<Rightarrow> 'a list" where
  "block m shares i = take m (drop (i * m) shares)"

lemma concat_blocks: "concat (map (block m xs) [0..<n]) = take (n * m) xs"
proof (induction n)
  case (Suc n)
  have "take (Suc n * m) xs = take (n * m) xs @ take m (drop (n * m) xs)"
    using take_add [of "n * m" m xs] by (simp add: add.commute)
  with Suc show ?case by (simp add: block_def)
qed simp

lemma length_block: "Suc i * m \<le> length xs \<Longrightarrow> length (block m xs i) = m"
  by (simp add: block_def)

lemma set_block: "set (block m xs i) \<subseteq> set xs"
  unfolding block_def by (meson in_set_dropD in_set_takeD subsetI)

definition pkg_of_block ::
  "crypto_env \<Rightarrow> (u8 list \<Rightarrow> lrtq_share_data) \<Rightarrow> u8 list \<Rightarrow> u8 list \<Rightarrow> u8 list list \<Rightarrow> share_pkg \<Rightarrow> bool" where
  "pkg_of_block E common salt cipher b pkg \<longleftrightarrow>
     b \<noteq> [] \<and> sp_common pkg = common (hd b) \<and> sp_salt pkg = salt \<and>
     chacha_encrypt E cipher (sp_nonce pkg) (concat (tl b)) = Some (sp_encrypted_shares pkg)"

lemma create_pkgs_loop_blocks:
  assumes "crypto_usable E" and "\<forall>i\<in>set is. block m shares i \<noteq> []"
  shows "\<exists>pkgs rng'. create_pkgs_loop E common membership salt cipher m shares is rng = Done (Ok (pkgs, rng')) \<and>
    list_all2 (pkg_of_block E common salt cipher) (map (block m shares) is) pkgs \<and>
    (\<forall>pkg\<in>set pkgs. sp_initial_membership pkg = membership)"
  using assms(2)
proof (induction "is" arbitrary: rng)
  case (Cons i "is")
  obtain nonce rng1 where nonce: "new_nonce (word_of_nat i) rng = (nonce, rng1)" by fastforce
  obtain share rest where b: "block m shares i = share # rest" using Cons.prems by (cases "block m shares i") auto
  obtain c where c: "chacha_encrypt E cipher nonce (concat rest) = Some c"
    using assms(1) unfolding crypto_usable_def by fastforce
  from Cons.IH [of rng1] Cons.prems obtain pkgs rng' where
    "create_pkgs_loop E common membership salt cipher m shares is rng1 = Done (Ok (pkgs, rng'))"
    "list_all2 (pkg_of_block E common salt cipher) (map (block m shares) is) pkgs"
    "\<forall>pkg\<in>set pkgs. sp_initial_membership pkg = membership" by auto
  moreover have "take m (drop (i * m) shares) = share # rest" using b by (simp add: block_def)
  moreover have "pkg_of_block E common salt cipher (block m shares i)
      \<lparr>sp_common = common share, sp_initial_membership = membership, sp_salt = salt, sp_nonce = nonce,
       sp_encrypted_shares = c\<rparr>"
    using b c by (simp add: pkg_of_block_def)
  ultimately show ?case using c nonce by simp
qed simp

text \<open>A package that holds these shares: the first in the clear, the others under the secret.\<close>

definition holds_shares :: "crypto_env \<Rightarrow> u8 list \<Rightarrow> u8 list list \<Rightarrow> share_pkg \<Rightarrow> bool" where
  "holds_shares E secret b pkg \<longleftrightarrow>
     b \<noteq> [] \<and> lsd_share (sp_common pkg) = hd b \<and> pkg_decrypt_shares E pkg secret = Done (Ok (tl b))"

lemma pkg_of_block_holds:
  assumes "pkg_of_block E common salt cipher b pkg" and "aead_inverts E"
    and "\<forall>s\<in>set b. length s = share_size" and "\<And>s. lsd_rack_uuid (common s) = rack_uuid"
    and "\<And>s. lsd_share (common s) = s" and "lr_derive_encryption_key E rack_uuid secret salt = Done cipher"
  shows "holds_shares E secret b pkg"
proof -
  have "chacha_decrypt E cipher (sp_nonce pkg) (sp_encrypted_shares pkg) = Some (concat (tl b))"
    using assms(1,2) by (auto simp: pkg_of_block_def aead_inverts_def)
  moreover have "chunks share_size (concat (tl b)) = tl b"
    by (rule chunks_concat) (use assms(3) in \<open>cases b; simp add: share_size_def\<close>)+
  ultimately show ?thesis
    using assms by (simp add: holds_shares_def pkg_of_block_def pkg_decrypt_shares_def lr_decrypt_shares_def)
qed

section \<open>Creating packages\<close>

lemma u8_members:
  "1 \<le> n \<Longrightarrow> n \<le> 255 \<Longrightarrow> u8_try_from n = Some (word_of_nat n) \<and> unat (word_of_nat n :: u8) = n \<and>
     (word_of_nat n :: u8) \<noteq> 0 \<and> unat (255 div word_of_nat n :: u8) = 255 div n \<and>
     unat (word_of_nat n div 2 + 1 :: u8) = n div 2 + 1"
proof -
  assume n: "1 \<le> n" "n \<le> 255"
  have u: "unat (word_of_nat n :: u8) = n" using n by (simp add: unat_of_nat)
  have "unat (word_of_nat n div 2 + 1 :: u8) = n div 2 + 1"
    using n u by (simp add: unat_word_ariths unat_div)
  moreover have "(word_of_nat n :: u8) \<noteq> 0" using u n by (metis not_one_le_zero unat_0)
  ultimately show ?thesis using n u by (simp add: u8_try_from_def unat_div)
qed

lemma blocks_fit:
  assumes "i < n" and "(n::nat) \<le> 255"
  shows "Suc i * (255 div n) \<le> 255" and "0 < 255 div n"
proof -
  have "Suc i * (255 div n) \<le> n * (255 div n)" using assms(1) by (intro mult_le_mono1) simp
  also have "\<dots> \<le> 255" by simp
  finally show "Suc i * (255 div n) \<le> 255" .
  show "0 < 255 div n" using assms by (simp add: div_greater_zero_iff)
qed

lemma set_share_digests [simp]: "set (lr_share_digests E shares) = sha3_256 E ` set shares"
proof -
  have "set (foldl (\<lambda>d s. bs_insert (sha3_256 E s) d) d0 shares) = set d0 \<union> sha3_256 E ` set shares" for d0
    by (induction shares arbitrary: d0) auto
  then show ?thesis by (simp add: lr_share_digests_def)
qed

lemma create_pkgs_Ok:
  assumes "vsss_scheme E V" and "aead_inverts E" and "crypto_usable E"
    and "2 \<le> length members" and "length members \<le> 255"
  shows "\<exists>pkgs rng' blocks. create_pkgs E V rack_uuid members rng = Done (Ok (pkgs, rng')) \<and>
    list_all2 (holds_shares E (fst (scalar_random V rng))) blocks pkgs \<and>
    length pkgs = length members \<and> distinct (concat blocks) \<and> (\<forall>b\<in>set blocks. length b = 255 div length members) \<and>
    (\<forall>pkg\<in>set pkgs. lsd_rack_uuid (sp_common pkg) = rack_uuid \<and>
       unat (lsd_threshold (sp_common pkg)) = length members div 2 + 1 \<and>
       (\<forall>s\<in>set (concat blocks). sha3_256 E s \<in> set (lsd_share_digests (sp_common pkg)))) \<and>
    (\<forall>picked. set picked \<subseteq> set (concat blocks) \<longrightarrow> distinct picked \<longrightarrow>
       length members div 2 + 1 \<le> length picked \<longrightarrow> lrtq_combine E picked = Some (fst (scalar_random V rng)))"
proof -
  define n where "n = length members"
  define m where "m = 255 div n"
  define w :: u8 where "w = word_of_nat n"
  obtain secret rng1 where secret: "scalar_random V rng = (secret, rng1)" by fastforce
  have n: "2 \<le> n" "n \<le> 255" using assms(4,5) by (simp_all add: n_def)
  note words = u8_members [OF order_trans [OF _ n(1)] n(2), folded w_def m_def]
  have "n div 2 + 1 \<le> 255" "2 \<le> n div 2 + 1" using n by auto
  from vsss_scheme_split [OF assms(1) this(2,1) order_refl, of rng rng1] secret obtain shares rng2 where
    split: "vsss_split V (n div 2 + 1) 255 secret rng1 = Ok (shares, rng2)"
    and shares: "length shares = 255" "distinct shares" "\<forall>s\<in>set shares. length s = share_size"
    and combine: "\<forall>picked. set picked \<subseteq> set shares \<longrightarrow> distinct picked \<longrightarrow> n div 2 + 1 \<le> length picked \<longrightarrow>
      lrtq_combine E picked = Some secret" by auto
  obtain salt rng3 where salt: "rng_take 32 rng2 = (salt, rng3)" by fastforce
  obtain cipher where cipher: "lr_derive_encryption_key E rack_uuid secret salt = Done cipher"
    using assms(3) unfolding lr_derive_encryption_key_def crypto_usable_def by (metis expect_simps(2))
  let ?common = "\<lambda>share. \<lparr>lsd_rack_uuid = rack_uuid, lsd_epoch = 0, lsd_threshold = w div 2 + 1, lsd_share = share,
    lsd_share_digests = lr_share_digests E shares\<rparr>"
  let ?blocks = "map (block m shares) [0..<n]"
  have len: "length (block m shares i) = m" "0 < m" if "i < n" for i
    using blocks_fit [OF that n(2)] shares(1) by (simp_all add: length_block m_def)
  then have "\<forall>i\<in>set [0..<n]. block m shares i \<noteq> []" by force
  from create_pkgs_loop_blocks [OF assms(3) this, of ?common members salt cipher rng3] obtain pkgs rng' where
    loop: "create_pkgs_loop E ?common members salt cipher m shares [0..<n] rng3 = Done (Ok (pkgs, rng'))"
    and pkgs: "list_all2 (pkg_of_block E ?common salt cipher) ?blocks pkgs" by blast
  have create: "create_pkgs E V rack_uuid members rng = Done (Ok (pkgs, rng'))"
    using words split loop by (simp add: create_pkgs_def n_def [symmetric] secret salt cipher)
  have holds: "list_all2 (holds_shares E secret) ?blocks pkgs"
    using pkgs
  proof (rule list.rel_mono_strong)
    fix b pkg assume "b \<in> set ?blocks" "pkg_of_block E ?common salt cipher b pkg"
    moreover from this(1) have "\<forall>s\<in>set b. length s = share_size" using set_block shares(3) by fastforce
    ultimately show "holds_shares E secret b pkg" using pkg_of_block_holds [OF _ assms(2) _ _ _ cipher] by force
  qed
  have sub: "concat ?blocks = take (n * m) shares" by (rule concat_blocks)
  have dist: "distinct (concat ?blocks)" unfolding sub using shares(2) by simp
  have within: "set (concat ?blocks) \<subseteq> set shares" unfolding sub by (rule set_take_subset)
  have common: "\<forall>pkg\<in>set pkgs. \<exists>s. sp_common pkg = ?common s"
    using pkgs by (auto simp: list_all2_conv_all_nth in_set_conv_nth pkg_of_block_def)
  have fields: "\<forall>pkg\<in>set pkgs. lsd_rack_uuid (sp_common pkg) = rack_uuid \<and>
      unat (lsd_threshold (sp_common pkg)) = n div 2 + 1 \<and>
      (\<forall>s\<in>set (concat ?blocks). sha3_256 E s \<in> set (lsd_share_digests (sp_common pkg)))"
  proof
    fix pkg assume "pkg \<in> set pkgs"
    with common obtain s where "sp_common pkg = ?common s" by blast
    with words within show "lsd_rack_uuid (sp_common pkg) = rack_uuid \<and>
      unat (lsd_threshold (sp_common pkg)) = n div 2 + 1 \<and>
      (\<forall>s\<in>set (concat ?blocks). sha3_256 E s \<in> set (lsd_share_digests (sp_common pkg)))"
      by (simp del: set_concat) blast
  qed
  have comb: "\<forall>picked. set picked \<subseteq> set (concat ?blocks) \<longrightarrow> distinct picked \<longrightarrow> n div 2 + 1 \<le> length picked \<longrightarrow>
      lrtq_combine E picked = Some secret"
    using combine within by (meson order_trans)
  have lens: "length pkgs = n" "\<forall>b\<in>set ?blocks. length b = m"
    using pkgs len by (auto dest: list_all2_lengthD)
  show ?thesis
    unfolding n_def [symmetric] m_def [symmetric] secret fst_conv
    by (intro exI [of _ pkgs] exI [of _ rng'] exI [of _ ?blocks] conjI create holds lens dist fields comb)
qed


lemma create_pkgs_one:
  assumes "vsss_scheme E V"
  shows "\<exists>e. create_pkgs E V rack_uuid [member] rng = Done (Err (Vsssrs e))"
proof -
  obtain secret rng1 where secret: "scalar_random V rng = (secret, rng1)" by fastforce
  have "\<forall>k n secret rng. k < 2 \<longrightarrow> (\<exists>e. vsss_split V k n secret rng = Err e)"
    using assms by (simp add: vsss_scheme_def)
  then obtain e where "vsss_split V 1 255 secret rng1 = Err e" by fastforce
  then show ?thesis by (simp add: create_pkgs_def secret u8_try_from_def)
qed

text \<open>
  C31: the sizes that \<open>create_pkgs\<close> can deal with: it panics for no members (division by zero)
  and for more than 255 (conversion to a byte), returns an error for one member, and
  succeeds for all sizes in between.
\<close>

theorem create_pkgs_bounds:
  assumes "vsss_scheme E V" and "aead_inverts E" and "crypto_usable E"
  shows "(returns (create_pkgs E V rack_uuid members rng) \<longleftrightarrow> 1 \<le> length members \<and> length members \<le> 255) \<and>
    ((\<exists>r. create_pkgs E V rack_uuid members rng = Done (Ok r)) \<longleftrightarrow>
      2 \<le> length members \<and> length members \<le> 255)"
proof -
  consider "length members = 0" | "length members = 1" | "2 \<le> length members" "length members \<le> 255" | "255 < length members"
    by linarith
  then show ?thesis
  proof cases
    case 1
    then show ?thesis by (simp add: create_pkgs_def u8_try_from_def Let_def split: prod.split)
  next
    case 2
    then obtain m where m: "members = [m]" by (auto simp: length_Suc_conv)
    obtain e where "create_pkgs E V rack_uuid [m] rng = Done (Err (Vsssrs e))"
      using create_pkgs_one [OF assms(1)] by blast
    with m show ?thesis by simp
  next
    case 3
    then obtain r where "create_pkgs E V rack_uuid members rng = Done (Ok r)"
      using create_pkgs_Ok [OF assms, of members rack_uuid rng] by blast
    with 3 show ?thesis by simp
  next
    case 4
    then show ?thesis by (simp add: create_pkgs_def u8_try_from_def)
  qed
qed

section \<open>Examples\<close>

text \<open>A scheme with the assumed laws, in which a share carries the secret in the clear.\<close>

definition toy_vsss :: vsss_env where
  "toy_vsss = \<lparr>scalar_random = rng_take 32,
     vsss_split = (\<lambda>k n secret rng. if 2 \<le> k \<and> k \<le> n \<and> n \<le> 255
        then Ok (map (\<lambda>i. word_of_nat i # secret) [1..<Suc n], rng) else Err 0)\<rparr>"

definition toy_lrtq_env :: crypto_env where
  "toy_lrtq_env = toy_env\<lparr>lrtq_combine := (\<lambda>shares. Some (tl (hd shares))),
     chacha_encrypt := (\<lambda>key nonce p. Some (replicate 16 0 @ p)),
     chacha_decrypt := (\<lambda>key nonce c. if take 16 c = replicate 16 0 then Some (drop 16 c) else None)\<rparr>"

lemma toy_lrtq_env_ok: "aead_inverts toy_lrtq_env" "crypto_usable toy_lrtq_env"
  using toy_env_usable by (simp_all add: toy_lrtq_env_def aead_inverts_def crypto_usable_def)

lemma toy_shares:
  assumes "n \<le> 255" and "length secret = 32"
  shows "distinct (map (\<lambda>i. (word_of_nat i :: u8) # secret) [1..<Suc n])"
    and "\<forall>s\<in>set (map (\<lambda>i. (word_of_nat i :: u8) # secret) [1..<Suc n]). length s = share_size \<and> tl s = secret"
proof -
  have "inj_on (\<lambda>i. (word_of_nat i :: u8) # secret) {1..<Suc n}"
  proof (rule inj_onI)
    fix i j assume ij: "i \<in> {1..<Suc n}" "j \<in> {1..<Suc n}"
      and eq: "(word_of_nat i :: u8) # secret = word_of_nat j # secret"
    have "unat (word_of_nat i :: u8) = i" "unat (word_of_nat j :: u8) = j"
      using ij assms(1) by (simp_all add: unat_of_nat)
    with eq show "i = j" by (metis list.inject)
  qed
  then show "distinct (map (\<lambda>i. (word_of_nat i :: u8) # secret) [1..<Suc n])"
    by (simp only: distinct_map distinct_upt set_upt simp_thms)
  show "\<forall>s\<in>set (map (\<lambda>i. (word_of_nat i :: u8) # secret) [1..<Suc n]). length s = share_size \<and> tl s = secret"
    by (simp only: list.set_map set_upt ball_simps list.size list.sel assms(2) share_size_def) simp
qed

lemma toy_scheme: "vsss_scheme toy_lrtq_env toy_vsss"
  unfolding vsss_scheme_def
proof (intro conjI allI impI)
  fix k n :: nat and rng0 rng :: rng
  assume k: "2 \<le> k" "k \<le> n" "n \<le> 255"
  let ?s = "fst (scalar_random toy_vsss rng0)"
  let ?shares = "map (\<lambda>i. (word_of_nat i :: u8) # ?s) [1..<Suc n]"
  have len: "length ?s = 32" by (simp add: toy_vsss_def)
  note shares = toy_shares [OF k(3) len]
  have "lrtq_combine toy_lrtq_env picked = Some ?s" if "set picked \<subseteq> set ?shares" "k \<le> length picked" for picked
  proof -
    have "hd picked \<in> set ?shares" using that k(1) by (cases picked) auto
    with shares(2) have "tl (hd picked) = ?s" by blast
    then show ?thesis by (simp add: toy_lrtq_env_def)
  qed
  moreover have "vsss_split toy_vsss k n ?s rng = Ok (?shares, rng)" using k by (simp add: toy_vsss_def)
  ultimately show "\<exists>shares rng'. vsss_split toy_vsss k n ?s rng = Ok (shares, rng') \<and> length shares = n \<and>
      distinct shares \<and> (\<forall>s\<in>set shares. length s = share_size) \<and>
      (\<forall>picked. set picked \<subseteq> set shares \<longrightarrow> distinct picked \<longrightarrow> k \<le> length picked \<longrightarrow>
        lrtq_combine toy_lrtq_env picked = Some ?s)"
    using shares by (intro exI [of _ ?shares] exI [of _ rng]) auto
qed (simp add: toy_vsss_def)

definition example_members :: "baseboard btree_set" where
  "example_members = [Pc ''a'' ''1'', Pc ''b'' ''1'', Pc ''c'' ''1'', Pc ''d'' ''1'']"


theorem create_pkgs_bounds_witness:
  "\<not> returns (create_pkgs toy_lrtq_env toy_vsss (replicate 16 1) [] (\<lambda>_. 7)) \<and>
   returns (create_pkgs toy_lrtq_env toy_vsss (replicate 16 1) example_members (\<lambda>_. 7))"
  using create_pkgs_bounds [OF toy_scheme toy_lrtq_env_ok, of "replicate 16 1" "[]" "\<lambda>_. 7"]
    create_pkgs_bounds [OF toy_scheme toy_lrtq_env_ok, of "replicate 16 1" example_members "\<lambda>_. 7"]
  by (simp add: example_members_def)

end
