(* ===== verification/Bootstore_Requests.thy ===== *)
theory Bootstore_Requests
  imports Bootstore_Pkg
begin

text \<open>
  The messages of LRTQ (\<^verbatim>\<open>bootstore/src/schemes/v0/messages.rs\<close>) and the manager of the
  requests in flight (\<^verbatim>\<open>bootstore/src/schemes/v0/request_manager.rs\<close>). Times are numbers
  of nanoseconds. The random request ids come from a supply that is part of the manager.
\<close>

section \<open>Messages\<close>

datatype msg_error =
  MsgAlreadyInitialized
| MsgNotInitialized
| MsgStillLearning
| MsgCannotSpareAShare
| MsgRackUuidMismatch uuid uuid

datatype request_type = ReqInit share_pkg | ReqGetShare uuid | ReqLearn

datatype response_type = InitAck | RspShare "u8 list" | LearnPkg learned_share_pkg | RspError msg_error

record lr_request =
  lrq_id :: uuid
  lrq_type :: request_type

record lr_response =
  lrs_request_id :: uuid
  lrs_type :: response_type

datatype lr_msg = Req lr_request | Rsp lr_response

record lr_envelope =
  le_to :: baseboard
  le_msg :: lr_msg

fun msg_request_id :: "lr_msg \<Rightarrow> uuid" where
  "msg_request_id (Req req) = lrq_id req"
| "msg_request_id (Rsp rsp) = lrs_request_id rsp"

fun request_type_name :: "request_type \<Rightarrow> string" where
  "request_type_name (ReqInit _) = ''init''"
| "request_type_name (ReqGetShare _) = ''get_share''"
| "request_type_name ReqLearn = ''learn''"

fun response_type_name :: "response_type \<Rightarrow> string" where
  "response_type_name InitAck = ''init_ack''"
| "response_type_name (RspShare _) = ''share''"
| "response_type_name (LearnPkg _) = ''learn_pkg''"
| "response_type_name (RspError _) = ''error''"

abbreviation request_to :: "baseboard \<Rightarrow> uuid \<Rightarrow> request_type \<Rightarrow> lr_envelope" where
  "request_to to rid type \<equiv> \<lparr>le_to = to, le_msg = Req \<lparr>lrq_id = rid, lrq_type = type\<rparr>\<rparr>"

abbreviation response_to :: "baseboard \<Rightarrow> uuid \<Rightarrow> response_type \<Rightarrow> lr_envelope" where
  "response_to to rid type \<equiv> \<lparr>le_to = to, le_msg = Rsp \<lparr>lrs_request_id = rid, lrs_type = type\<rparr>\<rparr>"

section \<open>The request manager\<close>

type_synonym instant = nat

record fsm_config =
  fc_learn_timeout :: nat
  fc_rack_init_timeout :: nat
  fc_rack_secret_request_timeout :: nat

record init_acks =
  ia_expected :: "baseboard btree_set"
  ia_received :: "baseboard btree_set"

record share_acks =
  sa_threshold :: u8
  sa_received :: "(baseboard, u8 list) btree_map"

definition share_acks_new :: "u8 \<Rightarrow> share_acks" where
  "share_acks_new threshold = \<lparr>sa_threshold = threshold, sa_received = []\<rparr>"

datatype trackable =
  TrackInitRack uuid "(baseboard, share_pkg) btree_map" init_acks
| TrackLoadRackSecret uuid share_acks
| TrackLearnReceived uuid baseboard share_acks
| TrackLearnSent baseboard

record request_manager =
  rqm_id :: baseboard
  rqm_config :: fsm_config
  rqm_requests :: "(uuid, trackable) btree_map"
  rqm_expiry_to_id :: "(instant, uuid) btree_map"
  rqm_envelopes :: "lr_envelope list"
  rqm_uuids :: "nat \<Rightarrow> uuid"

definition rqm_new :: "baseboard \<Rightarrow> fsm_config \<Rightarrow> (nat \<Rightarrow> uuid) \<Rightarrow> request_manager" where
  "rqm_new self_id config uuids =
     \<lparr>rqm_id = self_id, rqm_config = config, rqm_requests = [], rqm_expiry_to_id = [], rqm_envelopes = [],
      rqm_uuids = uuids\<rparr>"

definition rqm_drain :: "request_manager \<Rightarrow> lr_envelope list \<times> request_manager" where
  "rqm_drain self = (rqm_envelopes self, self\<lparr>rqm_envelopes := []\<rparr>)"

definition rqm_track :: "request_manager \<Rightarrow> instant \<Rightarrow> uuid \<Rightarrow> trackable \<Rightarrow> request_manager" where
  "rqm_track self expiry request_id request =
     self\<lparr>rqm_requests := bt_insert request_id request (rqm_requests self),
          rqm_expiry_to_id := bt_insert expiry request_id (rqm_expiry_to_id self)\<rparr>"

definition rqm_new_request :: "request_manager \<Rightarrow> instant \<Rightarrow> trackable \<Rightarrow> request_manager \<times> uuid" where
  "rqm_new_request self expiry request =
     (let new_id = rqm_uuids self 0;
          self = self\<lparr>rqm_uuids := (\<lambda>i. rqm_uuids self (Suc i))\<rparr>
      in (rqm_track self expiry new_id request, new_id))"

definition rqm_remove_request :: "request_manager \<Rightarrow> uuid \<Rightarrow> request_manager \<times> trackable option" where
  "rqm_remove_request self request_id =
     (let self = self\<lparr>rqm_expiry_to_id := bt_retain (\<lambda>_ id. id \<noteq> request_id) (rqm_expiry_to_id self)\<rparr>
      in (self\<lparr>rqm_requests := bt_remove request_id (rqm_requests self)\<rparr>, bt_get (rqm_requests self) request_id))"

definition rqm_push :: "request_manager \<Rightarrow> lr_envelope list \<Rightarrow> request_manager" where
  "rqm_push self envelopes = self\<lparr>rqm_envelopes := rqm_envelopes self @ envelopes\<rparr>"

definition rqm_broadcast_get_share ::
  "request_manager \<Rightarrow> uuid \<Rightarrow> uuid \<Rightarrow> baseboard btree_set \<Rightarrow> request_manager" where
  "rqm_broadcast_get_share self request_id rack_uuid connected_peers =
     rqm_push self (map (\<lambda>to. request_to to request_id (ReqGetShare rack_uuid)) connected_peers)"

definition rqm_new_init_rack_req ::
  "request_manager \<Rightarrow> instant \<Rightarrow> uuid \<Rightarrow> (baseboard, share_pkg) btree_map \<Rightarrow> baseboard btree_set \<Rightarrow>
   request_manager \<times> uuid" where
  "rqm_new_init_rack_req self now rack_uuid packages connected_peers =
     (let expiry = now + fc_rack_init_timeout (rqm_config self);
          acks = \<lparr>ia_expected = filter (\<lambda>id. id \<noteq> rqm_id self) (bt_keys packages), ia_received = []\<rparr>;
          (self, request_id) = rqm_new_request self expiry (TrackInitRack rack_uuid packages acks)
      in (rqm_push self (map (\<lambda>(to, pkg). request_to to request_id (ReqInit pkg))
            (filter (\<lambda>(to, _). bs_contains connected_peers to) packages)), request_id))"

definition rqm_new_load_rack_secret_req ::
  "request_manager \<Rightarrow> instant \<Rightarrow> uuid \<Rightarrow> u8 \<Rightarrow> baseboard btree_set \<Rightarrow> request_manager \<times> uuid" where
  "rqm_new_load_rack_secret_req self now rack_uuid threshold connected_peers =
     (let expiry = now + fc_rack_secret_request_timeout (rqm_config self);
          (self, request_id) =
            rqm_new_request self expiry (TrackLoadRackSecret rack_uuid (share_acks_new threshold))
      in (rqm_broadcast_get_share self request_id rack_uuid connected_peers, request_id))"

definition rqm_new_learn_received_req ::
  "request_manager \<Rightarrow> uuid \<Rightarrow> instant \<Rightarrow> uuid \<Rightarrow> u8 \<Rightarrow> baseboard \<Rightarrow> baseboard btree_set \<Rightarrow> request_manager" where
  "rqm_new_learn_received_req self request_id now rack_uuid threshold from connected_peers =
     (let request = TrackLearnReceived rack_uuid from (share_acks_new threshold);
          expiry = now + fc_learn_timeout (rqm_config self)
      in rqm_broadcast_get_share (rqm_track self expiry request_id request) request_id rack_uuid connected_peers)"

definition rqm_new_learn_sent_req :: "request_manager \<Rightarrow> instant \<Rightarrow> baseboard \<Rightarrow> request_manager \<times> uuid" where
  "rqm_new_learn_sent_req self now to =
     (let expiry = now + fc_learn_timeout (rqm_config self);
          (self, request_id) = rqm_new_request self expiry (TrackLearnSent to)
      in (rqm_push self [request_to to request_id ReqLearn], request_id))"

fun is_learn_sent :: "trackable \<Rightarrow> bool" where
  "is_learn_sent (TrackLearnSent _) = True"
| "is_learn_sent _ = False"

fun is_init_rack :: "trackable \<Rightarrow> bool" where
  "is_init_rack (TrackInitRack _ _ _) = True"
| "is_init_rack _ = False"

definition rqm_has_learn_sent_req :: "request_manager \<Rightarrow> bool" where
  "rqm_has_learn_sent_req self = list_ex is_learn_sent (bt_values (rqm_requests self))"

definition rqm_has_init_rack_req :: "request_manager \<Rightarrow> bool" where
  "rqm_has_init_rack_req self = list_ex is_init_rack (bt_values (rqm_requests self))"

text \<open>The loop of \<open>expired\<close>: \<open>pop_last\<close> takes the entry with the latest expiry.\<close>

function rqm_expired_loop ::
  "instant \<Rightarrow> (instant, uuid) btree_map \<Rightarrow> (uuid, trackable) btree_map \<Rightarrow> (uuid, trackable) btree_map \<Rightarrow>
   ((instant, uuid) btree_map \<times> (uuid, trackable) btree_map \<times> (uuid, trackable) btree_map) outcome" where
  "rqm_expired_loop now expiry_to_id requests expired =
     (if expiry_to_id = [] then Done (expiry_to_id, requests, expired)
      else (let (expiry, request_id) = last expiry_to_id; rest = butlast expiry_to_id in
            if expiry < now then
              obind (expect ''called `Option::unwrap()` on a `None` value'' (bt_get requests request_id)) (\<lambda>request.
                rqm_expired_loop now (butlast expiry_to_id) (bt_remove request_id requests)
                  (bt_insert request_id request expired))
            else Done (bt_insert expiry request_id rest, requests, expired)))"
  by pat_completeness auto
termination by (relation "measure (\<lambda>(_, expiry_to_id, _, _). length expiry_to_id)") auto

declare rqm_expired_loop.simps [simp del]

definition rqm_expired :: "request_manager \<Rightarrow> instant \<Rightarrow> (request_manager \<times> (uuid, trackable) btree_map) outcome" where
  "rqm_expired self now =
     obind (rqm_expired_loop now (rqm_expiry_to_id self) (rqm_requests self) []) (\<lambda>(expiry_to_id, requests, expired).
       Done (self\<lparr>rqm_expiry_to_id := expiry_to_id, rqm_requests := requests\<rparr>, expired))"

definition rqm_on_init_ack :: "request_manager \<Rightarrow> baseboard \<Rightarrow> uuid \<Rightarrow> request_manager \<times> bool option" where
  "rqm_on_init_ack self from request_id =
     (case bt_get (rqm_requests self) request_id of
        Some (TrackInitRack rack_uuid packages acks) \<Rightarrow>
          (if \<not> bs_contains (ia_expected acks) from then (self, None)
           else
             (let acks = acks\<lparr>ia_received := bs_insert from (ia_received acks)\<rparr>;
                  self = self\<lparr>rqm_requests :=
                    bt_insert request_id (TrackInitRack rack_uuid packages acks) (rqm_requests self)\<rparr> in
              if ia_received acks = ia_expected acks then (fst (rqm_remove_request self request_id), Some True)
              else (self, Some False)))
      | _ \<Rightarrow> (self, None))"

definition rqm_on_share ::
  "request_manager \<Rightarrow> baseboard \<Rightarrow> uuid \<Rightarrow> u8 list \<Rightarrow> request_manager \<times> trackable option" where
  "rqm_on_share self from request_id share =
     (let ack = (\<lambda>request acks.
            let acks = acks\<lparr>sa_received := bt_insert from share (sa_received acks)\<rparr>;
                self = self\<lparr>rqm_requests := bt_insert request_id (request acks) (rqm_requests self)\<rparr> in
            if length (sa_received acks) = unat (sa_threshold acks - 1) then rqm_remove_request self request_id
            else (self, None)) in
      case bt_get (rqm_requests self) request_id of
        Some (TrackLoadRackSecret rack_uuid acks) \<Rightarrow> ack (TrackLoadRackSecret rack_uuid) acks
      | Some (TrackLearnReceived rack_uuid learner acks) \<Rightarrow> ack (TrackLearnReceived rack_uuid learner) acks
      | _ \<Rightarrow> (self, None))"

definition rqm_on_learn_pkg :: "request_manager \<Rightarrow> uuid \<Rightarrow> request_manager \<times> bool" where
  "rqm_on_learn_pkg self request_id =
     (case bt_get (rqm_requests self) request_id of
        Some (TrackLearnSent _) \<Rightarrow> (fst (rqm_remove_request self request_id), True)
      | _ \<Rightarrow> (self, False))"

text \<open>What \<open>on_connected\<close> sends to the peer for one request.\<close>

fun resend_to :: "baseboard \<Rightarrow> uuid \<times> trackable \<Rightarrow> lr_envelope list" where
  "resend_to peer_id (request_id, TrackInitRack _ packages acks) =
     (if bs_contains (ia_received acks) peer_id \<or> \<not> bs_contains (ia_expected acks) peer_id then []
      else (case bt_get packages peer_id of
              Some pkg \<Rightarrow> [request_to peer_id request_id (ReqInit pkg)]
            | None \<Rightarrow> []))"
| "resend_to peer_id (request_id, TrackLoadRackSecret rack_uuid acks) =
     (if bt_contains_key (sa_received acks) peer_id then []
      else [request_to peer_id request_id (ReqGetShare rack_uuid)])"
| "resend_to peer_id (request_id, TrackLearnReceived rack_uuid _ acks) =
     (if bt_contains_key (sa_received acks) peer_id then []
      else [request_to peer_id request_id (ReqGetShare rack_uuid)])"
| "resend_to peer_id (request_id, TrackLearnSent _) = []"

definition rqm_on_connected :: "request_manager \<Rightarrow> baseboard \<Rightarrow> request_manager" where
  "rqm_on_connected self peer_id = rqm_push self (concat (map (resend_to peer_id) (rqm_requests self)))"

section \<open>Deadlines\<close>

text \<open>The index of deadlines has each tracked request at most once, and no other.\<close>

definition rqm_ok :: "request_manager \<Rightarrow> bool" where
  "rqm_ok r \<longleftrightarrow>
     bt_ok (rqm_requests r) \<and> bt_ok (rqm_expiry_to_id r) \<and>
     distinct (bt_values (rqm_expiry_to_id r)) \<and>
     set (bt_values (rqm_expiry_to_id r)) \<subseteq> set (bt_keys (rqm_requests r))"

lemma rqm_ok_new [simp]: "rqm_ok (rqm_new me config uuids)"
  by (simp add: rqm_ok_def rqm_new_def bt_values_def)

lemma expired_loop_none:
  assumes "bt_ok ex" and "ex \<noteq> []" and "\<not> fst (last ex) < now"
  shows "rqm_expired_loop now ex requests expired = Done (ex, requests, expired)"
proof -
  obtain e i where last: "last ex = (e, i)" by fastforce
  then have ex: "ex = butlast ex @ [(e, i)]" using assms(2) by (metis append_butlast_last_id)
  then have "bt_ok (butlast ex @ [(e, i)])" using assms(1) by simp
  then have "\<forall>k\<in>set (map fst (butlast ex)). k < e" by (simp add: bt_ok_def sorted_wrt_append)
  from bt_insert_above [OF this, of i] ex have "bt_insert e i (butlast ex) = ex" by simp
  with assms last show ?thesis by (simp add: rqm_expired_loop.simps)
qed

lemma expired_loop_all:
  assumes "\<forall>e\<in>set (bt_keys ex). e < now" and "distinct (bt_values ex)"
    and "set (bt_values ex) \<subseteq> set (bt_keys requests)" and "bt_ok requests" and "bt_ok expired"
  shows "\<exists>requests' expired'. rqm_expired_loop now ex requests expired = Done ([], requests', expired') \<and>
    bt_ok requests' \<and> bt_ok expired' \<and>
    (\<forall>k. bt_get requests' k = (if k \<in> set (bt_values ex) then None else bt_get requests k)) \<and>
    (\<forall>k. bt_get expired' k = (if k \<in> set (bt_values ex) then bt_get requests k else bt_get expired k))"
  using assms
proof (induction ex arbitrary: requests expired rule: rev_induct)
  case (snoc x ex)
  obtain e i where x: "x = (e, i)" by fastforce
  have "i \<in> set (bt_keys requests)" using snoc.prems(3) x by (simp add: bt_values_def)
  then obtain request where req: "bt_get requests i = Some request"
    using bt_get_None [of requests i] by (cases "bt_get requests i") auto
  have vals: "bt_values (ex @ [x]) = bt_values ex @ [i]" "bt_keys (ex @ [x]) = bt_keys ex @ [e]"
    by (simp_all add: bt_values_def bt_keys_def x)
  have "set (bt_values ex) \<subseteq> set (bt_keys (bt_remove i requests))"
    using snoc.prems vals by auto
  with snoc.prems vals snoc.IH [of "bt_remove i requests" "bt_insert i request expired"]
  obtain requests' expired' where
    loop: "rqm_expired_loop now ex (bt_remove i requests) (bt_insert i request expired) = Done ([], requests', expired')"
    and ok: "bt_ok requests'" "bt_ok expired'"
    and get: "\<forall>k. bt_get requests' k = (if k \<in> set (bt_values ex) then None else bt_get (bt_remove i requests) k)"
      "\<forall>k. bt_get expired' k =
        (if k \<in> set (bt_values ex) then bt_get (bt_remove i requests) k else bt_get (bt_insert i request expired) k)"
    by auto
  have "rqm_expired_loop now (ex @ [x]) requests expired = Done ([], requests', expired')"
    using loop snoc.prems(1) vals req unfolding x by (subst rqm_expired_loop.simps) simp
  moreover have "i \<notin> set (bt_values ex)" using snoc.prems(2) vals by simp
  ultimately show ?case
    using ok get vals req by (intro exI [of _ requests'] exI [of _ expired']) (auto simp: bt_get_remove bt_get_insert)
qed (simp add: rqm_expired_loop.simps bt_values_def)

lemma bt_ok_last_greatest: "bt_ok m \<Longrightarrow> m \<noteq> [] \<Longrightarrow> k \<in> set (bt_keys m) \<Longrightarrow> k \<le> fst (last m)"
  by (cases m rule: rev_cases) (auto simp: bt_ok_def bt_keys_def sorted_wrt_append less_imp_le)

lemma rqm_expired_eq:
  assumes "rqm_ok r"
  shows "if \<exists>e\<in>set (bt_keys (rqm_expiry_to_id r)). now \<le> e then rqm_expired r now = Done (r, [])
    else \<exists>requests expired. rqm_expired r now = Done (r\<lparr>rqm_expiry_to_id := [], rqm_requests := requests\<rparr>, expired) \<and>
      bt_ok requests \<and> bt_ok expired \<and>
      (\<forall>k. bt_get requests k =
         (if k \<in> set (bt_values (rqm_expiry_to_id r)) then None else bt_get (rqm_requests r) k)) \<and>
      (\<forall>k. bt_get expired k =
         (if k \<in> set (bt_values (rqm_expiry_to_id r)) then bt_get (rqm_requests r) k else None))"
proof (cases "\<exists>e\<in>set (bt_keys (rqm_expiry_to_id r)). now \<le> e")
  case True
  let ?ex = "rqm_expiry_to_id r"
  have ok: "bt_ok ?ex" using assms by (simp add: rqm_ok_def)
  from True obtain e where "e \<in> set (bt_keys ?ex)" "now \<le> e" by blast
  moreover from this have "?ex \<noteq> []" by (auto simp: bt_keys_def)
  ultimately have "\<not> fst (last ?ex) < now" using bt_ok_last_greatest [OF ok] by fastforce
  from expired_loop_none [OF ok \<open>?ex \<noteq> []\<close> this] True show ?thesis by (simp add: rqm_expired_def)
next
  case False
  with expired_loop_all [of "rqm_expiry_to_id r" now "rqm_requests r" "[]"] assms
  obtain requests expired where
    "rqm_expired_loop now (rqm_expiry_to_id r) (rqm_requests r) [] = Done ([], requests, expired)"
    "bt_ok requests" "bt_ok expired"
    "\<forall>k. bt_get requests k = (if k \<in> set (bt_values (rqm_expiry_to_id r)) then None else bt_get (rqm_requests r) k)"
    "\<forall>k. bt_get expired k = (if k \<in> set (bt_values (rqm_expiry_to_id r)) then bt_get (rqm_requests r) k else None)"
    by (auto simp: rqm_ok_def not_le)
  with False show ?thesis
    by (subst if_not_P, blast) (intro exI [of _ requests] exI [of _ expired], simp add: rqm_expired_def)
qed

text \<open>
  \<open>expired\<close> reports all requests that have a deadline or none of them: it starts with the
  latest deadline, so as long as a single deadline is not over, a request whose own
  deadline passed long ago is neither reported nor removed.
\<close>

theorem expired_all_or_nothing:
  assumes "rqm_ok r"
  shows "if \<exists>e\<in>set (bt_keys (rqm_expiry_to_id r)). now \<le> e then rqm_expired r now = Done (r, [])
    else \<exists>requests expired. rqm_expired r now = Done (r\<lparr>rqm_expiry_to_id := [], rqm_requests := requests\<rparr>, expired) \<and>
      bt_ok requests \<and> bt_ok expired \<and>
      (\<forall>k. bt_get requests k =
         (if k \<in> set (bt_values (rqm_expiry_to_id r)) then None else bt_get (rqm_requests r) k)) \<and>
      (\<forall>k. bt_get expired k =
         (if k \<in> set (bt_values (rqm_expiry_to_id r)) then bt_get (rqm_requests r) k else None))"
  by (rule rqm_expired_eq [OF assms])

definition lrtq_config :: fsm_config where
  "lrtq_config = \<lparr>fc_learn_timeout = 5, fc_rack_init_timeout = 300, fc_rack_secret_request_timeout = 5\<rparr>"

text \<open>Two loads, at times 0 and 100: the first is overdue at time 50, and is not reported.\<close>

definition two_loads :: request_manager where
  "two_loads = \<lparr>rqm_id = Pc ''a'' ''1'', rqm_config = lrtq_config,
     rqm_requests = [([1], TrackLoadRackSecret [9] (share_acks_new 3)), ([2], TrackLoadRackSecret [9] (share_acks_new 3))],
     rqm_expiry_to_id = [(5, [1]), (105, [2])], rqm_envelopes = [], rqm_uuids = (\<lambda>_. [])\<rparr>"

theorem expired_all_or_nothing_witness:
  "rqm_ok two_loads \<and> bt_get (rqm_expiry_to_id two_loads) 5 = Some [1] \<and> rqm_expired two_loads 50 = Done (two_loads, [])"
proof -
  have ok: "rqm_ok two_loads" by (simp add: rqm_ok_def two_loads_def bt_ok_def bt_values_def bt_keys_def)
  from expired_all_or_nothing [OF ok, of 50] ok show ?thesis
    by (simp add: two_loads_def bt_keys_def bt_get_def)
qed

section \<open>Tracking\<close>

lemma set_bt_values_insert: "set (bt_values (bt_insert k v m)) \<subseteq> insert v (set (bt_values m))"
  by (induction k v m rule: bt_insert.induct) (auto simp: bt_values_def)

lemma distinct_bt_values_insert:
  "distinct (bt_values m) \<Longrightarrow> v \<notin> set (bt_values m) \<Longrightarrow> distinct (bt_values (bt_insert k v m))"
proof (induction k v m rule: bt_insert.induct)
  case (2 k v k' v' m)
  then show ?case using set_bt_values_insert [of k v m] by (auto simp: bt_values_def)
qed (simp add: bt_values_def)

lemma rqm_track_ok:
  assumes "rqm_ok r" and "rid \<notin> set (bt_keys (rqm_requests r))"
  shows "rqm_ok (rqm_track r expiry rid request)"
proof -
  have "rid \<notin> set (bt_values (rqm_expiry_to_id r))" using assms by (auto simp: rqm_ok_def)
  with assms set_bt_values_insert [of expiry rid "rqm_expiry_to_id r"] show ?thesis
    by (auto simp: rqm_ok_def rqm_track_def distinct_bt_values_insert)
qed

lemma rqm_update_ok: "rqm_ok r \<Longrightarrow> rqm_ok (r\<lparr>rqm_requests := bt_insert k v (rqm_requests r)\<rparr>)"
  by (auto simp: rqm_ok_def)

lemma rqm_push_ok [simp]: "rqm_ok (rqm_push r es) = rqm_ok r"
  by (simp add: rqm_ok_def rqm_push_def)

lemma rqm_uuids_ok [simp]: "rqm_ok (r\<lparr>rqm_uuids := us\<rparr>) = rqm_ok r"
  by (simp add: rqm_ok_def)

lemma rqm_remove_ok:
  assumes "rqm_ok r"
  shows "rqm_ok (fst (rqm_remove_request r rid))"
proof -
  have "distinct (bt_values (bt_retain (\<lambda>_ i. i \<noteq> rid) (rqm_expiry_to_id r)))"
    using assms by (simp add: rqm_ok_def bt_values_def bt_retain_def distinct_map_filter)
  moreover have "bt_ok (bt_retain (\<lambda>_ i. i \<noteq> rid) (rqm_expiry_to_id r))"
    using assms by (simp add: rqm_ok_def bt_ok_def bt_retain_def sorted_wrt_map sorted_wrt_filter)
  ultimately show ?thesis
    using assms by (auto simp: rqm_ok_def rqm_remove_request_def bt_values_def bt_retain_def)
qed

end
