(* ===== verification/Bootstore_Fsm.thy ===== *)
theory Bootstore_Fsm
  imports Bootstore_Requests
begin

text \<open>
  The state machine of LRTQ (\<^verbatim>\<open>bootstore/src/schemes/v0/fsm.rs\<close>): initialization of the
  rack, loading of the rack secret, and learning of a share by sleds that join later.
\<close>

section \<open>Definitions\<close>

datatype fsm_state =
  Uninitialized
| InitialMember share_pkg "(baseboard, nat) btree_map"
| Learning
| Learned learned_share_pkg

fun fsm_state_name :: "fsm_state \<Rightarrow> string" where
  "fsm_state_name Uninitialized = ''uninitialized''"
| "fsm_state_name (InitialMember _ _) = ''initial_member''"
| "fsm_state_name Learning = ''learning''"
| "fsm_state_name (Learned _) = ''learned''"

text \<open>The package part of a state that has a share.\<close>

fun state_common :: "fsm_state \<Rightarrow> lrtq_share_data option" where
  "state_common (InitialMember pkg _) = Some (sp_common pkg)"
| "state_common (Learned pkg) = Some (lp_common pkg)"
| "state_common _ = None"

datatype api_output =
  PeerInitialized
| RackInitComplete
| RackSecretOutput uuid "u8 list"
| ShareDistributedToLearner
| LearningCompleted

datatype api_error =
  ApiAlreadyInitialized
| ApiNotInitialized
| ApiStillLearning
| RackInitTimeout "baseboard list"
| RackInitFailed trust_quorum_error
| RackSecretLoadTimeout
| InvalidShare baseboard
| FailedToReconstructRackSecret
| FailedToDecryptExtraShares
| UnexpectedResponse baseboard string uuid string
| ErrorResponseReceived baseboard string uuid msg_error

record fsm =
  fsm_state :: fsm_state
  fsm_id :: baseboard
  fsm_config :: fsm_config
  fsm_connected_peers :: "baseboard btree_set"
  fsm_request_manager :: request_manager
  fsm_responses :: "lr_envelope list"
  fsm_rack_init_error :: "(uuid \<times> api_error) option"

definition fsm_new :: "baseboard \<Rightarrow> fsm_config \<Rightarrow> fsm_state \<Rightarrow> (nat \<Rightarrow> uuid) \<Rightarrow> fsm" where
  "fsm_new me config state uuids =
     \<lparr>fsm_state = state, fsm_id = me, fsm_config = config, fsm_connected_peers = [],
      fsm_request_manager = rqm_new me config uuids, fsm_responses = [], fsm_rack_init_error = None\<rparr>"

definition fsm_new_uninitialized :: "baseboard \<Rightarrow> fsm_config \<Rightarrow> (nat \<Rightarrow> uuid) \<Rightarrow> fsm" where
  "fsm_new_uninitialized me config uuids = fsm_new me config Uninitialized uuids"

definition fsm_drain_envelopes :: "fsm \<Rightarrow> lr_envelope list \<times> fsm" where
  "fsm_drain_envelopes self =
     (let (envelopes, rm) = rqm_drain (fsm_request_manager self)
      in (fsm_responses self @ envelopes, self\<lparr>fsm_responses := [], fsm_request_manager := rm\<rparr>))"

definition fsm_push_response :: "fsm \<Rightarrow> baseboard \<Rightarrow> uuid \<Rightarrow> response_type \<Rightarrow> fsm" where
  "fsm_push_response self to request_id type =
     self\<lparr>fsm_responses := fsm_responses self @ [response_to to request_id type]\<rparr>"

definition fsm_rack_init_failed :: "fsm \<Rightarrow> bool" where
  "fsm_rack_init_failed self = (fsm_rack_init_error self \<noteq> None)"

definition fsm_check_init_err :: "fsm \<Rightarrow> (unit, api_error) rust_result" where
  "fsm_check_init_err self = (case fsm_rack_init_error self of Some (_, err) \<Rightarrow> Err err | None \<Rightarrow> Ok ())"

definition fsm_init_rack ::
  "crypto_env \<Rightarrow> vsss_env \<Rightarrow> rng \<Rightarrow> fsm \<Rightarrow> instant \<Rightarrow> uuid \<Rightarrow> baseboard btree_set \<Rightarrow>
   (fsm \<times> (unit, api_error) rust_result) outcome" where
  "fsm_init_rack E V rng self now rack_uuid initial_membership =
     (case fsm_check_init_err self of
        Inl e \<Rightarrow> Done (self, Err e)
      | Inr _ \<Rightarrow>
          (if fsm_state self \<noteq> Uninitialized then Done (self, Err ApiAlreadyInitialized)
           else obind (create_pkgs E V rack_uuid initial_membership rng) (\<lambda>r.
             case r of
               Inl e \<Rightarrow> Done (self, Err (RackInitFailed e))
             | Inr (pkgs, _) \<Rightarrow>
                 (case pkgs of
                    [] \<Rightarrow> Panic ''called `Option::unwrap()` on a `None` value''
                  | our_pkg # iter \<Rightarrow>
                      (let self = self\<lparr>fsm_state := InitialMember our_pkg []\<rparr>;
                           packages = zip (filter (\<lambda>peer. peer \<noteq> fsm_id self) initial_membership) iter;
                           (rm, _) = rqm_new_init_rack_req (fsm_request_manager self) now rack_uuid packages
                                       (fsm_connected_peers self)
                       in Done (self\<lparr>fsm_request_manager := rm\<rparr>, Ok ()))))))"

definition fsm_is_rack_initializing :: "fsm \<Rightarrow> bool" where
  "fsm_is_rack_initializing self = rqm_has_init_rack_req (fsm_request_manager self)"

definition fsm_init_learner :: "fsm \<Rightarrow> instant \<Rightarrow> fsm \<times> (unit, api_error) rust_result" where
  "fsm_init_learner self now =
     (case fsm_check_init_err self of
        Inl e \<Rightarrow> (self, Err e)
      | Inr _ \<Rightarrow>
          (if fsm_state self \<noteq> Uninitialized then (self, Err ApiAlreadyInitialized)
           else
             (let self = (case fsm_connected_peers self of
                            to # _ \<Rightarrow> self\<lparr>fsm_request_manager :=
                              fst (rqm_new_learn_sent_req (fsm_request_manager self) now to)\<rparr>
                          | [] \<Rightarrow> self)
              in (self\<lparr>fsm_state := Learning\<rparr>, Ok ()))))"

definition fsm_load_rack_secret :: "fsm \<Rightarrow> instant \<Rightarrow> fsm \<times> (uuid, api_error) rust_result" where
  "fsm_load_rack_secret self now =
     (case fsm_check_init_err self of
        Inl e \<Rightarrow> (self, Err e)
      | Inr _ \<Rightarrow>
          (let load = (\<lambda>pkg.
                 let (rm, request_id) = rqm_new_load_rack_secret_req (fsm_request_manager self) now
                       (lsd_rack_uuid pkg) (lsd_threshold pkg) (fsm_connected_peers self)
                 in (self\<lparr>fsm_request_manager := rm\<rparr>, Ok request_id)) in
           case fsm_state self of
             Uninitialized \<Rightarrow> (self, Err ApiNotInitialized)
           | Learning \<Rightarrow> (self, Err ApiStillLearning)
           | InitialMember pkg _ \<Rightarrow> load (sp_common pkg)
           | Learned pkg \<Rightarrow> load (lp_common pkg)))"

text \<open>The next peer of a learner, in turn.\<close>

definition next_peer :: "baseboard btree_set \<Rightarrow> baseboard \<Rightarrow> baseboard option" where
  "next_peer connected_peers current =
     (let iter = filter (\<lambda>p. current \<le> p) connected_peers;
          matched = (case iter of p # _ \<Rightarrow> p = current | [] \<Rightarrow> False);
          second = (case iter of _ # p # _ \<Rightarrow> Some p | _ \<Rightarrow> None) in
      case (if matched then second else None) of
        Some p \<Rightarrow> Some p
      | None \<Rightarrow> (case connected_peers of p # _ \<Rightarrow> Some p | [] \<Rightarrow> None))"

text \<open>What \<open>tick\<close> does for one expired request.\<close>

definition fsm_expire ::
  "instant \<Rightarrow> fsm \<times> (uuid, api_error) btree_map \<Rightarrow> uuid \<times> trackable \<Rightarrow> fsm \<times> (uuid, api_error) btree_map" where
  "fsm_expire now = (\<lambda>(self, errors) (req_id, req).
     case req of
       TrackInitRack _ _ acks \<Rightarrow>
         (let unacked_peers = filter (\<lambda>p. \<not> bs_contains (ia_received acks) p) (ia_expected acks);
              err = RackInitTimeout unacked_peers
          in (self\<lparr>fsm_rack_init_error := Some (req_id, err)\<rparr>, bt_insert req_id err errors))
     | TrackLoadRackSecret _ _ \<Rightarrow> (self, bt_insert req_id RackSecretLoadTimeout errors)
     | TrackLearnReceived _ _ _ \<Rightarrow> (self, errors)
     | TrackLearnSent to \<Rightarrow>
         (if fsm_state self = Learning then
            (case next_peer (fsm_connected_peers self) to of
               Some peer \<Rightarrow>
                 (self\<lparr>fsm_request_manager := fst (rqm_new_learn_sent_req (fsm_request_manager self) now peer)\<rparr>, errors)
             | None \<Rightarrow> (self, errors))
          else (self, errors)))"

definition fsm_tick :: "fsm \<Rightarrow> instant \<Rightarrow> (fsm \<times> (unit, (uuid, api_error) btree_map) rust_result) outcome" where
  "fsm_tick self now =
     (if fsm_state self = Uninitialized then Done (self, Ok ())
      else (case fsm_rack_init_error self of
              Some (request_id, err) \<Rightarrow> Done (self, Err [(request_id, err)])
            | None \<Rightarrow>
                obind (rqm_expired (fsm_request_manager self) now) (\<lambda>(rm, expired).
                  let (self, errors) = foldl (fsm_expire now) (self\<lparr>fsm_request_manager := rm\<rparr>, []) expired
                  in Done (self, if errors = [] then Ok () else Err errors))))"

definition fsm_on_connected :: "fsm \<Rightarrow> instant \<Rightarrow> baseboard \<Rightarrow> fsm \<times> (unit, api_error) rust_result" where
  "fsm_on_connected self now peer_id =
     (case fsm_check_init_err self of
        Inl e \<Rightarrow> (self, Err e)
      | Inr _ \<Rightarrow>
          (let rm = fsm_request_manager self;
               rm = (if fsm_state self = Learning \<and> \<not> rqm_has_learn_sent_req rm
                     then fst (rqm_new_learn_sent_req rm now peer_id) else rm);
               rm = rqm_on_connected rm peer_id
           in (self\<lparr>fsm_request_manager := rm,
                    fsm_connected_peers := bs_insert peer_id (fsm_connected_peers self)\<rparr>, Ok ())))"

definition fsm_on_disconnected :: "fsm \<Rightarrow> baseboard \<Rightarrow> fsm" where
  "fsm_on_disconnected self peer_id =
     self\<lparr>fsm_connected_peers := bs_remove peer_id (fsm_connected_peers self)\<rparr>"

type_synonym handled = "(api_output option, api_error) rust_result"

definition fsm_on_init :: "fsm \<Rightarrow> baseboard \<Rightarrow> uuid \<Rightarrow> share_pkg \<Rightarrow> fsm \<times> handled" where
  "fsm_on_init self from request_id new_pkg =
     (case fsm_state self of
        Uninitialized \<Rightarrow>
          (fsm_push_response (self\<lparr>fsm_state := InitialMember new_pkg []\<rparr>) from request_id InitAck,
           Ok (Some PeerInitialized))
      | InitialMember pkg _ \<Rightarrow>
          (if pkg = new_pkg then fsm_push_response self from request_id InitAck
           else fsm_push_response self from request_id (RspError MsgAlreadyInitialized), Ok None)
      | _ \<Rightarrow> (fsm_push_response self from request_id (RspError MsgAlreadyInitialized), Ok None))"

definition fsm_on_get_share :: "fsm \<Rightarrow> baseboard \<Rightarrow> uuid \<Rightarrow> uuid \<Rightarrow> fsm" where
  "fsm_on_get_share self from request_id rack_uuid =
     (let answer = (\<lambda>common.
            if rack_uuid \<noteq> lsd_rack_uuid common
            then RspError (MsgRackUuidMismatch (lsd_rack_uuid common) rack_uuid)
            else RspShare (lsd_share common));
          response = (case fsm_state self of
                        Uninitialized \<Rightarrow> RspError MsgNotInitialized
                      | Learning \<Rightarrow> RspError MsgStillLearning
                      | Learned pkg \<Rightarrow> answer (lp_common pkg)
                      | InitialMember pkg _ \<Rightarrow> answer (sp_common pkg))
      in fsm_push_response self from request_id response)"

definition fsm_on_learn :: "fsm \<Rightarrow> instant \<Rightarrow> baseboard \<Rightarrow> uuid \<Rightarrow> fsm" where
  "fsm_on_learn self now from request_id =
     (case fsm_state self of
        Uninitialized \<Rightarrow> fsm_push_response self from request_id (RspError MsgNotInitialized)
      | Learning \<Rightarrow> fsm_push_response self from request_id (RspError MsgStillLearning)
      | Learned _ \<Rightarrow> fsm_push_response self from request_id (RspError MsgCannotSpareAShare)
      | InitialMember pkg _ \<Rightarrow>
          self\<lparr>fsm_request_manager :=
            rqm_new_learn_received_req (fsm_request_manager self) request_id now (lsd_rack_uuid (sp_common pkg))
              (lsd_threshold (sp_common pkg)) from (fsm_connected_peers self)\<rparr>)"

definition fsm_handle_request :: "fsm \<Rightarrow> instant \<Rightarrow> baseboard \<Rightarrow> lr_request \<Rightarrow> fsm \<times> handled" where
  "fsm_handle_request self now from req =
     (case lrq_type req of
        ReqInit pkg \<Rightarrow> fsm_on_init self from (lrq_id req) pkg
      | ReqGetShare rack_uuid \<Rightarrow> (fsm_on_get_share self from (lrq_id req) rack_uuid, Ok None)
      | ReqLearn \<Rightarrow> (fsm_on_learn self now from (lrq_id req), Ok None))"

definition fsm_on_init_ack :: "fsm \<Rightarrow> baseboard \<Rightarrow> uuid \<Rightarrow> fsm \<times> handled" where
  "fsm_on_init_ack self from request_id =
     (let (rm, r) = rqm_on_init_ack (fsm_request_manager self) from request_id;
          self = self\<lparr>fsm_request_manager := rm\<rparr>
      in (self, case r of
                  Some True \<Rightarrow> Ok (Some RackInitComplete)
                | Some False \<Rightarrow> Ok None
                | None \<Rightarrow> Err (UnexpectedResponse from (fsm_state_name (fsm_state self)) request_id ''InitAck'')))"

definition fsm_on_learn_pkg :: "fsm \<Rightarrow> baseboard \<Rightarrow> uuid \<Rightarrow> learned_share_pkg \<Rightarrow> (fsm \<times> handled) outcome" where
  "fsm_on_learn_pkg self from request_id pkg =
     (let (rm, matched) = rqm_on_learn_pkg (fsm_request_manager self) request_id;
          self = self\<lparr>fsm_request_manager := rm\<rparr> in
      if matched then
        obind (assert_that ''self.state == State::Learning'' (fsm_state self = Learning)) (\<lambda>_.
          Done (self\<lparr>fsm_state := Learned pkg\<rparr>, Ok (Some LearningCompleted)))
      else if fsm_state self = Learning then Done (self, Ok None)
      else Done (self, Err (UnexpectedResponse from (fsm_state_name (fsm_state self)) request_id ''Pkg'')))"

definition lr_combine_shares :: "crypto_env \<Rightarrow> u8 list \<Rightarrow> share_acks \<Rightarrow> (u8 list, api_error) rust_result" where
  "lr_combine_shares E my_share acks =
     (case lrtq_combine E (bt_values (sa_received acks) @ [my_share]) of
        Some secret \<Rightarrow> Ok secret
      | None \<Rightarrow> Err FailedToReconstructRackSecret)"

definition lr_validate_share ::
  "crypto_env \<Rightarrow> baseboard \<Rightarrow> u8 list \<Rightarrow> sha3_256_digest btree_set \<Rightarrow> (unit, api_error) rust_result" where
  "lr_validate_share E from share share_digests =
     (if \<not> bs_contains share_digests (sha3_256 E share) then Err (InvalidShare from) else Ok ())"


definition queue_pkg_response :: "fsm \<Rightarrow> baseboard \<Rightarrow> uuid \<Rightarrow> share_pkg \<Rightarrow> u8 list \<Rightarrow> fsm" where
  "queue_pkg_response self from request_id pkg share =
     self\<lparr>fsm_responses := fsm_responses self @
       [response_to from request_id
          (LearnPkg \<lparr>lp_common = \<lparr>lsd_rack_uuid = lsd_rack_uuid (sp_common pkg), lsd_epoch = lsd_epoch (sp_common pkg),
             lsd_threshold = lsd_threshold (sp_common pkg), lsd_share = share,
             lsd_share_digests = lsd_share_digests (sp_common pkg)\<rparr>\<rparr>)]\<rparr>"

definition decrypt_and_send_share_response ::
  "crypto_env \<Rightarrow> fsm \<Rightarrow> baseboard \<Rightarrow> uuid \<Rightarrow> share_pkg \<Rightarrow> (baseboard, nat) btree_map \<Rightarrow> u8 list \<Rightarrow>
   (fsm \<times> handled) outcome" where
  "decrypt_and_send_share_response E self from request_id pkg distributed_shares rack_secret =
     obind (pkg_decrypt_shares E pkg rack_secret) (\<lambda>r.
       case r of
         Inl _ \<Rightarrow> Done (self, Err FailedToDecryptExtraShares)
       | Inr shares \<Rightarrow>
           (case bt_get distributed_shares from of
              Some idx \<Rightarrow>
                (if idx < length shares
                 then Done (queue_pkg_response self from request_id pkg (shares ! idx), Ok None)
                 else Panic ''index out of bounds'')
            | None \<Rightarrow>
                (let idx = (if distributed_shares = [] then 0 else Max (set (bt_values distributed_shares)) + 1) in
                 if idx < length shares then
                   Done (queue_pkg_response
                           (self\<lparr>fsm_state := InitialMember pkg (bt_insert from idx distributed_shares)\<rparr>)
                           from request_id pkg (shares ! idx),
                         Ok (Some ShareDistributedToLearner))
                 else Done (fsm_push_response self from request_id (RspError MsgCannotSpareAShare), Ok None))))"

definition fsm_on_share :: "crypto_env \<Rightarrow> fsm \<Rightarrow> baseboard \<Rightarrow> uuid \<Rightarrow> u8 list \<Rightarrow> (fsm \<times> handled) outcome" where
  "fsm_on_share E self from request_id share =
     (let unexpected = Done (self, Err (UnexpectedResponse from (fsm_state_name (fsm_state self)) request_id ''Share''));
          (rm, completed) = rqm_on_share (fsm_request_manager self) from request_id share;
          acked = self\<lparr>fsm_request_manager := rm\<rparr>;
          load = (\<lambda>common acks.
            case lr_combine_shares E (lsd_share common) acks of
              Inl e \<Rightarrow> Done (acked, Err e)
            | Inr secret \<Rightarrow> Done (acked, Ok (Some (RackSecretOutput request_id secret)))) in
      case fsm_state self of
        Uninitialized \<Rightarrow> unexpected
      | Learning \<Rightarrow> unexpected
      | InitialMember pkg distributed_shares \<Rightarrow>
          (case lr_validate_share E from share (lsd_share_digests (sp_common pkg)) of
             Inl e \<Rightarrow> Done (self, Err e)
           | Inr _ \<Rightarrow>
               (case completed of
                  Some (TrackLoadRackSecret _ acks) \<Rightarrow> load (sp_common pkg) acks
                | Some (TrackLearnReceived _ learner acks) \<Rightarrow>
                    (case lr_combine_shares E (lsd_share (sp_common pkg)) acks of
                       Inl e \<Rightarrow> Done (acked, Err e)
                     | Inr rack_secret \<Rightarrow>
                         decrypt_and_send_share_response E acked learner request_id pkg distributed_shares rack_secret)
                | _ \<Rightarrow> Done (acked, Ok None)))
      | Learned pkg \<Rightarrow>
          (case lr_validate_share E from share (lsd_share_digests (lp_common pkg)) of
             Inl e \<Rightarrow> Done (self, Err e)
           | Inr _ \<Rightarrow>
               (case completed of
                  Some (TrackLoadRackSecret _ acks) \<Rightarrow> load (lp_common pkg) acks
                | Some (TrackLearnReceived _ _ _) \<Rightarrow>
                    Panic ''Invariant violation: Learned members must not accept 'Learn' requests''
                | _ \<Rightarrow> Done (acked, Ok None))))"

definition fsm_handle_response :: "crypto_env \<Rightarrow> fsm \<Rightarrow> baseboard \<Rightarrow> lr_response \<Rightarrow> (fsm \<times> handled) outcome" where
  "fsm_handle_response E self from rsp =
     (case lrs_type rsp of
        InitAck \<Rightarrow> Done (fsm_on_init_ack self from (lrs_request_id rsp))
      | RspShare share \<Rightarrow> fsm_on_share E self from (lrs_request_id rsp) share
      | LearnPkg pkg \<Rightarrow> fsm_on_learn_pkg self from (lrs_request_id rsp) pkg
      | RspError error \<Rightarrow>
          Done (self, Err (ErrorResponseReceived from (fsm_state_name (fsm_state self)) (lrs_request_id rsp) error)))"

definition fsm_handle_msg ::
  "crypto_env \<Rightarrow> fsm \<Rightarrow> instant \<Rightarrow> baseboard \<Rightarrow> lr_msg \<Rightarrow> (fsm \<times> handled) outcome" where
  "fsm_handle_msg E self now from msg =
     (case fsm_check_init_err self of
        Inl e \<Rightarrow> Done (self, Err e)
      | Inr _ \<Rightarrow>
          (case msg of
             Req req \<Rightarrow> Done (fsm_handle_request self now from req)
           | Rsp rsp \<Rightarrow> fsm_handle_response E self from rsp))"

end
