(* ===== verification/Bootstore_Fsm_Safety.thy ===== *)
theory Bootstore_Fsm_Safety
  imports Bootstore_Fsm
begin

text \<open>
  What holds in every state that the LRTQ state machine can reach: which requests it can have
  in flight, that the index of deadlines agrees with them, which of its extra shares are
  handed out; hence that no call panics.
\<close>

section \<open>Requests in flight\<close>

text \<open>The random ids to come differ from each other and from those in use.\<close>

definition uuids_fresh :: "request_manager \<Rightarrow> bool" where
  "uuids_fresh r \<longleftrightarrow> inj (rqm_uuids r) \<and> (\<forall>i. rqm_uuids r i \<notin> set (bt_keys (rqm_requests r)))"

text \<open>A manager whose requests all satisfy \<open>P\<close>.\<close>

definition rqm_inv :: "(trackable \<Rightarrow> bool) \<Rightarrow> request_manager \<Rightarrow> bool" where
  "rqm_inv P r \<longleftrightarrow> rqm_ok r \<and> uuids_fresh r \<and> (\<forall>t\<in>set (bt_values (rqm_requests r)). P t)"

lemma bt_values_get:
  "bt_ok m \<Longrightarrow> set (bt_values m) = {v. \<exists>k. bt_get m k = Some v}"
  by (auto simp: bt_values_def intro: rev_image_eqI [OF bt_get_in_set]) (metis bt_get_of_set)

lemma rqm_inv_get: "rqm_inv P r \<Longrightarrow> bt_get (rqm_requests r) k = Some t \<Longrightarrow> P t"
  by (force simp: rqm_inv_def rqm_ok_def bt_values_get)

lemma rqm_inv_mono: "rqm_inv P r \<Longrightarrow> (\<And>t. P t \<Longrightarrow> Q t) \<Longrightarrow> rqm_inv Q r"
  by (auto simp: rqm_inv_def)

lemma rqm_inv_new: "inj uuids \<Longrightarrow> rqm_inv P (rqm_new me config uuids)"
  by (simp add: rqm_inv_def uuids_fresh_def) (simp add: rqm_new_def bt_values_def bt_keys_def)

lemma rqm_inv_push [simp]: "rqm_inv P (rqm_push r es) = rqm_inv P r"
  by (simp add: rqm_inv_def uuids_fresh_def) (simp add: rqm_push_def)

lemma rqm_inv_drain: "rqm_inv P r \<Longrightarrow> rqm_inv P (snd (rqm_drain r))"
  by (simp add: rqm_drain_def rqm_inv_def uuids_fresh_def rqm_ok_def)

lemma rqm_inv_track:
  assumes "rqm_inv P r" and "P t" and "rid \<notin> set (bt_keys (rqm_requests r))" and "rid \<notin> range (rqm_uuids r)"
  shows "rqm_inv P (rqm_track r expiry rid t)"
proof -
  have "rqm_ok (rqm_track r expiry rid t)" using assms by (intro rqm_track_ok) (simp_all add: rqm_inv_def)
  moreover have "\<forall>u\<in>set (bt_values (bt_insert rid t (rqm_requests r))). P u"
    using assms set_bt_values_insert [of rid t "rqm_requests r"] by (auto simp: rqm_inv_def)
  moreover have "uuids_fresh (rqm_track r expiry rid t)"
    using assms by (auto simp: rqm_inv_def uuids_fresh_def rqm_track_def)
  ultimately show ?thesis by (simp add: rqm_inv_def) (simp add: rqm_track_def)
qed

lemma rqm_inv_next:
  assumes "rqm_inv P r"
  defines "r' \<equiv> r\<lparr>rqm_uuids := (\<lambda>i. rqm_uuids r (Suc i))\<rparr>"
  shows "rqm_inv P r'" and "rqm_uuids r 0 \<notin> set (bt_keys (rqm_requests r'))"
    and "rqm_uuids r 0 \<notin> range (rqm_uuids r')"
  using assms by (auto simp: rqm_inv_def uuids_fresh_def rqm_ok_def inj_def)

lemma rqm_inv_new_request:
  "rqm_inv P r \<Longrightarrow> P t \<Longrightarrow> rqm_inv P (fst (rqm_new_request r expiry t))"
  using rqm_inv_track [OF rqm_inv_next(1) _ rqm_inv_next(2,3)] by (simp add: rqm_new_request_def Let_def)

lemma rqm_requests_new_request:
  "rqm_inv P r \<Longrightarrow> length (rqm_requests (fst (rqm_new_request r expiry t))) = Suc (length (rqm_requests r))"
  by (simp add: rqm_new_request_def rqm_track_def rqm_inv_def uuids_fresh_def bt_insert_length bt_contains_keys Let_def)

lemmas rqm_req_defs = rqm_new_init_rack_req_def rqm_new_load_rack_secret_req_def rqm_new_learn_sent_req_def
  rqm_new_learn_received_req_def rqm_broadcast_get_share_def

lemma rqm_inv_reqs:
  assumes "rqm_inv P r"
  shows "(\<And>acks. P (TrackInitRack rack_uuid packages acks)) \<Longrightarrow>
      rqm_inv P (fst (rqm_new_init_rack_req r now rack_uuid packages peers))"
    and "P (TrackLoadRackSecret rack_uuid (share_acks_new threshold)) \<Longrightarrow>
      rqm_inv P (fst (rqm_new_load_rack_secret_req r now rack_uuid threshold peers))"
    and "P (TrackLearnSent to) \<Longrightarrow> rqm_inv P (fst (rqm_new_learn_sent_req r now to))"
    and "P (TrackLearnReceived rack_uuid from (share_acks_new threshold)) \<Longrightarrow>
      rid \<notin> set (bt_keys (rqm_requests r)) \<Longrightarrow> rid \<notin> range (rqm_uuids r) \<Longrightarrow>
      rqm_inv P (rqm_new_learn_received_req r rid now rack_uuid threshold from peers)"
  using assms rqm_inv_new_request [OF assms]
  by (simp_all add: rqm_req_defs Let_def case_prod_beta rqm_inv_track)

lemma rqm_inv_update:
  assumes "rqm_inv P r" and "P t" and "k \<in> set (bt_keys (rqm_requests r))"
  shows "rqm_inv P (r\<lparr>rqm_requests := bt_insert k t (rqm_requests r)\<rparr>)"
proof -
  have "rqm_ok (r\<lparr>rqm_requests := bt_insert k t (rqm_requests r)\<rparr>)"
    using assms(1) by (intro rqm_update_ok) (simp add: rqm_inv_def)
  moreover have "\<forall>u\<in>set (bt_values (bt_insert k t (rqm_requests r))). P u"
    using assms set_bt_values_insert [of k t "rqm_requests r"] by (auto simp: rqm_inv_def)
  ultimately show ?thesis using assms by (auto simp: rqm_inv_def uuids_fresh_def)
qed

lemma rqm_inv_remove:
  assumes "rqm_inv P r"
  shows "rqm_inv P (fst (rqm_remove_request r rid))"
proof -
  have "rqm_ok (fst (rqm_remove_request r rid))" using assms by (intro rqm_remove_ok) (simp add: rqm_inv_def)
  with assms show ?thesis
    by (auto simp: rqm_inv_def uuids_fresh_def rqm_remove_request_def bt_values_def bt_remove_def bt_keys_def)
qed

section \<open>Answers\<close>

lemma rqm_on_init_ack_inv:
  assumes "rqm_inv P r" and "\<And>u p a a'. P (TrackInitRack u p a) \<Longrightarrow> P (TrackInitRack u p a')"
  shows "rqm_inv P (fst (rqm_on_init_ack r from rid))"
proof (cases "bt_get (rqm_requests r) rid")
  case (Some t)
  show ?thesis
  proof (cases t)
    case (TrackInitRack u p a)
    let ?t = "TrackInitRack u p (a\<lparr>ia_received := bs_insert from (ia_received a)\<rparr>)"
    have "P ?t" using assms(2) rqm_inv_get [OF assms(1) Some] TrackInitRack by blast
    then have "rqm_inv P (r\<lparr>rqm_requests := bt_insert rid ?t (rqm_requests r)\<rparr>)"
      using assms(1) Some by (intro rqm_inv_update) (auto dest: bt_get_in_keys)
    from this rqm_inv_remove [OF this, of rid] assms(1) Some TrackInitRack show ?thesis
      by (auto simp: rqm_on_init_ack_def Let_def)
  qed (use assms(1) Some in \<open>simp_all add: rqm_on_init_ack_def\<close>)
qed (use assms(1) in \<open>simp add: rqm_on_init_ack_def\<close>)

lemma rqm_remove_request_snd: "snd (rqm_remove_request r rid) = bt_get (rqm_requests r) rid"
  by (simp add: rqm_remove_request_def)

lemma rqm_on_share_inv:
  assumes "rqm_inv P r" and "\<And>u a a'. P (TrackLoadRackSecret u a) \<Longrightarrow> P (TrackLoadRackSecret u a')"
    and "\<And>u l a a'. P (TrackLearnReceived u l a) \<Longrightarrow> P (TrackLearnReceived u l a')"
  shows "rqm_inv P (fst (rqm_on_share r from rid share)) \<and>
    (\<forall>t. snd (rqm_on_share r from rid share) = Some t \<longrightarrow> P t)"
proof -
  have upd: "rqm_inv P (r\<lparr>rqm_requests := bt_insert rid t (rqm_requests r)\<rparr>)"
    if "P t" "bt_get (rqm_requests r) rid = Some t'" for t t'
    using assms(1) that by (intro rqm_inv_update) (auto dest: bt_get_in_keys)
  show ?thesis
  proof (cases "bt_get (rqm_requests r) rid")
    case (Some t)
    note P = rqm_inv_get [OF assms(1) Some]
    show ?thesis
    proof (cases t)
      case (TrackLoadRackSecret u a)
      with P have "P (TrackLoadRackSecret u a')" for a' using assms(2) by blast
      with upd [OF _ Some] assms(1) Some TrackLoadRackSecret show ?thesis
        by (simp add: rqm_on_share_def Let_def rqm_inv_remove rqm_remove_request_snd)
    next
      case (TrackLearnReceived u l a)
      with P have "P (TrackLearnReceived u l a')" for a' using assms(3) by blast
      with upd [OF _ Some] assms(1) Some TrackLearnReceived show ?thesis
        by (simp add: rqm_on_share_def Let_def rqm_inv_remove rqm_remove_request_snd)
    qed (use assms(1) Some in \<open>simp_all add: rqm_on_share_def\<close>)
  qed (use assms(1) in \<open>simp add: rqm_on_share_def\<close>)
qed

lemma rqm_on_learn_pkg_inv:
  assumes "rqm_inv P r"
  shows "rqm_inv P (fst (rqm_on_learn_pkg r rid))"
    and "snd (rqm_on_learn_pkg r rid) \<Longrightarrow> \<exists>to. P (TrackLearnSent to)"
    and "snd (rqm_on_learn_pkg r rid) \<Longrightarrow> rid \<in> set (bt_keys (rqm_requests r)) \<and>
      rqm_requests (fst (rqm_on_learn_pkg r rid)) = bt_remove rid (rqm_requests r)"
    and "\<not> snd (rqm_on_learn_pkg r rid) \<Longrightarrow> fst (rqm_on_learn_pkg r rid) = r"
  using assms rqm_inv_get [OF assms, of rid]
  by (auto simp: rqm_on_learn_pkg_def rqm_inv_remove split: option.splits trackable.splits
      dest: bt_get_in_keys)
    (simp add: rqm_remove_request_def)

lemma rqm_expired_inv:
  assumes "rqm_inv P r"
  obtains r' ex where "rqm_expired r now = Done (r', ex)" and "rqm_inv P r'" and "\<forall>(k, t)\<in>set ex. P t"
    and "length (rqm_requests r') + length ex = length (rqm_requests r)"
proof (cases "\<exists>e\<in>set (bt_keys (rqm_expiry_to_id r)). now \<le> e")
  case True
  with rqm_expired_eq [of r now] assms have "rqm_expired r now = Done (r, [])" by (simp add: rqm_inv_def)
  with assms that show ?thesis by simp
next
  case False
  let ?ids = "set (bt_values (rqm_expiry_to_id r))"
  have ok: "rqm_ok r" using assms by (simp add: rqm_inv_def)
  from rqm_expired_eq [OF ok, of now, unfolded if_not_P [OF False]] obtain requests ex where
    eq: "rqm_expired r now = Done (r\<lparr>rqm_expiry_to_id := [], rqm_requests := requests\<rparr>, ex)"
    and oks: "bt_ok requests" "bt_ok ex"
    and get: "\<forall>k. bt_get requests k = (if k \<in> ?ids then None else bt_get (rqm_requests r) k)"
      "\<forall>k. bt_get ex k = (if k \<in> ?ids then bt_get (rqm_requests r) k else None)"
    by blast
  have keys: "set (bt_keys m) = {k. bt_get m k \<noteq> None}" for m :: "(uuid, trackable) btree_map"
    by (auto simp: bt_get_None)
  have parts: "set (bt_keys (rqm_requests r)) = set (bt_keys requests) \<union> set (bt_keys ex)"
    "set (bt_keys requests) \<inter> set (bt_keys ex) = {}"
    unfolding keys using get by auto
  have okr: "bt_ok (rqm_requests r)" using ok by (simp add: rqm_ok_def)
  have "length requests + length ex = length (rqm_requests r)"
    unfolding bt_ok_length [OF oks(1)] bt_ok_length [OF oks(2)] bt_ok_length [OF okr] parts(1)
    by (rule card_Un_disjoint [symmetric]) (simp_all add: parts)
  moreover have "\<forall>(k, t)\<in>set ex. P t"
    using get(2) bt_get_of_set [OF oks(2)] rqm_inv_get [OF assms] by (fastforce split: if_split_asm)
  moreover have "rqm_inv P (r\<lparr>rqm_expiry_to_id := [], rqm_requests := requests\<rparr>)"
  proof -
    have "\<forall>t\<in>set (bt_values requests). P t"
      using get(1) rqm_inv_get [OF assms] by (auto simp: bt_values_get [OF oks(1)] split: if_split_asm)
    with assms oks parts show ?thesis
      by (auto simp: rqm_inv_def uuids_fresh_def rqm_ok_def bt_values_def)
  qed
  ultimately show ?thesis using eq that by fastforce
qed

section \<open>Extra shares\<close>

text \<open>
  What the code relies on of ChaCha20Poly1305: a ciphertext is 16 bytes, the tag, longer than
  its plaintext.
\<close>

definition aead_tag :: "crypto_env \<Rightarrow> bool" where
  "aead_tag E \<longleftrightarrow> (\<forall>key nonce c p. chacha_decrypt E key nonce c = Some p \<longrightarrow> length c = length p + 16)"

text \<open>The number of shares that a package has for others.\<close>

definition extra_count :: "share_pkg \<Rightarrow> nat" where
  "extra_count pkg = (length (sp_encrypted_shares pkg) - 16 + (share_size - 1)) div share_size"

lemma length_chunks: "0 < n \<Longrightarrow> length (chunks n xs) = (length xs + (n - 1)) div n"
proof (induction n xs rule: chunks.induct)
  case (1 n xs)
  show ?case
  proof (cases xs)
    case (Cons x ys)
    with 1 have "length (chunks n xs) = Suc ((length xs - n + (n - 1)) div n)"
      by (simp add: chunks.simps [of n "x # ys"])
    then show ?thesis using Cons 1 by (cases "n \<le> length xs") (auto simp: le_div_geq)
  qed (use 1 in \<open>simp add: chunks.simps\<close>)
qed

lemma pkg_decrypt_cases:
  assumes "crypto_usable E" and "aead_tag E"
  obtains e where "pkg_decrypt_shares E pkg secret = Done (Err e)"
  | shares where "pkg_decrypt_shares E pkg secret = Done (Ok shares)" and "length shares = extra_count pkg"
proof -
  obtain key where "lr_derive_encryption_key E (lsd_rack_uuid (sp_common pkg)) secret (sp_salt pkg) = Done key"
    using assms(1) unfolding lr_derive_encryption_key_def crypto_usable_def by (metis expect_simps(2))
  then have eq: "pkg_decrypt_shares E pkg secret = Done (lr_decrypt_shares E (sp_nonce pkg) key (sp_encrypted_shares pkg))"
    by (simp add: pkg_decrypt_shares_def)
  show thesis
  proof (cases "chacha_decrypt E key (sp_nonce pkg) (sp_encrypted_shares pkg)")
    case None
    with eq that(1) show thesis by (simp add: lr_decrypt_shares_def)
  next
    case (Some p)
    with assms(2) have "length (sp_encrypted_shares pkg) = length p + 16" by (auto simp: aead_tag_def)
    with Some eq that(2) show thesis by (simp add: lr_decrypt_shares_def length_chunks extra_count_def share_size_def)
  qed
qed

lemma set_bt_values_fresh:
  "k \<notin> set (bt_keys m) \<Longrightarrow> set (bt_values (bt_insert k v m)) = insert v (set (bt_values m))"
  by (induction k v m rule: bt_insert.induct) (auto simp: bt_values_def bt_keys_def)

text \<open>
  The first \<open>n\<close> of the extra shares are handed out, to as many learners.
\<close>

definition distributed_ok :: "share_pkg \<Rightarrow> (baseboard, nat) btree_map \<Rightarrow> bool" where
  "distributed_ok pkg ds \<longleftrightarrow>
     bt_ok ds \<and> set (bt_values ds) = {..<length ds} \<and> length ds \<le> extra_count pkg"

lemma distributed_next:
  assumes "distributed_ok pkg ds"
  shows "(if ds = [] then 0 else Max (set (bt_values ds)) + 1) = length ds"
proof (cases ds)
  case (Cons a m)
  then have "set (bt_values ds) = {..length m}" using assms by (simp add: distributed_ok_def lessThan_Suc_atMost)
  moreover have "Max {..length m} = length m" by (rule Max_eqI) auto
  ultimately show ?thesis using Cons by simp
qed simp

lemma distributed_lookup: "distributed_ok pkg ds \<Longrightarrow> bt_get ds p = Some i \<Longrightarrow> i < length ds"
  by (force simp: distributed_ok_def bt_values_get)

lemma distributed_insert:
  assumes "distributed_ok pkg ds" and "bt_get ds p = None" and "length ds < extra_count pkg"
  shows "distributed_ok pkg (bt_insert p (length ds) ds)"
proof -
  have "p \<notin> set (bt_keys ds)" using assms(2) by (simp add: bt_get_None)
  with assms show ?thesis
    by (simp add: distributed_ok_def set_bt_values_fresh bt_insert_length bt_contains_keys lessThan_Suc)
qed

lemma distributed_injective:
  assumes "distributed_ok pkg ds" and "bt_get ds p = Some i" and "bt_get ds q = Some i"
  shows "p = q"
proof -
  have "distinct (bt_values ds)"
    using assms(1) by (intro card_distinct) (simp add: distributed_ok_def bt_values_def)
  then have "inj_on snd (set ds)" by (simp add: bt_values_def distinct_map)
  from inj_onD [OF this _ bt_get_in_set [OF assms(2)] bt_get_in_set [OF assms(3)]] show ?thesis by simp
qed

section \<open>The invariant\<close>

text \<open>The requests that a state can have in flight.\<close>

fun req_fits :: "fsm_state \<Rightarrow> trackable \<Rightarrow> bool" where
  "req_fits (InitialMember _ _) t = (\<not> is_learn_sent t)"
| "req_fits Learning t = is_learn_sent t"
| "req_fits (Learned _) (TrackLoadRackSecret _ _) = True"
| "req_fits _ _ = False"

fun state_ok :: "fsm_state \<Rightarrow> bool" where
  "state_ok (InitialMember pkg ds) = distributed_ok pkg ds"
| "state_ok _ = True"

definition fsm_ok :: "fsm \<Rightarrow> bool" where
  "fsm_ok s \<longleftrightarrow> rqm_inv (req_fits (fsm_state s)) (fsm_request_manager s) \<and> state_ok (fsm_state s) \<and>
     (fsm_state s = Learning \<longrightarrow> length (rqm_requests (fsm_request_manager s)) \<le> 1)"

lemma fsm_ok_new: "inj uuids \<Longrightarrow> state_ok state \<Longrightarrow> fsm_ok (fsm_new me config state uuids)"
  by (simp add: fsm_ok_def fsm_new_def rqm_inv_new) (simp add: rqm_new_def)

lemma fsm_ok_push [simp]: "fsm_ok (fsm_push_response s to rid type) = fsm_ok s"
  by (simp add: fsm_ok_def fsm_push_response_def)

lemma fsm_ok_rm:
  "fsm_ok s \<Longrightarrow> rqm_inv (req_fits (fsm_state s)) r \<Longrightarrow>
   (fsm_state s = Learning \<Longrightarrow> length (rqm_requests r) \<le> 1) \<Longrightarrow> fsm_ok (s\<lparr>fsm_request_manager := r\<rparr>)"
  by (simp add: fsm_ok_def)

lemma uninitialized_idle:
  assumes "fsm_ok s" and "fsm_state s = Uninitialized"
  shows "rqm_requests (fsm_request_manager s) = []" and "rqm_inv P (fsm_request_manager s)"
proof -
  have "req_fits Uninitialized = (\<lambda>_. False)" by (rule ext) simp
  with assms have inv: "rqm_inv (\<lambda>_. False) (fsm_request_manager s)" by (simp add: fsm_ok_def)
  then show "rqm_inv P (fsm_request_manager s)" by (rule rqm_inv_mono) simp
  from inv show "rqm_requests (fsm_request_manager s) = []" by (auto simp: rqm_inv_def bt_values_def)
qed

section \<open>Calls\<close>

text \<open>The calls that a node makes to its state machine.\<close>

datatype fsm_event =
  EvInitRack instant uuid "baseboard btree_set" rng
| EvInitLearner instant
| EvLoadRackSecret instant
| EvTick instant
| EvConnected instant baseboard
| EvDisconnected baseboard
| EvMsg instant baseboard lr_msg
| EvDrain

definition fsm_call :: "crypto_env \<Rightarrow> vsss_env \<Rightarrow> fsm \<Rightarrow> fsm_event \<Rightarrow> fsm outcome" where
  "fsm_call E V s e =
     (case e of
        EvInitRack now rack_uuid members rng \<Rightarrow> obind (fsm_init_rack E V rng s now rack_uuid members) (\<lambda>(s, _). Done s)
      | EvInitLearner now \<Rightarrow> Done (fst (fsm_init_learner s now))
      | EvLoadRackSecret now \<Rightarrow> Done (fst (fsm_load_rack_secret s now))
      | EvTick now \<Rightarrow> obind (fsm_tick s now) (\<lambda>(s, _). Done s)
      | EvConnected now peer \<Rightarrow> Done (fst (fsm_on_connected s now peer))
      | EvDisconnected peer \<Rightarrow> Done (fsm_on_disconnected s peer)
      | EvMsg now from msg \<Rightarrow> obind (fsm_handle_msg E s now from msg) (\<lambda>(s, _). Done s)
      | EvDrain \<Rightarrow> Done (snd (fsm_drain_envelopes s)))"

text \<open>
  The calls it can make: a rack of at most 255 sleds, and requests to learn whose ids are
  not in use.
\<close>

fun lr_event_ok :: "fsm \<Rightarrow> fsm_event \<Rightarrow> bool" where
  "lr_event_ok s (EvInitRack _ _ members _) = (1 \<le> length members \<and> length members \<le> 255)"
| "lr_event_ok s (EvMsg _ _ (Req req)) =
     (lrq_type req = ReqLearn \<longrightarrow>
        lrq_id req \<notin> set (bt_keys (rqm_requests (fsm_request_manager s))) \<and>
        lrq_id req \<notin> range (rqm_uuids (fsm_request_manager s)))"
| "lr_event_ok s _ = True"

section \<open>Every call returns and keeps the invariant\<close>

fun done_ok :: "(fsm \<times> 'a) outcome \<Rightarrow> bool" where
  "done_ok (Done (s, _)) = fsm_ok s"
| "done_ok _ = False"

lemma fsm_ok_initial:
  "rqm_inv (req_fits (InitialMember pkg ds)) r \<Longrightarrow> distributed_ok pkg ds \<Longrightarrow>
   fsm_ok (s\<lparr>fsm_state := InitialMember pkg ds, fsm_request_manager := r\<rparr>)"
  by (simp add: fsm_ok_def)

lemma distributed_ok_empty [simp]: "distributed_ok pkg []"
  by (simp add: distributed_ok_def bt_values_def)

lemma create_pkgs_cases:
  assumes "vsss_scheme E V" and "aead_inverts E" and "crypto_usable E"
    and "1 \<le> length members" and "length members \<le> 255"
  obtains e where "create_pkgs E V rack_uuid members rng = Done (Err e)"
  | pkg pkgs rng' where "create_pkgs E V rack_uuid members rng = Done (Ok (pkg # pkgs, rng'))"
proof (cases "length members = 1")
  case True
  then obtain m where "members = [m]" by (auto simp: length_Suc_conv)
  with create_pkgs_one [OF assms(1)] that(1) show thesis by blast
next
  case False
  with assms(4) have "2 \<le> length members" by linarith
  from create_pkgs_Ok [OF assms(1-3) this assms(5), of rack_uuid rng] obtain pkgs rng' where
    "create_pkgs E V rack_uuid members rng = Done (Ok (pkgs, rng'))" "length pkgs = length members" by blast
  with assms(4) that(2) show thesis by (cases pkgs) auto
qed

lemma init_rack_ok:
  assumes "fsm_ok s" and "vsss_scheme E V" and "aead_inverts E" and "crypto_usable E"
    and "1 \<le> length members" and "length members \<le> 255"
  shows "done_ok (fsm_init_rack E V rng s now rack_uuid members)"
proof (cases "fsm_rack_init_error s = None \<and> fsm_state s = Uninitialized")
  case True
  note idle = uninitialized_idle [OF assms(1) conjunct2 [OF True]]
  from assms(2-6) show ?thesis
  proof (rule create_pkgs_cases [of E V members rack_uuid rng])
    fix e assume "create_pkgs E V rack_uuid members rng = Done (Err e)"
    with True assms(1) show ?thesis by (simp add: fsm_init_rack_def fsm_check_init_err_def)
  next
    fix pkg pkgs rng' assume "create_pkgs E V rack_uuid members rng = Done (Ok (pkg # pkgs, rng'))"
    with True idle(2) show ?thesis
      by (simp add: fsm_init_rack_def fsm_check_init_err_def Let_def case_prod_beta fsm_ok_initial rqm_inv_reqs(1))
  qed
qed (use assms(1) in \<open>auto simp: fsm_init_rack_def fsm_check_init_err_def split: option.split prod.split\<close>)

lemma check_init_err_cases:
  obtains e where "fsm_check_init_err s = Err e" | "fsm_check_init_err s = Ok ()"
  by (cases "fsm_check_init_err s") auto

lemma learn_sent_one:
  assumes "rqm_inv is_learn_sent r" and "rqm_requests r = []"
  shows "rqm_inv is_learn_sent (fst (rqm_new_learn_sent_req r now to))"
    and "length (rqm_requests (fst (rqm_new_learn_sent_req r now to))) = 1"
proof -
  show "rqm_inv is_learn_sent (fst (rqm_new_learn_sent_req r now to))" using rqm_inv_reqs(3) [OF assms(1)] by simp
  show "length (rqm_requests (fst (rqm_new_learn_sent_req r now to))) = 1"
    using rqm_requests_new_request [OF assms(1), of "now + fc_learn_timeout (rqm_config r)" "TrackLearnSent to"] assms(2)
    by (simp add: rqm_new_learn_sent_req_def Let_def case_prod_beta rqm_push_def)
qed

lemma fsm_ok_learning:
  "rqm_inv is_learn_sent (fsm_request_manager s) \<Longrightarrow> length (rqm_requests (fsm_request_manager s)) \<le> 1 \<Longrightarrow>
   fsm_state s = Learning \<Longrightarrow> fsm_ok s"
  by (simp add: fsm_ok_def req_fits.simps(2) [abs_def])

lemma fsm_ok_learningD:
  "fsm_ok s \<Longrightarrow> fsm_state s = Learning \<Longrightarrow>
   rqm_inv is_learn_sent (fsm_request_manager s) \<and> length (rqm_requests (fsm_request_manager s)) \<le> 1"
  by (simp add: fsm_ok_def req_fits.simps(2) [abs_def])

lemma init_learner_ok:
  assumes "fsm_ok s"
  shows "fsm_ok (fst (fsm_init_learner s now))"
proof (cases "fsm_rack_init_error s = None \<and> fsm_state s = Uninitialized")
  case True
  note idle = uninitialized_idle [OF assms conjunct2 [OF True]]
  from learn_sent_one [OF idle(2,1)] idle True show ?thesis
    by (auto simp: fsm_init_learner_def fsm_check_init_err_def Let_def intro!: fsm_ok_learning split: list.split)
qed (use assms in \<open>auto simp: fsm_init_learner_def fsm_check_init_err_def split: option.split prod.split\<close>)

lemma load_rack_secret_ok:
  assumes "fsm_ok s"
  shows "fsm_ok (fst (fsm_load_rack_secret s now))"
proof -
  have inv: "rqm_inv (req_fits (fsm_state s)) (fsm_request_manager s)" using assms by (simp add: fsm_ok_def)
  have "fsm_ok (s\<lparr>fsm_request_manager := fst (rqm_new_load_rack_secret_req (fsm_request_manager s) now u k peers)\<rparr>)"
    if "req_fits (fsm_state s) (TrackLoadRackSecret u (share_acks_new k))" "fsm_state s \<noteq> Learning" for u k peers
    using assms rqm_inv_reqs(2) [where P = "req_fits (fsm_state s)", OF inv that(1)] that(2) by (intro fsm_ok_rm) auto
  then show ?thesis
    using assms by (auto simp: fsm_load_rack_secret_def Let_def case_prod_beta split: sum.split fsm_state.split)
qed

lemma expire_elsewhere:
  assumes "fsm_state s \<noteq> Learning"
  shows "fsm_state (fst (foldl (fsm_expire now) (s, errs) ex)) = fsm_state s \<and>
    fsm_request_manager (fst (foldl (fsm_expire now) (s, errs) ex)) = fsm_request_manager s"
  using assms
proof (induction ex arbitrary: s errs)
  case (Cons x ex)
  obtain rid t where x: "x = (rid, t)" by fastforce
  obtain s' errs' where step: "fsm_expire now (s, errs) x = (s', errs')" by fastforce
  have "fsm_state s' = fsm_state s \<and> fsm_request_manager s' = fsm_request_manager s"
    using step Cons.prems by (auto simp: fsm_expire_def x Let_def split: trackable.splits)
  with Cons.IH [of s' errs'] Cons.prems step show ?case by simp
qed simp

lemma expire_learning:
  assumes "fsm_state s = Learning" and "rqm_inv is_learn_sent (fsm_request_manager s)"
    and "\<forall>(k, t)\<in>set ex. is_learn_sent t" and "length (rqm_requests (fsm_request_manager s)) + length ex \<le> 1"
  shows "fsm_ok (fst (foldl (fsm_expire now) (s, []) ex))"
proof (cases ex)
  case Nil
  with assms show ?thesis by (simp add: fsm_ok_learning)
next
  case (Cons x xs)
  with assms(4) have xs: "xs = []" "rqm_requests (fsm_request_manager s) = []" by simp_all
  obtain rid t where "x = (rid, t)" by fastforce
  with assms(3) Cons obtain to where x: "x = (rid, TrackLearnSent to)" by (cases t) auto
  from learn_sent_one [OF assms(2) xs(2)] assms(1,2) xs Cons x show ?thesis
    by (auto simp: fsm_expire_def intro!: fsm_ok_learning split: option.split)
qed

lemma tick_ok:
  assumes "fsm_ok s"
  shows "done_ok (fsm_tick s now)"
proof (cases "fsm_rack_init_error s = None \<and> fsm_state s \<noteq> Uninitialized")
  case True
  have inv: "rqm_inv (req_fits (fsm_state s)) (fsm_request_manager s)" using assms by (simp add: fsm_ok_def)
  from rqm_expired_inv [OF this, of now] obtain r' ex where
    eq: "rqm_expired (fsm_request_manager s) now = Done (r', ex)" and r': "rqm_inv (req_fits (fsm_state s)) r'"
    "\<forall>(k, t)\<in>set ex. req_fits (fsm_state s) t"
    "length (rqm_requests r') + length ex = length (rqm_requests (fsm_request_manager s))" by blast
  let ?f = "foldl (fsm_expire now) (s\<lparr>fsm_request_manager := r'\<rparr>, []) ex"
  have "fsm_ok (fst ?f)"
  proof (cases "fsm_state s = Learning")
    case True
    with r' fsm_ok_learningD [OF assms True] show ?thesis
      by (intro expire_learning) (auto simp: req_fits.simps(2) [abs_def])
  next
    case False
    with expire_elsewhere [of "s\<lparr>fsm_request_manager := r'\<rparr>" now "[]" ex] r' assms show ?thesis
      by (simp add: fsm_ok_def)
  qed
  with True eq show ?thesis by (simp add: fsm_tick_def case_prod_beta)
qed (use assms in \<open>auto simp: fsm_tick_def\<close>)

lemma on_connected_ok:
  assumes "fsm_ok s"
  shows "fsm_ok (fst (fsm_on_connected s now peer))"
proof (rule check_init_err_cases [of s])
  assume c: "fsm_check_init_err s = Ok ()"
  let ?r = "fsm_request_manager s"
  show ?thesis
  proof (cases "fsm_state s = Learning \<and> \<not> rqm_has_learn_sent_req ?r")
    case True
    with fsm_ok_learningD [OF assms] have inv: "rqm_inv is_learn_sent ?r" by simp
    with True have "rqm_requests ?r = []"
      by (cases "rqm_requests ?r") (auto simp: rqm_has_learn_sent_req_def rqm_inv_def bt_values_def)
    from learn_sent_one [OF inv this, of now peer] True c show ?thesis
      by (auto simp: fsm_on_connected_def Let_def rqm_on_connected_def rqm_push_def rqm_inv_def uuids_fresh_def
          rqm_ok_def intro!: fsm_ok_learning)
  next
    case False
    have "fsm_ok (s\<lparr>fsm_request_manager := rqm_on_connected ?r peer, fsm_connected_peers := ps\<rparr>)" for ps
      using assms by (simp add: fsm_ok_def rqm_on_connected_def) (simp add: rqm_push_def)
    with False c show ?thesis by (auto simp: fsm_on_connected_def Let_def)
  qed
qed (use assms in \<open>simp add: fsm_on_connected_def\<close>)

lemma on_init_ok:
  assumes "fsm_ok s"
  shows "fsm_ok (fst (fsm_on_init s from rid pkg))"
proof (cases "fsm_state s = Uninitialized")
  case True
  from uninitialized_idle(2) [OF assms True] have "fsm_ok (s\<lparr>fsm_state := InitialMember pkg []\<rparr>)"
    by (simp add: fsm_ok_def)
  with True show ?thesis by (simp add: fsm_on_init_def)
qed (use assms in \<open>auto simp: fsm_on_init_def split: fsm_state.split\<close>)

lemma on_learn_ok:
  assumes "fsm_ok s" and "rid \<notin> set (bt_keys (rqm_requests (fsm_request_manager s)))"
    and "rid \<notin> range (rqm_uuids (fsm_request_manager s))"
  shows "fsm_ok (fsm_on_learn s now from rid)"
proof (cases "fsm_state s")
  case (InitialMember pkg ds)
  with assms have "rqm_inv (req_fits (InitialMember pkg ds)) (fsm_request_manager s)" "distributed_ok pkg ds"
    by (simp_all add: fsm_ok_def)
  with InitialMember assms(2,3) show ?thesis by (simp add: fsm_on_learn_def fsm_ok_def rqm_inv_reqs(4))
qed (use assms(1) in \<open>simp_all add: fsm_on_learn_def\<close>)

lemma on_init_ack_ok:
  assumes "fsm_ok s"
  shows "fsm_ok (fst (fsm_on_init_ack s from rid))"
proof -
  let ?r = "fsm_request_manager s"
  have inv: "rqm_inv (req_fits (fsm_state s)) ?r" using assms by (simp add: fsm_ok_def)
  have fits: "req_fits st (TrackInitRack u p a) \<Longrightarrow> req_fits st (TrackInitRack u p a')" for st u p a a'
    by (cases st) simp_all
  have inv': "rqm_inv (req_fits (fsm_state s)) (fst (rqm_on_init_ack ?r from rid))"
    by (rule rqm_on_init_ack_inv [OF inv]) (rule fits)
  moreover have "fst (rqm_on_init_ack ?r from rid) = ?r" if "fsm_state s = Learning"
    using rqm_inv_get [OF inv] that by (fastforce simp: rqm_on_init_ack_def split: option.split trackable.split)
  ultimately have "fsm_ok (s\<lparr>fsm_request_manager := fst (rqm_on_init_ack ?r from rid)\<rparr>)"
    using assms by (intro fsm_ok_rm) (auto simp: fsm_ok_def)
  then show ?thesis by (simp add: fsm_on_init_ack_def Let_def case_prod_beta)
qed

lemma on_learn_pkg_ok:
  assumes "fsm_ok s"
  shows "done_ok (fsm_on_learn_pkg s from rid pkg)"
proof -
  let ?r = "fsm_request_manager s" and ?o = "rqm_on_learn_pkg (fsm_request_manager s) rid"
  have inv: "rqm_inv (req_fits (fsm_state s)) ?r" using assms by (simp add: fsm_ok_def)
  note learnt = rqm_on_learn_pkg_inv [OF inv, of rid]
  show ?thesis
  proof (cases "snd ?o")
    case True
    from learnt(2) [OF True] have st: "fsm_state s = Learning" by (cases "fsm_state s") auto
    have ok: "bt_ok (rqm_requests ?r)" using inv by (simp add: rqm_inv_def rqm_ok_def)
    have "length (bt_remove rid (rqm_requests ?r)) = 0"
      using learnt(3) [OF True] fsm_ok_learningD [OF assms st]
      by (cases "rqm_requests ?r") (auto simp: bt_remove_def bt_keys_def)
    with learnt(3) [OF True] have none: "rqm_requests (fst ?o) = []" by simp
    have "rqm_inv (req_fits (Learned pkg)) (fst ?o)"
      using learnt(1) none by (simp add: rqm_inv_def bt_values_def)
    with True st show ?thesis by (simp add: fsm_on_learn_pkg_def Let_def case_prod_beta fsm_ok_def)
  next
    case False
    with learnt(4) [OF False] assms show ?thesis by (simp add: fsm_on_learn_pkg_def Let_def case_prod_beta)
  qed
qed

lemma fsm_ok_queue [simp]: "fsm_ok (queue_pkg_response s to rid pkg share) = fsm_ok s"
  by (simp add: fsm_ok_def queue_pkg_response_def)

lemma decrypt_and_send_ok:
  assumes "fsm_ok s" and "fsm_state s = InitialMember pkg ds" and "crypto_usable E" and "aead_tag E"
  shows "done_ok (decrypt_and_send_share_response E s from rid pkg ds secret)"
  using assms(3,4)
proof (rule pkg_decrypt_cases [of E pkg secret])
  fix e assume "pkg_decrypt_shares E pkg secret = Done (Err e)"
  with assms(1) show ?thesis by (simp add: decrypt_and_send_share_response_def)
next
  fix shares assume shares: "pkg_decrypt_shares E pkg secret = Done (Ok shares)" "length shares = extra_count pkg"
  have ds: "distributed_ok pkg ds" using assms(1,2) by (simp add: fsm_ok_def)
  show ?thesis
  proof (cases "bt_get ds from")
    case None
    have "fsm_ok (s\<lparr>fsm_state := InitialMember pkg (bt_insert from (length ds) ds)\<rparr>)" if "length ds < extra_count pkg"
      using assms(1,2) distributed_insert [OF ds None that] by (simp add: fsm_ok_def rqm_inv_def)
    with None shares assms(1) show ?thesis
      by (simp add: decrypt_and_send_share_response_def distributed_next [OF ds] Let_def)
  next
    case (Some i)
    from distributed_lookup [OF ds Some] ds have "i < extra_count pkg" by (simp add: distributed_ok_def)
    with Some shares assms(1) show ?thesis by (simp add: decrypt_and_send_share_response_def)
  qed
qed

lemma on_share_ok:
  assumes "fsm_ok s" and "crypto_usable E" and "aead_tag E"
  shows "done_ok (fsm_on_share E s from rid share)"
proof (cases "fsm_state s = Uninitialized \<or> fsm_state s = Learning")
  case False
  let ?r = "fsm_request_manager s" and ?o = "rqm_on_share (fsm_request_manager s) from rid share"
  have inv: "rqm_inv (req_fits (fsm_state s)) ?r" using assms(1) by (simp add: fsm_ok_def)
  have fits: "req_fits st (TrackLoadRackSecret u a) \<Longrightarrow> req_fits st (TrackLoadRackSecret u a')"
    "req_fits st (TrackLearnReceived u l a) \<Longrightarrow> req_fits st (TrackLearnReceived u l a')" for st u l a a'
    by (cases st; simp)+
  have "rqm_inv (req_fits (fsm_state s)) (fst ?o) \<and> (\<forall>t. snd ?o = Some t \<longrightarrow> req_fits (fsm_state s) t)"
    by (rule rqm_on_share_inv [OF inv]) (erule fits)+
  then have answered: "rqm_inv (req_fits (fsm_state s)) (fst ?o)" "\<forall>t. snd ?o = Some t \<longrightarrow> req_fits (fsm_state s) t"
    by blast+
  have acked: "fsm_ok (s\<lparr>fsm_request_manager := fst ?o\<rparr>)"
    using assms(1) answered(1) False by (intro fsm_ok_rm) auto
  show ?thesis
  proof (cases "fsm_state s")
    case (InitialMember pkg ds)
    from decrypt_and_send_ok [OF acked _ assms(2,3)] InitialMember
    have send: "done_ok (decrypt_and_send_share_response E (s\<lparr>fsm_request_manager := fst ?o\<rparr>) l rid pkg ds secret)"
      for l secret by simp
    show ?thesis using InitialMember acked assms(1) send
      by (auto simp: fsm_on_share_def Let_def case_prod_beta split: sum.split option.split trackable.split)
  next
    case (Learned pkg)
    with answered(2) acked assms(1) show ?thesis
      by (auto simp: fsm_on_share_def Let_def case_prod_beta split: sum.split option.split trackable.split)
  qed (use False in simp_all)
qed (use assms(1) in \<open>auto simp: fsm_on_share_def Let_def case_prod_beta\<close>)

lemma drain_ok: "fsm_ok s \<Longrightarrow> fsm_ok (snd (fsm_drain_envelopes s))"
  using rqm_inv_drain [of "req_fits (fsm_state s)" "fsm_request_manager s"]
  by (simp add: fsm_ok_def fsm_drain_envelopes_def Let_def case_prod_beta) (simp add: rqm_drain_def)

lemma handle_msg_ok:
  assumes "fsm_ok s" and "crypto_usable E" and "aead_tag E" and "lr_event_ok s (EvMsg now from msg)"
  shows "done_ok (fsm_handle_msg E s now from msg)"
proof (rule check_init_err_cases [of s])
  assume c: "fsm_check_init_err s = Ok ()"
  show ?thesis
  proof (cases msg)
    case (Req req)
    have "fsm_ok (fst (fsm_handle_request s now from req))"
      using Req assms on_init_ok on_learn_ok
      by (cases "lrq_type req") (auto simp: fsm_handle_request_def fsm_on_get_share_def Let_def)
    with Req c show ?thesis by (cases "fsm_handle_request s now from req") (simp add: fsm_handle_msg_def)
  next
    case (Rsp rsp)
    have ack: "done_ok (Done (fsm_on_init_ack s from rid))" for rid
      using on_init_ack_ok [OF assms(1), of "from" rid] by (cases "fsm_on_init_ack s from rid") simp
    show ?thesis
      using Rsp c assms(1) ack on_share_ok [OF assms(1-3)] on_learn_pkg_ok [OF assms(1)]
      by (cases "lrs_type rsp") (simp_all add: fsm_handle_msg_def fsm_handle_response_def)
  qed
qed (use assms(1) in \<open>simp add: fsm_handle_msg_def\<close>)

lemma done_ok_state: "done_ok x \<Longrightarrow> \<exists>s'. obind x (\<lambda>(s, _). Done s) = Done s' \<and> fsm_ok s'"
  by (cases x rule: done_ok.cases) auto

lemma fsm_call_ok:
  assumes "fsm_ok s" and "lr_event_ok s e"
    and "vsss_scheme E V" and "aead_inverts E" and "crypto_usable E" and "aead_tag E"
  shows "\<exists>s'. fsm_call E V s e = Done s' \<and> fsm_ok s'"
proof (cases e)
  case (EvInitRack now rack_uuid members rng)
  with done_ok_state [OF init_rack_ok [OF assms(1,3-5)]] assms(2) show ?thesis by (simp add: fsm_call_def)
next
  case (EvMsg now sender msg)
  with done_ok_state [OF handle_msg_ok [OF assms(1,5,6)]] assms(2) show ?thesis by (simp add: fsm_call_def)
next
  case (EvDisconnected p)
  with assms(1) show ?thesis by (simp add: fsm_call_def fsm_on_disconnected_def fsm_ok_def)
qed (use assms(1) init_learner_ok load_rack_secret_ok on_connected_ok drain_ok done_ok_state [OF tick_ok [OF assms(1)]]
      in \<open>simp_all add: fsm_call_def\<close>)

section \<open>Runs\<close>

text \<open>The states that the machine can reach.\<close>

inductive fsm_run :: "crypto_env \<Rightarrow> vsss_env \<Rightarrow> fsm \<Rightarrow> fsm \<Rightarrow> bool" for E V s0 where
  run_init: "fsm_run E V s0 s0"
| run_step: "fsm_run E V s0 s \<Longrightarrow> lr_event_ok s e \<Longrightarrow> fsm_call E V s e = Done s' \<Longrightarrow> fsm_run E V s0 s'"

lemma fsm_run_ok:
  assumes "fsm_run E V s0 s" and "fsm_ok s0"
    and "vsss_scheme E V" and "aead_inverts E" and "crypto_usable E" and "aead_tag E"
  shows "fsm_ok s"
  using assms(1)
proof (induction rule: fsm_run.induct)
  case (run_step s e s')
  then show ?case using fsm_call_ok [OF _ _ assms(3-6)] by fastforce
qed (rule assms(2))

text \<open>
  C16: the state machine never gets stuck. Started with a saved state, it can take every call that
  it is ever offered (a rack of 1 to 255 sleds to initialize, requests to learn whose ids are
  not in use): no \<open>unwrap\<close>, assertion, index or \<open>panic!\<close> of the code fails. Afterwards the requests
  in flight are again of the kinds its state allows, a learner has at most one of them, all
  deadlines belong to them, and the extra shares handed out are the first ones, in order.
\<close>

theorem fsm_never_stuck:
  assumes "vsss_scheme E V" and "aead_inverts E" and "crypto_usable E" and "aead_tag E"
    and "inj uuids" and "state_ok saved"
    and "fsm_run E V (fsm_new me config saved uuids) s" and "lr_event_ok s e"
  shows "\<exists>s'. fsm_call E V s e = Done s' \<and> fsm_ok s'"
  using fsm_call_ok [OF fsm_run_ok [OF assms(7) fsm_ok_new [OF assms(5,6)] assms(1-4)] assms(8,1-4)] .

section \<open>A repeated request to learn\<close>

lemma expired_loop_panics:
  assumes "\<forall>e\<in>set (bt_keys ex). e < now"
    and "\<not> (distinct (bt_values ex) \<and> set (bt_values ex) \<subseteq> set (bt_keys requests))"
  shows "\<exists>m. rqm_expired_loop now ex requests expired = Panic m"
  using assms
proof (induction ex arbitrary: requests expired rule: rev_induct)
  case (snoc x ex)
  obtain e i where x: "x = (e, i)" by fastforce
  have parts: "bt_values (ex @ [x]) = bt_values ex @ [i]" "bt_keys (ex @ [x]) = bt_keys ex @ [e]"
    by (simp_all add: bt_values_def bt_keys_def x)
  show ?case
  proof (cases "bt_get requests i")
    case None
    with snoc.prems(1) parts show ?thesis by (subst rqm_expired_loop.simps) (simp add: x)
  next
    case (Some t)
    have "i \<in> set (bt_keys requests)" by (rule bt_get_in_keys [OF Some])
    then have "\<not> (distinct (bt_values ex) \<and> set (bt_values ex) \<subseteq> set (bt_keys (bt_remove i requests)))"
      using snoc.prems(2) parts by auto
    from snoc.IH [OF _ this, of "bt_insert i t expired"] snoc.prems(1) parts obtain m where
      "rqm_expired_loop now ex (bt_remove i requests) (bt_insert i t expired) = Panic m" by auto
    with Some snoc.prems(1) parts show ?thesis by (subst rqm_expired_loop.simps) (simp add: x)
  qed
qed (simp add: bt_values_def)

abbreviation learn_msg :: "uuid \<Rightarrow> lr_msg" where
  "learn_msg rid \<equiv> Req \<lparr>lrq_id = rid, lrq_type = ReqLearn\<rparr>"

lemma learn_tracked:
  assumes "fsm_state s = InitialMember pkg ds" and "fsm_rack_init_error s = None"
  obtains s' where "fsm_handle_msg E s t p (learn_msg rid) = Done (s', Ok None)"
    and "fsm_state s' = InitialMember pkg ds" and "fsm_rack_init_error s' = None"
    and "rqm_config (fsm_request_manager s') = rqm_config (fsm_request_manager s)"
    and "rqm_expiry_to_id (fsm_request_manager s') =
      bt_insert (t + fc_learn_timeout (rqm_config (fsm_request_manager s))) rid (rqm_expiry_to_id (fsm_request_manager s))"
  using assms that [of "fsm_on_learn s t p rid"]
  by (simp add: fsm_handle_msg_def fsm_check_init_err_def fsm_handle_request_def fsm_on_learn_def
      rqm_new_learn_received_req_def Let_def rqm_broadcast_get_share_def rqm_push_def rqm_track_def)

lemma same_value_not_distinct:
  assumes "bt_get m k = Some v" and "bt_get m k' = Some v" and "k \<noteq> k'"
  shows "\<not> distinct (bt_values m)"
proof
  assume "distinct (bt_values m)"
  then have "inj_on snd (set m)" by (simp add: bt_values_def distinct_map)
  from inj_onD [OF this _ bt_get_in_set [OF assms(1)] bt_get_in_set [OF assms(2)]] assms(3) show False by simp
qed

text \<open>
  C28: a request to learn whose id repeats an earlier one brings the node down. The state machine
  accepts both messages, whoever sent them, and tracks one request with two deadlines; the tick
  after the deadlines have passed finds the second deadline without its request and panics.
\<close>

theorem repeated_learn_panics:
  assumes "fsm_state s = InitialMember pkg ds" and "fsm_rack_init_error s = None" and "t1 \<noteq> t2"
    and "\<forall>d\<in>set (bt_keys (rqm_expiry_to_id (fsm_request_manager s))). d < now"
    and "t1 + fc_learn_timeout (rqm_config (fsm_request_manager s)) < now"
    and "t2 + fc_learn_timeout (rqm_config (fsm_request_manager s)) < now"
  shows "\<exists>s1 s2 m. fsm_handle_msg E s t1 p (learn_msg rid) = Done (s1, Ok None) \<and>
    fsm_handle_msg E s1 t2 q (learn_msg rid) = Done (s2, Ok None) \<and> fsm_tick s2 now = Panic m"
proof -
  let ?T = "fc_learn_timeout (rqm_config (fsm_request_manager s))"
  let ?ex = "rqm_expiry_to_id (fsm_request_manager s)"
  obtain s1 where s1: "fsm_handle_msg E s t1 p (learn_msg rid) = Done (s1, Ok None)"
    "fsm_state s1 = InitialMember pkg ds" "fsm_rack_init_error s1 = None"
    "rqm_config (fsm_request_manager s1) = rqm_config (fsm_request_manager s)"
    "rqm_expiry_to_id (fsm_request_manager s1) = bt_insert (t1 + ?T) rid ?ex"
    using learn_tracked [OF assms(1,2)] .
  obtain s2 where s2: "fsm_handle_msg E s1 t2 q (learn_msg rid) = Done (s2, Ok None)"
    "fsm_state s2 = InitialMember pkg ds" "fsm_rack_init_error s2 = None"
    "rqm_expiry_to_id (fsm_request_manager s2) = bt_insert (t2 + ?T) rid (bt_insert (t1 + ?T) rid ?ex)"
    using learn_tracked [OF s1(2,3), of E t2 q rid] unfolding s1(4,5) .
  let ?ex2 = "rqm_expiry_to_id (fsm_request_manager s2)"
  have "bt_get ?ex2 (t1 + ?T) = Some rid" "bt_get ?ex2 (t2 + ?T) = Some rid"
    using s2(4) assms(3) by (simp_all add: bt_get_insert)
  from same_value_not_distinct [OF this] assms(3) have "\<not> distinct (bt_values ?ex2)" by simp
  moreover have "\<forall>e\<in>set (bt_keys ?ex2). e < now" using assms(4-6) s2(4) by simp
  ultimately obtain m where
    "rqm_expired_loop now ?ex2 (rqm_requests (fsm_request_manager s2)) [] = Panic m"
    using expired_loop_panics by blast
  then have "fsm_tick s2 now = Panic m" using s2(2,3) by (simp add: fsm_tick_def rqm_expired_def)
  with s1(1) s2(1) show ?thesis by blast
qed

section \<open>Examples\<close>

lemma toy_lrtq_tag: "aead_tag toy_lrtq_env"
proof -
  have "length c = length (drop 16 c) + 16" if "take 16 c = replicate 16 (0 :: u8)" for c
    using arg_cong [OF that, of length] by simp
  then show ?thesis by (auto simp: aead_tag_def toy_lrtq_env_def)
qed

definition example_uuids :: "nat \<Rightarrow> uuid" where
  "example_uuids i = replicate i 0"

lemma example_uuids_inj: "inj example_uuids"
  by (rule injI) (metis example_uuids_def length_replicate)

theorem fsm_never_stuck_witness:
  "\<exists>s'. fsm_call toy_lrtq_env toy_vsss (fsm_new (Pc ''a'' ''1'') lrtq_config Uninitialized example_uuids)
     (EvInitRack 0 (replicate 16 1) example_members (\<lambda>_. 7)) = Done s' \<and> fsm_ok s'"
  by (rule fsm_never_stuck [OF toy_scheme toy_lrtq_env_ok toy_lrtq_tag example_uuids_inj _ run_init])
    (simp_all add: example_members_def)

definition example_pkg :: share_pkg where
  "example_pkg = \<lparr>sp_common = \<lparr>lsd_rack_uuid = [9], lsd_epoch = 0, lsd_threshold = 2, lsd_share = 1 # replicate 32 7,
       lsd_share_digests = [1 # replicate 32 7, 2 # replicate 32 7, 3 # replicate 32 7]\<rparr>,
     sp_initial_membership = [Pc ''a'' ''1'', Pc ''b'' ''1''], sp_salt = [], sp_nonce = [],
     sp_encrypted_shares = replicate 16 0 @ 3 # replicate 32 7\<rparr>"

definition example_fsm :: fsm where
  "example_fsm = fsm_new (Pc ''a'' ''1'') lrtq_config (InitialMember example_pkg []) example_uuids"

theorem repeated_learn_panics_witness:
  "\<exists>s1 s2 m. fsm_handle_msg toy_lrtq_env example_fsm 0 (Pc ''c'' ''1'') (learn_msg [1]) = Done (s1, Ok None) \<and>
     fsm_handle_msg toy_lrtq_env s1 1 (Pc ''c'' ''1'') (learn_msg [1]) = Done (s2, Ok None) \<and>
     fsm_tick s2 10 = Panic m"
  by (rule repeated_learn_panics [of example_fsm example_pkg "[]"])
    (simp_all add: example_fsm_def fsm_new_def rqm_new_def lrtq_config_def bt_keys_def)

end
