(* ===== verification/Bootstore_Shares.thy ===== *)
theory Bootstore_Shares
  imports Bootstore_Fsm_Safety
begin

text \<open>
  What becomes of the shares of an LRTQ rack: which learner gets which of the extra shares of a
  sled, and that a majority of the sleds load the rack secret.
\<close>

section \<open>Shares for learners\<close>

text \<open>The learner holds the extra share that the state has down for it.\<close>

definition handed :: "crypto_env \<Rightarrow> fsm_state \<Rightarrow> baseboard \<Rightarrow> learned_share_pkg \<Rightarrow> bool" where
  "handed E st p l \<longleftrightarrow>
     (\<exists>pkg ds i secret shares. st = InitialMember pkg ds \<and> bt_get ds p = Some i \<and>
        pkg_decrypt_shares E pkg secret = Done (Ok shares) \<and> i < length shares \<and> lsd_share (lp_common l) = shares ! i)"

definition handed_all :: "crypto_env \<Rightarrow> fsm_state \<Rightarrow> lr_envelope list \<Rightarrow> bool" where
  "handed_all E st envs \<longleftrightarrow> (\<forall>p rid l. response_to p rid (LearnPkg l) \<in> set envs \<longrightarrow> handed E st p l)"

definition state_le :: "fsm_state \<Rightarrow> fsm_state \<Rightarrow> bool" where
  "state_le st st' \<longleftrightarrow>
     (\<forall>pkg ds. st = InitialMember pkg ds \<longrightarrow>
        (\<exists>ds'. st' = InitialMember pkg ds' \<and> (\<forall>p i. bt_get ds p = Some i \<longrightarrow> bt_get ds' p = Some i)))"

lemma state_le_refl [simp]: "state_le st st"
  by (simp add: state_le_def)

lemma handed_mono:
  assumes "handed E st p l" and "state_le st st'"
  shows "handed E st' p l"
proof -
  from assms(1) obtain pkg ds i secret shares where h: "st = InitialMember pkg ds" "bt_get ds p = Some i"
    "pkg_decrypt_shares E pkg secret = Done (Ok shares)" "i < length shares" "lsd_share (lp_common l) = shares ! i"
    unfolding handed_def by blast
  from assms(2) h(1,2) obtain ds' where "st' = InitialMember pkg ds'" "bt_get ds' p = Some i"
    unfolding state_le_def by blast
  with h(3-5) show ?thesis unfolding handed_def by blast
qed

lemma handed_all_simps [simp]:
  "handed_all E st []"
  "handed_all E st (xs @ ys) \<longleftrightarrow> handed_all E st xs \<and> handed_all E st ys"
  by (auto simp: handed_all_def)

lemma handed_all_single:
  "handed_all E st [response_to p rid t] \<longleftrightarrow> (\<forall>l. t = LearnPkg l \<longrightarrow> handed E st p l)"
  by (auto simp: handed_all_def)

lemma handed_all_mono: "handed_all E st envs \<Longrightarrow> state_le st st' \<Longrightarrow> handed_all E st' envs"
  by (meson handed_all_def handed_mono)

text \<open>The envelopes of the request manager hold requests.\<close>

definition requests_only :: "request_manager \<Rightarrow> bool" where
  "requests_only r \<longleftrightarrow> (\<forall>env\<in>set (rqm_envelopes r). \<exists>q. le_msg env = Req q)"

lemma requests_only_handed: "requests_only r \<Longrightarrow> handed_all E st (rqm_envelopes r)"
  by (force simp: requests_only_def handed_all_def)

lemma requests_only_push:
  "requests_only r \<Longrightarrow> \<forall>env\<in>set es. \<exists>q. le_msg env = Req q \<Longrightarrow> requests_only (rqm_push r es)"
  by (auto simp: requests_only_def rqm_push_def)

lemma requests_only_same [simp]:
  "requests_only (rqm_track r ex rid t) = requests_only r"
  "requests_only (r\<lparr>rqm_uuids := us\<rparr>) = requests_only r"
  "requests_only (r\<lparr>rqm_requests := rs\<rparr>) = requests_only r"
  "requests_only (fst (rqm_new_request r ex t)) = requests_only r"
  "requests_only (fst (rqm_remove_request r rid)) = requests_only r"
  by (simp_all add: requests_only_def rqm_track_def rqm_new_request_def rqm_remove_request_def Let_def)

lemma requests_only_reqs:
  assumes "requests_only r"
  shows "requests_only (fst (rqm_new_init_rack_req r now u packages peers))"
    and "requests_only (fst (rqm_new_load_rack_secret_req r now u k peers))"
    and "requests_only (rqm_new_learn_received_req r rid now u k from peers)"
    and "requests_only (fst (rqm_new_learn_sent_req r now to))"
  using assms by (auto simp: rqm_req_defs Let_def case_prod_beta intro!: requests_only_push)

lemma resend_requests: "env \<in> set (resend_to p x) \<Longrightarrow> \<exists>q. le_msg env = Req q"
  by (cases "(p, x)" rule: resend_to.cases) (auto split: if_splits option.splits)

lemma requests_only_answers:
  assumes "requests_only r"
  shows "requests_only (rqm_on_connected r p)"
    and "requests_only (fst (rqm_on_init_ack r from rid))"
    and "requests_only (fst (rqm_on_share r from rid share))"
    and "requests_only (fst (rqm_on_learn_pkg r rid))"
  using assms by (auto simp: rqm_on_connected_def rqm_on_init_ack_def rqm_on_share_def rqm_on_learn_pkg_def Let_def
      resend_requests intro!: requests_only_push split: option.split trackable.split)

lemma requests_only_expired:
  "requests_only r \<Longrightarrow> rqm_expired r now = Done (r', ex) \<Longrightarrow> requests_only r'"
  by (auto simp: rqm_expired_def requests_only_def obind_eq_Done)

text \<open>What a call does to the state and the responses.\<close>

definition grows :: "crypto_env \<Rightarrow> fsm \<Rightarrow> fsm \<Rightarrow> bool" where
  "grows E s s' \<longleftrightarrow> state_le (fsm_state s) (fsm_state s') \<and>
     (\<exists>new. fsm_responses s' = fsm_responses s @ new \<and> handed_all E (fsm_state s') new) \<and>
     (requests_only (fsm_request_manager s) \<longrightarrow> requests_only (fsm_request_manager s'))"

lemma grows_refl [simp]: "grows E s s"
  by (auto simp: grows_def intro: exI [of _ "[]"])

lemma grows_rm:
  "fsm_responses s' = fsm_responses s \<Longrightarrow> state_le (fsm_state s) (fsm_state s') \<Longrightarrow>
   (requests_only (fsm_request_manager s) \<Longrightarrow> requests_only (fsm_request_manager s')) \<Longrightarrow> grows E s s'"
  by (auto simp: grows_def intro: exI [of _ "[]"])

lemma grows_push:
  "grows E s s' \<Longrightarrow> (\<And>l. t \<noteq> LearnPkg l) \<Longrightarrow> grows E s (fsm_push_response s' to rid t)"
  by (auto simp: grows_def fsm_push_response_def handed_all_single)

lemma state_le_Uninitialized [simp]: "state_le Uninitialized st"
  by (simp add: state_le_def)

lemma obind_fst_Done: "obind x (\<lambda>(s, _). Done s) = Done s' \<Longrightarrow> \<exists>r. x = Done (s', r)"
  by (auto simp: obind_eq_Done)

lemma case_list_eq_Done:
  "(case xs of [] \<Rightarrow> f | y # ys \<Rightarrow> g y ys) = Done r \<longleftrightarrow>
     xs = [] \<and> f = Done r \<or> (\<exists>y ys. xs = y # ys \<and> g y ys = Done r)"
  by (cases xs) simp_all

lemma init_rack_grows:
  "fsm_init_rack E V rng s now u members = Done (s', r) \<Longrightarrow> grows E s s'"
  by (auto simp: fsm_init_rack_def Let_def requests_only_reqs obind_eq_Done case_sum_eq_Done if_eq_Done
      case_list_eq_Done case_prod_beta intro!: grows_rm)

lemma init_learner_grows: "grows E s (fst (fsm_init_learner s now))"
  by (auto simp: fsm_init_learner_def Let_def requests_only_reqs intro!: grows_rm
      split: sum.split list.split)

lemma load_grows: "grows E s (fst (fsm_load_rack_secret s now))"
  by (auto simp: fsm_load_rack_secret_def Let_def case_prod_beta requests_only_reqs intro!: grows_rm
      split: sum.split fsm_state.split)

lemma expire_grows:
  "fsm_responses (fst (fsm_expire now (s, errs) x)) = fsm_responses s \<and>
   fsm_state (fst (fsm_expire now (s, errs) x)) = fsm_state s \<and>
   (requests_only (fsm_request_manager s) \<longrightarrow> requests_only (fsm_request_manager (fst (fsm_expire now (s, errs) x))))"
  by (cases x) (auto simp: fsm_expire_def Let_def requests_only_reqs split: trackable.split option.split)

lemma expire_all_grows:
  "fsm_responses (fst (foldl (fsm_expire now) se ex)) = fsm_responses (fst se) \<and>
   fsm_state (fst (foldl (fsm_expire now) se ex)) = fsm_state (fst se) \<and>
   (requests_only (fsm_request_manager (fst se)) \<longrightarrow>
      requests_only (fsm_request_manager (fst (foldl (fsm_expire now) se ex))))"
proof (induction ex arbitrary: se)
  case (Cons x ex)
  from Cons [of "fsm_expire now se x"] expire_grows [of now "fst se" "snd se" x] show ?case by simp
qed simp

lemma tick_grows:
  assumes "fsm_tick s now = Done (s', r)"
  shows "grows E s s'"
proof (cases "fsm_rack_init_error s = None \<and> fsm_state s \<noteq> Uninitialized")
  case True
  with assms obtain rm ex where ex: "rqm_expired (fsm_request_manager s) now = Done (rm, ex)"
    and s': "s' = fst (foldl (fsm_expire now) (s\<lparr>fsm_request_manager := rm\<rparr>, []) ex)"
    by (auto simp: fsm_tick_def case_prod_beta obind_eq_Done)
  from expire_all_grows [of now "(s\<lparr>fsm_request_manager := rm\<rparr>, [])" ex] requests_only_expired [OF _ ex] s'
  show ?thesis by (intro grows_rm) simp_all
qed (use assms in \<open>auto simp: fsm_tick_def split: if_splits\<close>)

lemma on_connected_grows: "grows E s (fst (fsm_on_connected s now p))"
  by (auto simp: fsm_on_connected_def Let_def requests_only_reqs requests_only_answers intro!: grows_rm
      split: sum.split)

lemma handle_request_grows: "grows E s (fst (fsm_handle_request s now from req))"
  by (auto simp: fsm_handle_request_def fsm_on_init_def fsm_on_get_share_def fsm_on_learn_def Let_def
      requests_only_reqs intro!: grows_push grows_rm split: request_type.split fsm_state.split)

lemma decrypt_and_send_grows:
  assumes "decrypt_and_send_share_response E s from rid pkg ds secret = Done (s', r)"
    and "fsm_state s = InitialMember pkg ds"
  shows "grows E s s'"
proof -
  from assms(1) obtain x where x: "pkg_decrypt_shares E pkg secret = Done x"
    by (auto simp: decrypt_and_send_share_response_def obind_eq_Done)
  show ?thesis
  proof (cases x)
    case (Inl e)
    with assms x show ?thesis by (simp add: decrypt_and_send_share_response_def)
  next
    case (Inr shares)
    have queue: "grows E s (queue_pkg_response (s\<lparr>fsm_state := InitialMember pkg ds'\<rparr>) from rid pkg (shares ! i))"
      if "bt_get ds' from = Some i" "i < length shares" "\<forall>p i. bt_get ds p = Some i \<longrightarrow> bt_get ds' p = Some i" for ds' i
      using x Inr assms(2) that
      by (auto simp: grows_def queue_pkg_response_def handed_all_single state_le_def handed_def)
    have same: "s\<lparr>fsm_state := InitialMember pkg ds\<rparr> = s" using assms(2) by simp
    show ?thesis
    proof (cases "bt_get ds from")
      case None
      let ?i = "if ds = [] then 0 else Max (set (bt_values ds)) + 1"
      have "\<forall>p i. bt_get ds p = Some i \<longrightarrow> bt_get (bt_insert from ?i ds) p = Some i"
        using None by (auto simp: bt_get_insert)
      from queue [OF bt_get_insert_same _ this] None assms(1) x Inr show ?thesis
        by (auto simp add: decrypt_and_send_share_response_def Let_def [of ?i] grows_push split: if_split_asm)
    next
      case (Some i)
      with assms x Inr queue [OF Some, unfolded same] show ?thesis
        by (auto simp: decrypt_and_send_share_response_def split: if_splits)
    qed
  qed
qed

lemma on_share_grows:
  assumes "fsm_on_share E s from rid share = Done (s', r)"
  shows "grows E s s'"
proof -
  let ?s1 = "s\<lparr>fsm_request_manager := fst (rqm_on_share (fsm_request_manager s) from rid share)\<rparr>"
  have acked: "grows E s ?s1" by (rule grows_rm) (simp_all add: requests_only_answers)
  have send: "grows E s s'"
    if "decrypt_and_send_share_response E ?s1 l rid pkg ds secret = Done (s', r)" "fsm_state s = InitialMember pkg ds"
    for l pkg ds secret
    using decrypt_and_send_grows [OF that(1)] that(2) by (auto simp: grows_def requests_only_answers)
  show ?thesis
    using assms acked send
    by (auto simp: fsm_on_share_def Let_def case_prod_beta
        split: fsm_state.splits sum.splits option.splits trackable.splits)
qed

lemma handle_msg_grows:
  assumes "fsm_handle_msg E s now from msg = Done (s', r)"
  shows "grows E s s'"
proof (cases msg)
  case (Req req)
  with assms handle_request_grows [of E s now "from" req] show ?thesis
    by (auto simp: fsm_handle_msg_def split: sum.splits)
next
  case (Rsp rsp)
  have ack: "grows E s (fst (fsm_on_init_ack s from rid))" for rid
    by (simp add: fsm_on_init_ack_def Let_def case_prod_beta) (rule grows_rm; simp add: requests_only_answers)
  have learnt: "grows E s s'" if "fsm_on_learn_pkg s from rid l = Done (s', r)" for rid l
    using that
    by (auto simp: fsm_on_learn_pkg_def Let_def case_prod_beta obind_eq_Done requests_only_answers
        intro!: grows_rm state_le_def [THEN iffD2] split: if_splits)
  from assms Rsp ack learnt on_share_grows show ?thesis
    by (auto simp: fsm_handle_msg_def fsm_handle_response_def split: sum.splits response_type.splits)
      (metis fst_conv)+
qed

lemma fsm_call_grows:
  assumes "fsm_call E V s e = Done s'" and "e \<noteq> EvDrain"
  shows "grows E s s'"
proof (cases e)
  case (EvInitRack now u members rng)
  with assms(1) obind_fst_Done init_rack_grows show ?thesis by (fastforce simp: fsm_call_def)
next
  case (EvTick now)
  with assms(1) obind_fst_Done tick_grows show ?thesis by (fastforce simp: fsm_call_def)
next
  case (EvMsg now sender msg)
  with assms(1) obind_fst_Done handle_msg_grows show ?thesis by (fastforce simp: fsm_call_def)
next
  case (EvDisconnected p)
  with assms(1) show ?thesis by (auto simp: fsm_call_def fsm_on_disconnected_def intro: grows_rm)
qed (use assms init_learner_grows load_grows on_connected_grows in \<open>auto simp: fsm_call_def\<close>)

section \<open>Loading the rack secret\<close>

text \<open>Messages that arrive one after the other, and what handling each of them returns.\<close>

fun fsm_feed :: "crypto_env \<Rightarrow> fsm \<Rightarrow> (instant \<times> baseboard \<times> lr_msg) list \<Rightarrow> (fsm \<times> handled list) outcome" where
  "fsm_feed E s [] = Done (s, [])"
| "fsm_feed E s ((t, p, msg) # msgs) =
     obind (fsm_handle_msg E s t p msg) (\<lambda>(s, r). obind (fsm_feed E s msgs) (\<lambda>(s, rs). Done (s, r # rs)))"

abbreviation share_msg :: "uuid \<Rightarrow> u8 list \<Rightarrow> lr_msg" where
  "share_msg rid x \<equiv> Rsp \<lparr>lrs_request_id = rid, lrs_type = RspShare x\<rparr>"

text \<open>A node that waits for shares, with the share of this package and these answers so far.\<close>

definition loading :: "lrtq_share_data \<Rightarrow> uuid \<Rightarrow> (baseboard, u8 list) btree_map \<Rightarrow> fsm \<Rightarrow> bool" where
  "loading common rid received s \<longleftrightarrow>
     fsm_rack_init_error s = None \<and> state_common (fsm_state s) = Some common \<and>
     (\<exists>u. bt_get (rqm_requests (fsm_request_manager s)) rid =
        Some (TrackLoadRackSecret u \<lparr>sa_threshold = lsd_threshold common, sa_received = received\<rparr>))"

lemma load_starts:
  assumes "fsm_rack_init_error s = None" and "state_common (fsm_state s) = Some common"
  obtains s' rid where "fsm_load_rack_secret s now = (s', Ok rid)" and "loading common rid [] s'"
proof -
  let ?o = "rqm_new_load_rack_secret_req (fsm_request_manager s) now (lsd_rack_uuid common) (lsd_threshold common)
    (fsm_connected_peers s)"
  have "fsm_load_rack_secret s now = (s\<lparr>fsm_request_manager := fst ?o\<rparr>, Ok (snd ?o))"
    using assms by (cases "fsm_state s") (simp_all add: fsm_load_rack_secret_def fsm_check_init_err_def case_prod_beta)
  moreover have "loading common (snd ?o) [] (s\<lparr>fsm_request_manager := fst ?o\<rparr>)"
    using assms by (simp add: loading_def rqm_req_defs rqm_new_request_def rqm_track_def rqm_push_def Let_def
        share_acks_new_def)
  ultimately show thesis using that by blast
qed

lemma share_counts:
  assumes "loading common rid received s" and "sha3_256 E x \<in> set (lsd_share_digests common)"
  shows "length (bt_insert p x received) \<noteq> unat (lsd_threshold common - 1) \<Longrightarrow>
      \<exists>s'. fsm_handle_msg E s t p (share_msg rid x) = Done (s', Ok None) \<and> loading common rid (bt_insert p x received) s'"
    and "length (bt_insert p x received) = unat (lsd_threshold common - 1) \<Longrightarrow>
      lrtq_combine E (bt_values (bt_insert p x received) @ [lsd_share common]) = Some secret \<Longrightarrow>
      \<exists>s'. fsm_handle_msg E s t p (share_msg rid x) = Done (s', Ok (Some (RackSecretOutput rid secret)))"
  using assms
  by (cases "fsm_state s";
      auto simp: loading_def fsm_handle_msg_def fsm_check_init_err_def fsm_handle_response_def fsm_on_share_def
        lr_validate_share_def bs_contains_def rqm_on_share_def Let_def rqm_remove_request_def lr_combine_shares_def)+

lemma values_insert:
  assumes "p \<notin> set (bt_keys m)" and "bt_ok m" and "distinct (bt_values m)" and "x \<notin> set (bt_values m)"
  shows "distinct (bt_values (bt_insert p x m))" and "set (bt_values (bt_insert p x m)) = insert x (set (bt_values m))"
    and "length (bt_insert p x m) = Suc (length m)" and "length (bt_values (bt_insert p x m)) = Suc (length m)"
proof -
  show "length (bt_insert p x m) = Suc (length m)" using assms(1) by (simp add: bt_insert_length bt_contains_keys)
  then show "length (bt_values (bt_insert p x m)) = Suc (length m)" by (simp add: bt_values_def)
qed (use assms in \<open>simp_all add: distinct_bt_values_insert set_bt_values_fresh\<close>)

lemma feed_loads:
  assumes "\<forall>x\<in>S. sha3_256 E x \<in> set (lsd_share_digests common)"
    and "\<forall>picked. set picked \<subseteq> S \<longrightarrow> distinct picked \<longrightarrow> unat (lsd_threshold common) \<le> length picked \<longrightarrow>
      lrtq_combine E picked = Some secret"
    and "lsd_share common \<in> S" and "2 \<le> unat (lsd_threshold common)"
    and "loading common rid received s" and "bt_ok received" and "replies \<noteq> []"
    and "length received + length replies + 1 = unat (lsd_threshold common)"
    and "distinct (bt_keys received @ map (\<lambda>(t, p, x). p) replies)"
    and "distinct (lsd_share common # bt_values received @ map (\<lambda>(t, p, x). x) replies)"
    and "set (bt_values received @ map (\<lambda>(t, p, x). x) replies) \<subseteq> S"
  shows "\<exists>s'. fsm_feed E s (map (\<lambda>(t, p, x). (t, p, share_msg rid x)) replies) =
    Done (s', replicate (length replies - 1) (Ok None) @ [Ok (Some (RackSecretOutput rid secret))])"
  using assms(5-11)
proof (induction replies arbitrary: s received)
  case (Cons reply replies)
  obtain t p x where reply: "reply = (t, p, x)" using prod_cases3 by blast
  have px: "p \<notin> set (bt_keys received)" "distinct (bt_values received)" "x \<notin> set (bt_values received)" "x \<in> S"
    using Cons.prems(5-7) reply by auto
  note ins = values_insert [OF px(1) Cons.prems(2) px(2,3)]
  have threshold: "unat (lsd_threshold common - 1) = unat (lsd_threshold common) - 1"
    using assms(4) by (intro unat_minus_one) auto
  have digest: "sha3_256 E x \<in> set (lsd_share_digests common)" using assms(1) px(4) by blast
  show ?case
  proof (cases "replies = []")
    case True
    have "lrtq_combine E (bt_values (bt_insert p x received) @ [lsd_share common]) = Some secret"
      using assms(2,3) Cons.prems(4,6,7) True ins reply by (simp add: bt_values_def)
    moreover have "length (bt_insert p x received) = unat (lsd_threshold common - 1)"
      using Cons.prems(4) True ins(3) threshold by simp
    ultimately obtain s' where "fsm_handle_msg E s t p (share_msg rid x) = Done (s', Ok (Some (RackSecretOutput rid secret)))"
      using share_counts(2) [OF Cons.prems(1) digest] by blast
    with True reply show ?thesis by simp
  next
    case False
    then have "0 < length replies" by simp
    then have "length (bt_insert p x received) \<noteq> unat (lsd_threshold common - 1)"
      using Cons.prems(4) ins(3) threshold by (cases replies) auto
    from share_counts(1) [OF Cons.prems(1) digest this, of t] obtain s' where
      s': "fsm_handle_msg E s t p (share_msg rid x) = Done (s', Ok None)"
      and loading: "loading common rid (bt_insert p x received) s'" by blast
    have "\<exists>s''. fsm_feed E s' (map (\<lambda>(t, p, x). (t, p, share_msg rid x)) replies) =
        Done (s'', replicate (length replies - 1) (Ok None) @ [Ok (Some (RackSecretOutput rid secret))])"
    proof (rule Cons.IH [OF loading _ False])
      show "distinct (bt_keys (bt_insert p x received) @ map (\<lambda>(t, p, x). p) replies)"
        using Cons.prems(2,5) reply bt_ok_distinct [OF bt_ok_insert [OF Cons.prems(2), of p x]]
        by (auto simp: bt_keys_def [symmetric])
    qed (use Cons.prems(2,4,6,7) ins reply in \<open>auto\<close>)
    then obtain s'' where
      "fsm_feed E s' (map (\<lambda>(t, p, x). (t, p, share_msg rid x)) replies) =
        Done (s'', replicate (length replies - 1) (Ok None) @ [Ok (Some (RackSecretOutput rid secret))])" ..
    moreover have "replicate (length replies) (Ok None :: handled) = Ok None # replicate (length replies - 1) (Ok None)"
      using \<open>0 < length replies\<close> by (cases "length replies") simp_all
    ultimately show ?thesis using s' reply by simp
  qed
qed simp

lemma holds_shares_unique:
  "holds_shares E secret b pkg \<Longrightarrow> holds_shares E secret b' pkg \<Longrightarrow> b = b'"
  by (simp add: holds_shares_def list.expand)

lemma holds_all_unique:
  assumes "list_all2 (holds_shares E secret) bs pkgs" and "list_all2 (holds_shares E secret) bs' pkgs"
  shows "bs = bs'"
proof (rule nth_equalityI)
  show len: "length bs = length bs'" using assms [THEN list_all2_lengthD] by simp
  fix i assume i: "i < length bs"
  show "bs ! i = bs' ! i"
    by (rule holds_shares_unique [OF list_all2_nthD [OF assms(1) i] list_all2_nthD [OF assms(2) i [unfolded len]]])
qed

text \<open>
  C14: a majority of the sleds load the rack secret. When a rack of 2 to 255 sleds was
  initialized, take a node with any of the shares, an initial member or a learner that was
  given one. It can start to load the secret; then \<open>n div 2\<close> other nodes, with other shares,
  answer in any order; every answer but the last is accepted without a result, and with the last the rack
  secret of the initialization is returned under the id of the request.
\<close>

theorem majority_loads_secret:
  assumes "vsss_scheme E V" and "aead_inverts E" and "crypto_usable E"
    and "2 \<le> length members" and "length members \<le> 255"
    and "create_pkgs E V rack_uuid members rng = Done (Ok (pkgs, rng'))"
    and "list_all2 (holds_shares E (fst (scalar_random V rng))) blocks pkgs"
    and "fsm_rack_init_error s = None" and "pkg \<in> set pkgs"
    and "state_common (fsm_state s) = Some ((sp_common pkg)\<lparr>lsd_share := own\<rparr>)" and "own \<in> set (concat blocks)"
    and "length replies = length members div 2" and "distinct (map (\<lambda>(t, p, x). p) replies)"
    and "distinct (own # map (\<lambda>(t, p, x). x) replies)" and "set (map (\<lambda>(t, p, x). x) replies) \<subseteq> set (concat blocks)"
  shows "\<exists>s1 rid s2. fsm_load_rack_secret s now = (s1, Ok rid) \<and>
    fsm_feed E s1 (map (\<lambda>(t, p, x). (t, p, share_msg rid x)) replies) =
      Done (s2, replicate (length members div 2 - 1) (Ok None) @
        [Ok (Some (RackSecretOutput rid (fst (scalar_random V rng))))])"
proof -
  let ?secret = "fst (scalar_random V rng)" and ?common = "(sp_common pkg)\<lparr>lsd_share := own\<rparr>"
  from create_pkgs_Ok [OF assms(1-5), of rack_uuid rng, unfolded assms(6)] obtain pkgs' rng'' blocks' where
    pkgs': "(Done (Ok (pkgs, rng')) :: (_, trust_quorum_error) rust_result outcome) = Done (Ok (pkgs', rng''))"
    and blocks': "list_all2 (holds_shares E ?secret) blocks' pkgs'"
    and all: "\<forall>pkg\<in>set pkgs'. lsd_rack_uuid (sp_common pkg) = rack_uuid \<and>
       unat (lsd_threshold (sp_common pkg)) = length members div 2 + 1 \<and>
       (\<forall>s\<in>set (concat blocks'). sha3_256 E s \<in> set (lsd_share_digests (sp_common pkg)))"
    and combine: "\<forall>picked. set picked \<subseteq> set (concat blocks') \<longrightarrow> distinct picked \<longrightarrow>
      length members div 2 + 1 \<le> length picked \<longrightarrow> lrtq_combine E picked = Some ?secret"
    by (elim exE conjE) (rule that)
  from pkgs' have "pkgs' = pkgs" by simp
  note same = holds_all_unique [OF blocks' [unfolded this] assms(7)]
  from bspec [OF all [unfolded \<open>pkgs' = pkgs\<close> same] assms(9)]
  have fields: "unat (lsd_threshold ?common) = length members div 2 + 1"
    "\<forall>x\<in>set (concat blocks). sha3_256 E x \<in> set (lsd_share_digests ?common)" by (simp_all del: set_concat)
  obtain s1 rid where load: "fsm_load_rack_secret s now = (s1, Ok rid)" "loading ?common rid [] s1"
    using load_starts [OF assms(8,10)] .
  have "\<exists>s2. fsm_feed E s1 (map (\<lambda>(t, p, x). (t, p, share_msg rid x)) replies) =
      Done (s2, replicate (length replies - 1) (Ok None) @ [Ok (Some (RackSecretOutput rid ?secret))])"
  proof (rule feed_loads [where S = "set (concat blocks)", OF _ _ _ _ load(2)])
    show "\<forall>picked. set picked \<subseteq> set (concat blocks) \<longrightarrow> distinct picked \<longrightarrow> unat (lsd_threshold ?common) \<le> length picked \<longrightarrow>
        lrtq_combine E picked = Some ?secret" using combine unfolding fields(1) same .
    show "replies \<noteq> []" using assms(4,12) by auto
    show "2 \<le> unat (lsd_threshold ?common)" using assms(4) unfolding fields(1) by simp
    show "length ([] :: (baseboard, u8 list) btree_map) + length replies + 1 = unat (lsd_threshold ?common)"
      unfolding fields(1) assms(12) by simp
    show "\<forall>x\<in>set (concat blocks). sha3_256 E x \<in> set (lsd_share_digests ?common)" by (rule fields(2))
    show "lsd_share ?common \<in> set (concat blocks)" using assms(11) by (simp del: set_concat)
    show "distinct (bt_keys ([] :: (baseboard, u8 list) btree_map) @ map (\<lambda>(t, p, x). p) replies)"
      using assms(13) by (simp add: bt_keys_def)
    show "distinct (lsd_share ?common # bt_values ([] :: (baseboard, u8 list) btree_map) @ map (\<lambda>(t, p, x). x) replies)"
      using assms(14) by (simp add: bt_values_def)
    show "set (bt_values ([] :: (baseboard, u8 list) btree_map) @ map (\<lambda>(t, p, x). x) replies) \<subseteq> set (concat blocks)"
      using assms(15) by (simp add: bt_values_def del: set_concat)
  qed simp
  then obtain s2 where "fsm_feed E s1 (map (\<lambda>(t, p, x). (t, p, share_msg rid x)) replies) =
      Done (s2, replicate (length members div 2 - 1) (Ok None) @ [Ok (Some (RackSecretOutput rid ?secret))])"
    unfolding assms(12) ..
  with load(1) show ?thesis by (intro exI conjI)
qed

section \<open>Examples\<close>

lemma two_blocks:
  assumes "list_all2 (holds_shares E secret) blocks pkgs" and "length pkgs = 4" and "distinct (concat blocks)"
  obtains x y z where "lsd_share (sp_common (pkgs ! 0)) = x" and "distinct [x, y, z]"
    and "{x, y, z} \<subseteq> set (concat blocks)"
proof -
  have "length blocks = 4" using assms(1,2) by (auto dest: list_all2_lengthD)
  then obtain a b c d where blocks: "blocks = [a, b, c, d]" by (auto simp: numeral_eq_Suc length_Suc_conv)
  have "\<forall>i<4. blocks ! i \<noteq> [] \<and> lsd_share (sp_common (pkgs ! i)) = hd (blocks ! i)"
    using assms(1,2) by (auto simp: list_all2_conv_all_nth holds_shares_def)
  then have "a \<noteq> []" "b \<noteq> []" "c \<noteq> []" "lsd_share (sp_common (pkgs ! 0)) = hd a"
    unfolding blocks by (auto simp: numeral_eq_Suc All_less_Suc)
  then obtain x as y bs z cs where "a = x # as" "b = y # bs" "c = z # cs" "lsd_share (sp_common (pkgs ! 0)) = x"
    by (metis list.exhaust list.sel(1))
  with assms(3) that [of x y z] show thesis by (auto simp: blocks)
qed

theorem majority_loads_secret_witness:
  "\<exists>pkgs rng' s1 rid s2 y z.
     create_pkgs toy_lrtq_env toy_vsss (replicate 16 1) example_members (\<lambda>_. 7) = Done (Ok (pkgs, rng')) \<and>
     fsm_load_rack_secret (fsm_new (Pc ''a'' ''1'') lrtq_config (InitialMember (pkgs ! 0) []) example_uuids) 0 =
       (s1, Ok rid) \<and>
     fsm_feed toy_lrtq_env s1 [(0, Pc ''b'' ''1'', share_msg rid y), (1, Pc ''c'' ''1'', share_msg rid z)] =
       Done (s2, [Ok None, Ok (Some (RackSecretOutput rid (fst (scalar_random toy_vsss (\<lambda>_. 7)))))])"
proof -
  have len: "length example_members = 4" by (simp add: example_members_def)
  then have n: "2 \<le> length example_members" "length example_members \<le> 255" by simp_all
  from create_pkgs_Ok [OF toy_scheme toy_lrtq_env_ok n, of "replicate 16 1" "\<lambda>_. 7"] obtain pkgs rng' blocks where
    create: "create_pkgs toy_lrtq_env toy_vsss (replicate 16 1) example_members (\<lambda>_. 7) = Done (Ok (pkgs, rng'))"
    and blocks: "list_all2 (holds_shares toy_lrtq_env (fst (scalar_random toy_vsss (\<lambda>_. 7)))) blocks pkgs"
    and pkgs: "length pkgs = length example_members" "distinct (concat blocks)" by (elim exE conjE) (rule that)
  obtain x y z where x: "lsd_share (sp_common (pkgs ! 0)) = x" "distinct [x, y, z]" "{x, y, z} \<subseteq> set (concat blocks)"
    using two_blocks [OF blocks pkgs(1) [unfolded len] pkgs(2)] .
  let ?s = "fsm_new (Pc ''a'' ''1'') lrtq_config (InitialMember (pkgs ! 0) []) example_uuids"
  have s: "fsm_rack_init_error ?s = None" "pkgs ! 0 \<in> set pkgs"
    "state_common (fsm_state ?s) = Some ((sp_common (pkgs ! 0))\<lparr>lsd_share := x\<rparr>)" "x \<in> set (concat blocks)"
    using pkgs(1) len x(1,3) by (simp_all add: fsm_new_def del: set_concat)
  let ?replies = "[(0 :: nat, Pc ''b'' ''1'', y), (1, Pc ''c'' ''1'', z)]"
  have r: "length ?replies = length example_members div 2" "distinct (map (\<lambda>(t, p, x). p) ?replies)"
    "distinct (x # map (\<lambda>(t, p, x). x) ?replies)" "set (map (\<lambda>(t, p, x). x) ?replies) \<subseteq> set (concat blocks)"
    using x(2,3) by (simp_all add: len del: set_concat)
  have two: "length example_members div 2 - 1 = Suc 0" by (simp add: len)
  from majority_loads_secret [OF toy_scheme toy_lrtq_env_ok n create blocks s r, of 0] create show ?thesis
    unfolding two replicate_Suc replicate_0 append_Cons append_Nil list.map prod.case by blast
qed

end
