(* ===== verification/Bootstore_Storage.thy ===== *)
theory Bootstore_Storage
  imports Bootstore_Fsm TQ_Storage
begin

text \<open>
  What the LRTQ node keeps on disk of its state machine
  (\<^verbatim>\<open>bootstore/src/schemes/v0/storage.rs\<close>), and what the trust quorum later reads of it
  for the upgrade.
\<close>

section \<open>Definitions\<close>

record persistent_fsm_state =
  pfs_generation :: u64
  pfs_state :: fsm_state

definition pfs_is_newer_than :: "persistent_fsm_state \<Rightarrow> persistent_fsm_state \<Rightarrow> bool" where
  "pfs_is_newer_than self other = (pfs_generation self > pfs_generation other)"

definition pfs_generation_bump :: "persistent_fsm_state \<Rightarrow> persistent_fsm_state" where
  "pfs_generation_bump self = self\<lparr>pfs_generation := pfs_generation self + 1\<rparr>"

definition pfs_ledgerable :: "persistent_fsm_state serde \<Rightarrow> persistent_fsm_state ledgerable" where
  "pfs_ledgerable J = \<lparr>is_newer_than = pfs_is_newer_than, generation_bump = pfs_generation_bump,
     to_json = fst J, from_json = snd J\<rparr>"

definition pfs_save ::
  "persistent_fsm_state serde \<Rightarrow> io_env \<Rightarrow> files \<Rightarrow> path list \<Rightarrow> u64 \<Rightarrow> fsm_state \<Rightarrow> (files \<times> u64) outcome" where
  "pfs_save J io fs paths generation state =
     (let persistent_state = \<lparr>pfs_generation = generation, pfs_state = state\<rparr>;
          ledger = ledger_new_with paths persistent_state in
      case ledger_commit (pfs_ledgerable J) io fs ledger of
        (ledger, fs, Inr _) \<Rightarrow> Done (fs, pfs_generation (ledger_data ledger))
      | (_, _, Inl _) \<Rightarrow> Panic ''Critical: Failed to save bootstore ledger for Fsm::State'')"

definition pfs_load ::
  "persistent_fsm_state serde \<Rightarrow> io_env \<Rightarrow> files \<Rightarrow> path list \<Rightarrow> baseboard \<Rightarrow> fsm_config \<Rightarrow> (nat \<Rightarrow> uuid) \<Rightarrow> fsm \<times> u64" where
  "pfs_load J io fs paths node_id config uuids =
     (case ledger_new (pfs_ledgerable J) io fs paths of
        Some ledger \<Rightarrow> (fsm_new node_id config (pfs_state (ledger_data ledger)) uuids, pfs_generation (ledger_data ledger))
      | None \<Rightarrow> (fsm_new_uninitialized node_id config uuids, 0))"

definition load_for_trust_quorum_upgrade ::
  "persistent_fsm_state serde \<Rightarrow> io_env \<Rightarrow> files \<Rightarrow> path list \<Rightarrow> lrtq_share_data option" where
  "load_for_trust_quorum_upgrade J io fs paths =
     (case ledger_new (pfs_ledgerable J) io fs paths of
        None \<Rightarrow> None
      | Some ledger \<Rightarrow>
          (case pfs_state (ledger_data ledger) of
             Uninitialized \<Rightarrow> None
           | Learning \<Rightarrow> None
           | InitialMember pkg _ \<Rightarrow> Some (sp_common pkg)
           | Learned pkg \<Rightarrow> Some (lp_common pkg)))"

section \<open>Round trips\<close>

interpretation pfs_gen: generation_numbered pfs_is_newer_than pfs_generation_bump pfs_generation
  by unfold_locales (simp_all add: pfs_is_newer_than_def pfs_generation_bump_def)

text \<open>What a start that can read these paths finds.\<close>

definition disk_state :: "persistent_fsm_state serde \<Rightarrow> io_env \<Rightarrow> files \<Rightarrow> path list \<Rightarrow> fsm_state \<times> u64" where
  "disk_state J io fs paths =
     (case ledger_read (pfs_ledgerable J) io fs paths of
        Some l \<Rightarrow> (pfs_state l, pfs_generation l)
      | None \<Rightarrow> (Uninitialized, 0))"

lemma pfs_load_disk:
  "pfs_load J io fs paths me config uuids =
     (fsm_new me config (fst (disk_state J io fs paths)) uuids, snd (disk_state J io fs paths))"
  by (simp add: pfs_load_def disk_state_def ledger_new_def fsm_new_uninitialized_def split: option.split)

lemma upgrade_disk: "load_for_trust_quorum_upgrade J io fs paths = state_common (fst (disk_state J io fs paths))"
  by (simp add: load_for_trust_quorum_upgrade_def disk_state_def ledger_new_def split: option.split fsm_state.split)

lemma disk_state_newest:
  "generations_below (pfs_ledgerable J) pfs_generation fs paths (snd (disk_state J all_io fs paths))"
  using pfs_gen.read_newest [of "pfs_ledgerable J" fs paths]
  by (auto simp: disk_state_def pfs_ledgerable_def split: option.splits)

lemma pfs_save_Done:
  assumes "pfs_save J io fs paths g st = Done (fs', g')"
  obtains l u where "ledger_commit (pfs_ledgerable J) io fs (ledger_new_with paths \<lparr>pfs_generation = g, pfs_state = st\<rparr>) =
      (l, fs', Ok u)" and "g' = g + 1" and "\<exists>p\<in>set paths. io_write_ok io p"
proof -
  let ?l = "ledger_new_with paths \<lparr>pfs_generation = g, pfs_state = st\<rparr>"
  obtain l fs1 r where c: "ledger_commit (pfs_ledgerable J) io fs ?l = (l, fs1, r)" by (rule prod_cases3)
  then have "l = ?l\<lparr>ledger_data := pfs_generation_bump (ledger_data ?l)\<rparr>"
    by (simp add: ledger_commit_eq Let_def pfs_ledgerable_def)
  then have "pfs_generation (ledger_data l) = g + 1" by (simp add: pfs_generation_bump_def ledger_new_with_def)
  moreover have "r = Ok u \<Longrightarrow> \<exists>p\<in>set paths. io_write_ok io p" for u
    using c by (auto simp: ledger_commit_eq Let_def ledger_new_with_def split: if_splits)
  ultimately show thesis using c assms by (cases r) (auto simp: pfs_save_def intro: that)
qed

lemma pfs_save_load:
  assumes "json_inverts (pfs_ledgerable J)" and "pfs_save J io fs paths g st = Done (fs', g')"
    and "generations_below (pfs_ledgerable J) pfs_generation fs paths g" and "g + 1 \<noteq> 0"
  shows "\<exists>p\<in>set paths. io_write_ok io p \<and> io_read_ok io' p \<Longrightarrow> disk_state J io' fs' paths = (st, g + 1)"
    and "generations_below (pfs_ledgerable J) pfs_generation fs' paths g'" and "g' = g + 1"
proof -
  let ?l = "ledger_new_with paths \<lparr>pfs_generation = g, pfs_state = st\<rparr>"
  from assms(2) obtain l u where c: "ledger_commit (pfs_ledgerable J) io fs ?l = (l, fs', Ok u)" and g': "g' = g + 1"
    by (rule pfs_save_Done)
  have L: "is_newer_than (pfs_ledgerable J) = pfs_is_newer_than"
    "generation_bump (pfs_ledgerable J) = pfs_generation_bump" by (simp_all add: pfs_ledgerable_def)
  show "disk_state J io' fs' paths = (st, g + 1)" if "\<exists>p\<in>set paths. io_write_ok io p \<and> io_read_ok io' p"
    using pfs_gen.commit_then_read [OF L assms(1) c, of io'] assms(3,4) that
    by (simp add: disk_state_def ledger_new_with_def pfs_generation_bump_def)
  show "generations_below (pfs_ledgerable J) pfs_generation fs' paths g'"
    using pfs_gen.commit_generations [OF L(2) assms(1) c] assms(3,4) g'
    by (simp add: ledger_new_with_def pfs_generation_bump_def)
  show "g' = g + 1" by (rule g')
qed

end
