(* ===== verification/Bootstore_Node.thy ===== *)
theory Bootstore_Node
  imports Bootstore_Shares Bootstore_Storage Framing
begin

text \<open>
  The task that drives an LRTQ node (\<^verbatim>\<open>bootstore/src/schemes/v0/peer.rs\<close>): it takes
  requests of the bootstrap agent, messages of the connection tasks and timer ticks, persists the
  state of the state machine when a call asks for it, answers requests, manages the connections, and
  finally hands the envelopes to the connections. Sockets, channels and the tasks of the
  connections are the environment: what they report is part of the events, what they are sent is
  part of the output. A connection task is identified by the unique id of its handle, an
  answer channel by a number.
\<close>

section \<open>Definitions\<close>

type_synonym responder = nat

record bs_config =
  bc_id :: baseboard
  bc_addr :: socket_addr
  bc_learn_timeout :: nat
  bc_rack_init_timeout :: nat
  bc_rack_secret_request_timeout :: nat
  bc_fsm_state_ledger_paths :: "path list"
  bc_network_config_ledger_paths :: "path list"

datatype node_request_error =
  RequestAlreadyPending
| FsmError api_error
| RecvError
| SendError
| StaleConfig u64 u64

datatype node_request =
  InitRackRequest uuid "baseboard btree_set" responder
| InitLearnerRequest responder
| LoadRackSecretRequest responder
| PeerAddresses "socket_addr btree_set"
| GetAddress responder
| GetStatus responder
| Shutdown
| UpdateNetworkConfigRequest network_config responder

record bs_status =
  bst_fsm_ledger_generation :: u64
  bst_network_config_ledger_generation :: "u64 option"
  bst_fsm_state :: string
  bst_peers :: "socket_addr btree_set"
  bst_connections :: "(baseboard, socket_addr) btree_map"
  bst_accepted_connections :: "socket_addr btree_set"
  bst_negotiating_connections :: "socket_addr btree_set"

datatype conn_to_main =
  ConnectedAcceptor socket_addr socket_addr baseboard
| ConnectedInitiator socket_addr baseboard
| DisconnectedPeer baseboard
| ReceivedMsg baseboard lr_msg
| FailedAcceptorHandshake socket_addr
| ReceivedConfig baseboard network_config

datatype main_to_conn = CloseConn | NetworkConfigMsg network_config

datatype bs_reply =
  UnitReply "(unit, node_request_error) rust_result"
| SecretReply "(u8 list, node_request_error) rust_result"
| AddressReply socket_addr
| StatusReply bs_status

text \<open>
  What the task puts out: an envelope of the state machine or another message to a connection
  task, an answer to a request, or the start of a connection task for an address.
\<close>

datatype bs_output =
  Deliver lr_envelope u64
| ToConn u64 main_to_conn
| Answer responder bs_reply
| SpawnInitiator u64 socket_addr
| SpawnAccepted u64 socket_addr

record peer_conn_handle =
  pch_addr :: socket_addr
  pch_unique_id :: u64

record accepted_conn_handle =
  ach_unique_id :: u64

record bs_node =
  bn_fsm_ledger_generation :: u64
  bn_network_config :: "network_config option"
  bn_config :: bs_config
  bn_fsm :: fsm
  bn_peers :: "socket_addr btree_set"
  bn_handle_unique_id_counter :: u64
  bn_shutdown :: bool
  bn_accepted :: "(socket_addr, accepted_conn_handle) btree_map"
  bn_initiating :: "(socket_addr, peer_conn_handle) btree_map"
  bn_established :: "(baseboard, peer_conn_handle) btree_map"
  bn_init_responder :: "responder option"
  bn_rack_secret_responder :: "responder option"

record bs_env =
  be_crypto :: crypto_env
  be_vsss :: vsss_env
  be_state_serde :: "persistent_fsm_state serde"
  be_network_serde :: "network_config serde"

record bs_world =
  bw_state_files :: files
  bw_network_files :: files
  bw_output :: "bs_output list"

definition bs_emit :: "bs_world \<Rightarrow> bs_output list \<Rightarrow> bs_world" where
  "bs_emit w outs = w\<lparr>bw_output := bw_output w @ outs\<rparr>"

definition fsm_config_of :: "bs_config \<Rightarrow> fsm_config" where
  "fsm_config_of value = \<lparr>fc_learn_timeout = bc_learn_timeout value, fc_rack_init_timeout = bc_rack_init_timeout value,
     fc_rack_secret_request_timeout = bc_rack_secret_request_timeout value\<rparr>"

definition bs_node_new :: "bs_env \<Rightarrow> io_env \<Rightarrow> bs_config \<Rightarrow> (nat \<Rightarrow> uuid) \<Rightarrow> bs_world \<Rightarrow> bs_node" where
  "bs_node_new B io config uuids w =
     (let (fsm, ledger_generation) = pfs_load (be_state_serde B) io (bw_state_files w)
            (bc_fsm_state_ledger_paths config) (bc_id config) (fsm_config_of config) uuids;
          network_config = nc_load (be_network_serde B) io (bw_network_files w) (bc_network_config_ledger_paths config)
      in \<lparr>bn_fsm_ledger_generation = ledger_generation, bn_network_config = network_config, bn_config = config,
          bn_fsm = fsm, bn_peers = [], bn_handle_unique_id_counter = 0, bn_shutdown = False, bn_accepted = [],
          bn_initiating = [], bn_established = [], bn_init_responder = None, bn_rack_secret_responder = None\<rparr>)"

text \<open>Route messages to their destination connections.\<close>

definition bs_deliver_envelopes :: "bs_node \<Rightarrow> bs_world \<Rightarrow> bs_node \<times> bs_world" where
  "bs_deliver_envelopes self w =
     (let (envelopes, fsm) = fsm_drain_envelopes (bn_fsm self)
      in (self\<lparr>bn_fsm := fsm\<rparr>,
          bs_emit w (concat (map (\<lambda>envelope.
            case bt_get (bn_established self) (le_to envelope) of
              Some conn_handle \<Rightarrow> [Deliver envelope (pch_unique_id conn_handle)]
            | None \<Rightarrow> []) envelopes))))"

definition bs_save_fsm :: "bs_env \<Rightarrow> io_env \<Rightarrow> bs_node \<Rightarrow> bs_world \<Rightarrow> (bs_node \<times> bs_world) outcome" where
  "bs_save_fsm B io self w =
     obind (pfs_save (be_state_serde B) io (bw_state_files w) (bc_fsm_state_ledger_paths (bn_config self))
              (bn_fsm_ledger_generation self) (fsm_state (bn_fsm self))) (\<lambda>(files, generation).
       Done (self\<lparr>bn_fsm_ledger_generation := generation\<rparr>, w\<lparr>bw_state_files := files\<rparr>))"

definition bs_answer_init :: "bs_node \<Rightarrow> bs_world \<Rightarrow> (unit, node_request_error) rust_result \<Rightarrow> bs_node \<times> bs_world" where
  "bs_answer_init self w result =
     (case bn_init_responder self of
        Some responder \<Rightarrow> (self\<lparr>bn_init_responder := None\<rparr>, bs_emit w [Answer responder (UnitReply result)])
      | None \<Rightarrow> (self, w))"

definition bs_answer_secret ::
  "bs_node \<Rightarrow> bs_world \<Rightarrow> (u8 list, node_request_error) rust_result \<Rightarrow> bs_node \<times> bs_world" where
  "bs_answer_secret self w result =
     (case bn_rack_secret_responder self of
        Some responder \<Rightarrow> (self\<lparr>bn_rack_secret_responder := None\<rparr>, bs_emit w [Answer responder (SecretReply result)])
      | None \<Rightarrow> (self, w))"

definition bs_handle_api_output ::
  "bs_env \<Rightarrow> io_env \<Rightarrow> bs_node \<Rightarrow> bs_world \<Rightarrow> api_output \<Rightarrow> (bs_node \<times> bs_world) outcome" where
  "bs_handle_api_output B io self w output =
     (let initialized = (let (self, w) = bs_answer_init self w (Ok ()) in bs_save_fsm B io self w) in
      case output of
        PeerInitialized \<Rightarrow> initialized
      | RackInitComplete \<Rightarrow> initialized
      | RackSecretOutput _ secret \<Rightarrow> Done (bs_answer_secret self w (Ok secret))
      | ShareDistributedToLearner \<Rightarrow> bs_save_fsm B io self w
      | LearningCompleted \<Rightarrow> initialized)"

definition bs_handle_api_error :: "bs_node \<Rightarrow> bs_world \<Rightarrow> api_error \<Rightarrow> bs_node \<times> bs_world" where
  "bs_handle_api_error self w err =
     (let init = bs_answer_init self w (Err (FsmError err));
          secret = bs_answer_secret self w (Err (FsmError err)) in
      case err of
        ApiAlreadyInitialized \<Rightarrow> init
      | RackInitTimeout _ \<Rightarrow> init
      | ApiStillLearning \<Rightarrow> secret
      | ApiNotInitialized \<Rightarrow> secret
      | RackSecretLoadTimeout \<Rightarrow> secret
      | RackInitFailed _ \<Rightarrow> secret
      | FailedToReconstructRackSecret \<Rightarrow> secret
      | FailedToDecryptExtraShares \<Rightarrow> (self, w)
      | UnexpectedResponse _ _ _ _ \<Rightarrow> (self, w)
      | ErrorResponseReceived _ _ _ _ \<Rightarrow> (self, w)
      | InvalidShare _ \<Rightarrow> (self, w))"

definition bs_send_network_config :: "bs_world \<Rightarrow> network_config \<Rightarrow> peer_conn_handle \<Rightarrow> bs_world" where
  "bs_send_network_config w config handle = bs_emit w [ToConn (pch_unique_id handle) (NetworkConfigMsg config)]"

definition bs_broadcast_network_config :: "bs_node \<Rightarrow> bs_world \<Rightarrow> baseboard option \<Rightarrow> bs_world outcome" where
  "bs_broadcast_network_config self w excluded_peer =
     obind (expect ''called `Option::unwrap()` on a `None` value'' (bn_network_config self)) (\<lambda>network_config.
       Done (foldl (\<lambda>w (peer_id, handle). bs_send_network_config w network_config handle) w
         (filter (\<lambda>(peer_id, _). Some peer_id \<noteq> excluded_peer) (bn_established self))))"

definition bs_current_generation :: "bs_node \<Rightarrow> u64" where
  "bs_current_generation self = (case bn_network_config self of Some c \<Rightarrow> nc_generation c | None \<Rightarrow> 0)"

definition bs_store_network_config ::
  "bs_env \<Rightarrow> io_env \<Rightarrow> bs_node \<Rightarrow> bs_world \<Rightarrow> network_config \<Rightarrow> baseboard option \<Rightarrow> (bs_node \<times> bs_world) outcome" where
  "bs_store_network_config B io self w config excluded_peer =
     (let self = self\<lparr>bn_network_config := Some config\<rparr> in
      obind (nc_save (be_network_serde B) io (bw_network_files w) (bc_network_config_ledger_paths (bn_config self)) config)
        (\<lambda>files. obind (bs_broadcast_network_config self (w\<lparr>bw_network_files := files\<rparr>) excluded_peer) (\<lambda>w.
          Done (self, w))))"

definition bs_remove_established :: "bs_node \<Rightarrow> bs_world \<Rightarrow> baseboard \<Rightarrow> bs_node \<times> bs_world" where
  "bs_remove_established self w peer_id =
     (case bt_get (bn_established self) peer_id of
        Some handle \<Rightarrow> (self\<lparr>bn_established := bt_remove peer_id (bn_established self)\<rparr>,
                        bs_emit w [ToConn (pch_unique_id handle) CloseConn])
      | None \<Rightarrow> (self, w))"

definition bs_remove_peer :: "bs_node \<times> bs_world \<Rightarrow> socket_addr \<Rightarrow> bs_node \<times> bs_world" where
  "bs_remove_peer = (\<lambda>(self, w) addr.
     case bt_get (bn_initiating self) addr of
       Some handle \<Rightarrow> (self\<lparr>bn_initiating := bt_remove addr (bn_initiating self)\<rparr>,
                       bs_emit w [ToConn (pch_unique_id handle) CloseConn])
     | None \<Rightarrow>
         (case find (\<lambda>(_, handle). pch_addr handle = addr) (bn_established self) of
            Some (peer_id, handle) \<Rightarrow>
              (self\<lparr>bn_established := bt_remove peer_id (bn_established self)\<rparr>,
               bs_emit w [ToConn (pch_unique_id handle) CloseConn])
          | None \<Rightarrow> (self, w)))"

definition bs_initiate :: "bs_node \<times> bs_world \<Rightarrow> socket_addr \<Rightarrow> bs_node \<times> bs_world" where
  "bs_initiate = (\<lambda>(self, w) addr.
     if addr < bc_addr (bn_config self) then
       (let unique_id = bn_handle_unique_id_counter self + 1
        in (self\<lparr>bn_handle_unique_id_counter := unique_id,
                 bn_initiating := bt_insert addr \<lparr>pch_addr = addr, pch_unique_id = unique_id\<rparr> (bn_initiating self)\<rparr>,
            bs_emit w [SpawnInitiator unique_id addr]))
     else (self, w))"

definition bs_manage_connections :: "bs_node \<Rightarrow> bs_world \<Rightarrow> socket_addr btree_set \<Rightarrow> bs_node \<times> bs_world" where
  "bs_manage_connections self w peers =
     (if peers = bn_peers self then (self, w)
      else
        (let peers_to_remove = filter (\<lambda>p. \<not> bs_contains peers p) (bn_peers self);
             new_peers = filter (\<lambda>p. \<not> bs_contains (bn_peers self) p) peers;
             self = self\<lparr>bn_peers := peers\<rparr>
         in foldl bs_remove_peer (foldl bs_initiate (self, w) new_peers) peers_to_remove))"

text \<open>An accepted connection, from the address if it is one of version 6.\<close>

definition bs_on_accept :: "bs_node \<Rightarrow> bs_world \<Rightarrow> socket_addr option \<Rightarrow> bs_node \<times> bs_world" where
  "bs_on_accept self w res =
     (case res of
        None \<Rightarrow> (self, w)
      | Some addr \<Rightarrow>
          (let (self, w) = (case bt_get (bn_accepted self) addr of
                 Some handle \<Rightarrow> (self\<lparr>bn_accepted := bt_remove addr (bn_accepted self)\<rparr>,
                                 bs_emit w [ToConn (ach_unique_id handle) CloseConn])
               | None \<Rightarrow> (self, w));
               unique_id = bn_handle_unique_id_counter self + 1
           in (self\<lparr>bn_handle_unique_id_counter := unique_id,
                    bn_accepted := bt_insert addr \<lparr>ach_unique_id = unique_id\<rparr> (bn_accepted self)\<rparr>,
               bs_emit w [SpawnAccepted unique_id addr])))"

definition bs_node_status :: "bs_node \<Rightarrow> bs_status" where
  "bs_node_status self =
     \<lparr>bst_fsm_ledger_generation = bn_fsm_ledger_generation self,
      bst_network_config_ledger_generation = map_option nc_generation (bn_network_config self),
      bst_fsm_state = fsm_state_name (fsm_state (bn_fsm self)), bst_peers = bn_peers self,
      bst_connections = map (\<lambda>(peer_id, handle). (peer_id, pch_addr handle)) (bn_established self),
      bst_accepted_connections = bt_keys (bn_accepted self),
      bst_negotiating_connections = bt_keys (bn_initiating self)\<rparr>"

definition bs_on_api_request ::
  "bs_env \<Rightarrow> io_env \<Rightarrow> rng \<Rightarrow> instant \<Rightarrow> bs_node \<Rightarrow> bs_world \<Rightarrow> node_request \<Rightarrow> (bs_node \<times> bs_world) outcome" where
  "bs_on_api_request B io rng now self w request =
     (let unit = (\<lambda>self w responder result. Done (self, bs_emit w [Answer responder (UnitReply result)])) in
      case request of
        InitRackRequest rack_uuid initial_membership responder \<Rightarrow>
          (if bn_init_responder self \<noteq> None then unit self w responder (Err RequestAlreadyPending)
           else obind (fsm_init_rack (be_crypto B) (be_vsss B) rng (bn_fsm self) now rack_uuid initial_membership)
             (\<lambda>(fsm, r).
               let self = self\<lparr>bn_fsm := fsm\<rparr> in
               case r of
                 Inl err \<Rightarrow> unit self w responder (Err (FsmError err))
               | Inr _ \<Rightarrow> Done (bs_deliver_envelopes (self\<lparr>bn_init_responder := Some responder\<rparr>) w)))
      | InitLearnerRequest responder \<Rightarrow>
          (if bn_init_responder self \<noteq> None then unit self w responder (Err RequestAlreadyPending)
           else
             (let (fsm, r) = fsm_init_learner (bn_fsm self) now;
                  self = self\<lparr>bn_fsm := fsm\<rparr> in
              case r of
                Inl err \<Rightarrow> unit self w responder (Err (FsmError err))
              | Inr _ \<Rightarrow> Done (bs_deliver_envelopes (self\<lparr>bn_init_responder := Some responder\<rparr>) w)))
      | LoadRackSecretRequest responder \<Rightarrow>
          (if bn_rack_secret_responder self \<noteq> None
           then Done (self, bs_emit w [Answer responder (SecretReply (Err RequestAlreadyPending))])
           else
             (let (fsm, r) = fsm_load_rack_secret (bn_fsm self) now;
                  self = self\<lparr>bn_fsm := fsm\<rparr> in
              case r of
                Inl err \<Rightarrow> Done (self, bs_emit w [Answer responder (SecretReply (Err (FsmError err)))])
              | Inr _ \<Rightarrow> Done (bs_deliver_envelopes (self\<lparr>bn_rack_secret_responder := Some responder\<rparr>) w)))
      | PeerAddresses peers \<Rightarrow> Done (bs_manage_connections self w peers)
      | GetAddress responder \<Rightarrow> Done (self, bs_emit w [Answer responder (AddressReply (bc_addr (bn_config self)))])
      | GetStatus responder \<Rightarrow> Done (self, bs_emit w [Answer responder (StatusReply (bs_node_status self))])
      | Shutdown \<Rightarrow>
          Done (self\<lparr>bn_shutdown := True\<rparr>,
            bs_emit w (map (\<lambda>uid. ToConn uid CloseConn)
              (map ach_unique_id (bt_values (bn_accepted self)) @ map pch_unique_id (bt_values (bn_initiating self)) @
               map pch_unique_id (bt_values (bn_established self)))))
      | UpdateNetworkConfigRequest config responder \<Rightarrow>
          (let current_gen = bs_current_generation self in
           if current_gen > nc_generation config
           then unit self w responder (Err (StaleConfig (nc_generation config) current_gen))
           else if current_gen = nc_generation config
           then unit self w responder (Err (StaleConfig (nc_generation config) current_gen))
           else obind (bs_store_network_config B io self w config None) (\<lambda>(self, w). unit self w responder (Ok ()))))"

definition bs_established :: "bs_node \<Rightarrow> bs_world \<Rightarrow> instant \<Rightarrow> baseboard \<Rightarrow> peer_conn_handle \<Rightarrow> bs_node \<times> bs_world" where
  "bs_established self w now peer_id handle =
     (let w = (case bn_network_config self of
                 Some network_config \<Rightarrow> bs_send_network_config w network_config handle
               | None \<Rightarrow> w)
      in (self\<lparr>bn_established := bt_insert peer_id handle (bn_established self),
               bn_fsm := fst (fsm_on_connected (bn_fsm self) now peer_id)\<rparr>, w))"

definition bs_on_conn_msg ::
  "bs_env \<Rightarrow> io_env \<Rightarrow> instant \<Rightarrow> bs_node \<Rightarrow> bs_world \<Rightarrow> u64 \<Rightarrow> conn_to_main \<Rightarrow> (bs_node \<times> bs_world) outcome" where
  "bs_on_conn_msg B io now self w unique_id msg =
     (case msg of
        ConnectedAcceptor accepted_addr addr peer_id \<Rightarrow>
          (case bt_get (bn_accepted self) accepted_addr of
             None \<Rightarrow> Done (self, w)
           | Some accepted_handle \<Rightarrow>
               (if unique_id \<noteq> ach_unique_id accepted_handle then Done (self, w)
                else
                  (let self = self\<lparr>bn_accepted := bt_remove accepted_addr (bn_accepted self)\<rparr>;
                       (self, w) = bs_remove_established self w peer_id
                   in Done (bs_established self w now peer_id
                        \<lparr>pch_addr = addr, pch_unique_id = ach_unique_id accepted_handle\<rparr>))))
      | ConnectedInitiator addr peer_id \<Rightarrow>
          (case bt_get (bn_initiating self) addr of
             None \<Rightarrow> Done (self, w)
           | Some handle \<Rightarrow>
               (if unique_id \<noteq> pch_unique_id handle then Done (self, w)
                else Done (bs_established (self\<lparr>bn_initiating := bt_remove addr (bn_initiating self)\<rparr>) w now peer_id handle)))
      | DisconnectedPeer peer_id \<Rightarrow>
          (case bt_get (bn_established self) peer_id of
             None \<Rightarrow> Done (self, w)
           | Some handle \<Rightarrow>
               (if unique_id \<noteq> pch_unique_id handle then Done (self, w)
                else
                  (let self = self\<lparr>bn_established := bt_remove peer_id (bn_established self)\<rparr>;
                       self = (if pch_addr handle < bc_addr (bn_config self)
                               then self\<lparr>bn_initiating := bt_insert (pch_addr handle) handle (bn_initiating self)\<rparr>
                               else self)
                   in Done (self\<lparr>bn_fsm := fsm_on_disconnected (bn_fsm self) peer_id\<rparr>, w))))
      | ReceivedMsg from msg \<Rightarrow>
          obind (fsm_handle_msg (be_crypto B) (bn_fsm self) now from msg) (\<lambda>(fsm, r).
            let self = self\<lparr>bn_fsm := fsm\<rparr> in
            case r of
              Inr None \<Rightarrow> Done (self, w)
            | Inr (Some api_output) \<Rightarrow> bs_handle_api_output B io self w api_output
            | Inl err \<Rightarrow> Done (bs_handle_api_error self w err))
      | FailedAcceptorHandshake addr \<Rightarrow>
          (case bt_get (bn_accepted self) addr of
             Some handle \<Rightarrow>
               (if ach_unique_id handle \<noteq> unique_id then Done (self, w)
                else Done (self\<lparr>bn_accepted := bt_remove addr (bn_accepted self)\<rparr>, w))
           | None \<Rightarrow> Done (self\<lparr>bn_accepted := bt_remove addr (bn_accepted self)\<rparr>, w))
      | ReceivedConfig from config \<Rightarrow>
          (if nc_generation config > bs_current_generation self
           then bs_store_network_config B io self w config (Some from)
           else Done (self, w)))"

text \<open>One round of the loop of \<open>run\<close>: an event, then the envelopes are delivered.\<close>

datatype bs_event =
  AcceptEvent "socket_addr option"
| RequestEvent node_request rng
| ConnMsgEvent u64 conn_to_main
| TickEvent

definition bs_round ::
  "bs_env \<Rightarrow> io_env \<Rightarrow> instant \<Rightarrow> bs_node \<Rightarrow> bs_world \<Rightarrow> bs_event \<Rightarrow> (bs_node \<times> bs_world) outcome" where
  "bs_round B io now self w event =
     (if bn_shutdown self then Done (self, w)
      else obind (case event of
               AcceptEvent res \<Rightarrow> Done (bs_on_accept self w res)
             | RequestEvent request rng \<Rightarrow> bs_on_api_request B io rng now self w request
             | ConnMsgEvent unique_id msg \<Rightarrow> bs_on_conn_msg B io now self w unique_id msg
             | TickEvent \<Rightarrow>
                 obind (fsm_tick (bn_fsm self) now) (\<lambda>(fsm, r).
                   let self = self\<lparr>bn_fsm := fsm\<rparr> in
                   Done (case r of
                           Inl errors \<Rightarrow> foldl (\<lambda>(self, w) (_, err). bs_handle_api_error self w err) (self, w) errors
                         | Inr _ \<Rightarrow> (self, w))))
        (\<lambda>(self, w). Done (bs_deliver_envelopes self w)))"

end
