(* ===== verification/Bootstore_Durability.thy ===== *)
theory Bootstore_Durability
  imports Bootstore_Node
begin

text \<open>
  The promise behind the order of operations in \<^verbatim>\<open>bootstore/src/schemes/v0/peer.rs\<close>: a
  share for a learner leaves the node only after the state that has it down as handed out was
  saved. Hence no extra share is given to two learners, even across crashes.
\<close>

section \<open>State changes\<close>

text \<open>The outputs after which the node saves the state.\<close>

fun saves :: "api_output \<Rightarrow> bool" where
  "saves (RackSecretOutput _ _) = False"
| "saves _ = True"

lemma handle_request_saves:
  "fsm_handle_request s now from req = (s', r) \<Longrightarrow>
   fsm_state s' = fsm_state s \<or> (\<exists>out. r = Ok (Some out) \<and> saves out)"
  by (auto simp: fsm_handle_request_def fsm_on_init_def fsm_on_get_share_def fsm_on_learn_def fsm_push_response_def
      Let_def split: request_type.splits fsm_state.splits if_splits)

lemma decrypt_and_send_saves:
  "decrypt_and_send_share_response E s from rid pkg ds secret = Done (s', r) \<Longrightarrow>
   fsm_state s' = fsm_state s \<or> (\<exists>out. r = Ok (Some out) \<and> saves out)"
  by (auto simp: decrypt_and_send_share_response_def queue_pkg_response_def fsm_push_response_def obind_eq_Done
      case_sum_eq_Done case_option_eq_Done Let_def split: if_splits)

lemma on_share_saves:
  "fsm_on_share E s from rid share = Done (s', r) \<Longrightarrow>
   fsm_state s' = fsm_state s \<or> (\<exists>out. r = Ok (Some out) \<and> saves out)"
  by (auto simp: fsm_on_share_def Let_def case_prod_beta dest!: decrypt_and_send_saves
      split: fsm_state.splits sum.splits option.splits trackable.splits)

lemma handle_msg_saves:
  assumes "fsm_handle_msg E s now from msg = Done (s', r)"
  shows "fsm_state s' = fsm_state s \<or> (\<exists>out. r = Ok (Some out) \<and> saves out)"
proof (cases msg)
  case (Req req)
  with assms show ?thesis
    by (auto simp: fsm_handle_msg_def dest!: handle_request_saves split: sum.splits)
next
  case (Rsp rsp)
  have "fsm_on_learn_pkg s from rid l = Done (s', r) \<Longrightarrow> ?thesis" for rid l
    by (auto simp: fsm_on_learn_pkg_def Let_def case_prod_beta obind_eq_Done split: if_splits)
  moreover have "fsm_on_init_ack s from rid = (s', r) \<Longrightarrow> fsm_state s' = fsm_state s" for rid
    by (auto simp: fsm_on_init_ack_def Let_def case_prod_beta)
  ultimately show ?thesis
    using assms Rsp on_share_saves
    by (auto simp: fsm_handle_msg_def fsm_handle_response_def split: sum.splits response_type.splits)
qed

lemma init_rack_state:
  "fsm_init_rack E V rng s now u members = Done (s', r) \<Longrightarrow>
   fsm_state s' = fsm_state s \<or> fsm_state s = Uninitialized \<and> (\<exists>pkg. fsm_state s' = InitialMember pkg [])"
  by (auto simp: fsm_init_rack_def Let_def obind_eq_Done case_sum_eq_Done if_eq_Done case_list_eq_Done case_prod_beta)

lemma init_learner_state:
  "fsm_state (fst (fsm_init_learner s now)) = fsm_state s \<or>
   fsm_state s = Uninitialized \<and> fsm_state (fst (fsm_init_learner s now)) = Learning"
  by (auto simp: fsm_init_learner_def Let_def split: sum.split list.split)

lemma same_state:
  "fsm_state (fst (fsm_load_rack_secret s now)) = fsm_state s"
  "fsm_state (fst (fsm_on_connected s now p)) = fsm_state s"
  "fsm_state (fsm_on_disconnected s p) = fsm_state s"
  by (auto simp: fsm_load_rack_secret_def fsm_on_connected_def fsm_on_disconnected_def Let_def case_prod_beta
      split: sum.split fsm_state.split)

lemma tick_state: "fsm_tick s now = Done (s', r) \<Longrightarrow> fsm_state s' = fsm_state s"
  using expire_all_grows
  by (fastforce simp: fsm_tick_def obind_eq_Done if_eq_Done case_option_eq_Done case_prod_beta)

section \<open>The invariant\<close>

definition bs_disk :: "bs_env \<Rightarrow> bs_config \<Rightarrow> bs_world \<Rightarrow> fsm_state" where
  "bs_disk B cfg w = fst (disk_state (be_state_serde B) all_io (bw_state_files w) (bc_fsm_state_ledger_paths cfg))"

text \<open>The disk has the state, or the state is one that has not been saved yet and promised nothing.\<close>

definition synced :: "fsm_state \<Rightarrow> fsm_state \<Rightarrow> bool" where
  "synced d st \<longleftrightarrow> d = st \<or> (\<forall>pkg ds. d \<noteq> InitialMember pkg ds) \<and> (\<forall>pkg ds. st = InitialMember pkg ds \<longrightarrow> ds = [])"

definition outputs_handed :: "crypto_env \<Rightarrow> fsm_state \<Rightarrow> bs_output list \<Rightarrow> bool" where
  "outputs_handed E d outs \<longleftrightarrow>
     (\<forall>p rid l uid. Deliver (response_to p rid (LearnPkg l)) uid \<in> set outs \<longrightarrow> handed E d p l)"

text \<open>Before the state is saved, and after.\<close>

definition bs_unsaved :: "bs_env \<Rightarrow> bs_config \<Rightarrow> bs_node \<Rightarrow> bs_world \<Rightarrow> bool" where
  "bs_unsaved B cfg self w \<longleftrightarrow>
     bn_config self = cfg \<and> fsm_ok (bn_fsm self) \<and> requests_only (fsm_request_manager (bn_fsm self)) \<and>
     generations_below (pfs_ledgerable (be_state_serde B)) pfs_generation (bw_state_files w)
       (bc_fsm_state_ledger_paths cfg) (bn_fsm_ledger_generation self) \<and>
     handed_all (be_crypto B) (fsm_state (bn_fsm self)) (fsm_responses (bn_fsm self)) \<and>
     state_le (bs_disk B cfg w) (fsm_state (bn_fsm self)) \<and> state_ok (bs_disk B cfg w) \<and>
     outputs_handed (be_crypto B) (bs_disk B cfg w) (bw_output w)"

definition bs_inv :: "bs_env \<Rightarrow> bs_config \<Rightarrow> bs_node \<Rightarrow> bs_world \<Rightarrow> bool" where
  "bs_inv B cfg self w \<longleftrightarrow> bs_unsaved B cfg self w \<and> synced (bs_disk B cfg w) (fsm_state (bn_fsm self))"

lemma synced_le: "synced d st \<Longrightarrow> state_le d st"
  by (auto simp: synced_def state_le_def)

lemma synced_step: "synced d st \<Longrightarrow> state_le st st' \<Longrightarrow> state_le d st'"
  by (auto simp: synced_def state_le_def)

lemma state_le_trans: "state_le a b \<Longrightarrow> state_le b c \<Longrightarrow> state_le a c"
  unfolding state_le_def by metis

lemma bs_unsaved_irrelevant [simp]:
  "bs_unsaved B cfg (self\<lparr>bn_network_config := n\<rparr>) w = bs_unsaved B cfg self w"
  "bs_unsaved B cfg (self\<lparr>bn_peers := ps\<rparr>) w = bs_unsaved B cfg self w"
  "bs_unsaved B cfg (self\<lparr>bn_handle_unique_id_counter := c\<rparr>) w = bs_unsaved B cfg self w"
  "bs_unsaved B cfg (self\<lparr>bn_shutdown := b\<rparr>) w = bs_unsaved B cfg self w"
  "bs_unsaved B cfg (self\<lparr>bn_accepted := a\<rparr>) w = bs_unsaved B cfg self w"
  "bs_unsaved B cfg (self\<lparr>bn_initiating := i\<rparr>) w = bs_unsaved B cfg self w"
  "bs_unsaved B cfg (self\<lparr>bn_established := e\<rparr>) w = bs_unsaved B cfg self w"
  "bs_unsaved B cfg (self\<lparr>bn_init_responder := r\<rparr>) w = bs_unsaved B cfg self w"
  "bs_unsaved B cfg (self\<lparr>bn_rack_secret_responder := s\<rparr>) w = bs_unsaved B cfg self w"
  "bs_unsaved B cfg self (w\<lparr>bw_network_files := f\<rparr>) = bs_unsaved B cfg self w"
  by (simp_all add: bs_unsaved_def bs_disk_def)

lemma bs_disk_irrelevant [simp]:
  "bs_disk B cfg (bs_emit w outs) = bs_disk B cfg w"
  "bs_disk B cfg (w\<lparr>bw_network_files := f\<rparr>) = bs_disk B cfg w"
  by (simp_all add: bs_disk_def bs_emit_def)

lemma bs_inv_irrelevant [simp]:
  "bs_inv B cfg (self\<lparr>bn_network_config := n\<rparr>) w = bs_inv B cfg self w"
  "bs_inv B cfg (self\<lparr>bn_peers := ps\<rparr>) w = bs_inv B cfg self w"
  "bs_inv B cfg (self\<lparr>bn_handle_unique_id_counter := c\<rparr>) w = bs_inv B cfg self w"
  "bs_inv B cfg (self\<lparr>bn_shutdown := b\<rparr>) w = bs_inv B cfg self w"
  "bs_inv B cfg (self\<lparr>bn_accepted := a\<rparr>) w = bs_inv B cfg self w"
  "bs_inv B cfg (self\<lparr>bn_initiating := i\<rparr>) w = bs_inv B cfg self w"
  "bs_inv B cfg (self\<lparr>bn_established := e\<rparr>) w = bs_inv B cfg self w"
  "bs_inv B cfg (self\<lparr>bn_init_responder := r\<rparr>) w = bs_inv B cfg self w"
  "bs_inv B cfg (self\<lparr>bn_rack_secret_responder := s\<rparr>) w = bs_inv B cfg self w"
  "bs_inv B cfg self (w\<lparr>bw_network_files := f\<rparr>) = bs_inv B cfg self w"
  by (simp_all add: bs_inv_def)

text \<open>Outputs other than envelopes do not matter.\<close>

fun quiet :: "bs_output \<Rightarrow> bool" where
  "quiet (Deliver _ _) = False"
| "quiet _ = True"

lemma outputs_handed_append:
  "outputs_handed E d (xs @ ys) \<longleftrightarrow> outputs_handed E d xs \<and> outputs_handed E d ys"
  unfolding outputs_handed_def set_append Un_iff by blast

lemma outputs_handed_mono: "outputs_handed E d outs \<Longrightarrow> state_le d d' \<Longrightarrow> outputs_handed E d' outs"
  unfolding outputs_handed_def by (meson handed_mono)

lemma outputs_handed_quiet: "\<forall>out\<in>set outs. quiet out \<Longrightarrow> outputs_handed E d outs"
  by (fastforce simp: outputs_handed_def)

lemma bs_unsaved_emit: "\<forall>out\<in>set outs. quiet out \<Longrightarrow> bs_unsaved B cfg self (bs_emit w outs) = bs_unsaved B cfg self w"
  unfolding bs_unsaved_def bs_disk_irrelevant
  by (simp add: bs_emit_def outputs_handed_append outputs_handed_quiet)

lemma bs_inv_emit: "\<forall>out\<in>set outs. quiet out \<Longrightarrow> bs_inv B cfg self (bs_emit w outs) = bs_inv B cfg self w"
  by (simp add: bs_inv_def bs_unsaved_emit)

lemma bs_unsaved_fsm:
  assumes "bs_inv B cfg self w" and "grows (be_crypto B) (bn_fsm self) fsm" and "fsm_ok fsm"
  shows "bs_unsaved B cfg (self\<lparr>bn_fsm := fsm\<rparr>) w"
proof -
  from assms(2) obtain new where le: "state_le (fsm_state (bn_fsm self)) (fsm_state fsm)"
    and new: "fsm_responses fsm = fsm_responses (bn_fsm self) @ new" "handed_all (be_crypto B) (fsm_state fsm) new"
    and only: "requests_only (fsm_request_manager (bn_fsm self)) \<longrightarrow> requests_only (fsm_request_manager fsm)"
    unfolding grows_def by blast
  have "handed_all (be_crypto B) (fsm_state fsm) (fsm_responses fsm)"
    using assms(1) new handed_all_mono [OF _ le] by (simp add: bs_inv_def bs_unsaved_def)
  moreover have "state_le (bs_disk B cfg w) (fsm_state fsm)"
    using assms(1) le synced_step by (auto simp: bs_inv_def)
  ultimately show ?thesis using assms(1,3) only by (simp add: bs_inv_def bs_unsaved_def)
qed

lemma bs_inv_fsm:
  assumes "bs_inv B cfg self w" and "grows (be_crypto B) (bn_fsm self) fsm" and "fsm_ok fsm"
    and "fsm_state fsm = fsm_state (bn_fsm self) \<or>
      fsm_state (bn_fsm self) = Uninitialized \<and> (fsm_state fsm = Learning \<or> (\<exists>pkg. fsm_state fsm = InitialMember pkg []))"
  shows "bs_inv B cfg (self\<lparr>bn_fsm := fsm\<rparr>) w"
proof -
  have "synced (bs_disk B cfg w) (fsm_state (bn_fsm self))" using assms(1) by (simp add: bs_inv_def)
  then have "synced (bs_disk B cfg w) (fsm_state fsm)"
    using assms(4)
  proof (elim disjE conjE exE)
    assume "synced (bs_disk B cfg w) (fsm_state (bn_fsm self))" "fsm_state fsm = fsm_state (bn_fsm self)"
    then show ?thesis by simp
  qed (auto simp: synced_def)
  then show ?thesis using bs_unsaved_fsm [OF assms(1-3)] by (simp add: bs_inv_def)
qed

lemma bs_save_inv:
  assumes "bs_unsaved B cfg self w" and "bs_save_fsm B io self w = Done (self', w')"
    and "json_inverts (pfs_ledgerable (be_state_serde B))" and "bn_fsm_ledger_generation self + 1 \<noteq> 0"
  shows "bs_inv B cfg self' w'"
proof -
  let ?J = "be_state_serde B" and ?paths = "bc_fsm_state_ledger_paths cfg" and ?st = "fsm_state (bn_fsm self)"
  have cfg: "bn_config self = cfg" using assms(1) by (simp add: bs_unsaved_def)
  from assms(2) obtain fs g where
    save: "pfs_save ?J io (bw_state_files w) ?paths (bn_fsm_ledger_generation self) ?st = Done (fs, g)"
    and eq: "self' = self\<lparr>bn_fsm_ledger_generation := g\<rparr>" "w' = w\<lparr>bw_state_files := fs\<rparr>"
    by (auto simp: bs_save_fsm_def obind_eq_Done cfg)
  have gens: "generations_below (pfs_ledgerable ?J) pfs_generation (bw_state_files w) ?paths (bn_fsm_ledger_generation self)"
    using assms(1) by (simp add: bs_unsaved_def)
  from save have "\<exists>p\<in>set ?paths. io_write_ok io p" by (rule pfs_save_Done)
  then have "\<exists>p\<in>set ?paths. io_write_ok io p \<and> io_read_ok all_io p" by (simp add: all_io_def)
  from pfs_save_load(1) [OF assms(3) save gens assms(4) this] have disk: "bs_disk B cfg w' = ?st"
    by (simp add: bs_disk_def eq)
  have "outputs_handed (be_crypto B) ?st (bw_output w)"
    using assms(1) by (auto simp: bs_unsaved_def intro: outputs_handed_mono)
  moreover have "state_ok ?st" using assms(1) by (simp add: bs_unsaved_def fsm_ok_def)
  ultimately have "bs_unsaved B cfg self' w'"
    using assms(1) pfs_save_load(2) [OF assms(3) save gens assms(4)] disk
    unfolding bs_unsaved_def disk by (simp add: eq)
  with disk show ?thesis by (simp add: bs_inv_def synced_def eq)
qed

lemma bs_deliver_inv:
  assumes "bs_inv B cfg self w" and "bs_deliver_envelopes self w = (self', w')"
  shows "bs_inv B cfg self' w'"
proof -
  let ?s = "bn_fsm self" and ?d = "bs_disk B cfg w"
  have eq: "self' = self\<lparr>bn_fsm := snd (fsm_drain_envelopes ?s)\<rparr>"
    "\<exists>outs. w' = bs_emit w outs \<and>
      (\<forall>env uid. Deliver env uid \<in> set outs \<longrightarrow> env \<in> set (fst (fsm_drain_envelopes ?s)))"
    using assms(2) by (auto simp: bs_deliver_envelopes_def case_prod_beta split: option.splits)
  from eq(2) obtain outs where outs: "w' = bs_emit w outs"
    "\<forall>env uid. Deliver env uid \<in> set outs \<longrightarrow> env \<in> set (fst (fsm_drain_envelopes ?s))" by blast
  have drained: "fst (fsm_drain_envelopes ?s) = fsm_responses ?s @ rqm_envelopes (fsm_request_manager ?s)"
    "fsm_state (snd (fsm_drain_envelopes ?s)) = fsm_state ?s" "fsm_responses (snd (fsm_drain_envelopes ?s)) = []"
    "requests_only (fsm_request_manager (snd (fsm_drain_envelopes ?s)))"
    by (simp_all add: fsm_drain_envelopes_def rqm_drain_def requests_only_def)
  have "handed_all (be_crypto B) (fsm_state ?s) (fst (fsm_drain_envelopes ?s))"
    using assms(1) requests_only_handed by (simp add: bs_inv_def bs_unsaved_def drained(1))
  then have st: "Deliver (response_to p rid (LearnPkg l)) uid \<in> set outs \<Longrightarrow> handed (be_crypto B) (fsm_state ?s) p l"
    for p rid l uid using outs(2) by (auto simp: handed_all_def)
  have "handed (be_crypto B) ?d p l" if "handed (be_crypto B) (fsm_state ?s) p l" for p l
  proof -
    from that obtain pkg ds i where "fsm_state ?s = InitialMember pkg ds" "bt_get ds p = Some i"
      unfolding handed_def by blast
    with assms(1) have "?d = fsm_state ?s" by (auto simp: bs_inv_def synced_def)
    with that show ?thesis by simp
  qed
  with st have "outputs_handed (be_crypto B) ?d outs" by (auto simp: outputs_handed_def)
  moreover have "fsm_ok (snd (fsm_drain_envelopes ?s))" using assms(1) by (simp add: bs_inv_def bs_unsaved_def drain_ok)
  ultimately show ?thesis
    using assms(1) drained(2-4) unfolding bs_inv_def bs_unsaved_def outs(1) eq(1) bs_disk_irrelevant
    by (simp add: bs_emit_def outputs_handed_append)
qed

section \<open>Rounds\<close>

text \<open>What is assumed of the parameters: the primitives and the serialisation work.\<close>

definition bs_env_ok :: "bs_env \<Rightarrow> bool" where
  "bs_env_ok B \<longleftrightarrow> vsss_scheme (be_crypto B) (be_vsss B) \<and> aead_inverts (be_crypto B) \<and>
     crypto_usable (be_crypto B) \<and> aead_tag (be_crypto B) \<and> json_inverts (pfs_ledgerable (be_state_serde B))"

fun bs_event_ok :: "bs_node \<Rightarrow> bs_event \<Rightarrow> bool" where
  "bs_event_ok self (RequestEvent (InitRackRequest _ members _) _) = (1 \<le> length members \<and> length members \<le> 255)"
| "bs_event_ok self (ConnMsgEvent _ (ReceivedMsg p msg)) = lr_event_ok (bn_fsm self) (EvMsg 0 p msg)"
| "bs_event_ok self _ = True"

text \<open>The invariant for what an operation returns.\<close>

abbreviation inv_pair :: "bs_env \<Rightarrow> bs_config \<Rightarrow> bs_node \<times> bs_world \<Rightarrow> bool" where
  "inv_pair B cfg sw \<equiv> bs_inv B cfg (fst sw) (snd sw)"

lemma answers_inv:
  "bs_inv B cfg self w \<Longrightarrow> inv_pair B cfg (bs_answer_init self w r)"
  "bs_unsaved B cfg self w \<Longrightarrow> bs_unsaved B cfg (fst (bs_answer_init self w r)) (snd (bs_answer_init self w r))"
  "bs_inv B cfg self w \<Longrightarrow> inv_pair B cfg (bs_answer_secret self w r')"
  by (simp_all add: bs_answer_init_def bs_answer_secret_def bs_inv_emit bs_unsaved_emit split: option.split)

lemma api_error_inv: "bs_inv B cfg self w \<Longrightarrow> inv_pair B cfg (bs_handle_api_error self w err)"
  by (cases err) (simp_all add: bs_handle_api_error_def answers_inv)

lemma api_errors_inv:
  "inv_pair B cfg sw \<Longrightarrow> inv_pair B cfg (foldl (\<lambda>(self, w) (_, err). bs_handle_api_error self w err) sw errors)"
  by (induction errors arbitrary: sw) (auto simp: api_error_inv case_prod_beta)

lemma answer_init_generation [simp]:
  "bn_fsm_ledger_generation (fst (bs_answer_init self w r)) = bn_fsm_ledger_generation self"
  by (simp add: bs_answer_init_def split: option.split)

lemma api_output_inv:
  assumes "bs_unsaved B cfg self w" and "\<not> saves out \<Longrightarrow> bs_inv B cfg self w"
    and "bs_handle_api_output B io self w out = Done (self', w')"
    and "bs_env_ok B" and "bn_fsm_ledger_generation self + 1 \<noteq> 0"
  shows "bs_inv B cfg self' w'"
proof -
  have json: "json_inverts (pfs_ledgerable (be_state_serde B))" using assms(4) by (simp add: bs_env_ok_def)
  have init: "bs_inv B cfg self' w'"
    if "bs_save_fsm B io (fst (bs_answer_init self w (Ok ()))) (snd (bs_answer_init self w (Ok ()))) = Done (self', w')"
    using bs_save_inv [OF answers_inv(2) [OF assms(1)] that json] assms(5) by simp
  show ?thesis
  proof (cases out)
    case (RackSecretOutput rid x)
    have "bs_answer_secret self w (Ok x) = (self', w')"
      using assms(3) RackSecretOutput by (simp add: bs_handle_api_output_def)
    with answers_inv(3) [OF assms(2), of "Ok x"] RackSecretOutput show ?thesis by simp
  next
    case ShareDistributedToLearner
    then have "bs_save_fsm B io self w = Done (self', w')" using assms(3) by (simp add: bs_handle_api_output_def)
    from bs_save_inv [OF assms(1) this json assms(5)] show ?thesis .
  qed (use assms(3) init in \<open>simp_all add: bs_handle_api_output_def case_prod_beta\<close>)
qed

lemma remove_peer_inv: "inv_pair B cfg sw \<Longrightarrow> inv_pair B cfg (bs_remove_peer sw addr)"
  by (auto simp: bs_remove_peer_def case_prod_beta bs_inv_emit split: option.split)

lemma initiate_inv: "inv_pair B cfg sw \<Longrightarrow> inv_pair B cfg (bs_initiate sw addr)"
  by (auto simp: bs_initiate_def case_prod_beta bs_inv_emit Let_def)

lemma foldl_inv: "(\<And>sw x. inv_pair B cfg sw \<Longrightarrow> inv_pair B cfg (f sw x)) \<Longrightarrow> inv_pair B cfg sw \<Longrightarrow> inv_pair B cfg (foldl f sw xs)"
  by (induction xs arbitrary: sw) simp_all

lemma manage_connections_inv: "bs_inv B cfg self w \<Longrightarrow> inv_pair B cfg (bs_manage_connections self w peers)"
  by (simp add: bs_manage_connections_def Let_def foldl_inv [OF remove_peer_inv] foldl_inv [OF initiate_inv])

lemma broadcast_inv:
  "bs_inv B cfg self w \<Longrightarrow> bs_inv B cfg self (foldl (\<lambda>w (p, handle). bs_send_network_config w config handle) w hs)"
  by (induction hs arbitrary: w) (auto simp: bs_send_network_config_def bs_inv_emit)

lemma store_network_config_inv:
  "bs_inv B cfg self w \<Longrightarrow> bs_store_network_config B io self w config p = Done (self', w') \<Longrightarrow> bs_inv B cfg self' w'"
  by (auto simp: bs_store_network_config_def bs_broadcast_network_config_def obind_eq_Done broadcast_inv)

lemma on_accept_inv: "bs_inv B cfg self w \<Longrightarrow> inv_pair B cfg (bs_on_accept self w res)"
  by (simp add: bs_on_accept_def Let_def bs_inv_emit split: option.split)

lemma deliver_pair: "bs_inv B cfg self w \<Longrightarrow> inv_pair B cfg (bs_deliver_envelopes self w)"
  using bs_deliver_inv by (metis prod.collapse)

lemma bs_inv_fsm_ok: "bs_inv B cfg self w \<Longrightarrow> fsm_ok (bn_fsm self)"
  by (simp add: bs_inv_def bs_unsaved_def)

lemma init_rack_inv:
  assumes "bs_inv B cfg self w" and "bs_env_ok B" and "1 \<le> length members" and "length members \<le> 255"
    and "fsm_init_rack (be_crypto B) (be_vsss B) rng (bn_fsm self) now u members = Done (fsm, r)"
  shows "bs_inv B cfg (self\<lparr>bn_fsm := fsm\<rparr>) w"
proof (rule bs_inv_fsm [OF assms(1) init_rack_grows [OF assms(5)]])
  show "fsm_ok fsm"
    using init_rack_ok [OF bs_inv_fsm_ok [OF assms(1)]] assms(2-5) unfolding bs_env_ok_def by (metis done_ok.simps(1))
qed (use init_rack_state [OF assms(5)] in blast)

lemma on_api_request_inv:
  assumes "bs_inv B cfg self w" and "bs_env_ok B" and "bs_event_ok self (RequestEvent request rng)"
    and "bs_on_api_request B io rng now self w request = Done (self', w')"
  shows "bs_inv B cfg self' w'"
proof -
  note ok = bs_inv_fsm_ok [OF assms(1)]
  have learner: "bs_inv B cfg (self\<lparr>bn_fsm := fst (fsm_init_learner (bn_fsm self) now)\<rparr>) w"
    using init_learner_state by (intro bs_inv_fsm [OF assms(1) init_learner_grows init_learner_ok [OF ok]]) blast
  have load: "bs_inv B cfg (self\<lparr>bn_fsm := fst (fsm_load_rack_secret (bn_fsm self) now)\<rparr>) w"
    by (intro bs_inv_fsm [OF assms(1) load_grows load_rack_secret_ok [OF ok]]) (simp add: same_state)
  have deliver: "bs_inv B cfg self' w'" if "bs_inv B cfg n w" "bs_deliver_envelopes n w = (self', w')" for n
    using bs_deliver_inv [OF that] .
  show ?thesis
  proof (cases request)
    case (InitRackRequest u members responder)
    with assms(3) have "1 \<le> length members" "length members \<le> 255" by simp_all
    note rack = init_rack_inv [OF assms(1,2) this]
    from assms(1,4) InitRackRequest show ?thesis
      by (auto simp: bs_on_api_request_def Let_def obind_eq_Done case_sum_eq_Done if_eq_Done bs_inv_emit rack
          dest!: bs_deliver_inv [rotated])
  next
    case (InitLearnerRequest responder)
    with assms(1,4) learner show ?thesis
      by (auto simp: bs_on_api_request_def Let_def case_prod_beta bs_inv_emit split: if_splits sum.splits
          dest!: bs_deliver_inv [rotated])
  next
    case (LoadRackSecretRequest responder)
    with assms(1,4) load show ?thesis
      by (auto simp: bs_on_api_request_def Let_def case_prod_beta bs_inv_emit split: if_splits sum.splits
          dest!: bs_deliver_inv [rotated])
  next
    case (PeerAddresses peers)
    with assms(4) manage_connections_inv [OF assms(1), of peers] show ?thesis by (simp add: bs_on_api_request_def)
  next
    case (UpdateNetworkConfigRequest config responder)
    with assms(1,4) show ?thesis
      by (auto simp: bs_on_api_request_def Let_def bs_inv_emit obind_eq_Done split: if_splits
          dest: store_network_config_inv)
  qed (use assms(1,4) in \<open>auto simp: bs_on_api_request_def intro!: bs_inv_emit [THEN iffD2]\<close>)
qed

lemma established_inv: "bs_inv B cfg self w \<Longrightarrow> inv_pair B cfg (bs_established self w now p handle)"
proof -
  assume "bs_inv B cfg self w"
  then have inv: "bs_inv B cfg (self\<lparr>bn_established := bt_insert p handle (bn_established self)\<rparr>) w" by simp
  have "bs_inv B cfg (self\<lparr>bn_established := bt_insert p handle (bn_established self),
      bn_fsm := fst (fsm_on_connected (bn_fsm self) now p)\<rparr>) w"
    using on_connected_ok [OF bs_inv_fsm_ok [OF inv]]
    by (intro bs_inv_fsm [OF inv]) (simp_all add: same_state on_connected_grows)
  then show ?thesis
    by (simp add: bs_established_def Let_def bs_send_network_config_def bs_inv_emit split: option.split)
qed

lemma received_inv:
  assumes "bs_inv B cfg self w" and "bs_env_ok B" and "lr_event_ok (bn_fsm self) (EvMsg 0 p msg)"
    and "bs_on_conn_msg B io now self w uid (ReceivedMsg p msg) = Done (self', w')"
    and "bn_fsm_ledger_generation self + 1 \<noteq> 0"
  shows "bs_inv B cfg self' w'"
proof -
  from assms(4) obtain fsm r where call: "fsm_handle_msg (be_crypto B) (bn_fsm self) now p msg = Done (fsm, r)"
    by (auto simp: bs_on_conn_msg_def obind_eq_Done)
  have "lr_event_ok (bn_fsm self) (EvMsg now p msg)" using assms(3) by (cases msg) simp_all
  from handle_msg_ok [OF bs_inv_fsm_ok [OF assms(1)] _ _ this, of "be_crypto B"] assms(2) call have ok: "fsm_ok fsm"
    by (simp add: bs_env_ok_def)
  note unsaved = bs_unsaved_fsm [OF assms(1) handle_msg_grows [OF call] ok]
  have same: "bs_inv B cfg (self\<lparr>bn_fsm := fsm\<rparr>) w" if "\<not> (\<exists>out. r = Ok (Some out) \<and> saves out)"
    using handle_msg_saves [OF call] that by (intro bs_inv_fsm [OF assms(1) handle_msg_grows [OF call] ok]) blast
  show ?thesis
  proof (cases r)
    case (Inl e)
    have "bs_handle_api_error (self\<lparr>bn_fsm := fsm\<rparr>) w e = (self', w')"
      using assms(4) call Inl by (simp add: bs_on_conn_msg_def)
    with api_error_inv [OF same, of e] Inl show ?thesis by simp
  next
    case (Inr x)
    show ?thesis
    proof (cases x)
      case None
      with Inr same assms(4) call show ?thesis by (simp add: bs_on_conn_msg_def)
    next
      case (Some out)
      with Inr assms(4) call have "bs_handle_api_output B io (self\<lparr>bn_fsm := fsm\<rparr>) w out = Done (self', w')"
        by (simp add: bs_on_conn_msg_def)
      from api_output_inv [OF unsaved _ this assms(2)] same Inr Some assms(5) show ?thesis by simp
    qed
  qed
qed

lemma on_conn_msg_inv:
  assumes "bs_inv B cfg self w" and "bs_env_ok B" and "bs_event_ok self (ConnMsgEvent uid msg)"
    and "bs_on_conn_msg B io now self w uid msg = Done (self', w')" and "bn_fsm_ledger_generation self + 1 \<noteq> 0"
  shows "bs_inv B cfg self' w'"
proof (cases msg)
  case (ConnectedAcceptor accepted_addr addr p)
  let ?a = "self\<lparr>bn_accepted := bt_remove accepted_addr (bn_accepted self)\<rparr>"
  have "inv_pair B cfg (bs_remove_established ?a w p)"
    using assms(1) by (simp add: bs_remove_established_def bs_inv_emit split: option.split)
  from established_inv [OF this] assms(1,4) ConnectedAcceptor show ?thesis
    by (auto simp: bs_on_conn_msg_def Let_def case_prod_beta case_option_eq_Done if_eq_Done)
      (metis fst_conv snd_conv)
next
  case (ConnectedInitiator addr p)
  have "bs_inv B cfg (self\<lparr>bn_initiating := bt_remove addr (bn_initiating self)\<rparr>) w" using assms(1) by simp
  from established_inv [OF this] assms(1,4) ConnectedInitiator show ?thesis
    by (auto simp: bs_on_conn_msg_def case_option_eq_Done if_eq_Done) (metis fst_conv snd_conv)
next
  case (DisconnectedPeer p)
  have "bs_inv B cfg (n\<lparr>bn_fsm := fsm_on_disconnected (bn_fsm n) p\<rparr>) w" if "bs_inv B cfg n w" for n
  proof (rule bs_inv_fsm [OF that])
    show "grows (be_crypto B) (bn_fsm n) (fsm_on_disconnected (bn_fsm n) p)"
      by (rule grows_rm) (simp_all add: fsm_on_disconnected_def)
    show "fsm_ok (fsm_on_disconnected (bn_fsm n) p)"
      using bs_inv_fsm_ok [OF that] by (simp add: fsm_on_disconnected_def fsm_ok_def)
  qed (simp add: same_state)
  note gone = this [of "self\<lparr>bn_established := e\<rparr>" for e] this [of "self\<lparr>bn_established := e, bn_initiating := i\<rparr>" for e i]
  from assms(1,4) DisconnectedPeer gone show ?thesis
    by (auto simp: bs_on_conn_msg_def Let_def case_option_eq_Done if_eq_Done split: if_splits)
next
  case (ReceivedMsg p m)
  with received_inv [OF assms(1,2)] assms(3-5) show ?thesis by auto
next
  case (FailedAcceptorHandshake addr)
  with assms(1,4) show ?thesis by (auto simp: bs_on_conn_msg_def case_option_eq_Done if_eq_Done)
next
  case (ReceivedConfig p config)
  with assms(1,4) store_network_config_inv show ?thesis by (auto simp: bs_on_conn_msg_def if_eq_Done)
qed

lemma bs_round_inv:
  assumes "bs_inv B cfg self w" and "bs_env_ok B" and "bs_event_ok self event"
    and "bs_round B io now self w event = Done (self', w')" and "bn_fsm_ledger_generation self + 1 \<noteq> 0"
  shows "bs_inv B cfg self' w'"
proof (cases "bn_shutdown self")
  case True
  with assms(1,4) show ?thesis by (simp add: bs_round_def)
next
  case False
  have tick: "inv_pair B cfg (case r of
      Inl errors \<Rightarrow> foldl (\<lambda>(self, w) (_, err). bs_handle_api_error self w err) (self\<lparr>bn_fsm := fsm\<rparr>, w) errors
    | Inr _ \<Rightarrow> (self\<lparr>bn_fsm := fsm\<rparr>, w))" if "fsm_tick (bn_fsm self) now = Done (fsm, r)" for fsm r
  proof -
    have "fsm_ok fsm" using tick_ok [OF bs_inv_fsm_ok [OF assms(1)], of now] that by simp
    then have "bs_inv B cfg (self\<lparr>bn_fsm := fsm\<rparr>) w"
      by (intro bs_inv_fsm [OF assms(1) tick_grows [OF that]]) (simp_all add: tick_state [OF that])
    then show ?thesis by (simp add: api_errors_inv split: sum.split)
  qed
  have deliver: "bs_inv B cfg self' w'" if "inv_pair B cfg sw" "bs_deliver_envelopes (fst sw) (snd sw) = (self', w')" for sw
    using bs_deliver_inv [OF that] .
  show ?thesis
  proof (cases event)
    case (AcceptEvent res)
    from assms(4) False AcceptEvent deliver [OF on_accept_inv [OF assms(1)]] show ?thesis
      by (simp add: bs_round_def case_prod_beta)
  next
    case (RequestEvent request rng)
    with assms(4) False obtain n v where "bs_on_api_request B io rng now self w request = Done (n, v)"
      "bs_deliver_envelopes n v = (self', w')" by (auto simp: bs_round_def obind_eq_Done)
    with on_api_request_inv [OF assms(1,2)] assms(3) RequestEvent bs_deliver_inv show ?thesis by blast
  next
    case (ConnMsgEvent uid msg)
    with assms(4) False obtain n v where "bs_on_conn_msg B io now self w uid msg = Done (n, v)"
      "bs_deliver_envelopes n v = (self', w')" by (auto simp: bs_round_def obind_eq_Done)
    with on_conn_msg_inv [OF assms(1,2)] assms(3,5) ConnMsgEvent bs_deliver_inv show ?thesis by blast
  next
    case TickEvent
    with assms(4) False obtain fsm r where t: "fsm_tick (bn_fsm self) now = Done (fsm, r)"
      by (auto simp: bs_round_def obind_eq_Done)
    from assms(4) False TickEvent t deliver [OF tick [OF t]] show ?thesis
      by (cases r) (simp_all add: bs_round_def case_prod_beta Let_def)
  qed
qed

section \<open>Runs with crashes\<close>

text \<open>
  The node starts on an empty or an earlier disk. It handles events one after the other, fewer than
  \<open>2\<^sup>64\<close> of which save, and may crash at any time: before a round, or within one, when some of
  the outputs of that round are not out yet. After a crash it starts again from the disk, with
  new ids to come.
\<close>

inductive bs_run :: "bs_env \<Rightarrow> bs_config \<Rightarrow> bs_world \<Rightarrow> bs_node \<Rightarrow> bs_world \<Rightarrow> bool" for B cfg w0 where
  boot: "inj uuids \<Longrightarrow> bs_run B cfg w0 (bs_node_new B all_io cfg uuids w0) w0"
| round: "bs_run B cfg w0 self w \<Longrightarrow> bs_event_ok self event \<Longrightarrow> bn_fsm_ledger_generation self + 1 \<noteq> 0 \<Longrightarrow>
    bs_round B io now self w event = Done (self', w') \<Longrightarrow> bs_run B cfg w0 self' w'"
| crash: "bs_run B cfg w0 self w \<Longrightarrow> inj uuids \<Longrightarrow> bs_run B cfg w0 (bs_node_new B all_io cfg uuids w) w"
| crash_within: "bs_run B cfg w0 self w \<Longrightarrow> bs_event_ok self event \<Longrightarrow> bn_fsm_ledger_generation self + 1 \<noteq> 0 \<Longrightarrow>
    bs_round B io now self w event = Done (self', w') \<Longrightarrow> set (bw_output w'') \<subseteq> set (bw_output w') \<Longrightarrow>
    bw_state_files w'' = bw_state_files w' \<Longrightarrow> inj uuids \<Longrightarrow> bs_run B cfg w0 (bs_node_new B all_io cfg uuids w'') w''"

lemma bs_boot_inv:
  assumes "inj uuids" and "state_ok (bs_disk B cfg w)" and "outputs_handed (be_crypto B) (bs_disk B cfg w) (bw_output w)"
  shows "bs_inv B cfg (bs_node_new B all_io cfg uuids w) w"
proof -
  let ?fsm = "fsm_new (bc_id cfg) (fsm_config_of cfg) (bs_disk B cfg w) uuids"
  have node: "bn_fsm (bs_node_new B all_io cfg uuids w) = ?fsm" "bn_config (bs_node_new B all_io cfg uuids w) = cfg"
    "bn_fsm_ledger_generation (bs_node_new B all_io cfg uuids w) =
      snd (disk_state (be_state_serde B) all_io (bw_state_files w) (bc_fsm_state_ledger_paths cfg))"
    by (simp_all add: bs_node_new_def pfs_load_disk bs_disk_def)
  have "fsm_state ?fsm = bs_disk B cfg w" "fsm_responses ?fsm = []" "requests_only (fsm_request_manager ?fsm)"
    by (simp_all add: fsm_new_def rqm_new_def requests_only_def)
  with assms fsm_ok_new [OF assms(1,2)] show ?thesis
    unfolding bs_inv_def bs_unsaved_def node by (simp add: disk_state_newest synced_def)
qed

lemma bs_inv_disk:
  assumes "bs_inv B cfg self w"
  shows "state_ok (bs_disk B cfg w)" and "outputs_handed (be_crypto B) (bs_disk B cfg w) (bw_output w)"
  using assms by (simp_all add: bs_inv_def bs_unsaved_def)

lemma bs_run_inv:
  assumes "bs_run B cfg w0 self w" and "bs_env_ok B" and "state_ok (bs_disk B cfg w0)" and "bw_output w0 = []"
  shows "bs_inv B cfg self w"
  using assms(1)
proof (induction rule: bs_run.induct)
  case (boot uuids)
  then show ?case using assms(3,4) by (simp add: bs_boot_inv outputs_handed_def)
next
  case (round self w event io now self' w')
  then show ?case using bs_round_inv [OF _ assms(2)] by blast
next
  case (crash self w uuids)
  then show ?case using bs_boot_inv bs_inv_disk by blast
next
  case (crash_within self w event io now self' w' w'' uuids)
  have inv: "bs_inv B cfg self' w'" using bs_round_inv [OF _ assms(2)] crash_within by blast
  have disk: "bs_disk B cfg w'' = bs_disk B cfg w'" using crash_within.hyps(6) by (simp add: bs_disk_def)
  have "outputs_handed (be_crypto B) (bs_disk B cfg w'') (bw_output w'')"
    using bs_inv_disk(2) [OF inv] crash_within.hyps(5) unfolding disk outputs_handed_def by blast
  with bs_inv_disk(1) [OF inv] crash_within.hyps(7) disk show ?case using bs_boot_inv by simp
qed


section \<open>Example\<close>

text \<open>
  A node with the saved package of the example. A learner asks for a share, its connection is
  accepted and established, another sled answers with its share, and the package for
  the learner goes out.
\<close>

definition two_serde :: "'a \<Rightarrow> 'a \<Rightarrow> 'a serde" where
  "two_serde a b = (\<lambda>x. if x = a then Some ''a'' else if x = b then Some ''b'' else None,
     \<lambda>s. if s = ''a'' then Some a else if s = ''b'' then Some b else None)"

definition example_bs_env :: bs_env where
  "example_bs_env = \<lparr>be_crypto = toy_lrtq_env, be_vsss = toy_vsss,
     be_state_serde = two_serde \<lparr>pfs_generation = 1, pfs_state = InitialMember example_pkg []\<rparr>
       \<lparr>pfs_generation = 2, pfs_state = InitialMember example_pkg [(Pc ''c'' ''1'', 0)]\<rparr>,
     be_network_serde = one_serde \<lparr>nc_generation = 1, nc_blob = []\<rparr>\<rparr>"

definition example_bs_config :: bs_config where
  "example_bs_config = \<lparr>bc_id = Pc ''a'' ''1'', bc_addr = (1, 1, 0, 0), bc_learn_timeout = 5, bc_rack_init_timeout = 300,
     bc_rack_secret_request_timeout = 5, bc_fsm_state_ledger_paths = [''s''], bc_network_config_ledger_paths = [''n'']\<rparr>"

definition example_bs_world :: bs_world where
  "example_bs_world = \<lparr>bw_state_files = (\<lambda>p. if p = ''s'' then Some ''a'' else None), bw_network_files = (\<lambda>_. None),
     bw_output = []\<rparr>"

definition example_round :: "bs_event \<Rightarrow> bs_node \<times> bs_world \<Rightarrow> bs_node \<times> bs_world" where
  "example_round event sw =
     (case bs_round example_bs_env all_io 0 (fst sw) (snd sw) event of Done sw' \<Rightarrow> sw' | _ \<Rightarrow> sw)"

definition example_0 :: "bs_node \<times> bs_world" where
  "example_0 = (bs_node_new example_bs_env all_io example_bs_config example_uuids example_bs_world, example_bs_world)"

definition example_1 :: "bs_node \<times> bs_world" where
  "example_1 = example_round (ConnMsgEvent 9 (ReceivedMsg (Pc ''c'' ''1'') (learn_msg [1]))) example_0"

definition example_2 :: "bs_node \<times> bs_world" where
  "example_2 = example_round (AcceptEvent (Some (2, 1, 0, 0))) example_1"

definition example_3 :: "bs_node \<times> bs_world" where
  "example_3 = example_round (ConnMsgEvent 1 (ConnectedAcceptor (2, 1, 0, 0) (2, 1, 0, 0) (Pc ''c'' ''1''))) example_2"

definition example_4 :: "bs_node \<times> bs_world" where
  "example_4 = example_round
     (ConnMsgEvent 2 (ReceivedMsg (Pc ''b'' ''1'') (share_msg [1] (2 # replicate 32 7)))) example_3"

lemma example_steps:
  "returns (bs_round example_bs_env all_io 0 (fst example_0) (snd example_0)
     (ConnMsgEvent 9 (ReceivedMsg (Pc ''c'' ''1'') (learn_msg [1])))) \<and> bn_fsm_ledger_generation (fst example_0) = 1"
  "returns (bs_round example_bs_env all_io 0 (fst example_1) (snd example_1) (AcceptEvent (Some (2, 1, 0, 0)))) \<and>
     bn_fsm_ledger_generation (fst example_1) = 1"
  "returns (bs_round example_bs_env all_io 0 (fst example_2) (snd example_2)
     (ConnMsgEvent 1 (ConnectedAcceptor (2, 1, 0, 0) (2, 1, 0, 0) (Pc ''c'' ''1'')))) \<and>
     bn_fsm_ledger_generation (fst example_2) = 1"
  "returns (bs_round example_bs_env all_io 0 (fst example_3) (snd example_3)
     (ConnMsgEvent 2 (ReceivedMsg (Pc ''b'' ''1'') (share_msg [1] (2 # replicate 32 7))))) \<and>
     bn_fsm_ledger_generation (fst example_3) = 1"
  by code_simp+

lemma example_delivered:
  "Deliver (response_to (Pc ''c'' ''1'') [1] (LearnPkg \<lparr>lp_common = (sp_common example_pkg)\<lparr>lsd_share := 3 # replicate 32 7\<rparr>\<rparr>)) 1
     \<in> set (bw_output (snd example_4))"
  by code_simp

lemma example_bs_env_ok: "bs_env_ok example_bs_env"
  using toy_scheme toy_lrtq_env_ok toy_lrtq_tag
  by (auto simp: bs_env_ok_def example_bs_env_def json_inverts_def pfs_ledgerable_def two_serde_def split: if_splits)

lemma example_bs_disk:
  "bs_disk example_bs_env example_bs_config example_bs_world = InitialMember example_pkg []"
  by (simp add: bs_disk_def disk_state_def ledger_read_def readable_def read_from_def newest_def example_bs_env_def
      example_bs_config_def example_bs_world_def pfs_ledgerable_def two_serde_def all_io_def)

lemma example_round_run:
  assumes "bs_run example_bs_env cfg w0 (fst sw) (snd sw)" and "bs_event_ok (fst sw) event"
    and "returns (bs_round example_bs_env all_io 0 (fst sw) (snd sw) event) \<and> bn_fsm_ledger_generation (fst sw) = 1"
  shows "bs_run example_bs_env cfg w0 (fst (example_round event sw)) (snd (example_round event sw))"
proof -
  from assms(3) obtain s w where "bs_round example_bs_env all_io 0 (fst sw) (snd sw) event = Done (s, w)"
    by (auto simp: returns_iff)
  with bs_run.round [OF assms(1,2) _ this] assms(3) show ?thesis by (simp add: example_round_def)
qed

lemma example_bs_run: "bs_run example_bs_env example_bs_config example_bs_world (fst example_4) (snd example_4)"
proof -
  have boot: "bs_run example_bs_env example_bs_config example_bs_world (fst example_0) (snd example_0)"
    unfolding example_0_def fst_conv snd_conv by (rule bs_run.boot [OF example_uuids_inj])
  have "[1] \<notin> range example_uuids" by (auto simp: example_uuids_def) (metis in_set_replicate list.set_intros(1) zero_neq_one)
  then have "bs_event_ok (fst example_0) (ConnMsgEvent 9 (ReceivedMsg (Pc ''c'' ''1'') (learn_msg [1])))"
    by (simp add: example_0_def bs_node_new_def pfs_load_disk fsm_new_def rqm_new_def bt_keys_def)
  note run = example_round_run [OF boot this example_steps(1), folded example_1_def]
  note run = example_round_run [OF run _ example_steps(2), folded example_2_def, simplified]
  note run = example_round_run [OF run _ example_steps(3), folded example_3_def, simplified]
  from example_round_run [OF run _ example_steps(4), folded example_4_def] show ?thesis by simp
qed


section \<open>What is not saved, and what is not told\<close>

text \<open>
  The comments on \<open>init_rack\<close> and \<open>init_learner\<close> require persistence after a successful call, but
  the requests that make these calls save nothing: until all members have acknowledged their
  packages, a crash takes the coordinator back to where it was.
\<close>

lemma init_request_not_saved:
  assumes "bs_on_api_request B io rng now self w request = Done (self', w')"
    and "(\<exists>u members r. request = InitRackRequest u members r) \<or> (\<exists>r. request = InitLearnerRequest r)"
  shows "bw_state_files w' = bw_state_files w"
proof -
  have files: "bw_state_files (snd (bs_deliver_envelopes n v)) = bw_state_files v" for n v
    by (simp add: bs_deliver_envelopes_def case_prod_beta bs_emit_def)
  have "bs_deliver_envelopes n v = (self', w') \<Longrightarrow> bw_state_files w' = bw_state_files v" for n v
    using files [of n v] by simp
  with assms show ?thesis
    by (auto simp: bs_on_api_request_def Let_def obind_eq_Done case_sum_eq_Done if_eq_Done case_prod_beta bs_emit_def)
qed

text \<open>
  A peer that is removed because its address is gone stays connected for the state machine: its
  connection is closed and dropped, so the message that the connection task sends at its end
  is taken for a stale one, and \<open>on_disconnected\<close> is never called.
\<close>

lemma removed_peer_stays_connected:
  assumes "bt_get (bn_initiating self) addr = None" and "bn_established self = [(p, handle)]"
    and "pch_addr handle = addr" and "p \<in> set (fsm_connected_peers (bn_fsm self))"
  shows "\<exists>self' w'. bs_remove_peer (self, w) addr = (self', w') \<and> bn_established self' = [] \<and>
    p \<in> set (fsm_connected_peers (bn_fsm self')) \<and>
    bs_on_conn_msg B io now self' w' (pch_unique_id handle) (DisconnectedPeer p) = Done (self', w')"
  using assms by (simp add: bs_remove_peer_def bs_on_conn_msg_def bt_remove_def)

section \<open>No round panics\<close>

text \<open>An outcome that is a panic only because a ledger could not be written.\<close>

fun only_save_fails :: "'a outcome \<Rightarrow> bool" where
  "only_save_fails (Done _) = True"
| "only_save_fails (Panic m) =
     (m = ''Critical: Failed to save bootstore ledger for Fsm::State'' \<or>
      m = ''Critical: Failed to save bootstore ledger for network config'')"
| "only_save_fails Diverge = False"

lemma only_save_fails_then:
  "only_save_fails m \<Longrightarrow> (\<And>x. only_save_fails (f x)) \<Longrightarrow> only_save_fails (obind m f)"
  by (cases m) simp_all

lemma only_save_fails_Done_ok: "done_ok x \<Longrightarrow> only_save_fails x"
  by (cases x rule: done_ok.cases) simp_all

lemma save_fsm_fails: "only_save_fails (bs_save_fsm B io self w)"
proof -
  have "only_save_fails (pfs_save (be_state_serde B) io fs paths g st)" for fs paths g st
    by (simp add: pfs_save_def ledger_commit_eq Let_def)
  then show ?thesis by (auto simp: bs_save_fsm_def intro!: only_save_fails_then)
qed

lemma api_output_fails: "only_save_fails (bs_handle_api_output B io self w out)"
  by (cases out) (simp_all add: bs_handle_api_output_def case_prod_beta save_fsm_fails)

lemma store_network_config_fails:
  assumes "bs_current_generation self < nc_generation config"
  shows "only_save_fails (bs_store_network_config B io self w config p)"
proof -
  have "nc_generation config \<noteq> 0" using assms by auto
  then have "only_save_fails (nc_save (be_network_serde B) io fs paths config)" for fs paths
    by (simp add: nc_save_def ledger_commit_eq Let_def)
  then show ?thesis
    by (auto simp: bs_store_network_config_def bs_broadcast_network_config_def intro!: only_save_fails_then)
qed

lemma on_api_request_fails:
  assumes "bs_inv B cfg self w" and "bs_env_ok B" and "bs_event_ok self (RequestEvent request rng)"
  shows "only_save_fails (bs_on_api_request B io rng now self w request)"
proof (cases request)
  case (InitRackRequest u members responder)
  with assms(2,3) only_save_fails_Done_ok [OF init_rack_ok [OF bs_inv_fsm_ok [OF assms(1)]]]
  have "only_save_fails (fsm_init_rack (be_crypto B) (be_vsss B) rng (bn_fsm self) now u members)"
    by (simp add: bs_env_ok_def)
  with InitRackRequest show ?thesis
    by (auto simp: bs_on_api_request_def Let_def intro!: only_save_fails_then split: sum.split)
next
  case (UpdateNetworkConfigRequest config responder)
  with store_network_config_fails show ?thesis
    by (auto simp: bs_on_api_request_def Let_def not_less_iff_gr_or_eq intro!: only_save_fails_then)
qed (auto simp: bs_on_api_request_def Let_def case_prod_beta split: sum.split)

lemma on_conn_msg_fails:
  assumes "bs_inv B cfg self w" and "bs_env_ok B" and "bs_event_ok self (ConnMsgEvent uid msg)"
  shows "only_save_fails (bs_on_conn_msg B io now self w uid msg)"
proof (cases msg)
  case (ReceivedMsg p m)
  have "lr_event_ok (bn_fsm self) (EvMsg now p m)" using assms(3) ReceivedMsg by (cases m) simp_all
  from handle_msg_ok [OF bs_inv_fsm_ok [OF assms(1)] _ _ this, of "be_crypto B"] assms(2)
  have "done_ok (fsm_handle_msg (be_crypto B) (bn_fsm self) now p m)" by (simp add: bs_env_ok_def)
  then have "only_save_fails (fsm_handle_msg (be_crypto B) (bn_fsm self) now p m)" by (rule only_save_fails_Done_ok)
  with ReceivedMsg show ?thesis
    by (auto simp: bs_on_conn_msg_def Let_def api_output_fails intro!: only_save_fails_then split: sum.split option.split)
next
  case (ReceivedConfig p config)
  with store_network_config_fails show ?thesis by (simp add: bs_on_conn_msg_def)
qed (auto simp: bs_on_conn_msg_def Let_def case_prod_beta split: option.split)

lemma bs_round_fails:
  assumes "bs_inv B cfg self w" and "bs_env_ok B" and "bs_event_ok self event"
  shows "only_save_fails (bs_round B io now self w event)"
proof (cases event)
  case (RequestEvent request rng)
  with on_api_request_fails [OF assms(1,2)] assms(3) show ?thesis
    by (auto simp: bs_round_def intro!: only_save_fails_then)
next
  case (ConnMsgEvent uid msg)
  with on_conn_msg_fails [OF assms(1,2)] assms(3) show ?thesis
    by (auto simp: bs_round_def intro!: only_save_fails_then)
next
  case TickEvent
  with only_save_fails_Done_ok [OF tick_ok [OF bs_inv_fsm_ok [OF assms(1)], of now]] show ?thesis
    by (auto simp: bs_round_def case_prod_beta Let_def intro!: only_save_fails_then)
qed (simp add: bs_round_def case_prod_beta)



end
