(* ===== verification/Bootstore_Conn.thy ===== *)
theory Bootstore_Conn
  imports Bootstore_Node
begin

text \<open>
  Established connections of LRTQ (\<open>EstablishedConn\<close> in
  \<^verbatim>\<open>bootstore/src/schemes/v0/peer_networking.rs\<close>), each running in its own task. Sending to the
  main task waits for space in the channel. Times are in nanoseconds.
\<close>

section \<open>Definitions\<close>

definition LC_CONN_BUF_SIZE :: nat where
  "LC_CONN_BUF_SIZE = 512 * 1024"

definition LC_MSG_WRITE_QUEUE_CAPACITY :: nat where
  "LC_MSG_WRITE_QUEUE_CAPACITY = 5"

definition LC_INACTIVITY_TIMEOUT :: nat where
  "LC_INACTIVITY_TIMEOUT = 10 * 1000000000"

datatype lc_msg = LcPing | LcFsm lr_msg | LcNetworkConfig network_config

datatype lc_err = LcRetry | LcClosed

datatype lc_from_main = LcClose | LcMsg lc_msg

record lc_conn =
  lc_peer_id :: baseboard
  lc_unique_id :: u64
  lc_read_buf :: "u8 list"
  lc_total_read :: nat
  lc_last_received_msg :: nat
  lc_write_queue :: "u8 list list"
  lc_current_write :: cursor

definition lc_new :: "baseboard \<Rightarrow> u64 \<Rightarrow> nat \<Rightarrow> lc_conn" where
  "lc_new peer_id unique_id now =
     \<lparr>lc_peer_id = peer_id, lc_unique_id = unique_id, lc_read_buf = replicate LC_CONN_BUF_SIZE 0, lc_total_read = 0,
      lc_last_received_msg = now, lc_write_queue = [], lc_current_write = cursor_new []\<rparr>"

type_synonym lc_result = "(u64 \<times> conn_to_main) list \<times> (unit, lc_err) rust_result"

text \<open>Close and drop the connection.\<close>

definition lc_close :: "lc_conn \<Rightarrow> lc_result" where
  "lc_close self = ([(lc_unique_id self, DisconnectedPeer (lc_peer_id self))], Err LcRetry)"

definition lc_write_framed_to_queue :: "lc_msg cbor \<Rightarrow> lc_conn \<Rightarrow> lc_msg \<Rightarrow> (lc_conn \<times> lc_result) outcome" where
  "lc_write_framed_to_queue C self msg =
     (if length (lc_write_queue self) = LC_MSG_WRITE_QUEUE_CAPACITY then Done (self, lc_close self)
      else obind (write_framed C msg) (\<lambda>r.
        case r of
          Inr msg \<Rightarrow> Done (self\<lparr>lc_write_queue := lc_write_queue self @ [msg]\<rparr>, [], Ok ())
        | Inl _ \<Rightarrow> Done (self, lc_close self)))"

definition lc_on_msg_from_main :: "lc_msg cbor \<Rightarrow> lc_conn \<Rightarrow> lc_from_main \<Rightarrow> (lc_conn \<times> lc_result) outcome" where
  "lc_on_msg_from_main C self msg =
     (case msg of
        LcClose \<Rightarrow> Done (self, fst (lc_close self), Err LcClosed)
      | LcMsg msg \<Rightarrow> lc_write_framed_to_queue C self msg)"

text \<open>Send ping messages and check for inactivity timeouts.\<close>

definition lc_ping :: "lc_msg cbor \<Rightarrow> nat \<Rightarrow> lc_conn \<Rightarrow> (lc_conn \<times> lc_result) outcome" where
  "lc_ping C now self =
     (if now - lc_last_received_msg self > LC_INACTIVITY_TIMEOUT then Done (self, lc_close self)
      else lc_write_framed_to_queue C self LcPing)"

definition lc_check_write_result :: "lc_conn \<Rightarrow> (nat, unit) rust_result \<Rightarrow> lc_conn \<times> lc_result" where
  "lc_check_write_result self res =
     (case res of
        Inr _ \<Rightarrow>
          (if \<not> has_remaining (lc_current_write self) then (self\<lparr>lc_current_write := cursor_new []\<rparr>, [], Ok ())
           else (self, [], Ok ()))
      | Inl _ \<Rightarrow> (self, lc_close self))"

text \<open>What a message is passed to the main task as.\<close>

fun lc_to_main :: "baseboard \<Rightarrow> u64 \<Rightarrow> lc_msg \<Rightarrow> (u64 \<times> conn_to_main) list" where
  "lc_to_main peer_id unique_id (LcFsm msg) = [(unique_id, ReceivedMsg peer_id msg)]"
| "lc_to_main peer_id unique_id LcPing = []"
| "lc_to_main peer_id unique_id (LcNetworkConfig config) = [(unique_id, ReceivedConfig peer_id config)]"

text \<open>The loop of \<open>on_read\<close>.\<close>

function lc_read_loop :: "lc_msg cbor \<Rightarrow> nat \<Rightarrow> lc_conn \<Rightarrow> (lc_conn \<times> lc_result) outcome" where
  "lc_read_loop C now self =
     (if lc_total_read self < FRAME_HEADER_SIZE then Done (self, [], Ok ())
      else obind (slice_of 0 FRAME_HEADER_SIZE (lc_read_buf self)) (\<lambda>header.
        let size = read_frame_size header;
            frame_end = size + FRAME_HEADER_SIZE in
        if frame_end > lc_total_read self then Done (self, [], Ok ())
        else obind (slice_of FRAME_HEADER_SIZE frame_end (lc_read_buf self)) (\<lambda>body.
          case from_reader C body of
            Some msg \<Rightarrow>
              obind (copy_within frame_end (lc_total_read self) (lc_read_buf self)) (\<lambda>read_buf.
                let self = self\<lparr>lc_read_buf := read_buf, lc_total_read := lc_total_read self - frame_end,
                                lc_last_received_msg := now\<rparr> in
                obind (lc_read_loop C now self) (\<lambda>(self', out, res).
                  Done (self', lc_to_main (lc_peer_id self) (lc_unique_id self) msg @ out, res)))
          | None \<Rightarrow> Done (self, lc_close self))))"
  by pat_completeness auto
termination by (relation "measure (\<lambda>(_, _, self). lc_total_read self)") (auto simp: FRAME_HEADER_SIZE_def)

declare lc_read_loop.simps [simp del]

definition lc_on_read :: "lc_msg cbor \<Rightarrow> nat \<Rightarrow> lc_conn \<Rightarrow> (nat, unit) rust_result \<Rightarrow> (lc_conn \<times> lc_result) outcome" where
  "lc_on_read C now self res =
     (case res of
        Inr n \<Rightarrow> lc_read_loop C now (self\<lparr>lc_total_read := lc_total_read self + n\<rparr>)
      | Inl _ \<Rightarrow> Done (self, lc_close self))"

definition lc_next_write :: "lc_conn \<Rightarrow> lc_conn" where
  "lc_next_write self =
     (if \<not> has_remaining (lc_current_write self) then
        (case lc_write_queue self of
           buf # write_queue \<Rightarrow> self\<lparr>lc_write_queue := write_queue, lc_current_write := cursor_new buf\<rparr>
         | [] \<Rightarrow> self)
      else self)"

datatype lc_event =
  LcTick nat
| LcFromMain lc_from_main
| LcReadReady nat "(u8 list, unit) rust_result"
| LcWritten "(nat, unit) rust_result"

text \<open>
  A round of the loop of \<open>run\<close>. The second component of the state is what has been written
  to the socket. The socket reads no more than there is space for and is only written to when something
  is left to write.
\<close>

definition lc_event_ok :: "lc_conn \<Rightarrow> lc_event \<Rightarrow> bool" where
  "lc_event_ok self event =
     (case event of
        LcReadReady _ (Inr data) \<Rightarrow> length data \<le> length (drop (lc_total_read self) (lc_read_buf self))
      | LcWritten res \<Rightarrow>
          has_remaining (lc_current_write self) \<and>
          (case res of Inr n \<Rightarrow> n \<le> length (cursor_remaining (lc_current_write self)) | _ \<Rightarrow> True)
      | _ \<Rightarrow> True)"

definition lc_round :: "lc_msg cbor \<Rightarrow> lc_conn \<times> u8 list \<Rightarrow> lc_event \<Rightarrow> ((lc_conn \<times> u8 list) \<times> lc_result) outcome" where
  "lc_round C st event =
     (let (self, sock) = st; self = lc_next_write self in
      case event of
        LcTick now \<Rightarrow> obind (lc_ping C now self) (\<lambda>(self, res). Done ((self, sock), res))
      | LcFromMain msg \<Rightarrow> obind (lc_on_msg_from_main C self msg) (\<lambda>(self, res). Done ((self, sock), res))
      | LcReadReady now res \<Rightarrow>
          (case res of
             Inl e \<Rightarrow> obind (lc_on_read C now self (Err e)) (\<lambda>(self, res). Done ((self, sock), res))
           | Inr data \<Rightarrow>
               obind (lc_on_read C now
                        (self\<lparr>lc_read_buf := fill_from (lc_total_read self) data (lc_read_buf self)\<rparr>) (Ok (length data)))
                 (\<lambda>(self, res). Done ((self, sock), res)))
      | LcWritten res \<Rightarrow>
          (case res of
             Inl e \<Rightarrow> (let (self, res) = lc_check_write_result self (Err e) in Done ((self, sock), res))
           | Inr n \<Rightarrow>
               (let sock = sock @ take n (cursor_remaining (lc_current_write self));
                    self = self\<lparr>lc_current_write := cursor_advance (lc_current_write self) n\<rparr>;
                    (self, res) = lc_check_write_result self (Ok n)
                in Done ((self, sock), res))))"

definition lc_step ::
  "lc_msg cbor \<Rightarrow> lc_conn \<times> u8 list \<Rightarrow> lc_event \<Rightarrow> (lc_conn \<times> u8 list) \<times> (u64 \<times> conn_to_main) list \<Rightarrow> bool" where
  "lc_step C st event r =
     (lc_event_ok (lc_next_write (fst st)) event \<and> lc_round C st event = Done (fst r, snd r, Ok ()))"

fun lc_chunk :: "lc_event \<Rightarrow> u8 list" where
  "lc_chunk (LcReadReady _ (Inr data)) = data"
| "lc_chunk _ = []"

fun lc_accepts :: "lc_event \<Rightarrow> lc_msg list" where
  "lc_accepts (LcTick _) = [LcPing]"
| "lc_accepts (LcFromMain (LcMsg msg)) = [msg]"
| "lc_accepts _ = []"

definition lc_pending :: "lc_conn \<times> u8 list \<Rightarrow> u8 list" where
  "lc_pending st = take (lc_total_read (fst st)) (lc_read_buf (fst st))"

definition lc_outgoing :: "lc_conn \<times> u8 list \<Rightarrow> u8 list" where
  "lc_outgoing st = snd st @ cursor_remaining (lc_current_write (fst st)) @ concat (lc_write_queue (fst st))"

text \<open>There is no limit for the size of a frame but that of its header.\<close>

definition any_size :: nat where
  "any_size = 2 ^ 32"

definition lc_ok :: "lc_msg cbor \<Rightarrow> baseboard \<Rightarrow> u64 \<Rightarrow> lc_conn \<times> u8 list \<Rightarrow> bool" where
  "lc_ok C peer_id unique_id st =
     (let self = fst st in
      lc_peer_id self = peer_id \<and> lc_unique_id self = unique_id \<and>
      length (lc_read_buf self) = LC_CONN_BUF_SIZE \<and> lc_total_read self \<le> LC_CONN_BUF_SIZE \<and>
      unframe C any_size (lc_pending st) = ([], More (lc_pending st)) \<and>
      length (lc_write_queue self) \<le> LC_MSG_WRITE_QUEUE_CAPACITY)"

section \<open>Reading\<close>

lemma read_frame_size_less: "read_frame_size bs < any_size"
  using unsigned_less [of "u32_from_be_bytes bs", where 'a = nat] by (simp add: read_frame_size_def any_size_def)

lemma unframe_any_size:
  "unframe C any_size bs =
     (if length bs < FRAME_HEADER_SIZE then ([], More bs)
      else let size = read_frame_size (take FRAME_HEADER_SIZE bs);
               frame_end = size + FRAME_HEADER_SIZE in
        if frame_end > length bs then ([], More bs)
        else (case from_reader C (take size (drop FRAME_HEADER_SIZE bs)) of
                None \<Rightarrow> ([], Malformed)
              | Some m \<Rightarrow> (let (ms, rest) = unframe C any_size (drop frame_end bs) in (m # ms, rest))))"
  using read_frame_size_less [of "take FRAME_HEADER_SIZE bs"] by (simp add: unframe.simps [of C any_size bs] Let_def)

definition lc_stop :: "lc_conn \<Rightarrow> stop \<Rightarrow> lc_result" where
  "lc_stop self s = (case s of More _ \<Rightarrow> ([], Ok ()) | _ \<Rightarrow> lc_close self)"

text \<open>The cases of the loop, with the buffer as the sequence of bytes it holds.\<close>

lemma lc_read_loop_unfold:
  fixes self defines "bs \<equiv> take (lc_total_read self) (lc_read_buf self)"
  assumes "lc_total_read self \<le> length (lc_read_buf self)"
  shows "lc_read_loop C now self =
    (if length bs < FRAME_HEADER_SIZE then Done (self, [], Ok ())
     else let size = read_frame_size (take FRAME_HEADER_SIZE bs); frame_end = size + FRAME_HEADER_SIZE in
       if frame_end > length bs then Done (self, [], Ok ())
       else (case from_reader C (take size (drop FRAME_HEADER_SIZE bs)) of
               None \<Rightarrow> Done (self, lc_close self)
             | Some msg \<Rightarrow>
                 (let rest = drop frame_end bs in
                  obind (lc_read_loop C now
                    (self\<lparr>lc_read_buf := rest @ drop (length rest) (lc_read_buf self), lc_total_read := length rest,
                          lc_last_received_msg := now\<rparr>))
                    (\<lambda>(self', out, res). Done (self', lc_to_main (lc_peer_id self) (lc_unique_id self) msg @ out, res)))))"
proof -
  have len: "length bs = lc_total_read self" using assms by simp
  have hd: "FRAME_HEADER_SIZE \<le> lc_total_read self \<Longrightarrow> slice_of 0 FRAME_HEADER_SIZE (lc_read_buf self) = Done (take FRAME_HEADER_SIZE bs)"
    using slice_of_take [of 0 FRAME_HEADER_SIZE, OF _ _ assms(2), folded bs_def] by simp
  let ?size = "read_frame_size (take FRAME_HEADER_SIZE bs)"
  show ?thesis
  proof (cases "lc_total_read self < FRAME_HEADER_SIZE \<or> ?size + FRAME_HEADER_SIZE > lc_total_read self")
    case True
    with hd show ?thesis by (auto simp: lc_read_loop.simps [of C now self] len Let_def)
  next
    case False
    then have "slice_of FRAME_HEADER_SIZE (?size + FRAME_HEADER_SIZE) (lc_read_buf self) = Done (take ?size (drop FRAME_HEADER_SIZE bs))"
      using slice_of_take [of FRAME_HEADER_SIZE "?size + FRAME_HEADER_SIZE", OF _ _ assms(2), folded bs_def] by simp
    moreover have "copy_within (?size + FRAME_HEADER_SIZE) (lc_total_read self) (lc_read_buf self) =
      Done (drop (?size + FRAME_HEADER_SIZE) bs @ drop (length (drop (?size + FRAME_HEADER_SIZE) bs)) (lc_read_buf self))"
      using copy_within_take [of "?size + FRAME_HEADER_SIZE", OF _ assms(2), folded bs_def] False by simp
    ultimately show ?thesis
      using False hd by (cases "from_reader C (take ?size (drop FRAME_HEADER_SIZE bs))")
        (simp_all add: lc_read_loop.simps [of C now self] len Let_def)
  qed
qed

lemma lc_read_loop_spec:
  assumes "lc_total_read self \<le> length (lc_read_buf self)"
    and "unframe C any_size (take (lc_total_read self) (lc_read_buf self)) = (ms, s)"
  obtains b n l where "lc_read_loop C now self =
      Done (self\<lparr>lc_read_buf := b, lc_total_read := n, lc_last_received_msg := l\<rparr>,
        concat (map (lc_to_main (lc_peer_id self) (lc_unique_id self)) ms) @ fst (lc_stop self s), snd (lc_stop self s))"
    "length b = length (lc_read_buf self)" "n \<le> lc_total_read self" "\<forall>rest. s = More rest \<longrightarrow> take n b = rest"
  using assms
proof (induction "lc_total_read self" arbitrary: self ms thesis rule: less_induct)
  case less
  define bs where "bs = take (lc_total_read self) (lc_read_buf self)"
  let ?size = "read_frame_size (take FRAME_HEADER_SIZE bs)"
  let ?body = "from_reader C (take ?size (drop FRAME_HEADER_SIZE bs))"
  note unf = lc_read_loop_unfold [OF less.prems(2), of C now, folded bs_def]
  note spec = less.prems(3) [folded bs_def, unfolded unframe_any_size [of C bs]]
  consider (stop) "length bs < FRAME_HEADER_SIZE \<or> ?size + FRAME_HEADER_SIZE > length bs \<or> ?body = None"
    | (good) msg where "\<not> length bs < FRAME_HEADER_SIZE" "\<not> ?size + FRAME_HEADER_SIZE > length bs" "?body = Some msg"
    by (cases ?body) auto
  then show ?case
  proof cases
    case stop
    then have "ms = []" "lc_read_loop C now self = Done (self, lc_stop self s)" "\<forall>rest. s = More rest \<longrightarrow> bs = rest"
      using spec unf by (auto simp: Let_def lc_stop_def split: if_splits option.splits)
    then show ?thesis
      by (intro less.prems(1) [where b = "lc_read_buf self" and n = "lc_total_read self" and l = "lc_last_received_msg self"]) (simp_all add: bs_def)
  next
    case good
    define rest where "rest = drop (?size + FRAME_HEADER_SIZE) bs"
    obtain ms' where ms': "unframe C any_size rest = (ms', s)" "ms = msg # ms'"
      using good spec by (auto simp: Let_def rest_def split: prod.splits)
    have len: "length rest < lc_total_read self" "length rest \<le> length (lc_read_buf self)"
      using good less.prems(2) by (auto simp: FRAME_HEADER_SIZE_def rest_def bs_def)
    let ?self = "self\<lparr>lc_read_buf := rest @ drop (length rest) (lc_read_buf self), lc_total_read := length rest,
      lc_last_received_msg := now\<rparr>"
    let ?fwd = "lc_to_main (lc_peer_id self) (lc_unique_id self)"
    have stop: "lc_stop ?self s = lc_stop self s" by (simp add: lc_stop_def lc_close_def split: stop.split)
    obtain b n l where rec: "lc_read_loop C now ?self =
        Done (?self\<lparr>lc_read_buf := b, lc_total_read := n, lc_last_received_msg := l\<rparr>,
          concat (map (lc_to_main (lc_peer_id ?self) (lc_unique_id ?self)) ms') @ fst (lc_stop ?self s), snd (lc_stop ?self s))"
      "length b = length (lc_read_buf ?self)" "n \<le> lc_total_read ?self" "\<forall>rest. s = More rest \<longrightarrow> take n b = rest"
      by (rule less.hyps [of ?self ms']) (use ms'(1) len in simp_all)
    have "lc_read_loop C now self =
      obind (lc_read_loop C now ?self) (\<lambda>(self', out, res). Done (self', ?fwd msg @ out, res))"
      unfolding unf rest_def using good by (simp only: Let_def if_False option.case)
    then show ?thesis using rec len ms'(2) stop by (intro less.prems(1) [where b = b and n = n and l = l]) simp_all
  qed
qed

section \<open>Rounds\<close>

lemma lc_next_write_reader [simp]:
  "lc_peer_id (lc_next_write self) = lc_peer_id self" "lc_unique_id (lc_next_write self) = lc_unique_id self"
  "lc_read_buf (lc_next_write self) = lc_read_buf self" "lc_total_read (lc_next_write self) = lc_total_read self"
  "lc_last_received_msg (lc_next_write self) = lc_last_received_msg self"
  by (auto simp: lc_next_write_def split: list.split)

lemma lc_next_write_writer:
  "cursor_remaining (lc_current_write (lc_next_write self)) @ concat (lc_write_queue (lc_next_write self)) =
     cursor_remaining (lc_current_write self) @ concat (lc_write_queue self)"
  "length (lc_write_queue (lc_next_write self)) \<le> length (lc_write_queue self)"
  by (auto simp: lc_next_write_def split: list.split)

lemma lc_queue_effects:
  assumes "lc_write_framed_to_queue C self msg = Done (self', out, Ok ())"
  shows "self' = self\<lparr>lc_write_queue := lc_write_queue self @ [frame C msg]\<rparr>" and "out = []"
    and "length (lc_write_queue self) \<noteq> LC_MSG_WRITE_QUEUE_CAPACITY"
  using assms by (auto simp: lc_write_framed_to_queue_def lc_close_def outcome_simps dest: write_framed_eq split: if_splits)

text \<open>The effects of a round without an error, by its event.\<close>

lemma lc_step_cases:
  assumes "lc_step C (self, sock) e ((self', sock'), out)"
  obtains (queue) msg where "lc_accepts e = [msg]" "lc_chunk e = []" "out = []" "sock' = sock"
      "self' = (lc_next_write self)\<lparr>lc_write_queue := lc_write_queue (lc_next_write self) @ [frame C msg]\<rparr>"
      "length (lc_write_queue (lc_next_write self)) \<noteq> LC_MSG_WRITE_QUEUE_CAPACITY"
  | (read) now data where "lc_accepts e = []" "lc_chunk e = data" "sock' = sock"
      "length data \<le> length (drop (lc_total_read self) (lc_read_buf self))"
      "lc_read_loop C now ((lc_next_write self)\<lparr>lc_read_buf := fill_from (lc_total_read self) data (lc_read_buf self),
          lc_total_read := lc_total_read self + length data\<rparr>) = Done (self', out, Ok ())"
  | (wrote) n where "lc_accepts e = []" "lc_chunk e = []" "out = []"
      "sock' = sock @ take n (cursor_remaining (lc_current_write (lc_next_write self)))"
      "self' = (let cur = cursor_advance (lc_current_write (lc_next_write self)) n in
         (lc_next_write self)\<lparr>lc_current_write := (if cursor_remaining cur = [] then cursor_new [] else cur)\<rparr>)"
proof -
  from assms have ok: "lc_event_ok (lc_next_write self) e" and round: "lc_round C (self, sock) e = Done ((self', sock'), out, Ok ())"
    by (simp_all add: lc_step_def)
  show thesis
  proof (cases e)
    case (LcTick now)
    with round have "lc_write_framed_to_queue C (lc_next_write self) LcPing = Done (self', out, Ok ())" "sock' = sock"
      by (auto simp: lc_round_def Let_def obind_eq_Done lc_ping_def lc_close_def split: if_splits)
    with LcTick queue [of LcPing] lc_queue_effects show thesis by simp
  next
    case (LcFromMain msg)
    with round obtain m where "msg = LcMsg m" "lc_write_framed_to_queue C (lc_next_write self) m = Done (self', out, Ok ())"
      "sock' = sock"
      by (cases msg) (auto simp: lc_round_def Let_def obind_eq_Done lc_on_msg_from_main_def)
    with LcFromMain queue [of m] lc_queue_effects show thesis by simp
  next
    case (LcReadReady now res)
    with round obtain data where data: "res = Inr data"
      by (cases res) (auto simp: lc_round_def Let_def lc_on_read_def lc_close_def)
    with LcReadReady round ok show thesis
      by (intro read [of data now]) (auto simp: lc_round_def Let_def lc_on_read_def obind_eq_Done lc_event_ok_def)
  next
    case (LcWritten res)
    then obtain n where n: "res = Inr n"
      using round by (cases res) (auto simp: lc_round_def Let_def lc_check_write_result_def lc_close_def)
    show thesis
      using LcWritten n round
      by (intro wrote [of n]) (auto simp: lc_round_def Let_def lc_check_write_result_def split: if_splits)
  qed
qed

text \<open>The effect of a read on a buffer that waits for the rest of a message.\<close>

lemma lc_read_effects:
  assumes ok: "lc_ok C p u (self, sock)"
    and data: "length data \<le> length (drop (lc_total_read self) (lc_read_buf self))"
    and loop: "lc_read_loop C now ((lc_next_write self)\<lparr>lc_read_buf := fill_from (lc_total_read self) data (lc_read_buf self),
          lc_total_read := lc_total_read self + length data\<rparr>) = Done (self', out, Ok ())"
  shows "lc_ok C p u (self', sock)"
    and "\<exists>ms. unframe C any_size (lc_pending (self, sock) @ data) = (ms, More (lc_pending (self', sock))) \<and>
      out = concat (map (lc_to_main p u) ms)"
    and "lc_outgoing (self', sock) = lc_outgoing (self, sock)"
proof -
  let ?self = "(lc_next_write self)\<lparr>lc_read_buf := fill_from (lc_total_read self) data (lc_read_buf self),
    lc_total_read := lc_total_read self + length data\<rparr>"
  have ids: "lc_peer_id self = p" "lc_unique_id self = u" "length (lc_read_buf self) = LC_CONN_BUF_SIZE"
    "length (lc_write_queue self) \<le> LC_MSG_WRITE_QUEUE_CAPACITY"
    and fits: "lc_total_read self + length data \<le> length (lc_read_buf self)"
    using ok data by (auto simp: lc_ok_def)
  obtain ms s where ms: "unframe C any_size (lc_pending (self, sock) @ data) = (ms, s)" by fastforce
  obtain b n l where s: "lc_read_loop C now ?self = Done (?self\<lparr>lc_read_buf := b, lc_total_read := n, lc_last_received_msg := l\<rparr>,
      concat (map (lc_to_main (lc_peer_id ?self) (lc_unique_id ?self)) ms) @ fst (lc_stop ?self s), snd (lc_stop ?self s))"
    "length b = length (lc_read_buf ?self)" "n \<le> lc_total_read ?self" "\<forall>rest. s = More rest \<longrightarrow> take n b = rest"
    by (rule lc_read_loop_spec [of ?self C ms s now]) (use ms fits in \<open>simp_all add: lc_pending_def\<close>)
  with loop obtain rest where rest: "s = More rest"
    by (cases s) (auto simp: lc_stop_def lc_close_def)
  have self': "self' = ?self\<lparr>lc_read_buf := b, lc_total_read := n, lc_last_received_msg := l\<rparr>"
    and out: "out = concat (map (lc_to_main p u) ms)"
    using loop s(1) ids by (simp_all add: lc_stop_def rest)
  have len: "length b = LC_CONN_BUF_SIZE" "n \<le> length b" using s(2,3) fits ids(3) by simp_all
  have pend: "lc_pending (self', sock) = rest" using s(4) rest self' by (simp add: lc_pending_def)
  have "unframe C any_size rest = ([], More rest)" by (rule unframe_rest [OF ms [unfolded rest]])
  then show "lc_ok C p u (self', sock)"
    using ids len pend self' lc_next_write_writer(2) [of self] by (simp add: lc_ok_def)
  show "\<exists>ms. unframe C any_size (lc_pending (self, sock) @ data) = (ms, More (lc_pending (self', sock))) \<and>
      out = concat (map (lc_to_main p u) ms)"
    using ms rest pend out by auto
  show "lc_outgoing (self', sock) = lc_outgoing (self, sock)"
    using self' by (simp add: lc_outgoing_def lc_next_write_writer)
qed

lemma lc_step_contract:
  assumes ok: "lc_ok C p u st" and step: "lc_step C st e (st', out)"
  shows "lc_ok C p u st'"
    and "\<exists>ms. unframe C any_size (lc_pending st @ lc_chunk e) = (ms, More (lc_pending st')) \<and> out = concat (map (lc_to_main p u) ms)"
    and "lc_outgoing st' = lc_outgoing st @ frames C (lc_accepts e)"
proof -
  obtain self sock self' sock' where st [simp]: "st = (self, sock)" "st' = (self', sock')" by fastforce
  have idle: "unframe C any_size (lc_pending (self, sock)) = ([], More (lc_pending (self, sock)))"
    using ok by (simp add: lc_ok_def)
  have ok': "lc_ok C p u (lc_next_write self, w)" for w
    using ok lc_next_write_writer(2) [of self] by (simp add: lc_ok_def lc_pending_def)
  have "lc_ok C p u st' \<and> lc_outgoing st' = lc_outgoing st @ frames C (lc_accepts e) \<and>
    (\<exists>ms. unframe C any_size (lc_pending st @ lc_chunk e) = (ms, More (lc_pending st')) \<and> out = concat (map (lc_to_main p u) ms))"
    using step [unfolded st]
  proof (cases rule: lc_step_cases)
    case queue
    then show ?thesis using ok' [of sock] idle
      by (auto simp: lc_ok_def lc_pending_def lc_outgoing_def lc_next_write_writer)
  next
    case (read now data)
    show ?thesis using lc_read_effects [OF ok [unfolded st] read(4,5)] read(1-3) by simp
  next
    case (wrote n)
    then show ?thesis using ok' [of sock] idle lc_next_write_writer(1) [of self]
      by (auto simp: lc_ok_def lc_pending_def lc_outgoing_def Let_def)
  qed
  then show "lc_ok C p u st'" "lc_outgoing st' = lc_outgoing st @ frames C (lc_accepts e)"
    "\<exists>ms. unframe C any_size (lc_pending st @ lc_chunk e) = (ms, More (lc_pending st')) \<and> out = concat (map (lc_to_main p u) ms)"
    by blast+
qed

interpretation lrtq_conn: framed_conn C any_size "lc_step C" "lc_ok C p u" lc_pending lc_outgoing lc_chunk lc_accepts "lc_to_main p u"
  for C p u
  by unfold_locales (rule lc_step_contract; assumption)+

lemma lc_new_ok [simp]:
  "lc_ok C p u (lc_new p u now, [])" "lc_pending (lc_new p u now, []) = []" "lc_outgoing (lc_new p u now, []) = []"
  by (simp_all add: lc_ok_def lc_new_def lc_pending_def lc_outgoing_def unframe_short FRAME_HEADER_SIZE_def)

section \<open>Frames that do not fit\<close>

text \<open>The header of a frame has been read that is longer than the buffer.\<close>

definition stalled :: "lc_conn \<times> u8 list \<Rightarrow> bool" where
  "stalled st =
     (FRAME_HEADER_SIZE \<le> length (lc_pending st) \<and>
      read_frame_size (take FRAME_HEADER_SIZE (lc_pending st)) + FRAME_HEADER_SIZE > LC_CONN_BUF_SIZE)"

lemma lc_pending_length: "lc_ok C p u st \<Longrightarrow> length (lc_pending st) = lc_total_read (fst st)"
  by (auto simp: lc_ok_def lc_pending_def Let_def)

text \<open>Such a connection takes bytes as long as there is space, and nothing else.\<close>

lemma stalled_step:
  assumes ok: "lc_ok C p u st" and stall: "stalled st" and step: "lc_step C st e (st', out)"
  shows "out = [] \<and> stalled st' \<and> lc_last_received_msg (fst st') = lc_last_received_msg (fst st)"
proof -
  obtain self sock self' sock' where st [simp]: "st = (self, sock)" "st' = (self', sock')" by fastforce
  show ?thesis
    using step [unfolded st]
  proof (cases rule: lc_step_cases)
    case (read now data)
    let ?self = "(lc_next_write self)\<lparr>lc_read_buf := fill_from (lc_total_read self) data (lc_read_buf self),
      lc_total_read := lc_total_read self + length data\<rparr>"
    let ?bs = "lc_pending (self, sock) @ data"
    have fits: "lc_total_read self + length data \<le> length (lc_read_buf self)" "length (lc_read_buf self) = LC_CONN_BUF_SIZE"
      using ok read(4) by (auto simp: lc_ok_def)
    then have bs: "take (lc_total_read ?self) (lc_read_buf ?self) = ?bs" by (simp add: lc_pending_def)
    have hd: "take FRAME_HEADER_SIZE ?bs = take FRAME_HEADER_SIZE (lc_pending (self, sock))" "\<not> length ?bs < FRAME_HEADER_SIZE"
      using stall by (simp_all add: stalled_def)
    have "length ?bs < read_frame_size (take FRAME_HEADER_SIZE ?bs) + FRAME_HEADER_SIZE"
      using fits stall lc_pending_length [OF ok] unfolding hd(1) by (simp add: stalled_def)
    then have "lc_read_loop C now ?self = Done (?self, [], Ok ())"
      using lc_read_loop_unfold [of ?self C now, unfolded bs] fits(1) hd(2) by simp
    with read(5) have "self' = ?self" "out = []" by simp_all
    moreover have "lc_pending (?self, sock') = ?bs" unfolding lc_pending_def using bs by (simp add: lc_pending_def)
    ultimately show ?thesis using stall hd by (simp add: stalled_def)
  qed (use stall in \<open>auto simp: stalled_def lc_pending_def Let_def\<close>)
qed

lemma stalled_run:
  assumes "runs (lc_step C) st0 es out st" and "lc_ok C p u st0" and "stalled st0"
  shows "out = [] \<and> stalled st \<and> lc_last_received_msg (fst st) = lc_last_received_msg (fst st0)"
  using assms
proof (induction rule: runs.induct)
  case (runs_step es out s e s' out')
  with stalled_step [OF lrtq_conn.run_ok [OF runs_step(1,4)] _ runs_step(2)] show ?case by simp
qed simp

text \<open>The end of the stream is a read of nothing, and a round in which nothing happens.\<close>

lemma end_of_stream_ignored:
  assumes "lc_ok C p u (self, sock)"
  shows "lc_round C (self, sock) (LcReadReady now (Inr [])) = Done ((lc_next_write self, sock), [], Ok ())"
proof -
  have idle: "unframe C any_size (lc_pending (self, sock)) = ([], More (lc_pending (self, sock)))"
    and len: "lc_total_read self \<le> length (lc_read_buf self)"
    using assms by (simp_all add: lc_ok_def)
  have "lc_read_loop C now (lc_next_write self) = Done (lc_next_write self, [], Ok ())"
    using lc_read_loop_unfold [of "lc_next_write self" C now] unframe_idle [OF idle] len
    by (auto simp: lc_pending_def Let_def)
  moreover have "c\<lparr>lc_read_buf := b\<rparr> = c" if "lc_read_buf c = b" for c :: lc_conn and b
    using that by (cases c) simp
  then have "(lc_next_write self)\<lparr>lc_read_buf := lc_read_buf self\<rparr> = lc_next_write self" by simp
  ultimately show ?thesis by (simp add: lc_round_def Let_def lc_on_read_def fill_from_def)
qed

section \<open>Properties\<close>

lemma lc_read_step:
  assumes ok: "lc_ok C p u st" and data: "length (lc_pending st @ data) \<le> LC_CONN_BUF_SIZE"
    and un: "unframe C any_size (lc_pending st @ data) = (ms, More rest)"
  obtains st' where "lc_step C st (LcReadReady now (Inr data)) (st', concat (map (lc_to_main p u) ms))" "lc_pending st' = rest"
proof -
  obtain self sock where st: "st = (self, sock)" by fastforce
  let ?self = "(lc_next_write self)\<lparr>lc_read_buf := fill_from (lc_total_read self) data (lc_read_buf self),
    lc_total_read := lc_total_read self + length data\<rparr>"
  have ids: "lc_peer_id self = p" "lc_unique_id self = u" "lc_total_read self + length data \<le> length (lc_read_buf self)"
    using ok data lc_pending_length [OF ok] by (auto simp: lc_ok_def st)
  obtain b n l where s: "lc_read_loop C now ?self = Done (?self\<lparr>lc_read_buf := b, lc_total_read := n, lc_last_received_msg := l\<rparr>,
      concat (map (lc_to_main (lc_peer_id ?self) (lc_unique_id ?self)) ms) @ fst (lc_stop ?self (More rest)), snd (lc_stop ?self (More rest)))"
    by (rule lc_read_loop_spec [of ?self C ms "More rest" now]) (use un ids(3) in \<open>simp_all add: lc_pending_def st\<close>)
  have ev: "lc_event_ok (lc_next_write self) (LcReadReady now (Inr data))" using ids(3) by (simp add: lc_event_ok_def)
  have step: "lc_step C st (LcReadReady now (Inr data))
      ((?self\<lparr>lc_read_buf := b, lc_total_read := n, lc_last_received_msg := l\<rparr>, sock), concat (map (lc_to_main p u) ms))"
    using ev s ids by (simp add: lc_step_def lc_round_def lc_on_read_def st lc_stop_def)
  from lc_step_contract(2) [OF ok step] un have "lc_pending (?self\<lparr>lc_read_buf := b, lc_total_read := n, lc_last_received_msg := l\<rparr>, sock) = rest"
    by auto
  with step that show thesis by blast
qed

text \<open>A toy serialisation, and connections that read and write with it.\<close>

definition example_lc_cbor :: "lc_msg cbor" where
  "example_lc_cbor =
     \<lparr>into_writer = (\<lambda>m. if m = LcPing then Some [0] else None),
      from_reader = (\<lambda>bs. if bs = [0] then Some LcPing else None)\<rparr>"

lemma example_lc:
  "into_writer example_lc_cbor LcPing = Some [0]" "body_fits example_lc_cbor any_size LcPing" "cbor_inverts example_lc_cbor"
  by (simp_all add: body_fits_def example_lc_cbor_def cbor_inverts_def any_size_def)

lemma example_lc_frame:
  "frame example_lc_cbor LcPing = [0, 0, 0, 1, 0]" "write_framed example_lc_cbor LcPing = Done (Ok [0, 0, 0, 1, 0])"
  using frame_eq(1,2) [OF example_lc(2,1)] by (simp_all add: u32_to_be_bytes_def be_bytes_numeral)

lemma lc_first_read:
  assumes "unframe C any_size data = (ms, More rest)" and "length data \<le> LC_CONN_BUF_SIZE"
  obtains st where "runs (lc_step C) (lc_new p u start, []) [LcReadReady now (Inr data)] (concat (map (lc_to_main p u) ms)) st"
    "lc_pending st = rest"
proof -
  obtain st where st: "lc_step C (lc_new p u start, []) (LcReadReady now (Inr data)) (st, concat (map (lc_to_main p u) ms))" "lc_pending st = rest"
    by (rule lc_read_step [where C = C and p = p and u = u and data = data and ms = ms and rest = rest and now = now, OF lc_new_ok(1)])
      (simp_all add: assms)
  show thesis by (rule that [OF _ st(2)]) (use runs_step [where step = "lc_step C", OF runs_start st(1)] in simp)
qed

lemma example_lc_sender:
  obtains a where "runs (lc_step example_lc_cbor) (lc_new p u 0, []) [LcTick 1, LcWritten (Inr 5)] [] a" "snd a = [0, 0, 0, 1, 0]"
proof -
  let ?st = "((lc_new p u 0)\<lparr>lc_write_queue := [[0, 0, 0, 1, 0]]\<rparr>, [])"
  have tick: "lc_step example_lc_cbor (lc_new p u 0, []) (LcTick 1) (?st, [])"
    by (simp add: lc_step_def lc_event_ok_def lc_round_def lc_next_write_def lc_new_def lc_ping_def lc_write_framed_to_queue_def
        example_lc_frame LC_MSG_WRITE_QUEUE_CAPACITY_def LC_INACTIVITY_TIMEOUT_def)
  have sent: "lc_step example_lc_cbor ?st (LcWritten (Inr 5)) ((lc_new p u 0, [0, 0, 0, 1, 0]), [])"
    by (simp add: lc_step_def lc_event_ok_def lc_round_def lc_next_write_def lc_new_def lc_check_write_result_def)
  have "runs (lc_step example_lc_cbor) ?st [LcWritten (Inr 5)] ([] @ []) (lc_new p u 0, [0, 0, 0, 1, 0])"
    by (rule runs_Cons [where step = "lc_step example_lc_cbor", OF _ sent]) (rule runs_start)
  from runs_Cons [where step = "lc_step example_lc_cbor", OF this tick] that show thesis by simp
qed

text \<open>
  C25: an LRTQ connection delivers what was sent on it, once and in order, however the bytes are cut. When one end has
  read a part of what the other end has written, it has passed on to its main task a prefix of
  the messages that the other end accepted for sending, the pings among them, and all of them as soon as it has
  read the frames of all of them.
\<close>

theorem lrtq_connection_delivers_in_order:
  assumes "cbor_inverts C"
    and "runs (lc_step C) (lc_new peer_b id_a now_a, []) events_a out_a a"
    and "runs (lc_step C) (lc_new peer_a id_b now_b, []) events_b out_b b"
    and "prefix (concat (map lc_chunk events_b)) (snd a)"
    and "list_all (body_fits C any_size) (concat (map lc_accepts events_a))"
  shows "\<exists>k \<le> length (concat (map lc_accepts events_a)).
    out_b = concat (map (lc_to_main peer_a id_b) (take k (concat (map lc_accepts events_a)))) \<and>
    (k = length (concat (map lc_accepts events_a)) \<longleftrightarrow>
       concat (map lc_chunk events_b) = frames C (concat (map lc_accepts events_a)))"
proof -
  have "lc_outgoing a = frames C (concat (map lc_accepts events_a))"
    using lrtq_conn.run_writes [OF assms(2) lc_new_ok(1)] by simp
  with assms(4) have "prefix (concat (map lc_chunk events_b)) (frames C (concat (map lc_accepts events_a)))"
    by (simp add: lc_outgoing_def) (metis prefix_order.trans prefixI)
  then show ?thesis by (rule lrtq_conn.run_delivers [OF assms(1,5) _ assms(3) lc_new_ok(1,2)])
qed

theorem lrtq_connection_delivers_in_order_witness:
  "\<exists>a b out. runs (lc_step example_lc_cbor) (lc_new (Pc ''b'' ''m'') 1 0, []) [LcTick 1, LcWritten (Inr 5)] [] a \<and>
     runs (lc_step example_lc_cbor) (lc_new (Pc ''a'' ''m'') 2 0, []) [LcReadReady 1 (Inr [0, 0, 0, 1, 0])] out b \<and> out = []"
proof -
  obtain a where a: "runs (lc_step example_lc_cbor) (lc_new (Pc ''b'' ''m'') 1 0, []) [LcTick 1, LcWritten (Inr 5)] [] a" "snd a = [0, 0, 0, 1, 0]"
    by (rule example_lc_sender)
  have "unframe example_lc_cbor any_size [0, 0, 0, 1, 0] = ([LcPing], More [])"
    using unframe_frame [OF example_lc(3,2), of "[]"] by (simp add: example_lc_frame unframe_short FRAME_HEADER_SIZE_def)
  then obtain b where "runs (lc_step example_lc_cbor) (lc_new (Pc ''a'' ''m'') 2 0, []) [LcReadReady 1 (Inr [0, 0, 0, 1, 0])]
      (concat (map (lc_to_main (Pc ''a'' ''m'') 2) [LcPing])) b"
    by (rule lc_first_read) (simp add: LC_CONN_BUF_SIZE_def)
  then obtain out where b: "runs (lc_step example_lc_cbor) (lc_new (Pc ''a'' ''m'') 2 0, []) [LcReadReady 1 (Inr [0, 0, 0, 1, 0])] out b" by blast
  from lrtq_connection_delivers_in_order [OF example_lc(3) a(1) b] a(2) have "out = []"
    by (simp add: example_lc_frame example_lc(2))
  with a(1) b show ?thesis by blast
qed

text \<open>
  An LRTQ connection does not refuse a frame that is longer than its buffer. Once the
  header of such a frame has been read, the connection never delivers a message again and never
  counts as active again: as soon as the buffer is full its reads return no bytes, a round that
  neither changes the connection nor ends it, until the inactivity timeout closes it.
\<close>

theorem oversized_frame_stalls:
  assumes "runs (lc_step C) (lc_new peer_id unique_id start, []) events out st"
    and "FRAME_HEADER_SIZE \<le> length (lc_pending st)"
    and "read_frame_size (take FRAME_HEADER_SIZE (lc_pending st)) + FRAME_HEADER_SIZE > LC_CONN_BUF_SIZE"
    and "runs (lc_step C) st events' out' (self, sock)"
  shows "out' = [] \<and> lc_last_received_msg self = lc_last_received_msg (fst st) \<and>
    (length (lc_pending (self, sock)) = LC_CONN_BUF_SIZE \<longrightarrow>
       lc_event_ok (lc_next_write self) (LcReadReady now (Inr data)) \<longrightarrow> data = []) \<and>
    lc_round C (self, sock) (LcReadReady now (Inr [])) = Done ((lc_next_write self, sock), [], Ok ()) \<and>
    (now - lc_last_received_msg (fst st) > LC_INACTIVITY_TIMEOUT \<longrightarrow>
       lc_round C (self, sock) (LcTick now) =
         Done ((lc_next_write self, sock), [(unique_id, DisconnectedPeer peer_id)], Err LcRetry))"
proof (intro conjI impI)
  have ok: "lc_ok C peer_id unique_id st" by (rule lrtq_conn.run_ok [OF assms(1) lc_new_ok(1)])
  have ok': "lc_ok C peer_id unique_id (self, sock)" by (rule lrtq_conn.run_ok [OF assms(4) ok])
  have "stalled st" using assms(2,3) by (simp add: stalled_def)
  from stalled_run [OF assms(4) ok this]
  show last: "out' = []" "lc_last_received_msg self = lc_last_received_msg (fst st)" by simp_all
  show "data = []" if "length (lc_pending (self, sock)) = LC_CONN_BUF_SIZE"
    "lc_event_ok (lc_next_write self) (LcReadReady now (Inr data))"
    using that ok' lc_pending_length [OF ok'] by (simp add: lc_event_ok_def lc_ok_def)
  show "lc_round C (self, sock) (LcReadReady now (Inr [])) = Done ((lc_next_write self, sock), [], Ok ())"
    by (rule end_of_stream_ignored [OF ok'])
  show "lc_round C (self, sock) (LcTick now) = Done ((lc_next_write self, sock), [(unique_id, DisconnectedPeer peer_id)], Err LcRetry)"
    if "now - lc_last_received_msg (fst st) > LC_INACTIVITY_TIMEOUT"
    using that last(2) ok' by (simp add: lc_round_def lc_ping_def lc_close_def lc_ok_def)
qed

theorem oversized_frame_stalls_witness:
  "\<exists>self sock now. runs (lc_step example_lc_cbor) (lc_new (Pc ''a'' ''m'') 2 0, []) [LcReadReady 1 (Inr [0, 16, 0, 0])] [] (self, sock) \<and>
     lc_round example_lc_cbor (self, sock) (LcTick now) =
       Done ((lc_next_write self, sock), [(2, DisconnectedPeer (Pc ''a'' ''m''))], Err LcRetry)"
proof -
  have size: "read_frame_size [0, 16, 0, 0] = 1048576"
    by (simp add: read_frame_size_def u32_from_be_bytes_def be_nat_def)
  then have "unframe example_lc_cbor any_size [0, 16, 0, 0] = ([], More [0, 16, 0, 0])"
    by (simp add: unframe_any_size FRAME_HEADER_SIZE_def)
  then obtain st where st: "runs (lc_step example_lc_cbor) (lc_new (Pc ''a'' ''m'') 2 0, []) [LcReadReady 1 (Inr [0, 16, 0, 0])]
      (concat (map (lc_to_main (Pc ''a'' ''m'') 2) [])) st" "lc_pending st = [0, 16, 0, 0]"
    by (rule lc_first_read) (simp add: LC_CONN_BUF_SIZE_def)
  obtain self sock where pair: "st = (self, sock)" by fastforce
  let ?now = "10000000001 + lc_last_received_msg self"
  have "runs (lc_step example_lc_cbor) st [] [] (self, sock)" unfolding pair by (rule runs_start)
  from oversized_frame_stalls [OF st(1) _ _ this, where now = ?now] st(2) size pair
  have "lc_round example_lc_cbor (self, sock) (LcTick ?now) =
      Done ((lc_next_write self, sock), [(2, DisconnectedPeer (Pc ''a'' ''m''))], Err LcRetry)"
    by (simp add: FRAME_HEADER_SIZE_def LC_CONN_BUF_SIZE_def LC_INACTIVITY_TIMEOUT_def)
  with st(1) pair show ?thesis by auto
qed

end
