(* ===== verification/Bootstore_Handshake.thy ===== *)
theory Bootstore_Handshake
  imports Bootstore_Conn
begin

text \<open>
  The handshake at the start of an LRTQ connection (\<open>perform_handshake\<close> in
  \<^verbatim>\<open>bootstore/src/schemes/v0/peer_networking.rs\<close>) with the message \<open>Hello\<close> of
  \<^verbatim>\<open>bootstore/src/schemes/mod.rs\<close>, and what the tasks that open and accept connections
  report to the node.
\<close>

section \<open>Definitions\<close>

record hello =
  he_scheme :: u32
  he_version :: u32
  he_reserved :: u64

definition hello_default :: hello where
  "hello_default = \<lparr>he_scheme = 0, he_version = 0, he_reserved = 0\<rparr>"

definition hello_serialized_size :: nat where
  "hello_serialized_size = 16"

definition hello_serialize :: "hello \<Rightarrow> u8 list" where
  "hello_serialize self =
     u32_to_be_bytes (he_scheme self) @ u32_to_be_bytes (he_version self) @ u64_to_be_bytes (he_reserved self)"

datatype buffer_too_small = BufferTooSmall

definition hello_from_bytes :: "u8 list \<Rightarrow> (hello, buffer_too_small) rust_result" where
  "hello_from_bytes bytes =
     (if length bytes < 16 then Err BufferTooSmall
      else Ok \<lparr>he_scheme = u32_from_be_bytes (take 4 bytes), he_version = u32_from_be_bytes (take 4 (drop 4 bytes)),
               he_reserved = u64_from_be_bytes (take 8 (drop 8 bytes))\<rparr>)"

record identify =
  idf_id :: baseboard
  idf_addr :: socket_addr

datatype handshake_error =
  HsSerialization
| HsDeserialization
| HsIo
| HsUnsupportedScheme
| HsUnsupportedVersion
| HsTimeout

definition INITIAL_READ :: nat where
  "INITIAL_READ = hello_serialized_size + FRAME_HEADER_SIZE"

record handshake =
  hs_read_buf :: "u8 list"
  hs_out_cursor :: cursor
  hs_total_read :: nat
  hs_identify_len :: nat
  hs_identify :: "identify option"

text \<open>What is done before the loop of \<open>perform_handshake\<close>.\<close>

definition hs_new :: "identify cbor \<Rightarrow> baseboard \<Rightarrow> socket_addr \<Rightarrow> (handshake, handshake_error) rust_result outcome" where
  "hs_new C local_peer_id local_addr =
     obind (write_framed C \<lparr>idf_id = local_peer_id, idf_addr = local_addr\<rparr>) (\<lambda>r.
       case r of
         Inl _ \<Rightarrow> Done (Err HsSerialization)
       | Inr buf \<Rightarrow>
           Done (Ok \<lparr>hs_read_buf = replicate 128 0, hs_out_cursor = cursor_new (hello_serialize hello_default @ buf),
                     hs_total_read = 0, hs_identify_len = 0, hs_identify = None\<rparr>))"

text \<open>The loop returns when the peer is identified and everything is written.\<close>

definition hs_finished :: "handshake \<Rightarrow> identify option" where
  "hs_finished self = (if \<not> has_remaining (hs_out_cursor self) then hs_identify self else None)"

datatype hs_event =
  HsSleepOver
| HsWritten "(nat, unit) rust_result"
| HsRead "(u8 list, unit) rust_result"

text \<open>
  One turn of the loop, with the event that the \<open>select\<close> takes. The future of the read is created
  in every turn, and with it the range of the buffer.
\<close>

definition hs_turn :: "identify cbor \<Rightarrow> handshake \<Rightarrow> hs_event \<Rightarrow> (handshake \<times> (unit, handshake_error) rust_result) outcome" where
  "hs_turn C self event =
     (let end_pos = INITIAL_READ + hs_identify_len self in
      obind (slice_of (hs_total_read self) end_pos (hs_read_buf self)) (\<lambda>_.
        case event of
          HsSleepOver \<Rightarrow> Done (self, Err HsTimeout)
        | HsWritten (Inl _) \<Rightarrow> Done (self, Err HsIo)
        | HsWritten (Inr n) \<Rightarrow> Done (self\<lparr>hs_out_cursor := cursor_advance (hs_out_cursor self) n\<rparr>, Ok ())
        | HsRead (Inl _) \<Rightarrow> Done (self, Err HsIo)
        | HsRead (Inr data) \<Rightarrow>
            (let self = self\<lparr>hs_read_buf := fill_from (hs_total_read self) data (hs_read_buf self),
                             hs_total_read := hs_total_read self + length data\<rparr> in
             if hs_total_read self < INITIAL_READ then Done (self, Ok ())
             else if hs_total_read self = INITIAL_READ then
               (case hello_from_bytes (take hello_serialized_size (hs_read_buf self)) of
                  Inl _ \<Rightarrow> Panic ''called `Result::unwrap()` on an `Err` value''
                | Inr hello \<Rightarrow>
                    (if he_scheme hello \<noteq> 0 then Done (self, Err HsUnsupportedScheme)
                     else if he_version hello \<noteq> 0 then Done (self, Err HsUnsupportedVersion)
                     else Done (self\<lparr>hs_identify_len :=
                            read_frame_size (take FRAME_HEADER_SIZE (drop hello_serialized_size (hs_read_buf self)))\<rparr>, Ok ())))
             else if hs_total_read self = end_pos then
               obind (slice_of INITIAL_READ end_pos (hs_read_buf self)) (\<lambda>body.
                 case from_reader C body of
                   None \<Rightarrow> Done (self, Err HsDeserialization)
                 | Some identify \<Rightarrow> Done (self\<lparr>hs_identify := Some identify\<rparr>, Ok ()))
             else Done (self, Ok ()))))"

definition hs_event_ok :: "handshake \<Rightarrow> hs_event \<Rightarrow> bool" where
  "hs_event_ok self event =
     (case event of
        HsSleepOver \<Rightarrow> True
      | HsWritten res \<Rightarrow>
          has_remaining (hs_out_cursor self) \<and>
          (case res of Inr n \<Rightarrow> n \<le> length (cursor_remaining (hs_out_cursor self)) | _ \<Rightarrow> True)
      | HsRead res \<Rightarrow>
          hs_identify self = None \<and>
          (case res of Inr data \<Rightarrow> length data \<le> INITIAL_READ + hs_identify_len self - hs_total_read self | _ \<Rightarrow> True))"

definition hs_step :: "identify cbor \<Rightarrow> handshake \<Rightarrow> hs_event \<Rightarrow> handshake \<times> unit list \<Rightarrow> bool" where
  "hs_step C self event r =
     (hs_finished self = None \<and> hs_event_ok self event \<and> snd r = [] \<and> hs_turn C self event = Done (fst r, Ok ()))"

fun hs_chunk :: "hs_event \<Rightarrow> u8 list" where
  "hs_chunk (HsRead (Inr data)) = data"
| "hs_chunk _ = []"

text \<open>
  What a task that opens or accepts connections reports. An attempt to connect ends before or in the
  handshake, or with the identity of the peer, the messages that the established
  connection passed on, and the error with which it ended.
\<close>

datatype attempt =
  ConnectFailed
| HandshakeFailed handshake_error
| Identified identify "(u64 \<times> conn_to_main) list" lc_err

fun initiator_task :: "u64 \<Rightarrow> socket_addr \<Rightarrow> attempt list \<Rightarrow> (u64 \<times> conn_to_main) list" where
  "initiator_task unique_id addr [] = []"
| "initiator_task unique_id addr (ConnectFailed # attempts) = initiator_task unique_id addr attempts"
| "initiator_task unique_id addr (HandshakeFailed _ # attempts) = initiator_task unique_id addr attempts"
| "initiator_task unique_id addr (Identified identify out err # attempts) =
     (unique_id, ConnectedInitiator addr (idf_id identify)) # out @
     (case err of LcRetry \<Rightarrow> initiator_task unique_id addr attempts | LcClosed \<Rightarrow> [])"

fun accepted_task :: "u64 \<Rightarrow> socket_addr \<Rightarrow> socket_addr \<Rightarrow> attempt \<Rightarrow> (u64 \<times> conn_to_main) list" where
  "accepted_task unique_id my_addr client_addr (Identified identify out err) =
     (if idf_addr identify < my_addr then [(unique_id, FailedAcceptorHandshake client_addr)]
      else (unique_id, ConnectedAcceptor client_addr (idf_addr identify) (idf_id identify)) # out)"
| "accepted_task unique_id my_addr client_addr _ = [(unique_id, FailedAcceptorHandshake client_addr)]"

section \<open>Progress of the handshake\<close>

lemma hello_roundtrip [simp]: "hello_from_bytes (hello_serialize h) = Ok h"
  by (simp add: hello_from_bytes_def hello_serialize_def)

lemma hello_serialize_length [simp]: "length (hello_serialize h) = 16"
  by (simp add: hello_serialize_def)

text \<open>The state of the handshake is determined by the bytes that were read.\<close>

definition hs_len :: "u8 list \<Rightarrow> nat" where
  "hs_len bytes = (if length bytes < INITIAL_READ then 0
     else read_frame_size (take FRAME_HEADER_SIZE (drop hello_serialized_size bytes)))"

definition hs_inv :: "identify cbor \<Rightarrow> handshake \<Rightarrow> u8 list \<Rightarrow> bool" where
  "hs_inv C self bytes =
     (length (hs_read_buf self) = 128 \<and> hs_total_read self = length bytes \<and> length bytes \<le> 128 \<and>
      take (length bytes) (hs_read_buf self) = bytes \<and> hs_identify_len self = hs_len bytes \<and>
      length bytes \<le> INITIAL_READ + hs_len bytes \<and>
      hs_identify self = (if INITIAL_READ < length bytes \<and> length bytes = INITIAL_READ + hs_len bytes
        then from_reader C (drop INITIAL_READ bytes) else None))"

lemma hs_new_inv: "hs_new C my_id my_addr = Done (Ok self) \<Longrightarrow> hs_inv C self []"
  by (auto simp: hs_new_def outcome_simps hs_inv_def hs_len_def INITIAL_READ_def hello_serialized_size_def FRAME_HEADER_SIZE_def)

lemma hs_len_append: "INITIAL_READ \<le> length bytes \<Longrightarrow> hs_len (bytes @ data) = hs_len bytes"
  by (simp add: hs_len_def INITIAL_READ_def hello_serialized_size_def FRAME_HEADER_SIZE_def)

text \<open>The buffer after a read.\<close>

lemma hs_fill:
  assumes "length buf = 128" and "take (length bytes) buf = bytes" and "length (bytes @ data) \<le> 128"
  shows "length (fill_from (length bytes) data buf) = 128"
    and "take (length (bytes @ data)) (fill_from (length bytes) data buf) = bytes @ data"
    and "n \<le> length (bytes @ data) \<Longrightarrow> take n (fill_from (length bytes) data buf) = take n (bytes @ data)"
    and "n + m \<le> length (bytes @ data) \<Longrightarrow> take m (drop n (fill_from (length bytes) data buf)) = take m (drop n (bytes @ data))"
proof -
  have eq: "fill_from (length bytes) data buf = (bytes @ data) @ drop (length (bytes @ data)) buf"
    using assms by (simp add: fill_from_def)
  show "length (fill_from (length bytes) data buf) = 128" using assms by simp
  show "take (length (bytes @ data)) (fill_from (length bytes) data buf) = bytes @ data" unfolding eq by simp
  show "take n (fill_from (length bytes) data buf) = take n (bytes @ data)" if "n \<le> length (bytes @ data)"
    unfolding eq using that by (subst take_append) simp
  show "take m (drop n (fill_from (length bytes) data buf)) = take m (drop n (bytes @ data))" if "n + m \<le> length (bytes @ data)"
    unfolding eq using that by (subst drop_append) (simp add: take_append del: drop_append)
qed

lemmas hs_sizes = INITIAL_READ_def hello_serialized_size_def FRAME_HEADER_SIZE_def

text \<open>A turn of the loop that reads: it ends the handshake exactly when it has to refuse what was read.\<close>

definition hs_refuses :: "identify cbor \<Rightarrow> u8 list \<Rightarrow> bool" where
  "hs_refuses C bytes =
     (length bytes = INITIAL_READ \<and> (\<exists>h. hello_from_bytes (take 16 bytes) = Ok h \<and> (he_scheme h \<noteq> 0 \<or> he_version h \<noteq> 0)) \<or>
      INITIAL_READ < length bytes \<and> length bytes = INITIAL_READ + hs_len bytes \<and> from_reader C (drop INITIAL_READ bytes) = None)"

lemma hs_read_turn:
  assumes inv: "hs_inv C self bytes" and none: "hs_identify self = None"
    and data: "length data \<le> INITIAL_READ + hs_identify_len self - hs_total_read self"
    and size: "INITIAL_READ + hs_identify_len self \<le> 128"
  shows "if hs_refuses C (bytes @ data) then \<exists>self' e. hs_turn C self (HsRead (Inr data)) = Done (self', Err e)
    else \<exists>self'. hs_turn C self (HsRead (Inr data)) = Done (self', Ok ()) \<and> hs_inv C self' (bytes @ data)"
proof -
  have i: "length (hs_read_buf self) = 128" "hs_total_read self = length bytes" "take (length bytes) (hs_read_buf self) = bytes"
    "hs_identify_len self = hs_len bytes" "length bytes \<le> INITIAL_READ + hs_len bytes"
    using inv by (simp_all add: hs_inv_def)
  let ?bs = "bytes @ data" and ?buf = "fill_from (length bytes) data (hs_read_buf self)"
  have len: "length ?bs \<le> INITIAL_READ + hs_len bytes" "length ?bs \<le> 128" using data size i by auto
  note fill = hs_fill [OF i(1,3) len(2)]
  have slice: "slice_of (length bytes) (INITIAL_READ + hs_len bytes) (hs_read_buf self) =
      Done (take (INITIAL_READ + hs_len bytes - length bytes) (drop (length bytes) (hs_read_buf self)))"
    using size i by (intro slice_of_eq) simp_all
  note turn = hs_turn_def [of C self "HsRead (Inr data)", unfolded Let_def, simplified i(2,4) slice, simplified]
  consider (short) "length ?bs < INITIAL_READ" | (hello) "length ?bs = INITIAL_READ"
    | (part) "length ?bs > INITIAL_READ" "length ?bs < INITIAL_READ + hs_len bytes"
    | (whole) "length ?bs > INITIAL_READ" "length ?bs = INITIAL_READ + hs_len bytes"
    using len(1) by linarith
  then show ?thesis
  proof cases
    case short
    then have "hs_len ?bs = 0" "hs_len bytes = 0" by (simp_all add: hs_len_def)
    then show ?thesis using short none i fill len turn by (simp add: hs_inv_def hs_refuses_def)
  next
    case hello
    have "hs_len ?bs = read_frame_size (take FRAME_HEADER_SIZE (drop hello_serialized_size ?buf))"
      using hello fill(4) [of hello_serialized_size FRAME_HEADER_SIZE] by (simp add: hs_len_def hs_sizes)
    moreover obtain h where "hello_from_bytes (take 16 ?bs) = Ok h"
      using hello by (cases "hello_from_bytes (take 16 ?bs)") (auto simp: hello_from_bytes_def hs_sizes split: if_splits)
    moreover have "take 16 ?buf = take 16 ?bs" using hello fill(3) [of 16] by (simp add: hs_sizes)
    ultimately show ?thesis using hello none i fill len turn by (auto simp: hs_inv_def hs_refuses_def hello_serialized_size_def)
  next
    case part
    then have "INITIAL_READ \<le> length bytes" by (auto simp: hs_len_def split: if_splits)
    then have "hs_len ?bs = hs_len bytes" by (rule hs_len_append)
    then show ?thesis using part none i fill len turn by (simp add: hs_inv_def hs_refuses_def)
  next
    case whole
    then have "INITIAL_READ \<le> length bytes" by (auto simp: hs_len_def split: if_splits)
    then have "hs_len ?bs = hs_len bytes" by (rule hs_len_append)
    moreover have "slice_of INITIAL_READ (INITIAL_READ + hs_len bytes) ?buf = Done (drop INITIAL_READ ?bs)"
      using whole fill(1) fill(4) [of INITIAL_READ "hs_len bytes"] len(2) by (simp add: slice_of_eq del: drop_append)
    ultimately show ?thesis using whole none i fill len turn
      by (cases "from_reader C (drop INITIAL_READ ?bs)") (simp_all add: hs_inv_def hs_refuses_def del: drop_append)
  qed
qed

lemma hs_turn_range:
  assumes "hs_inv C self bytes"
  shows "INITIAL_READ + hs_len bytes \<le> 128 \<longleftrightarrow> returns (slice_of (hs_total_read self) (INITIAL_READ + hs_identify_len self) (hs_read_buf self))"
    and "INITIAL_READ + hs_len bytes > 128 \<Longrightarrow> hs_turn C self e = Panic ''slice index out of range''"
  using assms by (simp_all add: hs_turn_def slice_of_def hs_inv_def)

lemma hs_written_turn:
  assumes "hs_inv C self bytes" and "INITIAL_READ + hs_len bytes \<le> 128"
  shows "hs_turn C self (HsWritten (Inr n)) = Done (self\<lparr>hs_out_cursor := cursor_advance (hs_out_cursor self) n\<rparr>, Ok ())"
  using assms by (simp add: hs_turn_def slice_of_def hs_inv_def)

lemma hs_step_inv:
  assumes inv: "hs_inv C self bytes" and step: "hs_step C self e (self', out)"
  shows "hs_inv C self' (bytes @ hs_chunk e)"
proof -
  have ok: "hs_event_ok self e" and turn: "hs_turn C self e = Done (self', Ok ())"
    using step by (simp_all add: hs_step_def)
  have size: "INITIAL_READ + hs_len bytes \<le> 128" using turn hs_turn_range(2) [OF inv, of e] by fastforce
  have len: "hs_identify_len self = hs_len bytes" "hs_total_read self = length bytes" using inv by (simp_all add: hs_inv_def)
  show ?thesis
  proof (cases e)
    case HsSleepOver
    with turn show ?thesis by (auto simp: hs_turn_def Let_def obind_eq_Done)
  next
    case (HsWritten res)
    with turn hs_written_turn [OF inv size] inv show ?thesis
      by (cases res) (auto simp: hs_turn_def Let_def obind_eq_Done hs_inv_def)
  next
    case (HsRead res)
    with turn obtain data where data: "res = Inr data" by (cases res) (auto simp: hs_turn_def Let_def obind_eq_Done)
    with HsRead ok have "hs_identify self = None" "length data \<le> INITIAL_READ + hs_identify_len self - hs_total_read self"
      by (simp_all add: hs_event_ok_def)
    from hs_read_turn [OF inv this] size len turn HsRead data show ?thesis by (auto split: if_splits)
  qed
qed

lemma hs_run_inv:
  assumes "runs (hs_step C) self0 es out self" and "hs_new C my_id my_addr = Done (Ok self0)"
  shows "hs_inv C self (concat (map hs_chunk es))"
  using assms
proof (induction rule: runs.induct)
  case runs_start
  then show ?case by (simp add: hs_new_inv)
next
  case (runs_step es out s e s' out')
  then show ?case using hs_step_inv [OF _ runs_step(2)] by simp
qed

text \<open>What the peer sends, and how the state depends on how much of it was read.\<close>

lemma peer_bytes:
  assumes "body_fits C limit ident" and "into_writer C ident = Some body"
    and "prefix bytes (hello_serialize hello_default @ frame C ident)"
  shows "hs_len bytes = (if length bytes < INITIAL_READ then 0 else length body)"
    and "length bytes \<le> INITIAL_READ + length body"
    and "length bytes = INITIAL_READ + length body \<longleftrightarrow> bytes = hello_serialize hello_default @ frame C ident"
    and "INITIAL_READ \<le> length bytes \<Longrightarrow> take 16 bytes = hello_serialize hello_default"
    and "length bytes = INITIAL_READ + length body \<Longrightarrow> drop INITIAL_READ bytes = body"
proof -
  note fr = frame_eq [OF assms(1,2)]
  obtain rest where rest: "hello_serialize hello_default @ frame C ident = bytes @ rest" using assms(3) by (auto simp: prefix_def)
  have len: "length bytes + length rest = INITIAL_READ + length body"
    using arg_cong [OF rest, of length] by (simp add: fr(2) hs_sizes)
  show "length bytes \<le> INITIAL_READ + length body" using len by simp
  show whole: "length bytes = INITIAL_READ + length body \<longleftrightarrow> bytes = hello_serialize hello_default @ frame C ident"
    using len rest by auto
  have part: "take m (drop n bytes) = take m (drop n (hello_serialize hello_default @ frame C ident))" if "n + m \<le> length bytes" for n m
    unfolding rest using that by simp
  show "take 16 bytes = hello_serialize hello_default" if "INITIAL_READ \<le> length bytes"
    using part [of 0 16] that by (simp add: hs_sizes)
  show "hs_len bytes = (if length bytes < INITIAL_READ then 0 else length body)"
    using part [of hello_serialized_size FRAME_HEADER_SIZE] by (simp add: hs_len_def hs_sizes fr)
  show "drop INITIAL_READ bytes = body" if "length bytes = INITIAL_READ + length body"
    using that whole by (simp add: fr(2) hs_sizes)
qed

lemma peer_not_refused:
  assumes "body_fits C limit ident" "into_writer C ident = Some body" "from_reader C body = Some ident"
    and "prefix bytes (hello_serialize hello_default @ frame C ident)"
  shows "\<not> hs_refuses C bytes"
proof -
  note peer = peer_bytes [OF assms(1,2,4)]
  have "hello_from_bytes (take 16 bytes) = Ok hello_default" if "length bytes = INITIAL_READ"
    using peer(4) that by simp
  moreover have "drop INITIAL_READ bytes = body" if "INITIAL_READ < length bytes" "length bytes = INITIAL_READ + hs_len bytes"
    using peer(1,5) that by simp
  ultimately show ?thesis using assms(3) by (auto simp: hs_refuses_def hello_default_def)
qed

section \<open>Properties\<close>

text \<open>A toy serialisation of two identities.\<close>

definition ident_a :: identify where
  "ident_a = \<lparr>idf_id = Pc ''a'' ''m'', idf_addr = (1, 0, 0, 0)\<rparr>"

definition ident_b :: identify where
  "ident_b = \<lparr>idf_id = Pc ''a'' ''m'', idf_addr = (2, 0, 0, 0)\<rparr>"

definition example_id_cbor :: "identify cbor" where
  "example_id_cbor =
     \<lparr>into_writer = (\<lambda>m. if m = ident_a then Some [1] else if m = ident_b then Some [2] else None),
      from_reader = (\<lambda>bs. if bs = [1] then Some ident_a else if bs = [2] then Some ident_b else None)\<rparr>"

lemma example_id:
  "into_writer example_id_cbor ident_a = Some [1]" "into_writer example_id_cbor ident_b = Some [2]" "cbor_inverts example_id_cbor"
  "body_fits example_id_cbor 128 ident_a" "body_fits example_id_cbor 128 ident_b"
  by (auto simp: body_fits_def example_id_cbor_def cbor_inverts_def ident_a_def ident_b_def)

lemma example_id_frames:
  "frame example_id_cbor ident_a = [0, 0, 0, 1, 1]" "frame example_id_cbor ident_b = [0, 0, 0, 1, 2]"
  "write_framed example_id_cbor ident_a = Done (Ok [0, 0, 0, 1, 1])"
  using frame_eq(1,2) [OF example_id(4,1)] frame_eq(1,2) [OF example_id(5,2)]
  by (simp_all add: u32_to_be_bytes_def be_bytes_numeral)

lemma example_hs:
  obtains self where "hs_new example_id_cbor (Pc ''a'' ''m'') (1, 0, 0, 0) = Done (Ok self)" "hs_finished self = None"
    "length (cursor_remaining (hs_out_cursor self)) = 21"
proof -
  have "\<lparr>idf_id = Pc ''a'' ''m'', idf_addr = (1, 0, 0, 0)\<rparr> = ident_a" by (simp add: ident_a_def)
  then show thesis by (intro that [where self = "\<lparr>hs_read_buf = replicate 128 0,
      hs_out_cursor = cursor_new (hello_serialize hello_default @ [0, 0, 0, 1, 1]), hs_total_read = 0, hs_identify_len = 0, hs_identify = None\<rparr>"])
    (simp_all only: hs_new_def example_id_frames(3) obind.simps sum.case hs_finished_def, simp_all)
qed

lemma hs_read_out: "hs_turn C self (HsRead res) = Done (self', r) \<Longrightarrow> hs_out_cursor self' = hs_out_cursor self"
  by (cases res) (auto simp: hs_turn_def Let_def outcome_simps split: if_splits sum.splits)

text \<open>Events of a handshake that are neither a failure of the socket nor the timeout.\<close>

fun hs_progress :: "hs_event \<Rightarrow> bool" where
  "hs_progress (HsWritten (Inr _)) = True"
| "hs_progress (HsRead (Inr _)) = True"
| "hs_progress _ = False"



text \<open>
  C30: a peer, which is not authenticated at this point, can make the handshake panic. When the size that it
  announces for its identity does not fit into the buffer of 128 bytes, the next turn of the loop panics
  whatever happens, before anything more is read.
\<close>

theorem oversized_identify_panics:
  assumes "hs_new C my_id my_addr = Done (Ok self0)" and "runs (hs_step C) self0 events out self"
    and "concat (map hs_chunk events) = hello_serialize hello_default @ u32_to_be_bytes n"
    and "INITIAL_READ + unat n > 128"
  shows "hs_finished self = None \<and> hs_turn C self e = Panic ''slice index out of range''"
proof -
  let ?bytes = "hello_serialize hello_default @ u32_to_be_bytes n"
  have inv: "hs_inv C self ?bytes" using hs_run_inv [OF assms(2,1)] assms(3) by simp
  have "hs_len ?bytes = unat n" by (simp add: hs_len_def hs_sizes read_frame_size_def)
  with inv assms(4) hs_turn_range(2) [OF inv, of e] show ?thesis
    by (simp add: hs_inv_def hs_finished_def hs_sizes)
qed

theorem oversized_identify_panics_witness:
  "\<exists>self0 self. hs_new example_id_cbor (Pc ''a'' ''m'') (1, 0, 0, 0) = Done (Ok self0) \<and>
     runs (hs_step example_id_cbor) self0 [HsRead (Inr (hello_serialize hello_default @ u32_to_be_bytes 109))] [] self \<and>
     hs_turn example_id_cbor self HsSleepOver = Panic ''slice index out of range''"
proof -
  let ?e = "HsRead (Inr (hello_serialize hello_default @ u32_to_be_bytes 109))"
  obtain self0 where new: "hs_new example_id_cbor (Pc ''a'' ''m'') (1, 0, 0, 0) = Done (Ok self0)" "hs_finished self0 = None"
    by (rule example_hs)
  note inv = hs_new_inv [OF new(1)]
  have none: "hs_identify self0 = None" "hs_identify_len self0 = 0" "hs_total_read self0 = 0"
    using inv by (simp_all add: hs_inv_def hs_len_def hs_sizes)
  have "\<not> hs_refuses example_id_cbor (hello_serialize hello_default @ u32_to_be_bytes 109)"
    by (simp add: hs_refuses_def hs_sizes) (simp add: hello_default_def)
  with hs_read_turn [OF inv none(1), of "hello_serialize hello_default @ u32_to_be_bytes 109"] none
  obtain self where turn: "hs_turn example_id_cbor self0 ?e = Done (self, Ok ())" by (auto simp: hs_sizes)
  have "hs_event_ok self0 ?e" using none by (simp add: hs_event_ok_def hs_sizes)
  with turn new(2) have "hs_step example_id_cbor self0 ?e (self, [])" by (simp add: hs_step_def)
  then have run: "runs (hs_step example_id_cbor) self0 [?e] [] self"
    using runs_step [where step = "hs_step example_id_cbor", OF runs_start] by fastforce
  from oversized_identify_panics [OF new(1) run, of 109 HsSleepOver] new(1) run show ?thesis
    by (auto simp: hs_sizes)
qed

end
