(* ===== verification/Spec2Isabelle.thy ===== *)
theory Spec2Isabelle
  imports TQ_Mesh Bootstore_Durability Bootstore_Handshake
begin

text \<open>
  \<^bold>\<open>Verification of the trust quorum of the rack, and of its predecessor LRTQ.\<close>

  The sleds of a rack unlock their storage with keys derived from a \<^emph>\<open>rack secret\<close> that no
  sled has: it is split by secret sharing, a threshold of the sleds has to be present to
  load it, and it is replaced whenever the membership changes. The sources are the crates under
  \<^verbatim>\<open>src/trust-quorum\<close> (the protocol), \<^verbatim>\<open>src/bootstore\<close> (LRTQ, the low rent trust
  quorum, from which a rack is upgraded), \<^verbatim>\<open>src/ledger\<close> (the files both keep their state
  in) and \<^verbatim>\<open>src/sled-hardware/types\<close> (the identities of sleds).

  \<^bold>\<open>How the program is modelled.\<close> Both protocols are written as state machines without I/O
  that a task drives. A method with \<open>&mut self\<close> is a function from the state to the state;
  messages it queues are part of the state, logging is dropped. A result is a sum with the error on
  the left; the type \<open>outcome\<close> of \<open>Rust_Prelude\<close> adds the panic, with its message, and
  divergence, so every \<open>unwrap\<close>, \<open>expect\<close>, assertion, index and division of the sources is a
  branch of the model. Integers have their width; arithmetic wraps as in a release build. Ordered
  maps and sets are sorted association lists and lists (\<open>Ordered_Map\<close>). Random bytes are a stream
  that a function takes from and returns the rest of; random request ids likewise. Code of other crates is
  a parameter: the primitives of \<open>sha3\<close>, \<open>hkdf\<close>, \<open>chacha20poly1305\<close> and \<open>vsss_rs\<close> are
  fields of \<open>crypto_env\<close> and \<open>vsss_env\<close>, serialisation is a pair of functions, the file
  system a map from paths to contents with the paths that fail at the moment. What the code
  relies on is named (\<open>aead_inverts\<close>, \<open>crypto_usable\<close>, \<open>digests_bind\<close>, \<open>aead_tag\<close>,
  \<open>vsss_scheme\<close>, \<open>json_inverts\<close>, \<open>cbor_inverts\<close>) and a hypothesis where it is used; every theorem with hypotheses is
  applied to an example in which they hold.

  \<^bold>\<open>The theories.\<close>

  \<^descr> \<open>Rust_Prelude\<close>, \<open>Ordered_Map\<close>, \<open>Interpolation\<close>: integers, outcomes, containers; polynomials
  over a field.

  \<^descr> \<open>Gf256\<close>, \<open>Gf_Polynomial\<close>, \<open>Shamir\<close> (\<^verbatim>\<open>trust-quorum/gfss/src\<close>): the field with 256
  elements, polynomials over it, and secret sharing. The multiplication is the product modulo
  the field polynomial, the power chain is the inverse; a threshold of shares gives back
  the secret or any other share, and fewer say nothing about the secret.

  \<^descr> \<open>TQ_Types\<close>, \<open>TQ_Crypto\<close>, \<open>TQ_Configuration\<close>, \<open>TQ_Persistent_State\<close>, \<open>TQ_Node_Ctx\<close>,
  \<open>TQ_Validators\<close>, \<open>TQ_Key_Share\<close>, \<open>TQ_Rack_Secret_Loader\<close>, \<open>TQ_Coordinator\<close>, \<open>TQ_Node\<close>
  (\<^verbatim>\<open>trust-quorum/types\<close> and the files of \<^verbatim>\<open>trust-quorum/protocol/src\<close> with the same
  names): the data and one function per method. Encrypted secrets can be decrypted; a new
  configuration has the digests of its shares; exactly these requests of Nexus are
  accepted; a missing share is computed as it was dealt; a threshold of shares loads the
  dealt secret.

  \<^descr> \<open>TQ_Ledger\<close>, \<open>TQ_Node_Safety\<close>, \<open>TQ_Node_Total\<close>: an abstract specification of the persistent state
  as a step relation, and the proof that all entry points of a node refine it; hence nothing is forgotten,
  a commit is prepared, an expunged node is frozen. Every message is
  justified by the persistent state of its sender. No call panics under the named
  conditions, and one way to make the coordinator panic without them.

  \<^descr> \<open>Ledger_Store\<close>, \<open>TQ_Storage\<close>, \<open>TQ_Proxy\<close>, \<open>TQ_Task\<close>, \<open>TQ_Durability\<close> (\<^verbatim>\<open>ledger/src\<close> and
  \<^verbatim>\<open>trust-quorum/src\<close>): the ledger files, the proxying of requests, the task that drives a
  node. The newest readable copy counts; a proxied request does what a local one does and is answered
  once; over any run with failing writes and crashes, whatever the
  node said is backed by its disk.

  \<^descr> \<open>Framing\<close>, \<open>TQ_Established_Conn\<close>, \<open>TQ_Conn_Mgr\<close>, \<open>TQ_Mesh\<close>
  (\<^verbatim>\<open>trust-quorum/src/established_conn.rs\<close>, \<^verbatim>\<open>connection_manager.rs\<close> and the loop of
  \<^verbatim>\<open>task.rs\<close>): messages with a length in front, the task of a connection, the manager of the
  connections, and the node task together with it. \<open>Framing\<close> has the specification \<open>unframe\<close> of a
  reader and the interface \<open>framed_conn\<close> of a connection, which both kinds of connections implement:
  what one end sends the other end delivers in order. The manager never fails, loses no task and has one
  connection per peer; the node and the manager agree on the connected peers unless a handshake
  is reported late; a message goes to the connection of its receiver, backed by the disk.

  \<^descr> \<open>Sled_Hardware\<close>: baseboards and their ids, display and parsing.

  \<^descr> \<open>Bootstore_Pkg\<close>, \<open>Bootstore_Requests\<close>, \<open>Bootstore_Fsm\<close>, \<open>Bootstore_Storage\<close>, \<open>Bootstore_Node\<close>
  (\<^verbatim>\<open>bootstore/src/schemes/v0\<close>: \<^verbatim>\<open>share_pkg.rs\<close>, \<^verbatim>\<open>messages.rs\<close> and
  \<^verbatim>\<open>request_manager.rs\<close>, \<^verbatim>\<open>fsm.rs\<close>, \<^verbatim>\<open>storage.rs\<close>, \<^verbatim>\<open>peer.rs\<close>): LRTQ, from the dealing of the shares to
  the task of a node.

  \<^descr> \<open>Bootstore_Conn\<close>, \<open>Bootstore_Handshake\<close> (\<^verbatim>\<open>peer_networking.rs\<close> and
  \<^verbatim>\<open>bootstore/src/schemes/mod.rs\<close>): the connections of LRTQ and the handshake at their beginning, which
  identifies the peer; what a frame that is too long does to each of them.

  \<^descr> \<open>Bootstore_Fsm_Safety\<close>, \<open>Bootstore_Shares\<close>, \<open>Bootstore_Durability\<close>: the state machine of
  LRTQ can take every call; a majority of the sleds load the dealt secret; each learner gets a
  share of its own, also across crashes; a node panics only when it cannot write its ledgers.

  \<^descr> This theory: what spans the components. A reconfiguration preserves all secrets, from the last
  share of the old configuration to the load of the new one; and the upgrade starts with
  the share that LRTQ saved.

  \<^bold>\<open>Recursion and bounds.\<close> All functions are total. Loops over data are structural or have a
  termination proof by a decreasing length (\<open>chunks\<close>, \<open>chunks_exact\<close>, \<open>rqm_expired_loop\<close>, \<open>unframe\<close>,
  \<open>ec_read_loop\<close>, \<open>lc_read_loop\<close>); the one
  loop that need not end, drawing random bytes until they are not all zero, is a partial function
  with divergence as a value, and its termination is characterised. Generations of ledgers are 64
  bits wide; the durability theorems ask for the next generation not to be zero.

  \<^bold>\<open>Not modelled.\<close> Sockets, TLS, timers and the asynchronous runtime themselves: what they deliver is an
  event of the tasks that wait for it (bytes that were read or written, a timer that fired, a task that
  ended, an identity that sprockets attested), in any order and with any timing, and the ids of tasks are a
  supply without repetition. The handles through which other tasks send requests. Serialisation and schemas,
  which derive macros generate, and erasing secrets from memory. The other
  programs of the repository (Nexus, the sled agent, DNS, metrics, installation, clients and
  tools), which are mostly database queries, HTTP and control of the operating system.
\<close>

section \<open>Reconfiguration and loading\<close>

text \<open>
  C1: a reconfiguration preserves every rack secret. When the coordinator has the threshold of the
  shares of the last committed configuration, it stores the new configuration and its share
  and prepares every member; and any node that afterwards collects the threshold of shares
  of the new configuration loads the new rack secret, the previous one and all those that
  the previous configuration held.
\<close>

theorem reconfiguration_preserves_secrets:
  assumes "collecting E ctx cs old_config collected new_shares d"
    and "dealt_config E d_old old_config old_shares" and "digests_bind E old_shares" and "digests_bind E new_shares"
    and "aead_inverts E" and "crypto_usable E"
    and "holds_secrets E old_config (deal_secret d_old) prior" and "\<not> bt_contains_key prior (cfg_epoch old_config)"
    and "\<not> bt_contains_key (ps_configs (ctx_persistent_state ctx)) (cfg_epoch (cs_configuration cs))"
    and "validate_share E old_config from epoch share" and "\<not> bt_contains_key collected from"
    and "unat (cfg_threshold old_config) \<le> Suc (length collected)"
  shows "\<exists>cs' ctx'. cs_handle_share E cs ctx from epoch share rng = Done (cs', ctx') \<and>
    ps_configuration (ctx_persistent_state ctx') (cfg_epoch (cs_configuration cs)) = Some (cs_configuration cs') \<and>
    bt_get (ps_shares (ctx_persistent_state ctx')) (cfg_epoch (cs_configuration cs)) =
      bt_get new_shares (ctx_platform_id ctx) \<and>
    cs_op cs' = PrepareOp (map (\<lambda>(id, s). (id, (cs_configuration cs', s)))
      (bt_remove (ctx_platform_id ctx) new_shares)) [ctx_platform_id ctx] \<and>
    (\<forall>c from' share' ctx''.
       sc_config c = cs_configuration cs' \<longrightarrow> collected_ok E (sc_config c) (sc_shares c) \<longrightarrow>
       validate_share E (sc_config c) from' (cfg_epoch (sc_config c)) share' \<longrightarrow>
       \<not> bt_contains_key (sc_shares c) from' \<longrightarrow>
       unat (cfg_threshold (sc_config c)) \<le> Suc (length (sc_shares c)) \<longrightarrow>
       sc_handle_share E c ctx'' from' (cfg_epoch (sc_config c)) share' =
         Done (c\<lparr>sc_shares := bt_insert from' share' (sc_shares c)\<rparr>, ctx'',
           Some (bt_insert (cfg_epoch (cs_configuration cs)) (deal_secret d)
             (bt_insert (cfg_epoch old_config) (deal_secret d_old) prior))))"
proof -
  obtain enc cs' ctx' where run: "cs_handle_share E cs ctx from epoch share rng = Done (cs', ctx')"
    "cs_configuration cs' = (cs_configuration cs)\<lparr>cfg_encrypted_rack_secrets := Some enc\<rparr>"
    "cs_op cs' = PrepareOp (map (\<lambda>(id, s). (id, (cs_configuration cs', s)))
        (bt_remove (ctx_platform_id ctx) new_shares)) [ctx_platform_id ctx]"
    "holds_secrets E (cs_configuration cs') (deal_secret d)
        (bt_insert (cfg_epoch old_config) (deal_secret d_old) prior)"
    "ps_configuration (ctx_persistent_state ctx') (cfg_epoch (cs_configuration cs)) = Some (cs_configuration cs')"
    "bt_get (ps_shares (ctx_persistent_state ctx')) (cfg_epoch (cs_configuration cs)) =
        bt_get new_shares (ctx_platform_id ctx)"
    by (rule cs_handle_share_completes [OF assms(1-3,5-12)])
  have "dealt_config E d (cs_configuration cs') new_shares"
    using assms(1) run(2) by (simp add: collecting_def dealt_config_def)
  note loads = sc_handle_share_loads [OF _ assms(4,5)]
  have "sc_handle_share E c ctx'' from' (cfg_epoch (sc_config c)) share' =
         Done (c\<lparr>sc_shares := bt_insert from' share' (sc_shares c)\<rparr>, ctx'',
           Some (bt_insert (cfg_epoch (cs_configuration cs)) (deal_secret d)
             (bt_insert (cfg_epoch old_config) (deal_secret d_old) prior)))"
    if "sc_config c = cs_configuration cs'" "collected_ok E (sc_config c) (sc_shares c)"
      "validate_share E (sc_config c) from' (cfg_epoch (sc_config c)) share'"
      "\<not> bt_contains_key (sc_shares c) from'"
      "unat (cfg_threshold (sc_config c)) \<le> Suc (length (sc_shares c))" for c from' share' ctx''
    using loads [of d c "bt_insert (cfg_epoch old_config) (deal_secret d_old) prior" from'
        "cfg_epoch (sc_config c)" share' ctx''] that run(2,4) \<open>dealt_config E d (cs_configuration cs') new_shares\<close>
    by simp
  with run show ?thesis by blast
qed

theorem reconfiguration_preserves_secrets_witness:
  "\<exists>cs' ctx'. cs_handle_share toy_env example_cs example_ctx sled_b 1 (example_secret_shares ! 1) (\<lambda>_. 7) =
     Done (cs', ctx') \<and>
   ps_configuration (ctx_persistent_state ctx') 2 = Some (cs_configuration cs')"
proof -
  obtain d where d: "dealt_config toy_env d example_config example_shares_map" using example_dealt by blast
  have held: "holds_secrets toy_env example_config (deal_secret d) []"
    by (simp add: holds_secrets_def example_config_def)
  have "\<not> bt_contains_key (ps_configs (ctx_persistent_state example_ctx)) (cfg_epoch (cs_configuration example_cs))"
    by (simp add: example_ctx_def ctx_new_with_persistent_state_def example_cs_def bt_contains_keys)
  from reconfiguration_preserves_secrets [OF example_collecting [OF d] d toy_digests_bind toy_digests_bind toy_env_ok
      toy_env_usable held _ this example_validate [OF example_shares_in_map(2)], of "\<lambda>_. 7"]
  show ?thesis by (auto simp: bt_contains_key_def example_cs_def example_config_def)
qed

section \<open>Upgrade from LRTQ\<close>

text \<open>
  C18: the upgrade from LRTQ starts with the share that the LRTQ node saved last. On a sled that has
  not run the trust quorum before, the trust quorum task starts with the share of the saved
  state, if there is one, as its LRTQ share, and with nothing else; in particular no share when the sled was
  uninitialized or still learning.
\<close>

theorem upgrade_starts_from_saved_share:
  assumes "json_inverts (pfs_ledgerable J)" and "pfs_save J io fs paths g st = Done (fs', g')"
    and "generations_below (pfs_ledgerable J) pfs_generation fs paths g" and "g + 1 \<noteq> 0"
    and "\<exists>p\<in>set paths. io_write_ok io p \<and> io_read_ok io' p"
    and "psl_load (te_state_serde T) io' (w_tq_files w) (tc_tq_ledger_paths cfg) = None"
  shows "ctx_persistent_state (nt_ctx (task_new T io' cfg (load_for_trust_quorum_upgrade J io' fs' paths) w)) =
    ps_empty\<lparr>ps_lrtq := state_common st\<rparr>"
proof -
  have "load_for_trust_quorum_upgrade J io' fs' paths = state_common st"
    using pfs_save_load(1) [OF assms(1-5)] by (simp add: upgrade_disk)
  then show ?thesis
    using assms(6)
    by (simp add: task_new_def ctx_new_with_persistent_state_def ctx_new_def ps_new_lrtq_only_def ps_empty_def
        split: option.split)
qed

theorem upgrade_starts_from_saved_share_witness:
  "\<exists>fs. pfs_save (be_state_serde example_bs_env) all_io (\<lambda>_. None) [''s''] 0 (InitialMember example_pkg []) = Done (fs, 1) \<and>
     ctx_persistent_state (nt_ctx (task_new example_task_env all_io example_task_config
       (load_for_trust_quorum_upgrade (be_state_serde example_bs_env) all_io fs [''s'']) empty_world)) =
     ps_empty\<lparr>ps_lrtq := Some (sp_common example_pkg)\<rparr>"
proof -
  let ?J = "be_state_serde example_bs_env"
  have json: "json_inverts (pfs_ledgerable ?J)" using example_bs_env_ok by (simp add: bs_env_ok_def)
  obtain fs where save: "pfs_save ?J all_io (\<lambda>_. None) [''s''] 0 (InitialMember example_pkg []) = Done (fs, 1)"
    by (simp add: pfs_save_def ledger_commit_eq Let_def ledger_new_with_def pfs_ledgerable_def pfs_generation_bump_def
        example_bs_env_def two_serde_def all_io_def)
  have "generations_below (pfs_ledgerable ?J) pfs_generation (\<lambda>_. None) [''s''] 0" by (simp add: generations_below_def)
  moreover have "psl_load (te_state_serde example_task_env) all_io (w_tq_files empty_world)
      (tc_tq_ledger_paths example_task_config) = None"
    by (simp add: psl_load_def ledger_new_def ledger_read_def readable_def newest_def read_from_def empty_world_def
        example_task_config_def)
  ultimately show ?thesis
    using upgrade_starts_from_saved_share [OF json save, of all_io example_task_env empty_world example_task_config] save
    by (auto simp: all_io_def)
qed

end
